(* ===== verification/Prelude.thy ===== *)
theory Prelude
  imports Main "HOL-Library.AList" "HOL-Library.Multiset" "HOL-Library.Char_ord"
begin

text \<open>
  The prelude of the development: the parts of the TypeScript language and of its
  standard library that every component uses.

  \<^item> \<open>nullable\<close> is the type \<open>T | null | undefined\<close>; a field that is only optional
    (\<open>field?: T\<close>) is an \<open>option\<close>. Truthiness of optional strings is written out.
  \<^item> A \<open>Map\<close> is an association list in insertion order. \<open>js_set\<close> overwrites in place
    or appends, exactly as \<open>Map.prototype.set\<close> does. The locale \<open>ordered_map\<close> is the
    interface the components rely on; the association list is its instance.
  \<^item> \<open>Array.prototype.sort\<close> with a comparator is the stable sort \<open>js_sort\<close>. The locale
    \<open>js_comparator\<close> states when a comparator is consistent; inside it the sorted result
    is a sorted permutation and sorting is stable.
  \<^item> Strings are lists of 8-bit code units; \<open>str_compare\<close> is the code-unit order of
    the operators \<open><\<close> and \<open>>\<close>, \<open>by_then\<close> the idiom \<open>a || b\<close> on comparator results.
\<close>

named_theorems js_map_simps \<open>rewrite rules for the operations on insertion-ordered maps\<close>
named_theorems js_string_simps \<open>rewrite rules for the string operations\<close>

section \<open>Optional values\<close>

datatype 'a nullable = Undefined | Null | Val 'a

fun nullable_opt :: "'a nullable \<Rightarrow> 'a option" where
  "nullable_opt (Val x) = Some x"
| "nullable_opt _ = None"

fun or_null :: "'a nullable \<Rightarrow> 'a nullable" where
  "or_null Undefined = Null"
| "or_null v = v"

fun truthy_str :: "string option \<Rightarrow> bool" where
  "truthy_str (Some s) = (s \<noteq> '''')"
| "truthy_str None = False"

fun opt_or :: "'a option \<Rightarrow> 'a \<Rightarrow> 'a" where
  "opt_or (Some x) _ = x"
| "opt_or None d = d"

fun first_some :: "'a option \<Rightarrow> 'a option \<Rightarrow> 'a option" where
  "first_some (Some x) _ = Some x"
| "first_some None y = y"

datatype json = JNull | JBool bool | JNum int | JStr string
  | JArr "json list" | JObj "(string \<times> json) list"

section \<open>Insertion-ordered maps\<close>

type_synonym ('k, 'v) jsmap = "('k \<times> 'v) list"

definition js_get :: "('k, 'v) jsmap \<Rightarrow> 'k \<Rightarrow> 'v option" where
  "js_get m k = map_of m k"

definition js_set :: "'k \<Rightarrow> 'v \<Rightarrow> ('k, 'v) jsmap \<Rightarrow> ('k, 'v) jsmap" where
  "js_set k v m = AList.update k v m"

definition js_delete :: "'k \<Rightarrow> ('k, 'v) jsmap \<Rightarrow> ('k, 'v) jsmap" where
  "js_delete k m = AList.delete k m"

definition js_has :: "('k, 'v) jsmap \<Rightarrow> 'k \<Rightarrow> bool" where
  "js_has m k = (map_of m k \<noteq> None)"

definition js_keys :: "('k, 'v) jsmap \<Rightarrow> 'k list" where
  "js_keys m = map fst m"

definition js_values :: "('k, 'v) jsmap \<Rightarrow> 'v list" where
  "js_values m = map snd m"

definition js_wf :: "('k, 'v) jsmap \<Rightarrow> bool" where
  "js_wf m = distinct (map fst m)"

locale ordered_map =
  fixes empty :: 'm
    and get :: "'m \<Rightarrow> 'k \<Rightarrow> 'v option"
    and set_at :: "'k \<Rightarrow> 'v \<Rightarrow> 'm \<Rightarrow> 'm"
    and delete :: "'k \<Rightarrow> 'm \<Rightarrow> 'm"
    and keys :: "'m \<Rightarrow> 'k list"
    and inv :: "'m \<Rightarrow> bool"
  assumes inv_empty: "inv empty"
    and keys_empty: "keys empty = []"
    and inv_distinct: "inv m \<Longrightarrow> distinct (keys m)"
    and get_keys: "inv m \<Longrightarrow> (get m k \<noteq> None) = (k \<in> set (keys m))"
    and get_set: "inv m \<Longrightarrow> get (set_at k v m) k' = (if k' = k then Some v else get m k')"
    and keys_set: "inv m \<Longrightarrow> keys (set_at k v m) = (if k \<in> set (keys m) then keys m else keys m @ [k])"
    and get_delete: "inv m \<Longrightarrow> get (delete k m) k' = (if k' = k then None else get m k')"
    and keys_delete: "inv m \<Longrightarrow> keys (delete k m) = filter (\<lambda>x. x \<noteq> k) (keys m)"
    and inv_set: "inv m \<Longrightarrow> inv (set_at k v m)"
    and inv_delete: "inv m \<Longrightarrow> inv (delete k m)"
begin

lemma size_set:
  "inv m \<Longrightarrow> length (keys (set_at k v m)) = (if get m k = None then Suc (length (keys m)) else length (keys m))"
  using get_keys [of m k] by (auto simp: keys_set)

lemma size_delete:
  assumes "inv m"
  shows "length (keys (delete k m)) = (if get m k = None then length (keys m) else length (keys m) - 1)"
proof (cases "get m k = None")
  case True
  then have "k \<notin> set (keys m)" using get_keys [OF assms] by blast
  then have "filter (\<lambda>x. x \<noteq> k) (keys m) = keys m" by (induction "keys m") (auto simp: filter_id_conv)
  with True show ?thesis by (simp add: keys_delete assms)
next
  case False
  then have "k \<in> set (keys m)" using get_keys [OF assms] by blast
  then have "length (remove1 k (keys m)) = length (keys m) - 1" by (simp add: length_remove1)
  moreover have "remove1 k (keys m) = filter (\<lambda>x. x \<noteq> k) (keys m)"
    by (simp add: distinct_remove1_removeAll inv_distinct assms removeAll_filter_not_eq eq_commute)
  ultimately have "length (filter (\<lambda>x. x \<noteq> k) (keys m)) = length (keys m) - 1" by simp
  with False show ?thesis by (auto simp: keys_delete assms)
qed

lemma get_foldl_delete:
  "inv m \<Longrightarrow> get (foldl (\<lambda>acc k. delete k acc) m ks) k' = (if k' \<in> set ks then None else get m k')"
  by (induction ks arbitrary: m) (auto simp: get_delete inv_delete)

lemma inv_foldl_delete:
  "inv m \<Longrightarrow> inv (foldl (\<lambda>acc k. delete k acc) m ks)"
  by (induction ks arbitrary: m) (auto simp: inv_delete)

end

lemma js_keys_set [js_map_simps]:
  "js_keys (js_set k v m) = (if k \<in> set (js_keys m) then js_keys m else js_keys m @ [k])"
  by (simp add: js_keys_def js_set_def update_keys)

lemma js_keys_delete [js_map_simps]:
  "js_keys (js_delete k m) = filter (\<lambda>x. x \<noteq> k) (js_keys m)"
  by (simp add: js_keys_def js_delete_def delete_keys removeAll_filter_not_eq eq_commute)

lemma js_get_set [js_map_simps]:
  "js_get (js_set k v m) k' = (if k' = k then Some v else js_get m k')"
  by (simp add: js_get_def js_set_def update_conv')

lemma js_get_delete [js_map_simps]:
  "js_get (js_delete k m) k' = (if k' = k then None else js_get m k')"
  by (simp add: js_get_def js_delete_def delete_conv')

lemma js_wf_set [simp, intro]: "js_wf m \<Longrightarrow> js_wf (js_set k v m)"
  by (simp add: js_wf_def js_set_def distinct_update)

lemma js_wf_delete [simp, intro]: "js_wf m \<Longrightarrow> js_wf (js_delete k m)"
  by (simp add: js_wf_def js_delete_def distinct_delete)

lemma js_wf_empty [simp]: "js_wf []"
  by (simp add: js_wf_def)

lemma js_get_empty [simp]: "js_get [] k = None"
  by (simp add: js_get_def)

lemma js_get_Cons: "js_get ((k, v) # m) k' = (if k' = k then Some v else js_get m k')"
  by (simp add: js_get_def)

lemma first_some_None [simp]: "first_some x None = x"
  by (cases x) simp_all

lemma js_get_append: "js_get (m @ m') k = first_some (js_get m k) (js_get m' k)"
  by (cases "map_of m k") (auto simp: js_get_def map_add_def)

lemma js_get_keys: "(js_get m k \<noteq> None) = (k \<in> set (js_keys m))"
  by (simp add: js_get_def js_keys_def map_of_eq_None_iff)

lemma js_has_get [js_map_simps]: "js_has m k = (js_get m k \<noteq> None)"
  by (simp add: js_has_def js_get_def)

interpretation jsm: ordered_map "[]" js_get js_set js_delete js_keys js_wf
proof unfold_locales
  show "js_keys ([] :: ('a, 'b) jsmap) = []" by (simp add: js_keys_def)
  show "distinct (js_keys m)" if "js_wf m" for m :: "('a, 'b) jsmap"
    using that by (simp add: js_keys_def js_wf_def)
  show "(js_get m k \<noteq> None) = (k \<in> set (js_keys m))" for m :: "('a, 'b) jsmap" and k
    by (rule js_get_keys)
qed (simp_all add: js_map_simps)

lemma js_get_in: "js_get m k = Some v \<Longrightarrow> (k, v) \<in> set m"
  by (auto simp: js_get_def dest: map_of_SomeD)

lemma js_get_value: "js_get m k = Some v \<Longrightarrow> v \<in> set (js_values m)"
  by (force simp: js_values_def dest: js_get_in)

lemma js_in_get: "js_wf m \<Longrightarrow> (k, v) \<in> set m \<Longrightarrow> js_get m k = Some v"
  by (simp add: js_get_def js_wf_def)

lemma js_values_iff: "js_wf m \<Longrightarrow> v \<in> set (js_values m) \<longleftrightarrow> (\<exists>k. js_get m k = Some v)"
  using js_in_get [of m] js_get_value by (force simp: js_values_def)

lemma distinct_js_values:
  assumes wf: "js_wf m" and one: "\<And>k k' v. js_get m k = Some v \<Longrightarrow> js_get m k' = Some v \<Longrightarrow> k = k'"
  shows "distinct (js_values m)"
proof -
  have "inj_on snd (set m)"
    using js_in_get [OF wf] one by (auto simp: inj_on_def)
  with wf show ?thesis by (auto simp: js_values_def js_wf_def distinct_map)
qed

lemma js_set_in:
  "(k', v') \<in> set (js_set k v m) \<Longrightarrow> (k', v') = (k, v) \<or> (k', v') \<in> set m"
  by (induction m) (auto simp: js_set_def split: if_splits)

lemma js_delete_in: "(k', v') \<in> set (js_delete k m) \<Longrightarrow> (k', v') \<in> set m \<and> k' \<noteq> k"
  by (auto simp: js_delete_def AList.delete_eq)

section \<open>Sets in insertion order\<close>

definition set_add :: "'a \<Rightarrow> 'a list \<Rightarrow> 'a list" where
  "set_add x xs = (if List.member xs x then xs else xs @ [x])"

lemma set_add_set [simp]: "set (set_add x xs) = insert x (set xs)"
  by (auto simp: set_add_def)

lemma distinct_set_add [simp]: "distinct (set_add x xs) = distinct xs"
  by (auto simp: set_add_def)

section \<open>Strings\<close>

fun starts_with :: "string \<Rightarrow> string \<Rightarrow> bool" where
  "starts_with s [] = True"
| "starts_with [] (c # cs) = False"
| "starts_with (x # xs) (c # cs) = (x = c \<and> starts_with xs cs)"

definition ends_with :: "string \<Rightarrow> string \<Rightarrow> bool" where
  "ends_with s t = starts_with (rev s) (rev t)"

fun str_includes :: "string \<Rightarrow> string \<Rightarrow> bool" where
  "str_includes [] t = (t = [])"
| "str_includes (x # xs) t = (starts_with (x # xs) t \<or> str_includes xs t)"

fun split_on :: "char \<Rightarrow> string \<Rightarrow> string list" where
  "split_on c [] = [[]]"
| "split_on c (x # xs) =
    (if x = c then [] # split_on c xs
     else (case split_on c xs of [] \<Rightarrow> [[x]] | y # ys \<Rightarrow> (x # y) # ys))"

fun join_with :: "string \<Rightarrow> string list \<Rightarrow> string" where
  "join_with sep [] = []"
| "join_with sep [x] = x"
| "join_with sep (x # y # ys) = x @ sep @ join_with sep (y # ys)"

definition js_whitespace :: "char \<Rightarrow> bool" where
  "js_whitespace c = (let n = (of_char c :: nat) in 9 \<le> n \<and> n \<le> 13 \<or> n = 32 \<or> n = 160)"

definition js_trim :: "string \<Rightarrow> string" where
  "js_trim s = rev (dropWhile js_whitespace (rev (dropWhile js_whitespace s)))"

definition char_code :: "char \<Rightarrow> nat" where
  "char_code c = of_char c"

definition utf8_length :: "string \<Rightarrow> nat" where
  "utf8_length s = sum_list (map (\<lambda>c. if char_code c < 128 then 1 else 2) s)"

definition is_digit :: "char \<Rightarrow> bool" where
  "is_digit c = (CHR ''0'' \<le> c \<and> c \<le> CHR ''9'')"

definition digit_val :: "char \<Rightarrow> int" where
  "digit_val c = int (of_char c) - 48"

definition digit_char :: "int \<Rightarrow> char" where
  "digit_char n = char_of (nat n + 48)"

definition parse_digits :: "string \<Rightarrow> int" where
  "parse_digits s = foldl (\<lambda>acc c. acc * 10 + digit_val c) 0 s"

fun pad_digits :: "nat \<Rightarrow> int \<Rightarrow> string" where
  "pad_digits 0 n = []"
| "pad_digits (Suc k) n = pad_digits k (n div 10) @ [digit_char (n mod 10)]"

function show_int :: "int \<Rightarrow> string" where
  "show_int n =
    (if n < 0 then CHR ''-'' # show_int (- n)
     else if n < 10 then [digit_char n]
     else show_int (n div 10) @ [digit_char (n mod 10)])"
  by pat_completeness auto
termination show_int
  by (relation "measure (\<lambda>n. if n < 0 then nat (1 - n) else nat n)") auto

declare show_int.simps [simp del]

fun str_compare :: "string \<Rightarrow> string \<Rightarrow> int" where
  "str_compare [] [] = 0"
| "str_compare [] (y # ys) = -1"
| "str_compare (x # xs) [] = 1"
| "str_compare (x # xs) (y # ys) =
    (if x < y then -1 else if y < x then 1 else str_compare xs ys)"

definition by_then :: "int \<Rightarrow> int \<Rightarrow> int" where
  "by_then a b = (if a \<noteq> 0 then a else b)"

lemma starts_with_prefix: "starts_with s t = (\<exists>r. s = t @ r)"
  by (induction s t rule: starts_with.induct) auto

lemma utf8_length_append [simp]: "utf8_length (s @ t) = utf8_length s + utf8_length t"
  by (simp add: utf8_length_def)

lemma utf8_length_Nil [simp]: "utf8_length [] = 0"
  by (simp add: utf8_length_def)

lemma utf8_length_Cons [simp]: "utf8_length (c # s) = (if char_code c < 128 then 1 else 2) + utf8_length s"
  by (simp add: utf8_length_def)

lemma starts_with_append [simp]: "starts_with (t @ r) t"
  by (auto simp: starts_with_prefix)

lemma ends_with_suffix: "ends_with s t = (\<exists>r. s = r @ t)"
proof -
  have "ends_with s t = (\<exists>r. rev s = rev t @ r)" by (simp add: ends_with_def starts_with_prefix)
  also have "\<dots> = (\<exists>r. s = r @ t)" by (metis rev_append rev_rev_ident)
  finally show ?thesis .
qed

lemma str_includes_infix: "str_includes s t = (\<exists>p q. s = p @ t @ q)"
proof (induction s)
  case Nil
  then show ?case by auto
next
  case (Cons x xs)
  have "(\<exists>p q. x # xs = p @ t @ q) = ((\<exists>q. x # xs = t @ q) \<or> (\<exists>p q. xs = p @ t @ q))"
    by (metis Cons_eq_append_conv append_Cons append_Nil)
  with Cons show ?case by (auto simp: starts_with_prefix)
qed

lemma split_on_not_empty [simp]: "split_on c s \<noteq> []"
  by (induction s) (auto split: list.splits)

lemma join_with_char: "join_with sep ((x # y) # ys) = x # join_with sep (y # ys)"
  by (cases ys) auto

lemma join_split: "join_with [c] (split_on c s) = s"
proof (induction s)
  case (Cons x xs)
  then show ?case by (cases "split_on c xs") (auto simp: join_with_char)
qed simp

lemma join_with_append:
  "xs \<noteq> [] \<Longrightarrow> ys \<noteq> [] \<Longrightarrow> join_with sep (xs @ ys) = join_with sep xs @ sep @ join_with sep ys"
proof (induction sep xs rule: join_with.induct)
  case (2 sep x)
  then show ?case by (cases ys) auto
qed auto

lemma split_on_free:
  "p \<in> set (split_on c s) \<Longrightarrow> c \<notin> set p"
proof (induction s arbitrary: p)
  case Nil
  then show ?case by simp
next
  case (Cons x xs)
  then show ?case by (cases "split_on c xs") (auto split: if_splits)
qed

lemma split_on_id: "c \<notin> set s \<Longrightarrow> split_on c s = [s]"
  by (induction s) auto

lemma str_compare_refl [simp]: "str_compare s s = 0"
  by (induction s) auto

lemma str_compare_eq: "str_compare s t = 0 \<longleftrightarrow> s = t"
  by (induction s t rule: str_compare.induct) auto

lemma str_compare_range: "str_compare s t \<in> {-1, 0, 1}"
  by (induction s t rule: str_compare.induct) auto

lemma str_compare_antisym: "str_compare t s = - str_compare s t"
  by (induction s t rule: str_compare.induct) auto

lemma str_compare_trans: "str_compare s t \<le> 0 \<Longrightarrow> str_compare t u \<le> 0 \<Longrightarrow> str_compare s u \<le> 0"
proof (induction s t arbitrary: u rule: str_compare.induct)
  case (4 x xs y ys)
  then show ?case by (cases u) (auto split: if_splits)
next
  case (2 y ys)
  then show ?case by (cases u) auto
qed auto

lemma str_compare_append_left: "str_compare (p @ s) (p @ t) = str_compare s t"
  by (induction p) auto

lemma str_compare_same_length_append:
  "length a = length b \<Longrightarrow> str_compare (a @ s) (b @ t) = by_then (str_compare a b) (str_compare s t)"
  by (induction a b rule: list_induct2) (auto simp: by_then_def)

section \<open>Integer division\<close>

lemma div_bounds: "0 < n \<Longrightarrow> n * (x div n) \<le> x \<and> x < n * (x div n) + (n::int)"
  using pos_mod_sign [of n x] pos_mod_bound [of n x] mult_div_mod_eq [of n x] by linarith

lemma div_eqI: "n * q \<le> x \<Longrightarrow> x < n * q + n \<Longrightarrow> x div n = (q::int)"
  by (rule int_div_pos_eq [of _ _ _ "x - n * q"]) auto

lemma le_div_iff:
  assumes "0 < n"
  shows "a \<le> x div n \<longleftrightarrow> a * n \<le> (x::int)"
proof
  assume "a \<le> x div n"
  then have "a * n \<le> (x div n) * n" using assms by (intro mult_right_mono) auto
  then show "a * n \<le> x" using div_bounds [OF assms, of x] by (metis mult.commute order_trans)
next
  assume "a * n \<le> x"
  then show "a \<le> x div n" using zdiv_mono1 [of "a * n" x n] assms by simp
qed

lemma div_plus_one:
  assumes "0 < (n::int)"
  shows "(x + 1) div n = x div n + (if (x + 1) mod n = 0 then 1 else 0)"
proof -
  have b: "n * (x div n) \<le> x" "x < n * (x div n) + n" using div_bounds [OF assms] by auto
  show ?thesis
  proof (cases "x + 1 = n * (x div n) + n")
    case True
    then have e: "x + 1 = n * (x div n + 1)" by (simp add: algebra_simps)
    show ?thesis using assms unfolding e by simp
  next
    case False
    with b have q: "(x + 1) div n = x div n" by (intro div_eqI) auto
    have "(x + 1) mod n = x + 1 - n * (x div n)"
      using minus_mult_div_eq_mod [of "x + 1" n] q by simp
    then show ?thesis using q b by simp
  qed
qed

section \<open>Comparators and stable sorting\<close>

fun js_insert :: "('a \<Rightarrow> 'a \<Rightarrow> int) \<Rightarrow> 'a \<Rightarrow> 'a list \<Rightarrow> 'a list" where
  "js_insert cmp x [] = [x]"
| "js_insert cmp x (y # ys) = (if cmp x y \<le> 0 then x # y # ys else y # js_insert cmp x ys)"

definition js_sort :: "('a \<Rightarrow> 'a \<Rightarrow> int) \<Rightarrow> 'a list \<Rightarrow> 'a list" where
  "js_sort cmp xs = foldr (js_insert cmp) xs []"

lemma mset_js_insert [simp]: "mset (js_insert cmp x xs) = add_mset x (mset xs)"
  by (induction xs) auto

lemma set_js_insert [simp]: "set (js_insert cmp x xs) = insert x (set xs)"
  by (induction xs) auto

lemma mset_js_sort [simp]: "mset (js_sort cmp xs) = mset xs"
  by (induction xs) (simp_all add: js_sort_def)

lemma set_js_sort [simp]: "set (js_sort cmp xs) = set xs"
  by (induction xs) (simp_all add: js_sort_def)

lemma length_js_sort [simp]: "length (js_sort cmp xs) = length xs"
  by (metis mset_js_sort size_mset)

lemma distinct_js_sort [simp]: "distinct (js_sort cmp xs) = distinct xs"
  by (metis mset_js_sort mset_eq_imp_distinct_iff)

locale js_comparator =
  fixes cmp :: "'a \<Rightarrow> 'a \<Rightarrow> int"
  assumes sgn_antisym: "sgn (cmp b a) = - sgn (cmp a b)"
    and le_trans: "cmp a b \<le> 0 \<Longrightarrow> cmp b c \<le> 0 \<Longrightarrow> cmp a c \<le> 0"
begin

lemma le_total: "cmp a b \<le> 0 \<or> cmp b a \<le> 0"
  using sgn_antisym [of a b] by (auto simp: sgn_if split: if_splits)

lemma lt_le: "\<not> cmp a b \<le> 0 \<Longrightarrow> cmp b a \<le> 0"
  using le_total by blast

lemma le_refl: "cmp a a \<le> 0"
  using le_total by blast

lemma eq_sym: "cmp a b = 0 \<longleftrightarrow> cmp b a = 0"
  using sgn_antisym [of a b] by (auto simp: sgn_if split: if_splits)

lemma eq_le: "cmp a b = 0 \<Longrightarrow> cmp b c \<le> 0 \<longleftrightarrow> cmp a c \<le> 0"
  using le_trans eq_sym by (metis order_refl)

lemma not_le_lt: "\<not> cmp a b \<le> 0 \<longleftrightarrow> cmp b a < 0"
  using sgn_antisym [of a b] by (auto simp: sgn_if split: if_splits)

lemma le_lt_trans: "cmp a b \<le> 0 \<Longrightarrow> cmp b c < 0 \<Longrightarrow> cmp a c < 0"
  using le_trans not_le_lt by meson

lemma lt_le_trans: "cmp a b < 0 \<Longrightarrow> cmp b c \<le> 0 \<Longrightarrow> cmp a c < 0"
  using le_trans not_le_lt by meson

lemma eq_trans: "cmp a b = 0 \<Longrightarrow> cmp b c = 0 \<Longrightarrow> cmp a c = 0"
  using le_trans [of a b c] le_trans [of c b a] eq_sym not_le_lt [of c a]
  by (metis less_le order_refl)

lemma sorted_insert:
  "sorted_wrt (\<lambda>a b. cmp a b \<le> 0) xs \<Longrightarrow> sorted_wrt (\<lambda>a b. cmp a b \<le> 0) (js_insert cmp x xs)"
proof (induction xs)
  case (Cons y ys)
  show ?case
  proof (cases "cmp x y \<le> 0")
    case True
    then show ?thesis using Cons.prems by (auto intro: le_trans)
  next
    case False
    then have "cmp y x \<le> 0" by (rule lt_le)
    then show ?thesis using Cons False by auto
  qed
qed simp

lemma sorted_sort: "sorted_wrt (\<lambda>a b. cmp a b \<le> 0) (js_sort cmp xs)"
  by (induction xs) (simp_all add: js_sort_def sorted_insert)

lemma insert_stable:
  "filter (\<lambda>y. cmp a y = 0) (js_insert cmp x xs) = filter (\<lambda>y. cmp a y = 0) (x # xs)"
proof (induction xs)
  case (Cons y ys)
  have "\<not> cmp x y \<le> 0 \<Longrightarrow> \<not> (cmp a x = 0 \<and> cmp a y = 0)"
    using eq_le eq_sym by (metis order_refl)
  then show ?case using Cons by auto
qed simp

lemma sort_stable: "filter (\<lambda>y. cmp a y = 0) (js_sort cmp xs) = filter (\<lambda>y. cmp a y = 0) xs"
proof (induction xs)
  case (Cons x xs)
  then show ?case using insert_stable [of a x "js_sort cmp xs"] by (simp add: js_sort_def)
qed (simp add: js_sort_def)

lemma sort_head_least:
  assumes "js_sort cmp xs = y # ys" and "x \<in> set xs"
  shows "cmp y x \<le> 0"
proof -
  have "x \<in> set (y # ys)" using assms set_js_sort [of cmp xs] by metis
  then show ?thesis using sorted_sort [of xs] assms(1) le_refl by auto
qed

lemma insert_head: "\<forall>y \<in> set xs. cmp x y \<le> 0 \<Longrightarrow> js_insert cmp x xs = x # xs"
  by (cases xs) auto

lemma sort_sorted: "sorted_wrt (\<lambda>a b. cmp a b \<le> 0) xs \<Longrightarrow> js_sort cmp xs = xs"
  by (induction xs) (auto simp: js_sort_def insert_head)

lemma sort_idem: "js_sort cmp (js_sort cmp xs) = js_sort cmp xs"
  by (rule sort_sorted [OF sorted_sort])

end

lemma by_then_le: "by_then a b \<le> 0 \<longleftrightarrow> a < 0 \<or> a = 0 \<and> b \<le> 0"
  by (auto simp: by_then_def)

lemma js_comparator_by_then:
  assumes f: "js_comparator f" and g: "js_comparator g"
  shows "js_comparator (\<lambda>a b. by_then (f a b) (g a b))"
proof -
  note f_anti = js_comparator.sgn_antisym [OF f] and g_anti = js_comparator.sgn_antisym [OF g]
  show ?thesis
  proof
    show "sgn (by_then (f b a) (g b a)) = - sgn (by_then (f a b) (g a b))" for a b
      using f_anti [of a b] f_anti [of b a] g_anti [of a b]
      by (auto simp: by_then_def sgn_if split: if_splits)
  next
    fix a b c
    assume ab: "by_then (f a b) (g a b) \<le> 0" and bc: "by_then (f b c) (g b c) \<le> 0"
    show "by_then (f a c) (g a c) \<le> 0"
    proof (cases "f a b = 0 \<and> f b c = 0")
      case True
      then have "f a c = 0" using js_comparator.eq_trans [OF f] by blast
      then show ?thesis using True ab bc js_comparator.le_trans [OF g] by (auto simp: by_then_def)
    next
      case False
      then have "f a b < 0 \<and> f b c \<le> 0 \<or> f a b \<le> 0 \<and> f b c < 0"
        using ab bc by (auto simp: by_then_le)
      then have "f a c < 0"
        using js_comparator.lt_le_trans [OF f] js_comparator.le_lt_trans [OF f] by blast
      then show ?thesis by (simp add: by_then_le)
    qed
  qed
qed

lemma js_comparator_on: "js_comparator f \<Longrightarrow> js_comparator (\<lambda>a b. f (h a) (h b))"
  unfolding js_comparator_def by blast

lemma js_comparator_swap: "js_comparator f \<Longrightarrow> js_comparator (\<lambda>a b. f b a)"
  unfolding js_comparator_def by blast

lemma js_comparator_minus: "js_comparator (\<lambda>a b. (a::int) - b)"
  by unfold_locales (auto simp: sgn_if)

interpretation str_order: js_comparator str_compare
proof
  show "sgn (str_compare b a) = - sgn (str_compare a b)" for a b
    using str_compare_antisym [of b a] by (simp add: sgn_minus)
qed (rule str_compare_trans)

end
