(* ===== verification/JsDate.thy ===== *)
theory JsDate
  imports Prelude
begin

text \<open>
  The ECMAScript \<open>Date\<close> object on UTC: a time value is an \<open>int\<close> of milliseconds since
  1970-01-01T00:00:00Z. The definitions follow the abstract operations of the language
  (\<open>DayFromYear\<close>, \<open>MakeDay\<close>, \<open>MakeTime\<close>, \<open>TimeClip\<close>, the UTC getters, \<open>Date.UTC\<close> with its rule for
  the years 0 to 99, \<open>toISOString\<close> and \<open>Date.parse\<close> of the ISO date-time format with a
  \<open>Z\<close> suffix). An invalid date is \<open>None\<close>: \<open>Date.parse\<close> returns \<open>None\<close> for \<open>NaN\<close>, and
  \<open>to_iso\<close> returns \<open>None\<close> where \<open>toISOString\<close> throws a \<open>RangeError\<close>.

  The lemmas give the calendar: months are the half-open intervals between the starts
  of consecutive months (\<open>month_start_le\<close>), and printing then parsing an instant is the
  identity (\<open>date_parse_to_iso\<close>).
\<close>

section \<open>Calendar arithmetic\<close>

definition ms_per_day :: int where
  "ms_per_day = 86400000"

definition leap :: "int \<Rightarrow> bool" where
  "leap y = (y mod 4 = 0 \<and> (y mod 100 \<noteq> 0 \<or> y mod 400 = 0))"

definition days_from_year :: "int \<Rightarrow> int" where
  "days_from_year y =
    365 * (y - 1970) + (y - 1969) div 4 - (y - 1901) div 100 + (y - 1601) div 400"

definition year_from_day :: "int \<Rightarrow> int" where
  "year_from_day d =
    (let y = 1970 + (400 * d) div 146097
     in if days_from_year (y + 1) \<le> d then y + 1
        else if days_from_year y \<le> d then y
        else y - 1)"

definition days_before_month :: "bool \<Rightarrow> int \<Rightarrow> int" where
  "days_before_month lp m =
    (if m \<le> 0 then 0
     else if m = 1 then 31
     else (if m = 2 then 59 else if m = 3 then 90 else if m = 4 then 120
       else if m = 5 then 151 else if m = 6 then 181 else if m = 7 then 212
       else if m = 8 then 243 else if m = 9 then 273 else if m = 10 then 304 else 334)
       + (if lp then 1 else 0))"

definition month_from_yday :: "bool \<Rightarrow> int \<Rightarrow> int" where
  "month_from_yday lp d =
    (let e = (if lp then d - 1 else d)
     in if d < 31 then 0 else if e < 59 then 1 else if e < 90 then 2 else if e < 120 then 3
        else if e < 151 then 4 else if e < 181 then 5 else if e < 212 then 6
        else if e < 243 then 7 else if e < 273 then 8 else if e < 304 then 9
        else if e < 334 then 10 else 11)"

definition make_day :: "int \<Rightarrow> int \<Rightarrow> int \<Rightarrow> int" where
  "make_day y m d =
    (let ym = y + m div 12; mn = m mod 12
     in days_from_year ym + days_before_month (leap ym) mn + d - 1)"

definition make_time :: "int \<Rightarrow> int \<Rightarrow> int \<Rightarrow> int \<Rightarrow> int" where
  "make_time h m s ms = h * 3600000 + m * 60000 + s * 1000 + ms"

definition make_date :: "int \<Rightarrow> int \<Rightarrow> int" where
  "make_date day time = day * ms_per_day + time"

definition max_time :: int where
  "max_time = 8640000000000000"

definition time_clip :: "int \<Rightarrow> int option" where
  "time_clip t = (if \<bar>t\<bar> \<le> max_time then Some t else None)"

definition day_of :: "int \<Rightarrow> int" where
  "day_of t = t div ms_per_day"

definition getUTCFullYear :: "int \<Rightarrow> int" where
  "getUTCFullYear t = year_from_day (day_of t)"

definition getUTCMonth :: "int \<Rightarrow> int" where
  "getUTCMonth t =
    (let y = getUTCFullYear t in month_from_yday (leap y) (day_of t - days_from_year y))"

definition getUTCDate :: "int \<Rightarrow> int" where
  "getUTCDate t =
    (let y = getUTCFullYear t
     in day_of t - days_from_year y - days_before_month (leap y) (getUTCMonth t) + 1)"

definition getUTCDay :: "int \<Rightarrow> int" where
  "getUTCDay t = (day_of t + 4) mod 7"

definition getUTCHours :: "int \<Rightarrow> int" where
  "getUTCHours t = t div 3600000 mod 24"

definition getUTCMinutes :: "int \<Rightarrow> int" where
  "getUTCMinutes t = t div 60000 mod 60"

definition getUTCSeconds :: "int \<Rightarrow> int" where
  "getUTCSeconds t = t div 1000 mod 60"

definition getUTCMilliseconds :: "int \<Rightarrow> int" where
  "getUTCMilliseconds t = t mod 1000"

definition date_utc :: "int \<Rightarrow> int \<Rightarrow> int \<Rightarrow> int \<Rightarrow> int \<Rightarrow> int \<Rightarrow> int \<Rightarrow> int" where
  "date_utc y m d h mi s ms =
    (let yr = (if 0 \<le> y \<and> y \<le> 99 then 1900 + y else y)
     in make_date (make_day yr m d) (make_time h mi s ms))"

section \<open>Printing and parsing\<close>

definition iso_tail :: "int \<Rightarrow> string" where
  "iso_tail t =
    ''-'' @ pad_digits 2 (getUTCMonth t + 1) @ ''-'' @ pad_digits 2 (getUTCDate t) @ ''T''
    @ pad_digits 2 (getUTCHours t) @ '':'' @ pad_digits 2 (getUTCMinutes t) @ '':''
    @ pad_digits 2 (getUTCSeconds t) @ ''.'' @ pad_digits 3 (getUTCMilliseconds t) @ ''Z''"

definition iso_year :: "int \<Rightarrow> string" where
  "iso_year y =
    (if 0 \<le> y \<and> y \<le> 9999 then pad_digits 4 y
     else if y < 0 then ''-'' @ pad_digits 6 (- y)
     else ''+'' @ pad_digits 6 y)"

definition to_iso :: "int \<Rightarrow> string option" where
  "to_iso t =
    (case time_clip t of None \<Rightarrow> None
     | Some v \<Rightarrow> Some (iso_year (getUTCFullYear v) @ iso_tail v))"

definition shape_char :: "char \<Rightarrow> char \<Rightarrow> bool" where
  "shape_char p c = (if p = CHR ''0'' then is_digit c else c = p)"

definition has_shape :: "string \<Rightarrow> string \<Rightarrow> bool" where
  "has_shape p s = list_all2 shape_char p s"

definition is_iso_tail :: "string \<Rightarrow> bool" where
  "is_iso_tail s = (has_shape ''-00-00T00:00:00Z'' s \<or> has_shape ''-00-00T00:00:00.000Z'' s)"

definition field :: "string \<Rightarrow> nat \<Rightarrow> nat \<Rightarrow> int" where
  "field s i n = parse_digits (take n (drop i s))"

definition parse_iso_tail :: "int \<Rightarrow> string \<Rightarrow> int option" where
  "parse_iso_tail y s =
    (let mo = field s 1 2; d = field s 4 2; h = field s 7 2; mi = field s 10 2;
         sec = field s 13 2; ms = (if length s = 20 then field s 16 3 else 0)
     in if is_iso_tail s \<and> 1 \<le> mo \<and> mo \<le> 12 \<and> 1 \<le> d \<and> d \<le> 31 \<and> mi \<le> 59 \<and> sec \<le> 59
           \<and> (h \<le> 23 \<or> h = 24 \<and> mi = 0 \<and> sec = 0 \<and> ms = 0)
        then time_clip (make_date (make_day y (mo - 1) d) (make_time h mi sec ms))
        else None)"

definition date_parse :: "string \<Rightarrow> int option" where
  "date_parse s =
    (if has_shape ''0000'' (take 4 s) then parse_iso_tail (field s 0 4) (drop 4 s)
     else if has_shape ''+000000'' (take 7 s) then parse_iso_tail (field s 1 6) (drop 7 s)
     else if has_shape ''-000000'' (take 7 s) \<and> field s 1 6 \<noteq> 0
       then parse_iso_tail (- field s 1 6) (drop 7 s)
     else None)"

section \<open>Years\<close>

lemma days_from_year_step:
  "days_from_year (y + 1) = days_from_year y + (if leap y then 366 else 365)"
proof -
  define a b c where "a = (y - 1969) div 4" and "b = (y - 1901) div 100" and "c = (y - 1601) div 400"
  have a: "(y + 1 - 1969) div 4 = a + (if 4 dvd y then 1 else 0)"
    using div_plus_one [of 4 "y - 1969"] dvd_diff_left_iff [of 4 1968 y]
    by (simp add: a_def mod_eq_0_iff_dvd)
  have b: "(y + 1 - 1901) div 100 = b + (if 100 dvd y then 1 else 0)"
    using div_plus_one [of 100 "y - 1901"] dvd_diff_left_iff [of 100 1900 y]
    by (simp add: b_def mod_eq_0_iff_dvd)
  have c: "(y + 1 - 1601) div 400 = c + (if 400 dvd y then 1 else 0)"
    using div_plus_one [of 400 "y - 1601"] dvd_diff_left_iff [of 400 1600 y]
    by (simp add: c_def mod_eq_0_iff_dvd)
  have d: "400 dvd y \<Longrightarrow> 100 dvd y" "100 dvd y \<Longrightarrow> 4 dvd y"
    using dvd_trans [of 100 400 y] dvd_trans [of 4 100 y] by simp_all
  have l: "leap y = (4 dvd y \<and> (\<not> 100 dvd y \<or> 400 dvd y))"
    by (simp only: leap_def mod_eq_0_iff_dvd)
  have "days_from_year (y + 1) = days_from_year y + 365
      + (if 4 dvd y then 1 else 0) - (if 100 dvd y then 1 else 0) + (if 400 dvd y then 1 else 0)"
    unfolding days_from_year_def a b c a_def [symmetric] b_def [symmetric] c_def [symmetric]
    by (simp only: algebra_simps)
  with l d show ?thesis by (cases "4 dvd y"; cases "100 dvd y"; cases "400 dvd y") simp_all
qed

lemma year_from_day_bounds:
  "days_from_year (year_from_day d) \<le> d \<and> d < days_from_year (year_from_day d + 1)"
proof -
  define k where "k = (400 * d) div 146097"
  have k: "146097 * k \<le> 400 * d" "400 * d < 146097 * k + 146097"
    using div_bounds [of 146097 "400 * d"] by (simp_all add: k_def)
  have lo: "days_from_year (1970 + k - 1) \<le> d"
    using k div_bounds [of 4 k] div_bounds [of 100 "k + 68"] div_bounds [of 400 "k + 368"]
    by (simp add: days_from_year_def add.commute)
  have hi: "d < days_from_year (1970 + k + 1 + 1)"
    using k div_bounds [of 4 "k + 3"] div_bounds [of 100 "k + 71"] div_bounds [of 400 "k + 371"]
    by (simp add: days_from_year_def add.commute)
  show ?thesis
    using lo hi unfolding year_from_day_def k_def [symmetric] Let_def by auto
qed

lemma days_from_year_mono: "x \<le> y \<Longrightarrow> days_from_year x \<le> days_from_year y"
proof (induction y rule: int_ge_induct)
  case (step i)
  then show ?case by (simp add: days_from_year_step)
qed simp

lemma year_from_day_unique:
  assumes "days_from_year y \<le> d" and "d < days_from_year (y + 1)"
  shows "year_from_day d = y"
proof (rule ccontr)
  let ?x = "year_from_day d"
  assume "?x \<noteq> y"
  then have "?x + 1 \<le> y \<or> y + 1 \<le> ?x" by linarith
  then show False
    using days_from_year_mono [of "?x + 1" y] days_from_year_mono [of "y + 1" ?x]
      year_from_day_bounds [of d] assms by auto
qed

section \<open>Months\<close>

definition month_day :: "int \<Rightarrow> int" where
  "month_day k = make_day 0 k 1"

definition month_index :: "int \<Rightarrow> int" where
  "month_index t = 12 * getUTCFullYear t + getUTCMonth t"

definition month_start :: "int \<Rightarrow> int" where
  "month_start k = month_day k * ms_per_day"

definition days_in_month :: "int \<Rightarrow> int" where
  "days_in_month k = month_day (k + 1) - month_day k"

lemma month_cases:
  assumes "0 \<le> m" and "m < (12::int)"
  shows "m = 0 \<or> m = 1 \<or> m = 2 \<or> m = 3 \<or> m = 4 \<or> m = 5 \<or> m = 6 \<or> m = 7 \<or> m = 8 \<or> m = 9 \<or> m = 10 \<or> m = 11"
  using assms by presburger

lemma make_day_month_day: "make_day y m d = month_day (12 * y + m) + d - 1"
  by (simp add: make_day_def month_day_def Let_def)

lemma month_day_unfold:
  "0 \<le> m \<Longrightarrow> m < 12 \<Longrightarrow> month_day (12 * y + m) = days_from_year y + days_before_month (leap y) m"
  by (simp add: month_day_def make_day_def Let_def)

lemma month_split:
  obtains y m :: int where "k = 12 * y + m" and "0 \<le> m" and "m < 12"
  by (metis mult_div_mod_eq pos_mod_bound pos_mod_sign zero_less_numeral)

lemma days_in_month_bounds: "28 \<le> days_in_month k \<and> days_in_month k \<le> 31"
proof -
  obtain y m :: int where k: "k = 12 * y + m" and m: "0 \<le> m" "m < 12" by (rule month_split)
  show ?thesis
  proof (cases "m = 11")
    case True
    then have "month_day (k + 1) = days_from_year (y + 1)"
      using month_day_unfold [of 0 "y + 1"] k by (simp add: algebra_simps days_before_month_def)
    then show ?thesis
      using True k month_day_unfold [of 11 y] days_from_year_step [of y]
      by (simp add: days_in_month_def days_before_month_def split: if_splits)
  next
    case False
    then have "month_day (k + 1) = days_from_year y + days_before_month (leap y) (m + 1)"
      using month_day_unfold [of "m + 1" y] k m by (simp add: algebra_simps)
    then show ?thesis
      using month_cases [OF m] month_day_unfold [OF m, of y] k False
      by (auto simp: days_in_month_def days_before_month_def)
  qed
qed

lemma month_day_step: "month_day k + 28 \<le> month_day (k + 1)" "month_day (k + 1) \<le> month_day k + 31"
  using days_in_month_bounds [of k] by (simp_all add: days_in_month_def)

lemma month_day_mono: "i \<le> j \<Longrightarrow> month_day i \<le> month_day j"
proof (induction j rule: int_ge_induct)
  case (step k)
  then show ?case using month_day_step(1) [of k] by linarith
qed simp

lemma month_day_strict: "i < j \<Longrightarrow> month_day i < month_day j"
  using month_day_mono [of "i + 1" j] month_day_step(1) [of i] by linarith

lemma month_from_yday_range: "0 \<le> month_from_yday lp d \<and> month_from_yday lp d < 12"
  by (simp add: month_from_yday_def Let_def)

lemma month_from_yday_bounds:
  assumes "0 \<le> d" and "d < (if lp then 366 else 365)"
  shows "days_before_month lp (month_from_yday lp d) \<le> d
    \<and> d < (if month_from_yday lp d = 11 then (if lp then 366 else 365)
           else days_before_month lp (month_from_yday lp d + 1))"
proof -
  define e where "e = (if lp then d - 1 else d)"
  consider "d < 31" | "31 \<le> d" "e < 59" | "59 \<le> e" "e < 90" | "90 \<le> e" "e < 120"
    | "120 \<le> e" "e < 151" | "151 \<le> e" "e < 181" | "181 \<le> e" "e < 212" | "212 \<le> e" "e < 243"
    | "243 \<le> e" "e < 273" | "273 \<le> e" "e < 304" | "304 \<le> e" "e < 334" | "334 \<le> e"
    unfolding e_def by linarith
  then show ?thesis
    using assms
    by cases (cases lp; simp add: month_from_yday_def days_before_month_def Let_def e_def)+
qed

lemma month_index_bounds: "month_day (month_index t) \<le> day_of t \<and> day_of t < month_day (month_index t + 1)"
proof -
  let ?y = "getUTCFullYear t"
  define e where "e = day_of t - days_from_year ?y"
  define m where "m = getUTCMonth t"
  have y: "days_from_year ?y \<le> day_of t" "day_of t < days_from_year (?y + 1)"
    using year_from_day_bounds [of "day_of t"] by (simp_all add: getUTCFullYear_def)
  have m: "m = month_from_yday (leap ?y) e" by (simp add: m_def getUTCMonth_def e_def Let_def)
  have e: "0 \<le> e" "e < (if leap ?y then 366 else 365)"
    using y days_from_year_step [of ?y] by (simp_all add: e_def)
  have r: "0 \<le> m" "m < 12" using month_from_yday_range m by auto
  have b: "days_before_month (leap ?y) m \<le> e"
    "e < (if m = 11 then (if leap ?y then 366 else 365) else days_before_month (leap ?y) (m + 1))"
    using month_from_yday_bounds [OF e] m by auto
  have idx: "month_index t = 12 * ?y + m" by (simp add: month_index_def m_def)
  have lo: "month_day (month_index t) \<le> day_of t"
    using b(1) month_day_unfold [OF r, of ?y] by (simp add: idx e_def)
  have "day_of t < month_day (month_index t + 1)"
  proof (cases "m = 11")
    case True
    then show ?thesis
      using y(2) month_day_unfold [of 0 "?y + 1"]
      by (simp add: idx algebra_simps days_before_month_def)
  next
    case False
    then show ?thesis
      using b(2) r month_day_unfold [of "m + 1" ?y] by (simp add: idx e_def algebra_simps)
  qed
  with lo show ?thesis by blast
qed

lemma month_day_le: "month_day k \<le> day_of t \<longleftrightarrow> k \<le> month_index t"
  using month_index_bounds [of t] month_day_mono [of k "month_index t"]
    month_day_mono [of "month_index t + 1" k] by linarith

lemma month_start_le: "month_start k \<le> t \<longleftrightarrow> k \<le> month_index t"
proof -
  have "month_start k \<le> t \<longleftrightarrow> month_day k \<le> day_of t"
    by (simp add: month_start_def day_of_def ms_per_day_def le_div_iff)
  then show ?thesis by (simp add: month_day_le)
qed

lemma month_index_unique:
  "month_day k \<le> day_of t \<Longrightarrow> day_of t < month_day (k + 1) \<Longrightarrow> month_index t = k"
  using month_day_le [of k t] month_day_le [of "k + 1" t] by linarith

lemma month_range: "0 \<le> getUTCMonth t" "getUTCMonth t < 12"
  using month_from_yday_range by (auto simp: getUTCMonth_def Let_def)

lemma year_month_index:
  "getUTCFullYear t = month_index t div 12" "getUTCMonth t = month_index t mod 12"
  using month_range [of t] by (auto simp: month_index_def)

lemma date_month_day: "getUTCDate t = day_of t - month_day (month_index t) + 1"
  using month_day_unfold [OF month_range, of "getUTCFullYear t" t]
  by (simp add: getUTCDate_def month_index_def Let_def)

lemma date_range: "1 \<le> getUTCDate t" "getUTCDate t \<le> days_in_month (month_index t)" "getUTCDate t \<le> 31"
  using month_index_bounds [of t] days_in_month_bounds [of "month_index t"]
  by (auto simp: date_month_day days_in_month_def)

lemma month_index_mono: "s \<le> t \<Longrightarrow> month_index s \<le> month_index t"
  using month_start_le [of "month_index s" t] month_start_le [of "month_index s" s] by linarith

lemma year_mono: "s \<le> t \<Longrightarrow> getUTCFullYear s \<le> getUTCFullYear t"
  using month_index_mono [of s t] by (simp add: year_month_index zdiv_mono1)

section \<open>The getters determine the instant\<close>

lemma time_ranges:
  "0 \<le> getUTCHours t" "getUTCHours t \<le> 23" "0 \<le> getUTCMinutes t" "getUTCMinutes t \<le> 59"
  "0 \<le> getUTCSeconds t" "getUTCSeconds t \<le> 59" "0 \<le> getUTCMilliseconds t" "getUTCMilliseconds t \<le> 999"
  using pos_mod_bound [of 24 "t div 3600000"] pos_mod_bound [of 60 "t div 60000"]
    pos_mod_bound [of 60 "t div 1000"] pos_mod_bound [of 1000 t]
  by (simp_all add: getUTCHours_def getUTCMinutes_def getUTCSeconds_def getUTCMilliseconds_def)

lemma nested_div:
  "t div 60000 = t div 1000 div (60::int)" "t div 3600000 = t div 1000 div (60::int) div 60"
  "t div 86400000 = t div 1000 div (60::int) div 60 div 24"
  by (simp_all flip: zdiv_zmult2_eq)

lemma make_time_getters:
  "make_time (getUTCHours t) (getUTCMinutes t) (getUTCSeconds t) (getUTCMilliseconds t) = t mod ms_per_day"
proof -
  have "t = 1000 * (t div 1000) + t mod 1000" for t :: int by simp
  moreover have "s = 60 * (s div 60) + s mod 60" "s = 24 * (s div 24) + s mod 24" for s :: int by simp_all
  moreover have "t mod 86400000 = t - 86400000 * (t div 86400000)"
    by (simp add: minus_mult_div_eq_mod)
  ultimately show ?thesis
    unfolding make_time_def getUTCHours_def getUTCMinutes_def getUTCSeconds_def getUTCMilliseconds_def
      ms_per_day_def nested_div
    by (smt (verit, best))
qed

lemma make_date_getters:
  "make_date (make_day (getUTCFullYear t) (getUTCMonth t) (getUTCDate t))
     (make_time (getUTCHours t) (getUTCMinutes t) (getUTCSeconds t) (getUTCMilliseconds t)) = t"
proof -
  have "make_day (getUTCFullYear t) (getUTCMonth t) (getUTCDate t) = day_of t"
    by (simp add: make_day_month_day date_month_day month_index_def)
  then show ?thesis
    by (simp add: make_date_def make_time_getters day_of_def)
qed

lemma time_of_make_date:
  assumes "0 \<le> h" "h \<le> 23" "0 \<le> mi" "mi \<le> 59" "0 \<le> s" "s \<le> 59" "0 \<le> ms" "ms \<le> 999"
  shows "day_of (make_date day (make_time h mi s ms)) = day"
    and "getUTCHours (make_date day (make_time h mi s ms)) = h"
    and "getUTCMinutes (make_date day (make_time h mi s ms)) = mi"
    and "getUTCSeconds (make_date day (make_time h mi s ms)) = s"
    and "getUTCMilliseconds (make_date day (make_time h mi s ms)) = ms"
proof -
  let ?t = "make_date day (make_time h mi s ms)"
  have d1: "?t div 1000 = 86400 * day + 3600 * h + 60 * mi + s"
    using assms by (intro div_eqI) (auto simp: make_date_def make_time_def ms_per_day_def)
  have d2: "?t div 1000 div 60 = 1440 * day + 60 * h + mi"
    unfolding d1 using assms by (intro div_eqI) auto
  have d3: "?t div 1000 div 60 div 60 = 24 * day + h"
    unfolding d2 using assms by (intro div_eqI) auto
  have d4: "?t div 1000 div 60 div 60 div 24 = day"
    unfolding d3 using assms by (intro div_eqI) auto
  show "day_of ?t = day" by (simp add: day_of_def ms_per_day_def nested_div d4)
  show "getUTCHours ?t = h"
    using minus_mult_div_eq_mod [of "?t div 1000 div 60 div 60" 24] d4 d3
    by (simp add: getUTCHours_def nested_div)
  show "getUTCMinutes ?t = mi"
    using minus_mult_div_eq_mod [of "?t div 1000 div 60" 60] d3 d2
    by (simp add: getUTCMinutes_def nested_div)
  show "getUTCSeconds ?t = s"
    using minus_mult_div_eq_mod [of "?t div 1000" 60] d2 d1 by (simp add: getUTCSeconds_def)
  show "getUTCMilliseconds ?t = ms"
    using minus_mult_div_eq_mod [of ?t 1000] d1
    by (simp add: getUTCMilliseconds_def) (simp add: make_date_def make_time_def ms_per_day_def)
qed

lemma year_bound:
  assumes "\<bar>t\<bar> \<le> max_time"
  shows "\<bar>getUTCFullYear t\<bar> < 1000000"
proof -
  have "- 100000000 \<le> day_of t" "day_of t \<le> 100000000"
    using assms by (auto simp: day_of_def ms_per_day_def max_time_def)
  then show ?thesis
    unfolding getUTCFullYear_def year_from_day_def Let_def by (auto split: if_splits)
qed

section \<open>Printing then parsing\<close>

lemma digit_char_digit: "0 \<le> n \<Longrightarrow> n \<le> 9 \<Longrightarrow> is_digit (digit_char n) \<and> digit_val (digit_char n) = n"
proof -
  assume n: "0 \<le> n" "n \<le> 9"
  then have b: "nat n + 48 < 256" by linarith
  have v: "of_char (digit_char n) = nat n + 48"
    using b by (simp add: digit_char_def)
  show ?thesis using n v by (simp add: is_digit_def digit_val_def less_eq_char_def)
qed

lemma parse_digits_snoc [simp]: "parse_digits (s @ [c]) = parse_digits s * 10 + digit_val c"
  by (simp add: parse_digits_def)

lemma length_pad_digits [simp]: "length (pad_digits k n) = k"
  by (induction k arbitrary: n) auto

lemma parse_pad_digits: "parse_digits (pad_digits k n) = n mod 10 ^ k"
proof (induction k arbitrary: n)
  case 0
  then show ?case by (simp add: parse_digits_def)
next
  case (Suc k)
  have "n mod 10 ^ Suc k = 10 * (n div 10 mod 10 ^ k) + n mod 10"
    by (simp add: zmod_zmult2_eq)
  moreover have "digit_val (digit_char (n mod 10)) = n mod 10"
    by (rule digit_char_digit [THEN conjunct2]) auto
  ultimately show ?case using Suc by simp
qed

lemma shape_pad_digits: "list_all2 shape_char (replicate k (CHR ''0'')) (pad_digits k n)"
proof (induction k arbitrary: n)
  case (Suc k)
  have "is_digit (digit_char (n mod 10))" by (rule digit_char_digit [THEN conjunct1]) auto
  then have "list_all2 shape_char (replicate k (CHR ''0'') @ [CHR ''0'']) (pad_digits k (n div 10) @ [digit_char (n mod 10)])"
    by (intro list_all2_appendI Suc) (simp add: shape_char_def)
  then show ?case by (simp add: replicate_append_same)
qed simp

lemma shape_literal: "c \<noteq> CHR ''0'' \<Longrightarrow> list_all2 shape_char [c] [c]"
  by (simp add: shape_char_def)

lemma iso_tail_shape: "is_iso_tail (iso_tail t)" "length (iso_tail t) = 20"
proof -
  have p2: "list_all2 shape_char ''00'' (pad_digits 2 n)" for n
    using shape_pad_digits [of 2 n] by (simp add: numeral_2_eq_2)
  have p3: "list_all2 shape_char ''000'' (pad_digits 3 n)" for n
    using shape_pad_digits [of 3 n] by (simp add: numeral_3_eq_3)
  have "list_all2 shape_char
     (''-'' @ ''00'' @ ''-'' @ ''00'' @ ''T'' @ ''00'' @ '':'' @ ''00'' @ '':'' @ ''00'' @ ''.'' @ ''000'' @ ''Z'')
     (iso_tail t)"
    unfolding iso_tail_def by (intro list_all2_appendI p2 p3 shape_literal) simp_all
  then show "is_iso_tail (iso_tail t)" by (simp add: is_iso_tail_def has_shape_def)
  show "length (iso_tail t) = 20" by (simp add: iso_tail_def)
qed

lemma parse_two: "0 \<le> n \<Longrightarrow> n < 100 \<Longrightarrow> parse_digits (pad_digits 2 n) = n"
  by (simp add: parse_pad_digits)

lemma iso_tail_fields:
  "field (iso_tail t) (Suc 0) 2 = getUTCMonth t + 1" "field (iso_tail t) 4 2 = getUTCDate t"
  "field (iso_tail t) 7 2 = getUTCHours t" "field (iso_tail t) 10 2 = getUTCMinutes t"
  "field (iso_tail t) 13 2 = getUTCSeconds t" "field (iso_tail t) 16 3 = getUTCMilliseconds t"
  using month_range [of t] date_range [of t] time_ranges [of t]
  by (simp_all add: field_def iso_tail_def parse_pad_digits)

lemma parse_iso_tail_print:
  assumes "\<bar>t\<bar> \<le> max_time"
  shows "parse_iso_tail (getUTCFullYear t) (iso_tail t) = Some t"
  using month_range [of t] date_range [of t] time_ranges [of t] assms
  by (simp add: parse_iso_tail_def Let_def iso_tail_fields iso_tail_shape make_date_getters time_clip_def)

lemma iso_year_parse:
  assumes "\<bar>y\<bar> < 1000000"
  shows "date_parse (iso_year y @ s) = parse_iso_tail y s"
proof -
  have p4: "list_all2 shape_char ''0000'' (pad_digits 4 n)" for n
    using shape_pad_digits [of 4 n] by (simp add: numeral_eq_Suc)
  have p6: "list_all2 shape_char ''000000'' (pad_digits 6 n)" for n
    using shape_pad_digits [of 6 n] by (simp add: numeral_eq_Suc)
  have pm: "has_shape (''-000000'') (''-'' @ pad_digits 6 n)"
    "has_shape (''+000000'') (''+'' @ pad_digits 6 n)" for n
    using p6 by (simp_all add: has_shape_def shape_char_def)
  have no4: "\<not> has_shape ''0000'' (c # r)" if "\<not> is_digit c" for c r
    using that by (auto simp: has_shape_def shape_char_def)
  show ?thesis
  proof (cases "0 \<le> y \<and> y \<le> 9999")
    case True
    then show ?thesis using p4 by (simp add: date_parse_def iso_year_def has_shape_def field_def parse_pad_digits)
  next
    case False
    have nd: "\<not> is_digit (CHR ''-'')" "\<not> is_digit (CHR ''+'')" by code_simp+
    show ?thesis
    proof (cases "y < 0")
      case True
      then show ?thesis using assms pm(1) [of "- y"] no4 [OF nd(1)]
        by (auto simp: date_parse_def iso_year_def field_def parse_pad_digits has_shape_def shape_char_def)
    next
      case False
      with \<open>\<not> (0 \<le> y \<and> y \<le> 9999)\<close> show ?thesis using assms pm(2) [of y] no4 [OF nd(2)]
        by (auto simp: date_parse_def iso_year_def field_def parse_pad_digits)
    qed
  qed
qed

lemma to_iso_some: "\<bar>t\<bar> \<le> max_time \<Longrightarrow> to_iso t = Some (iso_year (getUTCFullYear t) @ iso_tail t)"
  by (simp add: to_iso_def time_clip_def)

lemma to_iso_none: "to_iso t = None \<longleftrightarrow> max_time < \<bar>t\<bar>"
  by (simp add: to_iso_def time_clip_def)

lemma date_parse_to_iso: "to_iso t = Some s \<Longrightarrow> date_parse s = Some t"
  using to_iso_none [of t] to_iso_some [of t] iso_year_parse [OF year_bound] parse_iso_tail_print
  by (cases "\<bar>t\<bar> \<le> max_time") auto

lemma date_parse_bound: "date_parse s = Some t \<Longrightarrow> \<bar>t\<bar> \<le> max_time"
  by (auto simp: date_parse_def parse_iso_tail_def time_clip_def Let_def split: if_splits)

section \<open>The UTC setters\<close>

definition time_in_day :: "int \<Rightarrow> int" where
  "time_in_day t = t mod ms_per_day"

definition setUTCSeconds :: "int \<Rightarrow> int \<Rightarrow> int \<Rightarrow> int" where
  "setUTCSeconds t s ms =
    make_date (day_of t) (make_time (getUTCHours t) (getUTCMinutes t) s ms)"

definition setUTCMinutes :: "int \<Rightarrow> int \<Rightarrow> int" where
  "setUTCMinutes t m =
    make_date (day_of t) (make_time (getUTCHours t) m (getUTCSeconds t) (getUTCMilliseconds t))"

definition setUTCMinutes_full :: "int \<Rightarrow> int \<Rightarrow> int \<Rightarrow> int \<Rightarrow> int" where
  "setUTCMinutes_full t m s ms = make_date (day_of t) (make_time (getUTCHours t) m s ms)"

definition setUTCHours :: "int \<Rightarrow> int \<Rightarrow> int \<Rightarrow> int \<Rightarrow> int \<Rightarrow> int" where
  "setUTCHours t h m s ms = make_date (day_of t) (make_time h m s ms)"

definition setUTCDate :: "int \<Rightarrow> int \<Rightarrow> int" where
  "setUTCDate t d =
    make_date (make_day (getUTCFullYear t) (getUTCMonth t) d) (time_in_day t)"

definition setUTCFullYear :: "int \<Rightarrow> int \<Rightarrow> int \<Rightarrow> int \<Rightarrow> int" where
  "setUTCFullYear t y m d = make_date (make_day y m d) (time_in_day t)"

lemma day_of_make_date: "0 \<le> r \<Longrightarrow> r < ms_per_day \<Longrightarrow> day_of (make_date d r) = d"
  unfolding day_of_def make_date_def ms_per_day_def by (intro div_eqI) auto

lemma time_in_day_range: "0 \<le> time_in_day t" "time_in_day t < ms_per_day"
  by (simp_all add: time_in_day_def ms_per_day_def)

lemma setUTCDate_day: "day_of (setUTCDate t d) = month_day (month_index t) + d - 1"
  by (simp add: setUTCDate_def day_of_make_date time_in_day_range make_day_month_day month_index_def)

lemma setUTCFullYear_day: "day_of (setUTCFullYear t y m 1) = month_day (12 * y + m)"
  by (simp add: setUTCFullYear_def day_of_make_date time_in_day_range make_day_month_day)

lemma midnight: "setUTCHours t 0 0 0 0 = day_of t * ms_per_day"
  by (simp add: setUTCHours_def make_date_def make_time_def)

lemma day_of_mono: "s \<le> t \<Longrightarrow> day_of s \<le> day_of t"
  by (simp add: day_of_def ms_per_day_def zdiv_mono1)

lemma day_of_le: "d \<le> day_of t \<longleftrightarrow> d * ms_per_day \<le> t"
  by (simp add: day_of_def ms_per_day_def le_div_iff)

lemma day_of_midnight [simp]: "day_of (d * ms_per_day) = d"
  by (simp add: day_of_def ms_per_day_def)

lemma month_index_day: "day_of s = day_of t \<Longrightarrow> month_index s = month_index t"
  by (simp add: month_index_def getUTCFullYear_def getUTCMonth_def)

lemma getUTCDate_day: "day_of s = day_of t \<Longrightarrow> getUTCDate s = getUTCDate t"
  using month_index_day [of s t] by (simp add: date_month_day)

lemma month_index_start [simp]: "month_index (month_start k) = k"
  using month_start_le [of k "month_start k"] month_start_le [of "k + 1" "month_start k"]
    month_day_strict [of k "k + 1"]
  by (simp add: month_start_def ms_per_day_def)

lemma time_of_midnight [simp]:
  "getUTCHours (d * ms_per_day) = 0" "getUTCMinutes (d * ms_per_day) = 0"
  "getUTCSeconds (d * ms_per_day) = 0" "getUTCMilliseconds (d * ms_per_day) = 0"
  using time_of_make_date [of 0 0 0 0 d] by (simp_all add: make_date_def make_time_def)

lemma day_decompose: "day_of t * ms_per_day + time_in_day t = t"
  by (simp add: day_of_def time_in_day_def)

end
