(* ===== verification/Cron.thy ===== *)
theory Cron
  imports JsDate
begin

text \<open>
  Cron schedules, \<open>modules/shared/src/cron.ts\<close>: timestamp validation, the five-field parser
  and the search for the next occurrence.

  The search is the source's \<open>while\<close> loop: \<open>cron_step\<close> is one iteration on the mutable
  \<open>Date\<close> (continue with a later candidate, or the instant found) and \<open>cron_loop\<close> iterates it;
  it is a \<open>partial_function\<close>, so that a loop that does not end would be \<open>None\<close>. The specification is
  \<open>cron_matches\<close>, a predicate on instants. The lemmas show that every iteration moves
  forward and skips no matching minute, that the loop ends, and that eight years are
  enough: a null result means that no later instant matches at all.
\<close>

section \<open>Timestamps\<close>

definition isValidUtcTimestamp :: "string \<Rightarrow> bool" where
  "isValidUtcTimestamp v =
    ((has_shape ''0000-00-00T00:00:00Z'' v \<or> has_shape ''0000-00-00T00:00:00.000Z'' v)
     \<and> (let year = field v 0 4; month = field v 5 2; day = field v 8 2; hour = field v 11 2;
            minute = field v 14 2; second = field v 17 2;
            millisecond = (if length v = 24 then field v 20 3 else 0);
            date = date_utc year (month - 1) day hour minute second millisecond
        in getUTCFullYear date = year \<and> getUTCMonth date = month - 1 \<and> getUTCDate date = day
           \<and> getUTCHours date = hour \<and> getUTCMinutes date = minute \<and> getUTCSeconds date = second
           \<and> getUTCMilliseconds date = millisecond))"

section \<open>Parsing\<close>

record cron_field =
  cf_any :: bool
  cf_values :: "int list"

record parsed_cron =
  cron_minute :: cron_field
  cron_hour :: cron_field
  cron_dayOfMonth :: cron_field
  cron_month :: cron_field
  cron_dayOfWeek :: cron_field

definition parseInteger :: "string \<Rightarrow> int option" where
  "parseInteger v =
    (if v \<noteq> [] \<and> list_all is_digit v \<and> parse_digits v \<le> 9007199254740991
     then Some (parse_digits v) else None)"

function range_loop :: "int \<Rightarrow> int \<Rightarrow> int \<Rightarrow> int list \<Rightarrow> int list" where
  "range_loop v stop step acc =
    (if 1 \<le> step \<and> v \<le> stop then range_loop (v + step) stop step (set_add v acc) else acc)"
  by pat_completeness auto
termination range_loop
  by (relation "measure (\<lambda>(v, stop, step, acc). nat (stop - v + 1))") auto

declare range_loop.simps [simp del]

definition parse_item :: "string \<Rightarrow> int \<Rightarrow> int \<Rightarrow> (bool \<times> int \<times> int \<times> int) option" where
  "parse_item item lo hi =
    (let stepParts = split_on (CHR ''/'') item
     in if 2 < length stepParts \<or> list_ex (\<lambda>p. p = []) stepParts then None
        else
          let rangeSource = stepParts ! 0;
              step = (if length stepParts = 2 then parseInteger (stepParts ! 1) else Some 1)
          in case step of None \<Rightarrow> None
             | Some st \<Rightarrow>
                if st < 1 then None
                else if rangeSource = ''*'' then Some (True, lo, hi, st)
                else
                  let range = split_on (CHR ''-'') rangeSource
                  in if 2 < length range \<or> list_ex (\<lambda>p. p = []) range then None
                     else
                       let rangeStart = parseInteger (range ! 0);
                           rangeEnd = (if length range = 1 then rangeStart else parseInteger (range ! 1))
                       in case (rangeStart, rangeEnd) of
                            (Some a, Some b) \<Rightarrow>
                              if a < lo \<or> b > hi \<or> a > b then None
                              else if length stepParts = 2 \<and> length range = 1 then None
                              else Some (False, a, b, st)
                          | _ \<Rightarrow> None)"

fun parse_items :: "string list \<Rightarrow> int \<Rightarrow> int \<Rightarrow> cron_field \<Rightarrow> cron_field option" where
  "parse_items [] lo hi acc = Some acc"
| "parse_items (item # rest) lo hi acc =
    (case parse_item item lo hi of
       None \<Rightarrow> None
     | Some (star, a, b, st) \<Rightarrow>
         parse_items rest lo hi
           \<lparr>cf_any = cf_any acc \<or> star, cf_values = range_loop a b st (cf_values acc)\<rparr>)"

definition parseField :: "string \<Rightarrow> int \<Rightarrow> int \<Rightarrow> cron_field option" where
  "parseField source lo hi =
    parse_items (split_on (CHR '','') source) lo hi \<lparr>cf_any = False, cf_values = []\<rparr>"

definition parseCron :: "string \<Rightarrow> parsed_cron option" where
  "parseCron expression =
    (let fs = split_on (CHR '' '') expression
     in if length fs \<noteq> 5 \<or> list_ex (\<lambda>f. f = []) fs then None
        else case (parseField (fs ! 0) 0 59, parseField (fs ! 1) 0 23, parseField (fs ! 2) 1 31,
                   parseField (fs ! 3) 1 12, parseField (fs ! 4) 0 6) of
          (Some mi, Some h, Some dm, Some mo, Some dw) \<Rightarrow>
            Some \<lparr>cron_minute = mi, cron_hour = h, cron_dayOfMonth = dm, cron_month = mo,
              cron_dayOfWeek = dw\<rparr>
        | _ \<Rightarrow> None)"

section \<open>The search for the next occurrence\<close>

function nextValue :: "int list \<Rightarrow> int \<Rightarrow> int option" where
  "nextValue vs v =
    (if v \<le> 59 then (if List.member vs v then Some v else nextValue vs (v + 1)) else None)"
  by pat_completeness auto
termination nextValue
  by (relation "measure (\<lambda>(vs, v). nat (60 - v))") auto

declare nextValue.simps [simp del]

definition firstValue :: "int list \<Rightarrow> int" where
  "firstValue vs = (case vs of [] \<Rightarrow> 0 | v # rest \<Rightarrow> foldl min v rest)"

definition resetToMonth :: "int \<Rightarrow> int \<Rightarrow> int \<Rightarrow> int" where
  "resetToMonth t year month = setUTCHours (setUTCFullYear t year (month - 1) 1) 0 0 0 0"

definition matchesDay :: "parsed_cron \<Rightarrow> int \<Rightarrow> int \<Rightarrow> bool" where
  "matchesDay cron dayOfMonthValue date =
    (let dayOfMonth = List.member (cf_values (cron_dayOfMonth cron)) dayOfMonthValue;
         dayOfWeek = List.member (cf_values (cron_dayOfWeek cron)) (getUTCDay date)
     in if cf_any (cron_dayOfMonth cron) \<and> cf_any (cron_dayOfWeek cron) then True
        else if cf_any (cron_dayOfMonth cron) then dayOfWeek
        else if cf_any (cron_dayOfWeek cron) then dayOfMonth
        else dayOfMonth \<or> dayOfWeek)"

function day_loop :: "parsed_cron \<Rightarrow> int \<Rightarrow> int \<Rightarrow> int \<Rightarrow> int \<Rightarrow> int option" where
  "day_loop cron y m day lastDay =
    (if day \<le> lastDay
     then (if matchesDay cron day (date_utc y m day 0 0 0 0) then Some day
           else day_loop cron y m (day + 1) lastDay)
     else None)"
  by pat_completeness auto
termination day_loop
  by (relation "measure (\<lambda>(cron, y, m, day, lastDay). nat (lastDay - day + 1))") auto

declare day_loop.simps [simp del]

definition nextMatchingDay :: "parsed_cron \<Rightarrow> int \<Rightarrow> int option" where
  "nextMatchingDay cron date =
    (let lastDay = getUTCDate (date_utc (getUTCFullYear date) (getUTCMonth date + 1) 0 0 0 0 0)
     in day_loop cron (getUTCFullYear date) (getUTCMonth date) (getUTCDate date) lastDay)"

datatype cron_progress = Continue int | Found int

definition cron_step_time :: "parsed_cron \<Rightarrow> int \<Rightarrow> cron_progress" where
  "cron_step_time cron t2 =
    (case nextValue (cf_values (cron_hour cron)) (getUTCHours t2) of
       None \<Rightarrow> Continue (setUTCHours (setUTCDate t2 (getUTCDate t2 + 1)) 0 0 0 0)
     | Some hour \<Rightarrow>
        let t3 = (if hour \<noteq> getUTCHours t2 then setUTCHours t2 hour 0 0 0 else t2)
        in case nextValue (cf_values (cron_minute cron)) (getUTCMinutes t3) of
             None \<Rightarrow> Continue (setUTCHours t3 (getUTCHours t3 + 1) 0 0 0)
           | Some minute \<Rightarrow> Found (setUTCMinutes_full t3 minute 0 0))"

definition cron_step :: "parsed_cron \<Rightarrow> int \<Rightarrow> cron_progress" where
  "cron_step cron t =
    (case nextValue (cf_values (cron_month cron)) (getUTCMonth t + 1) of
       None \<Rightarrow> Continue (resetToMonth t (getUTCFullYear t + 1) (firstValue (cf_values (cron_month cron))))
     | Some month \<Rightarrow>
        let t1 = (if month \<noteq> getUTCMonth t + 1 then resetToMonth t (getUTCFullYear t) month else t)
        in case nextMatchingDay cron t1 of
             None \<Rightarrow> Continue (resetToMonth t1 (getUTCFullYear t1) (getUTCMonth t1 + 2))
           | Some day \<Rightarrow>
              cron_step_time cron
                (if day \<noteq> getUTCDate t1 then setUTCHours (setUTCDate t1 day) 0 0 0 0 else t1))"

partial_function (option) cron_loop :: "parsed_cron \<Rightarrow> int \<Rightarrow> int \<Rightarrow> int option option" where
  "cron_loop cron finalYear t =
    (if getUTCFullYear t \<le> finalYear
     then (case cron_step cron t of
             Continue t' \<Rightarrow> cron_loop cron finalYear t'
           | Found r \<Rightarrow> Some (Some r))
     else Some None)"

declare cron_loop.simps [code]

definition first_candidate :: "int \<Rightarrow> int" where
  "first_candidate t =
    (let c = setUTCSeconds t 0 0 in setUTCMinutes c (getUTCMinutes c + 1))"

definition nextCronOccurrence :: "string \<Rightarrow> string \<Rightarrow> string option option" where
  "nextCronOccurrence expression after =
    (if \<not> isValidUtcTimestamp after then Some None
     else case parseCron expression of
       None \<Rightarrow> Some None
     | Some cron \<Rightarrow>
        (case date_parse after of
           None \<Rightarrow> None
         | Some t \<Rightarrow>
            let candidate = first_candidate t
            in case cron_loop cron (getUTCFullYear candidate + 8) candidate of
                 None \<Rightarrow> None
               | Some None \<Rightarrow> Some None
               | Some (Some r) \<Rightarrow> (case to_iso r of None \<Rightarrow> None | Some s \<Rightarrow> Some (Some s))))"

section \<open>Parsed fields stay in range\<close>

definition field_wf :: "int \<Rightarrow> int \<Rightarrow> cron_field \<Rightarrow> bool" where
  "field_wf lo hi f = (cf_values f \<noteq> [] \<and> (\<forall>v \<in> set (cf_values f). lo \<le> v \<and> v \<le> hi))"

definition cron_wf :: "parsed_cron \<Rightarrow> bool" where
  "cron_wf c = (field_wf 0 59 (cron_minute c) \<and> field_wf 0 23 (cron_hour c)
    \<and> field_wf 1 31 (cron_dayOfMonth c) \<and> field_wf 1 12 (cron_month c) \<and> field_wf 0 6 (cron_dayOfWeek c))"

lemma range_loop_set:
  "1 \<le> step \<Longrightarrow> set (range_loop v stop step acc) = set acc \<union> {v + step * int i |i. v + step * int i \<le> stop}"
proof (induction v stop step acc rule: range_loop.induct)
  case (1 v stop step acc)
  show ?case
  proof (cases "v \<le> stop")
    case True
    have eq: "{v + step * int i |i. v + step * int i \<le> stop}
      = insert v {v + step + step * int i |i. v + step + step * int i \<le> stop}" (is "?A = ?B")
    proof
      show "?A \<subseteq> ?B"
      proof
        fix x assume "x \<in> ?A"
        then obtain i where x: "x = v + step * int i" "x \<le> stop" by auto
        show "x \<in> ?B"
        proof (cases i)
          case (Suc j)
          then have "x = v + step + step * int j" using x by (simp add: algebra_simps)
          then show ?thesis using x by auto
        qed (use x in auto)
      qed
      show "?B \<subseteq> ?A"
      proof
        fix x assume "x \<in> ?B"
        then consider "x = v" | i where "x = v + step + step * int i" "x \<le> stop" by auto
        then show "x \<in> ?A"
        proof cases
          case 1
          then show ?thesis using True by (auto intro: exI [of _ 0])
        next
          case 2
          then have "x = v + step * int (Suc i)" by (simp add: algebra_simps)
          then show ?thesis using 2 by blast
        qed
      qed
    qed
    show ?thesis
      using 1 True by (subst range_loop.simps) (simp add: eq)
  next
    case False
    have "\<not> v + step * int i \<le> stop" for i
    proof -
      have "0 \<le> step * int i" using 1(2) by simp
      with False show ?thesis by linarith
    qed
    then have "{v + step * int i |i. v + step * int i \<le> stop} = {}" by blast
    then show ?thesis using False by (subst range_loop.simps) simp
  qed
qed

lemma range_loop_bounds:
  assumes "1 \<le> step" and "lo \<le> v" and "stop \<le> hi" and "v \<le> stop"
    and "\<forall>x \<in> set acc. lo \<le> x \<and> x \<le> hi"
  shows "range_loop v stop step acc \<noteq> [] \<and> (\<forall>x \<in> set (range_loop v stop step acc). lo \<le> x \<and> x \<le> hi)"
proof -
  have "v + step * int 0 \<in> set (range_loop v stop step acc)"
    unfolding range_loop_set [OF assms(1)] using assms(4) by fastforce
  then have ne: "range_loop v stop step acc \<noteq> []" by auto
  have lo: "lo \<le> v + step * int i" for i using assms(1,2) by (simp add: add_increasing2)
  have "\<forall>x \<in> set (range_loop v stop step acc). lo \<le> x \<and> x \<le> hi"
    using lo assms(3,5) unfolding range_loop_set [OF assms(1)] by auto
  with ne show ?thesis by blast
qed

lemma parse_item_bounds:
  assumes "parse_item item lo hi = Some (star, a, b, st)" and "lo \<le> hi"
  shows "1 \<le> st \<and> lo \<le> a \<and> a \<le> b \<and> b \<le> hi"
  using assms by (auto simp: parse_item_def Let_def split: if_splits option.splits)

lemma parse_items_wf:
  assumes "parse_items items lo hi acc = Some f" and "lo \<le> hi"
    and "\<forall>x \<in> set (cf_values acc). lo \<le> x \<and> x \<le> hi" and "items \<noteq> [] \<or> cf_values acc \<noteq> []"
  shows "field_wf lo hi f"
  using assms
proof (induction items arbitrary: acc)
  case (Cons item rest)
  then obtain star a b st where p: "parse_item item lo hi = Some (star, a, b, st)"
    and r: "parse_items rest lo hi
      \<lparr>cf_any = cf_any acc \<or> star, cf_values = range_loop a b st (cf_values acc)\<rparr> = Some f"
    by (auto split: option.splits)
  note b = parse_item_bounds [OF p Cons.prems(2)]
  show ?case
    by (rule Cons.IH [OF r Cons.prems(2)])
       (use range_loop_bounds [of st lo a b hi "cf_values acc"] b Cons.prems(3) in simp_all)
qed (auto simp: field_wf_def)

lemma parseField_wf: "parseField s lo hi = Some f \<Longrightarrow> lo \<le> hi \<Longrightarrow> field_wf lo hi f"
  unfolding parseField_def by (erule parse_items_wf) auto

lemma parseCron_wf: "parseCron e = Some c \<Longrightarrow> cron_wf c"
  by (auto simp: parseCron_def cron_wf_def Let_def parseField_wf split: if_splits option.splits)

section \<open>Specification of an occurrence\<close>

definition day_matches :: "parsed_cron \<Rightarrow> int \<Rightarrow> bool" where
  "day_matches cron t = (List.member (cf_values (cron_month cron)) (getUTCMonth t + 1)
    \<and> matchesDay cron (getUTCDate t) t)"

definition cron_matches :: "parsed_cron \<Rightarrow> int \<Rightarrow> bool" where
  "cron_matches cron t =
    (t mod 60000 = 0 \<and> List.member (cf_values (cron_minute cron)) (getUTCMinutes t)
     \<and> List.member (cf_values (cron_hour cron)) (getUTCHours t) \<and> day_matches cron t)"

lemma matchesDay_day: "day_of s = day_of t \<Longrightarrow> matchesDay cron d s = matchesDay cron d t"
  by (simp add: matchesDay_def getUTCDay_def Let_def)

lemma day_matches_day: "day_of s = day_of t \<Longrightarrow> day_matches cron s = day_matches cron t"
  using month_index_day [of s t] getUTCDate_day [of s t] matchesDay_day [of s t]
  by (simp add: day_matches_def year_month_index)

section \<open>Correctness of the inner searches\<close>

lemma nextValue_Some:
  "nextValue vs v = Some r \<Longrightarrow> v \<le> r \<and> r \<in> set vs \<and> r \<le> 59 \<and> (\<forall>x. v \<le> x \<and> x < r \<longrightarrow> x \<notin> set vs)"
proof (induction vs v rule: nextValue.induct)
  case (1 vs v)
  show ?case
  proof (cases "v \<le> 59 \<and> v \<notin> set vs")
    case True
    then have "nextValue vs (v + 1) = Some r" using 1(2) by (subst (asm) nextValue.simps) auto
    then have ih: "v + 1 \<le> r \<and> r \<in> set vs \<and> r \<le> 59 \<and> (\<forall>x. v + 1 \<le> x \<and> x < r \<longrightarrow> x \<notin> set vs)"
      using 1(1) True by auto
    have "x \<notin> set vs" if "v \<le> x" "x < r" for x
      using ih that True by (cases "x = v") auto
    with ih show ?thesis by auto
  next
    case False
    with 1(2) have "v \<in> set vs \<and> r = v \<and> v \<le> 59" by (subst (asm) nextValue.simps) (auto split: if_splits)
    then show ?thesis by auto
  qed
qed

lemma nextValue_None: "nextValue vs v = None \<Longrightarrow> v \<le> x \<Longrightarrow> x \<le> 59 \<Longrightarrow> x \<notin> set vs"
proof (induction vs v rule: nextValue.induct)
  case (1 vs v)
  then have "v \<notin> set vs" "nextValue vs (v + 1) = None"
    by (subst (asm) (2) nextValue.simps; auto split: if_splits)+
  with 1 show ?case by (cases "x = v") auto
qed

lemma foldl_min: "foldl min v rest \<in> set (v # rest) \<and> (\<forall>x \<in> set (v # rest). foldl min v rest \<le> (x::int))"
proof (induction rest arbitrary: v)
  case (Cons x rest)
  show ?case using Cons [of "min v x"] by (auto simp: min_def split: if_splits)
qed simp

lemma firstValue_least: "vs \<noteq> [] \<Longrightarrow> firstValue vs \<in> set vs \<and> (\<forall>x \<in> set vs. firstValue vs \<le> x)"
  using foldl_min by (cases vs) (auto simp: firstValue_def)

lemma day_loop_Some:
  "day_loop cron y m d l = Some r \<Longrightarrow>
   d \<le> r \<and> r \<le> l \<and> matchesDay cron r (date_utc y m r 0 0 0 0)
   \<and> (\<forall>x. d \<le> x \<and> x < r \<longrightarrow> \<not> matchesDay cron x (date_utc y m x 0 0 0 0))"
proof (induction cron y m d l rule: day_loop.induct)
  case (1 cron y m d l)
  show ?case
  proof (cases "d \<le> l \<and> \<not> matchesDay cron d (date_utc y m d 0 0 0 0)")
    case True
    then have "day_loop cron y m (d + 1) l = Some r" using 1(2) by (subst (asm) day_loop.simps) auto
    with 1(1) True have ih: "d + 1 \<le> r \<and> r \<le> l \<and> matchesDay cron r (date_utc y m r 0 0 0 0)
      \<and> (\<forall>x. d + 1 \<le> x \<and> x < r \<longrightarrow> \<not> matchesDay cron x (date_utc y m x 0 0 0 0))" by auto
    have "\<not> matchesDay cron x (date_utc y m x 0 0 0 0)" if "d \<le> x" "x < r" for x
      using ih that True by (cases "x = d") auto
    with ih show ?thesis by auto
  next
    case False
    with 1(2) have "r = d \<and> d \<le> l \<and> matchesDay cron d (date_utc y m d 0 0 0 0)"
      by (subst (asm) day_loop.simps) (auto split: if_splits)
    then show ?thesis by auto
  qed
qed

lemma day_loop_None:
  "day_loop cron y m d l = None \<Longrightarrow> d \<le> x \<Longrightarrow> x \<le> l \<Longrightarrow> \<not> matchesDay cron x (date_utc y m x 0 0 0 0)"
proof (induction cron y m d l rule: day_loop.induct)
  case (1 cron y m d l)
  then have "\<not> matchesDay cron d (date_utc y m d 0 0 0 0)" "day_loop cron y m (d + 1) l = None"
    by (subst (asm) (2) day_loop.simps; auto split: if_splits)+
  with 1 show ?case by (cases "x = d") auto
qed

lemma date_utc_day:
  "100 \<le> y \<Longrightarrow> day_of (date_utc y m d 0 0 0 0) = month_day (12 * y + m) + d - 1"
  by (simp add: date_utc_def Let_def make_day_month_day make_time_def make_date_def)

lemma same_month_day:
  assumes "month_index u = month_index t" and "100 \<le> getUTCFullYear t"
  shows "day_of (date_utc (getUTCFullYear t) (getUTCMonth t) (getUTCDate u) 0 0 0 0) = day_of u"
proof -
  have "12 * getUTCFullYear t + getUTCMonth t = month_index u"
    using assms(1) by (simp add: month_index_def)
  then show ?thesis using assms(2) by (simp add: date_utc_day date_month_day)
qed

lemma last_day_of_month:
  assumes "100 \<le> getUTCFullYear t"
  shows "getUTCDate (date_utc (getUTCFullYear t) (getUTCMonth t + 1) 0 0 0 0 0) = days_in_month (month_index t)"
proof -
  let ?l = "date_utc (getUTCFullYear t) (getUTCMonth t + 1) 0 0 0 0 0"
  have idx: "12 * getUTCFullYear t + (getUTCMonth t + 1) = month_index t + 1"
    by (simp add: month_index_def)
  have d: "day_of ?l = month_day (month_index t + 1) - 1"
    using date_utc_day [OF assms, of "getUTCMonth t + 1" 0] by (simp only: idx)
  have "month_index ?l = month_index t"
    using d month_day_step(1) [of "month_index t"] by (intro month_index_unique) auto
  then show ?thesis using d by (simp add: date_month_day days_in_month_def)
qed

lemma nextMatchingDay_Some:
  assumes "nextMatchingDay cron t = Some r" and y: "100 \<le> getUTCFullYear t"
  shows "getUTCDate t \<le> r \<and> r \<le> days_in_month (month_index t)
    \<and> (\<forall>u. month_index u = month_index t \<and> getUTCDate u = r \<longrightarrow> matchesDay cron r u)
    \<and> (\<forall>u. month_index u = month_index t \<and> getUTCDate t \<le> getUTCDate u \<and> getUTCDate u < r
         \<longrightarrow> \<not> matchesDay cron (getUTCDate u) u)"
proof -
  from assms(1) have d: "day_loop cron (getUTCFullYear t) (getUTCMonth t) (getUTCDate t)
      (days_in_month (month_index t)) = Some r"
    by (simp add: nextMatchingDay_def last_day_of_month [OF y] Let_def)
  note ds = day_loop_Some [OF d]
  show ?thesis
    using ds same_month_day [OF _ y] matchesDay_day by metis
qed

lemma nextMatchingDay_None:
  assumes "nextMatchingDay cron t = None" and y: "100 \<le> getUTCFullYear t"
    and u: "month_index u = month_index t" "getUTCDate t \<le> getUTCDate u"
  shows "\<not> matchesDay cron (getUTCDate u) u"
proof -
  from assms(1) have d: "day_loop cron (getUTCFullYear t) (getUTCMonth t) (getUTCDate t)
      (days_in_month (month_index t)) = None"
    by (simp add: nextMatchingDay_def last_day_of_month [OF y] Let_def)
  have "getUTCDate u \<le> days_in_month (month_index t)" using date_range(2) [of u] u(1) by simp
  from day_loop_None [OF d u(2) this] show ?thesis
    using same_month_day [OF u(1) y] matchesDay_day by metis
qed

section \<open>One iteration skips no occurrence\<close>

definition skips :: "parsed_cron \<Rightarrow> int \<Rightarrow> int \<Rightarrow> bool" where
  "skips c t t' = (\<forall>u. t \<le> u \<and> u < t' \<longrightarrow> \<not> cron_matches c u)"

lemma skips_refl [simp]: "skips c t t"
  by (auto simp: skips_def)

lemma skips_trans: "skips c s t \<Longrightarrow> skips c t u \<Longrightarrow> skips c s u"
  unfolding skips_def by (meson not_le)

lemma resetToMonth_start: "resetToMonth t y m = month_start (12 * y + m - 1)"
  using setUTCFullYear_day [of t y "m - 1"]
  by (simp add: resetToMonth_def midnight month_start_def add_diff_eq)

lemma setUTCHours_index: "setUTCHours t h 0 0 0 = (24 * day_of t + h) * 3600000"
  by (simp add: setUTCHours_def make_date_def make_time_def ms_per_day_def algebra_simps)

lemma hour_index: "t div 3600000 = 24 * day_of t + getUTCHours t" "t div 3600000 div 24 = day_of t"
proof -
  show d: "t div 3600000 div 24 = day_of t"
    by (simp add: day_of_def ms_per_day_def flip: zdiv_zmult2_eq)
  show "t div 3600000 = 24 * day_of t + getUTCHours t"
    unfolding d [symmetric] getUTCHours_def by simp
qed

lemma minute_index: "t div 60000 = 60 * (t div 3600000) + getUTCMinutes t" "t div 60000 div 60 = t div 3600000"
proof -
  show d: "t div 60000 div 60 = t div (3600000::int)" by (simp flip: zdiv_zmult2_eq)
  show "t div 60000 = 60 * (t div 3600000) + getUTCMinutes t"
    unfolding d [symmetric] getUTCMinutes_def by simp
qed

lemma setUTCMinutes_full_index: "setUTCMinutes_full t m 0 0 = (60 * (t div 3600000) + m) * 60000"
  unfolding setUTCMinutes_full_def hour_index(1)
  by (simp add: make_date_def make_time_def ms_per_day_def algebra_simps)

lemma skip_months:
  assumes "\<And>k. month_index t \<le> k \<Longrightarrow> k < K \<Longrightarrow> k mod 12 + 1 \<notin> set (cf_values (cron_month c))"
  shows "skips c t (month_start K)"
  unfolding skips_def
proof (intro allI impI)
  fix u
  assume u: "t \<le> u \<and> u < month_start K"
  then have "month_index t \<le> month_index u" "month_index u < K"
    using month_index_mono [of t u] month_start_le [of K u] by auto
  from assms [OF this] show "\<not> cron_matches c u"
    by (simp add: cron_matches_def day_matches_def year_month_index)
qed

lemma phase_month_None:
  assumes wf: "cron_wf c" and none: "nextValue (cf_values (cron_month c)) (getUTCMonth t + 1) = None"
  shows "t < resetToMonth t (getUTCFullYear t + 1) (firstValue (cf_values (cron_month c)))
    \<and> skips c t (resetToMonth t (getUTCFullYear t + 1) (firstValue (cf_values (cron_month c))))"
proof -
  let ?vs = "cf_values (cron_month c)"
  let ?Y = "getUTCFullYear t"
  let ?K = "12 * (?Y + 1) + firstValue ?vs - 1"
  have f: "firstValue ?vs \<in> set ?vs" "\<And>x. x \<in> set ?vs \<Longrightarrow> firstValue ?vs \<le> x"
    using firstValue_least wf by (auto simp: cron_wf_def field_wf_def)
  have r: "\<And>x. x \<in> set ?vs \<Longrightarrow> 1 \<le> x \<and> x \<le> 12" using wf by (auto simp: cron_wf_def field_wf_def)
  have mi: "month_index t = 12 * ?Y + getUTCMonth t" by (simp add: month_index_def)
  have "skips c t (month_start ?K)"
  proof (rule skip_months)
    fix k
    assume k: "month_index t \<le> k" "k < ?K"
    show "k mod 12 + 1 \<notin> set ?vs"
    proof (cases "k < 12 * (?Y + 1)")
      case True
      then have "k div 12 = ?Y" using k(1) mi month_range [of t] by (intro div_eqI) auto
      then have "getUTCMonth t + 1 \<le> k mod 12 + 1" "k mod 12 + 1 \<le> 59"
        using k(1) mi minus_mult_div_eq_mod [of k 12] by auto
      then show ?thesis by (rule nextValue_None [OF none])
    next
      case False
      then have "k div 12 = ?Y + 1" using k(2) r [OF f(1)] by (intro div_eqI) auto
      then have "k mod 12 + 1 < firstValue ?vs" using k(2) minus_mult_div_eq_mod [of k 12] by auto
      then show ?thesis using f(2) by force
    qed
  qed
  moreover have "t < month_start ?K"
    using month_start_le [of ?K t] mi month_range [of t] r [OF f(1)] by auto
  ultimately show ?thesis by (simp add: resetToMonth_start)
qed

lemma phase_month_Some:
  assumes wf: "cron_wf c" and some: "nextValue (cf_values (cron_month c)) (getUTCMonth t + 1) = Some m"
    and t1: "t1 = (if m \<noteq> getUTCMonth t + 1 then resetToMonth t (getUTCFullYear t) m else t)"
  shows "t \<le> t1 \<and> skips c t t1 \<and> getUTCMonth t1 + 1 \<in> set (cf_values (cron_month c))
    \<and> getUTCFullYear t1 = getUTCFullYear t \<and> (t mod 60000 = 0 \<longrightarrow> t1 mod 60000 = 0)"
proof (cases "m = getUTCMonth t + 1")
  case True
  then show ?thesis using t1 nextValue_Some [OF some] by simp
next
  case False
  let ?Y = "getUTCFullYear t"
  let ?K = "12 * ?Y + m - 1"
  have m: "getUTCMonth t + 1 < m" "m \<in> set (cf_values (cron_month c))"
    "\<And>x. getUTCMonth t + 1 \<le> x \<Longrightarrow> x < m \<Longrightarrow> x \<notin> set (cf_values (cron_month c))"
    using nextValue_Some [OF some] False by auto
  have r: "1 \<le> m" "m \<le> 12" using wf m(2) by (auto simp: cron_wf_def field_wf_def)
  have mi: "month_index t = 12 * ?Y + getUTCMonth t" by (simp add: month_index_def)
  have t1: "t1 = month_start ?K" using t1 False by (simp add: resetToMonth_start)
  have "skips c t (month_start ?K)"
  proof (rule skip_months)
    fix k
    assume k: "month_index t \<le> k" "k < ?K"
    then have "k div 12 = ?Y" using mi month_range [of t] r by (intro div_eqI) auto
    then have "getUTCMonth t + 1 \<le> k mod 12 + 1" "k mod 12 + 1 < m"
      using k mi minus_mult_div_eq_mod [of k 12] by auto
    then show "k mod 12 + 1 \<notin> set (cf_values (cron_month c))" by (rule m(3))
  qed
  moreover have "t \<le> month_start ?K"
    using month_start_le [of ?K t] mi m(1) by auto
  moreover have "?K div 12 = ?Y" "?K mod 12 = m - 1"
  proof -
    show "?K div 12 = ?Y" using r by (intro div_eqI) auto
    then show "?K mod 12 = m - 1" using minus_mult_div_eq_mod [of ?K 12] by simp
  qed
  moreover have "month_start ?K mod 60000 = 0" by (simp add: month_start_def ms_per_day_def)
  ultimately show ?thesis
    using m(2) by (simp add: t1 year_month_index)
qed

lemma same_month_between:
  "t \<le> u \<Longrightarrow> day_of u < month_day (month_index t + 1) \<Longrightarrow>
   month_index u = month_index t \<and> getUTCDate t \<le> getUTCDate u"
  using month_index_unique [of "month_index t" u] month_index_bounds [of t] day_of_mono [of t u]
  by (auto simp: date_month_day)

lemma phase_day_None:
  assumes y: "100 \<le> getUTCFullYear t" and none: "nextMatchingDay c t = None"
  shows "t < resetToMonth t (getUTCFullYear t) (getUTCMonth t + 2)
    \<and> skips c t (resetToMonth t (getUTCFullYear t) (getUTCMonth t + 2))"
proof -
  have idx: "12 * getUTCFullYear t + (getUTCMonth t + 2) - 1 = month_index t + 1"
    by (simp add: month_index_def)
  have "\<not> cron_matches c u" if "t \<le> u" "u < month_start (month_index t + 1)" for u
  proof -
    have "day_of u < month_day (month_index t + 1)"
      using that(2) month_start_le [of "month_index t + 1" u] month_day_le [of "month_index t + 1" u] by auto
    with that(1) have "month_index u = month_index t \<and> getUTCDate t \<le> getUTCDate u"
      by (intro same_month_between)
    with nextMatchingDay_None [OF none y] show ?thesis by (simp add: cron_matches_def day_matches_def)
  qed
  moreover have "t < month_start (month_index t + 1)" using month_start_le [of "month_index t + 1" t] by auto
  ultimately show ?thesis unfolding resetToMonth_start idx by (simp add: skips_def)
qed

lemma phase_day_Some:
  assumes y: "100 \<le> getUTCFullYear t" and some: "nextMatchingDay c t = Some d"
    and mo: "getUTCMonth t + 1 \<in> set (cf_values (cron_month c))"
    and t2: "t2 = (if d \<noteq> getUTCDate t then setUTCHours (setUTCDate t d) 0 0 0 0 else t)"
  shows "t \<le> t2 \<and> skips c t t2 \<and> day_matches c t2 \<and> getUTCFullYear t2 = getUTCFullYear t
    \<and> (t mod 60000 = 0 \<longrightarrow> t2 mod 60000 = 0)"
proof -
  note ds = nextMatchingDay_Some [OF some y]
  have day: "day_of t2 = month_day (month_index t) + d - 1"
    using t2 by (cases "d = getUTCDate t") (simp_all add: midnight setUTCDate_day date_month_day)
  have mi: "month_index t2 = month_index t"
    using ds date_range(1) [of t] day by (intro month_index_unique) (auto simp: days_in_month_def)
  have dt: "getUTCDate t2 = d" using day mi by (simp add: date_month_day)
  have dm: "day_matches c t2" using ds mi dt mo by (auto simp: day_matches_def year_month_index)
  have le: "t \<le> t2"
  proof (cases "d = getUTCDate t")
    case False
    then have "day_of t < day_of t2" using ds day by (auto simp: date_month_day)
    then show ?thesis using day_of_mono [of t2 t] by linarith
  qed (simp add: t2)
  have "\<not> cron_matches c u" if u: "t \<le> u" "u < t2" for u
  proof -
    have ne: "d \<noteq> getUTCDate t" using u t2 by auto
    then have "t2 = day_of t2 * ms_per_day" using t2 day by (simp add: midnight setUTCDate_day)
    then have lt: "day_of u < day_of t2" using u(2) day_of_le [of "day_of t2" u] by linarith
    then have "day_of u < month_day (month_index t + 1)" using day ds by (simp add: days_in_month_def)
    then have sm: "month_index u = month_index t \<and> getUTCDate t \<le> getUTCDate u"
      using u(1) by (intro same_month_between)
    then have "getUTCDate u < d" using lt day by (simp add: date_month_day)
    with sm ds show ?thesis by (auto simp: cron_matches_def day_matches_def)
  qed
  moreover have "t mod 60000 = 0 \<longrightarrow> t2 mod 60000 = 0" using t2 by (simp add: midnight ms_per_day_def)
  ultimately show ?thesis using le dm mi by (simp add: skips_def year_month_index)
qed

lemma phase_hour_None:
  assumes none: "nextValue (cf_values (cron_hour c)) (getUTCHours t) = None"
  shows "t < setUTCHours (setUTCDate t (getUTCDate t + 1)) 0 0 0 0
    \<and> skips c t (setUTCHours (setUTCDate t (getUTCDate t + 1)) 0 0 0 0)"
proof -
  have e: "setUTCHours (setUTCDate t (getUTCDate t + 1)) 0 0 0 0 = (day_of t + 1) * ms_per_day"
    by (simp add: midnight setUTCDate_day date_month_day)
  have "\<not> cron_matches c u" if u: "t \<le> u" "u < (day_of t + 1) * ms_per_day" for u
  proof -
    have "day_of u = day_of t"
      using day_of_mono [OF u(1)] u(2) day_of_le [of "day_of t + 1" u] by linarith
    moreover have "t div 3600000 \<le> u div 3600000" using u(1) by (simp add: zdiv_mono1)
    ultimately have "getUTCHours t \<le> getUTCHours u" by (simp add: hour_index(1))
    from nextValue_None [OF none this] time_ranges(2) [of u] show ?thesis by (simp add: cron_matches_def)
  qed
  moreover have "t < (day_of t + 1) * ms_per_day" using day_of_le [of "day_of t + 1" t] by linarith
  ultimately show ?thesis unfolding e by (simp add: skips_def)
qed

lemma phase_hour_Some:
  assumes wf: "cron_wf c" and some: "nextValue (cf_values (cron_hour c)) (getUTCHours t) = Some h"
    and t3: "t3 = (if h \<noteq> getUTCHours t then setUTCHours t h 0 0 0 else t)"
  shows "t \<le> t3 \<and> skips c t t3 \<and> day_of t3 = day_of t
    \<and> getUTCHours t3 \<in> set (cf_values (cron_hour c)) \<and> (t mod 60000 = 0 \<longrightarrow> t3 mod 60000 = 0)"
proof (cases "h = getUTCHours t")
  case True
  then show ?thesis using t3 nextValue_Some [OF some] by simp
next
  case False
  have h: "getUTCHours t < h" "h \<in> set (cf_values (cron_hour c))"
    "\<And>x. getUTCHours t \<le> x \<Longrightarrow> x < h \<Longrightarrow> x \<notin> set (cf_values (cron_hour c))"
    using nextValue_Some [OF some] False by auto
  have r: "0 \<le> h" "h \<le> 23" using wf h(2) by (auto simp: cron_wf_def field_wf_def)
  have e: "t3 = (24 * day_of t + h) * 3600000" using t3 False by (simp add: setUTCHours_index)
  have t3m: "t3 = make_date (day_of t) (make_time h 0 0 0)" using t3 False by (simp add: setUTCHours_def)
  have d3: "day_of t3 = day_of t" "getUTCHours t3 = h"
    using time_of_make_date [of h 0 0 0 "day_of t"] r by (simp_all add: t3m)
  have "t < t3"
    using h(1) hour_index(1) [of t] le_div_iff [of 3600000 "24 * day_of t + h" t] by (simp add: e)
  moreover have "\<not> cron_matches c u" if u: "t \<le> u" "u < t3" for u
  proof -
    have lo: "t div 3600000 \<le> u div 3600000" using u(1) by (simp add: zdiv_mono1)
    have hi: "u div 3600000 < 24 * day_of t + h"
      using u(2) le_div_iff [of 3600000 "24 * day_of t + h" u] by (simp add: e)
    have "day_of u \<le> day_of t3" using u(2) by (intro day_of_mono) simp
    then have "day_of u = day_of t" using day_of_mono [OF u(1)] d3 by simp
    with lo hi have "getUTCHours t \<le> getUTCHours u" "getUTCHours u < h" by (simp_all add: hour_index(1))
    from h(3) [OF this] show ?thesis by (simp add: cron_matches_def)
  qed
  moreover have "t3 mod 60000 = 0"
  proof -
    have "t3 = (24 * day_of t + h) * 60 * 60000" by (simp add: e)
    then show ?thesis by (metis mod_mult_self2_is_0)
  qed
  ultimately show ?thesis using d3 h(2) by (simp add: skips_def)
qed

lemma phase_minute_None:
  assumes none: "nextValue (cf_values (cron_minute c)) (getUTCMinutes t) = None"
  shows "t < setUTCHours t (getUTCHours t + 1) 0 0 0 \<and> skips c t (setUTCHours t (getUTCHours t + 1) 0 0 0)
    \<and> setUTCHours t (getUTCHours t + 1) 0 0 0 mod 60000 = 0"
proof -
  let ?H = "t div 3600000 + 1"
  have e: "setUTCHours t (getUTCHours t + 1) 0 0 0 = ?H * 3600000"
    by (simp add: setUTCHours_index hour_index(1))
  have "\<not> cron_matches c u" if u: "t \<le> u" "u < ?H * 3600000" for u
  proof -
    have "t div 3600000 \<le> u div 3600000" using u(1) by (simp add: zdiv_mono1)
    moreover have "u div 3600000 < ?H" using u(2) le_div_iff [of 3600000 ?H u] by linarith
    ultimately have "u div 3600000 = t div 3600000" by linarith
    moreover have "t div 60000 \<le> u div 60000" using u(1) by (simp add: zdiv_mono1)
    ultimately have "getUTCMinutes t \<le> getUTCMinutes u" by (simp add: minute_index(1))
    from nextValue_None [OF none this] time_ranges(4) [of u] show ?thesis by (simp add: cron_matches_def)
  qed
  moreover have "t < ?H * 3600000" using le_div_iff [of 3600000 ?H t] by linarith
  moreover have "?H * 3600000 mod 60000 = 0"
    using mod_mult_self2_is_0 [of "?H * 60" 60000] by (simp add: mult.assoc)
  ultimately show ?thesis unfolding e by (simp add: skips_def)
qed

lemma phase_minute_Some:
  assumes wf: "cron_wf c" and some: "nextValue (cf_values (cron_minute c)) (getUTCMinutes t) = Some m"
    and al: "t mod 60000 = 0" and hr: "getUTCHours t \<in> set (cf_values (cron_hour c))" and dm: "day_matches c t"
  shows "t \<le> setUTCMinutes_full t m 0 0 \<and> skips c t (setUTCMinutes_full t m 0 0)
    \<and> cron_matches c (setUTCMinutes_full t m 0 0) \<and> day_of (setUTCMinutes_full t m 0 0) = day_of t"
proof -
  let ?r = "setUTCMinutes_full t m 0 0"
  have m: "getUTCMinutes t \<le> m" "m \<in> set (cf_values (cron_minute c))"
    "\<And>x. getUTCMinutes t \<le> x \<Longrightarrow> x < m \<Longrightarrow> x \<notin> set (cf_values (cron_minute c))"
    using nextValue_Some [OF some] by auto
  have r: "0 \<le> m" "m \<le> 59" using wf m(2) by (auto simp: cron_wf_def field_wf_def)
  have e: "?r = (60 * (t div 3600000) + m) * 60000" by (rule setUTCMinutes_full_index)
  have rm: "?r = make_date (day_of t) (make_time (getUTCHours t) m 0 0)"
    by (simp add: setUTCMinutes_full_def)
  have g: "day_of ?r = day_of t" "getUTCHours ?r = getUTCHours t" "getUTCMinutes ?r = m"
    using time_of_make_date [of "getUTCHours t" m 0 0 "day_of t"] time_ranges [of t] r by (simp_all add: rm)
  have "t = (60 * (t div 3600000) + getUTCMinutes t) * 60000"
    using al minute_index(1) [of t] by (metis add.right_neutral div_mult_mod_eq)
  moreover have "(60 * (t div 3600000) + getUTCMinutes t) * 60000 \<le> ?r" using m(1) by (simp add: e)
  ultimately have "t \<le> ?r" by simp
  moreover have "\<not> cron_matches c u" if u: "t \<le> u" "u < ?r" for u
  proof -
    have lo: "t div 60000 \<le> u div 60000" using u(1) by (simp add: zdiv_mono1)
    have hi: "u div 60000 < 60 * (t div 3600000) + m"
      using u(2) le_div_iff [of 60000 "60 * (t div 3600000) + m" u] by (simp add: e)
    have "t div 3600000 \<le> u div 3600000" "u div 3600000 \<le> ?r div 3600000"
      using u by (simp_all add: zdiv_mono1)
    moreover have "?r div 3600000 = t div 3600000" using g by (simp add: hour_index(1))
    ultimately have "getUTCMinutes t \<le> getUTCMinutes u" "getUTCMinutes u < m"
      using lo hi by (simp_all add: minute_index(1))
    from m(3) [OF this] show ?thesis by (simp add: cron_matches_def)
  qed
  moreover have "?r mod 60000 = 0" unfolding e by simp
  ultimately show ?thesis
    using g hr dm m(2) day_matches_day [OF g(1)] by (simp add: skips_def cron_matches_def)
qed

definition progress_ok :: "parsed_cron \<Rightarrow> int \<Rightarrow> cron_progress \<Rightarrow> bool" where
  "progress_ok c t p =
    (case p of
       Continue t' \<Rightarrow> t < t' \<and> skips c t t' \<and> t' mod 60000 = 0
     | Found r \<Rightarrow> t \<le> r \<and> skips c t r \<and> cron_matches c r \<and> getUTCFullYear r = getUTCFullYear t)"

lemma progress_ok_weaken:
  "s \<le> t \<Longrightarrow> skips c s t \<Longrightarrow> getUTCFullYear s = getUTCFullYear t \<Longrightarrow> progress_ok c t p \<Longrightarrow> progress_ok c s p"
  by (auto simp: progress_ok_def intro: skips_trans split: cron_progress.splits)

lemma cron_step_time_correct:
  assumes wf: "cron_wf c" and al: "t mod 60000 = 0" and dm: "day_matches c t"
  shows "progress_ok c t (cron_step_time c t)"
proof (cases "nextValue (cf_values (cron_hour c)) (getUTCHours t)")
  case None
  have "setUTCHours (setUTCDate t (getUTCDate t + 1)) 0 0 0 0 mod 60000 = 0"
    by (simp add: midnight ms_per_day_def)
  then show ?thesis
    using None phase_hour_None [OF None] by (simp add: cron_step_time_def progress_ok_def)
next
  case (Some h)
  define t3 where "t3 = (if h \<noteq> getUTCHours t then setUTCHours t h 0 0 0 else t)"
  note p3 = phase_hour_Some [OF wf Some t3_def]
  have al3: "t3 mod 60000 = 0" and hr: "getUTCHours t3 \<in> set (cf_values (cron_hour c))"
    and y3: "getUTCFullYear t = getUTCFullYear t3" using p3 al by (simp_all add: getUTCFullYear_def)
  have d3: "day_matches c t3" using p3 dm day_matches_day by blast
  have "progress_ok c t3 (case nextValue (cf_values (cron_minute c)) (getUTCMinutes t3) of
      None \<Rightarrow> Continue (setUTCHours t3 (getUTCHours t3 + 1) 0 0 0)
    | Some minute \<Rightarrow> Found (setUTCMinutes_full t3 minute 0 0))"
  proof (cases "nextValue (cf_values (cron_minute c)) (getUTCMinutes t3)")
    case None
    then show ?thesis using phase_minute_None [OF None] by (simp add: progress_ok_def)
  next
    case (Some m)
    then show ?thesis using phase_minute_Some [OF wf Some al3 hr d3]
      by (simp add: progress_ok_def getUTCFullYear_def)
  qed
  then have "progress_ok c t3 (cron_step_time c t)"
    using Some by (simp add: cron_step_time_def t3_def [symmetric])
  then show ?thesis using p3 y3 by (intro progress_ok_weaken [of t t3]) simp_all
qed

lemma cron_step_correct:
  assumes wf: "cron_wf c" and al: "t mod 60000 = 0" and y: "100 \<le> getUTCFullYear t"
  shows "progress_ok c t (cron_step c t)"
proof (cases "nextValue (cf_values (cron_month c)) (getUTCMonth t + 1)")
  case None
  then show ?thesis using phase_month_None [OF wf None]
    by (simp add: cron_step_def progress_ok_def resetToMonth_start month_start_def ms_per_day_def)
next
  case (Some mo)
  define t1 where "t1 = (if mo \<noteq> getUTCMonth t + 1 then resetToMonth t (getUTCFullYear t) mo else t)"
  note p1 = phase_month_Some [OF wf Some t1_def]
  have y1: "100 \<le> getUTCFullYear t1" and al1: "t1 mod 60000 = 0"
    and m1: "getUTCMonth t1 + 1 \<in> set (cf_values (cron_month c))" using p1 y al by simp_all
  have "progress_ok c t1 (cron_step c t)"
  proof (cases "nextMatchingDay c t1")
    case None
    have "resetToMonth t1 (getUTCFullYear t1) (getUTCMonth t1 + 2) mod 60000 = 0"
      by (simp add: resetToMonth_start month_start_def ms_per_day_def)
    then show ?thesis using Some None phase_day_None [OF y1 None]
      by (simp add: cron_step_def progress_ok_def t1_def [symmetric])
  next
    case (Some d)
    define t2 where "t2 = (if d \<noteq> getUTCDate t1 then setUTCHours (setUTCDate t1 d) 0 0 0 0 else t1)"
    note p2 = phase_day_Some [OF y1 Some m1 t2_def]
    have "progress_ok c t2 (cron_step_time c t2)"
      using p2 al1 by (intro cron_step_time_correct [OF wf]) simp_all
    moreover have "cron_step c t = cron_step_time c t2"
      using \<open>nextValue _ (getUTCMonth t + 1) = Some mo\<close> Some
      by (simp add: cron_step_def t1_def [symmetric] t2_def [symmetric])
    ultimately show ?thesis using p2 by (intro progress_ok_weaken [of t1 t2]) simp_all
  qed
  then show ?thesis using p1 by (intro progress_ok_weaken [of t t1]) simp_all
qed

section \<open>The loop ends and finds the first occurrence\<close>

lemma cron_loop_correct:
  assumes wf: "cron_wf c" and al: "t mod 60000 = 0" and y: "100 \<le> getUTCFullYear t"
  shows "\<exists>res. cron_loop c fy t = Some res
    \<and> (case res of
         Some r \<Rightarrow> t \<le> r \<and> skips c t r \<and> cron_matches c r \<and> getUTCFullYear r \<le> fy
       | None \<Rightarrow> (\<forall>u. t \<le> u \<and> getUTCFullYear u \<le> fy \<longrightarrow> \<not> cron_matches c u))"
  using al y
proof (induction "nat (month_start (12 * (fy + 1)) - t)" arbitrary: t rule: less_induct)
  case less
  show ?case
  proof (cases "getUTCFullYear t \<le> fy")
    case False
    then have "\<not> getUTCFullYear u \<le> fy" if "t \<le> u" for u using year_mono [OF that] by linarith
    then show ?thesis using False by (subst cron_loop.simps) auto
  next
    case True
    have before: "t < month_start (12 * (fy + 1))"
    proof -
      have "\<not> 12 * (fy + 1) \<le> month_index t"
        using True month_range [of t] by (simp add: month_index_def)
      then show ?thesis using month_start_le by (meson not_le)
    qed
    note st = cron_step_correct [OF wf less.prems]
    show ?thesis
    proof (cases "cron_step c t")
      case (Found r)
      then show ?thesis using st True by (subst cron_loop.simps) (auto simp: progress_ok_def)
    next
      case (Continue t')
      with st have t': "t < t'" "skips c t t'" "t' mod 60000 = 0" by (auto simp: progress_ok_def)
      have y': "100 \<le> getUTCFullYear t'" using year_mono [of t t'] t'(1) less.prems(2) by linarith
      have "nat (month_start (12 * (fy + 1)) - t') < nat (month_start (12 * (fy + 1)) - t)"
        using before t'(1) by auto
      from less.hyps [OF this t'(3) y'] obtain res where res: "cron_loop c fy t' = Some res"
        and spec: "case res of
           Some r \<Rightarrow> t' \<le> r \<and> skips c t' r \<and> cron_matches c r \<and> getUTCFullYear r \<le> fy
         | None \<Rightarrow> (\<forall>u. t' \<le> u \<and> getUTCFullYear u \<le> fy \<longrightarrow> \<not> cron_matches c u)" by blast
      have "cron_loop c fy t = Some res" using True Continue res by (subst cron_loop.simps) simp
      moreover have "\<not> cron_matches c u" if "t \<le> u" "u < t'" for u
        using t'(2) that by (simp add: skips_def)
      ultimately show ?thesis using spec t'
        by (auto split: option.splits intro: skips_trans) (meson not_le)
    qed
  qed
qed

section \<open>Eight years are enough\<close>

lemma leap_within_eight: "\<exists>k. 1 \<le> k \<and> k \<le> 8 \<and> leap (y + k)"
proof -
  define j where "j = 4 - y mod 4"
  have j: "1 \<le> j" "j \<le> 4" using pos_mod_bound [of 4 y] pos_mod_sign [of 4 y] by (auto simp: j_def)
  have d: "4 dvd y + j"
  proof -
    have "y + j = 4 * (y div 4 + 1)" using minus_mod_eq_mult_div [of y 4] by (simp add: j_def)
    then show ?thesis by simp
  qed
  have "\<not> 100 dvd y + j \<or> \<not> 100 dvd y + j + 4"
    using dvd_diff [of 100 "y + j + 4" "y + j"] by auto
  moreover have "4 dvd y + j + 4" using d by simp
  ultimately have "leap (y + j) \<or> leap (y + (j + 4))"
    using d by (auto simp: leap_def mod_eq_0_iff_dvd add.assoc)
  then show ?thesis
  proof
    assume "leap (y + j)"
    then show ?thesis using j by (intro exI [of _ j]) auto
  next
    assume "leap (y + (j + 4))"
    then show ?thesis using j by (intro exI [of _ "j + 4"]) auto
  qed
qed

lemma days_in_month_leap:
  assumes "0 \<le> m" and "m < 12" and "leap y \<longrightarrow> leap z"
  shows "days_in_month (12 * y + m) \<le> days_in_month (12 * z + m)"
proof -
  have e: "days_in_month (12 * y + m) = (if m = 11 then (if leap y then 366 else 365) else days_before_month (leap y) (m + 1))
      - days_before_month (leap y) m" for y
  proof (cases "m = 11")
    case True
    then show ?thesis
      using month_day_unfold [of 11 y] month_day_unfold [of 0 "y + 1"] days_from_year_step [of y]
      by (simp add: days_in_month_def days_before_month_def algebra_simps)
  next
    case False
    then show ?thesis
      using month_day_unfold [OF assms(1,2), of y] month_day_unfold [of "m + 1" y] assms(1,2)
      by (simp add: days_in_month_def algebra_simps)
  qed
  show ?thesis
    unfolding e using month_cases [OF assms(1,2)] assms(3)
    by (elim disjE) (simp_all add: days_before_month_def)
qed

definition instant_at :: "int \<Rightarrow> int \<Rightarrow> int \<Rightarrow> int \<Rightarrow> int" where
  "instant_at k d h mi = make_date (month_day k + d - 1) (make_time h mi 0 0)"

lemma instant_at_getters:
  assumes "1 \<le> d" "d \<le> days_in_month k" "0 \<le> h" "h \<le> 23" "0 \<le> mi" "mi \<le> 59"
  shows "month_index (instant_at k d h mi) = k" "getUTCDate (instant_at k d h mi) = d"
    "getUTCHours (instant_at k d h mi) = h" "getUTCMinutes (instant_at k d h mi) = mi"
    "day_of (instant_at k d h mi) = month_day k + d - 1" "instant_at k d h mi mod 60000 = 0"
proof -
  note g = time_of_make_date [of h mi 0 0 "month_day k + d - 1"]
  show d: "day_of (instant_at k d h mi) = month_day k + d - 1"
    "getUTCHours (instant_at k d h mi) = h" "getUTCMinutes (instant_at k d h mi) = mi"
    using g assms by (simp_all add: instant_at_def)
  show mi: "month_index (instant_at k d h mi) = k"
    using d assms by (intro month_index_unique) (auto simp: days_in_month_def)
  show "getUTCDate (instant_at k d h mi) = d" using d mi by (simp add: date_month_day)
  have "instant_at k d h mi = ((month_day k + d - 1) * 1440 + h * 60 + mi) * 60000"
    by (simp add: instant_at_def make_date_def make_time_def ms_per_day_def algebra_simps)
  then show "instant_at k d h mi mod 60000 = 0" by simp
qed

lemma weekday_in_first_week: "\<exists>d. 1 \<le> d \<and> d \<le> 7 \<and> (a + d) mod 7 = (b::int) mod 7"
proof -
  define d where "d = (b - a - 1) mod 7 + 1"
  have "(a + 1 + (b - a - 1) mod 7) mod 7 = (a + 1 + (b - a - 1)) mod 7" by (rule mod_add_right_eq)
  then have "(a + d) mod 7 = b mod 7" by (simp add: d_def algebra_simps)
  moreover have "1 \<le> d" "d \<le> 7" using pos_mod_bound [of 7 "b - a - 1"] by (auto simp: d_def)
  ultimately show ?thesis by blast
qed

lemma recurs_within_eight_years:
  assumes u: "cron_matches c u" and y: "getUTCFullYear t \<le> getUTCFullYear u"
  shows "\<exists>v. cron_matches c v \<and> getUTCFullYear t < getUTCFullYear v \<and> getUTCFullYear v \<le> getUTCFullYear t + 8"
proof -
  let ?m = "getUTCMonth u" and ?d = "getUTCDate u"
  have m: "0 \<le> ?m" "?m < 12" by (rule month_range)+
  obtain k where k: "1 \<le> k" "k \<le> 8" "leap (getUTCFullYear t + k)"
    using leap_within_eight by blast
  let ?K = "12 * (getUTCFullYear t + k) + ?m"
  have dim: "?d \<le> days_in_month ?K"
    using date_range(2) [of u] days_in_month_leap [OF m, of "getUTCFullYear u" "getUTCFullYear t + k"] k(3)
    by (simp add: month_index_def)
  have found: ?thesis if d: "1 \<le> d" "d \<le> days_in_month ?K"
    and md: "matchesDay c d (instant_at ?K d (getUTCHours u) (getUTCMinutes u))" for d
  proof -
    let ?v = "instant_at ?K d (getUTCHours u) (getUTCMinutes u)"
    note g = instant_at_getters [OF d time_ranges(1,2,3,4), of u u]
    have q: "?K div 12 = getUTCFullYear t + k" using m by (intro div_eqI) auto
    then have "?K mod 12 = ?m" using minus_mult_div_eq_mod [of ?K 12] by simp
    with q have "getUTCFullYear ?v = getUTCFullYear t + k" "getUTCMonth ?v = ?m"
      by (simp_all only: year_month_index [of ?v] g(1))
    then show ?thesis using g u k md
      by (intro exI [of _ ?v]) (auto simp: cron_matches_def day_matches_def)
  qed
  consider (dom) "matchesDay c ?d (instant_at ?K ?d (getUTCHours u) (getUTCMinutes u))"
    | (dow) "\<And>d v. getUTCDay v = getUTCDay u \<Longrightarrow> matchesDay c d v"
    using u by (auto simp: cron_matches_def day_matches_def matchesDay_def Let_def split: if_splits)
  then show ?thesis
  proof cases
    case dom
    then show ?thesis using found [of ?d] dim date_range(1) by blast
  next
    case dow
    obtain d where d: "1 \<le> d" "d \<le> 7" "(month_day ?K + 3 + d) mod 7 = (day_of u + 4) mod 7"
      using weekday_in_first_week by metis
    have d28: "d \<le> days_in_month ?K" using d(2) days_in_month_bounds [of ?K] by linarith
    have "getUTCDay (instant_at ?K d (getUTCHours u) (getUTCMinutes u)) = getUTCDay u"
    proof -
      have "day_of (instant_at ?K d (getUTCHours u) (getUTCMinutes u)) + 4 = month_day ?K + 3 + d"
        using instant_at_getters(5) [OF d(1) d28 time_ranges(1,2,3,4), of u u] by simp
      then show ?thesis by (simp only: getUTCDay_def d(3))
    qed
    then show ?thesis using found [OF d(1) d28] dow by blast
  qed
qed

section \<open>Valid timestamps and the first candidate\<close>

lemma has_shape_append:
  "has_shape (p @ q) s \<Longrightarrow> has_shape p (take (length p) s) \<and> has_shape q (drop (length p) s)"
  unfolding has_shape_def
  by (auto simp: list_all2_append1 dest: list_all2_lengthD)

lemma shape_split_year:
  "has_shape (''0000'' @ q) v \<Longrightarrow> has_shape ''0000'' (take 4 v) \<and> has_shape q (drop 4 v)"
  using has_shape_append [of "''0000''" q v] by (simp add: numeral_eq_Suc)

lemma field_drop: "field (drop i s) j n = field s (i + j) n"
  by (simp add: field_def add.commute)

lemma parse_digits_range: "list_all is_digit s \<Longrightarrow> 0 \<le> parse_digits s \<and> parse_digits s < 10 ^ length s"
proof (induction s rule: rev_induct)
  case (snoc c s)
  then have "0 \<le> digit_val c" "digit_val c \<le> 9"
    by (auto simp: is_digit_def digit_val_def less_eq_char_def)
  with snoc show ?case by simp
qed (simp add: parse_digits_def)

lemma date_utc_year:
  assumes "0 \<le> y" "y \<le> 99" "0 \<le> m"  "0 \<le> d" "0 \<le> h" "0 \<le> mi" "0 \<le> s" "0 \<le> ms"
  shows "1899 \<le> getUTCFullYear (date_utc y m d h mi s ms)"
proof -
  have t: "0 \<le> make_time h mi s ms" using assms by (simp add: make_time_def)
  have "month_day (12 * 1900) - 1 \<le> make_day (1900 + y) m d"
    using assms month_day_mono [of "12 * 1900" "12 * (1900 + y) + m"] by (simp add: make_day_month_day)
  then have "(month_day (12 * 1900) - 1) * ms_per_day \<le> date_utc y m d h mi s ms"
    using assms t unfolding date_utc_def make_date_def Let_def ms_per_day_def by simp
  then have "month_day (12 * 1900) - 1 \<le> day_of (date_utc y m d h mi s ms)"
    by (simp add: day_of_le)
  then have "month_day (12 * 1900 - 1) \<le> day_of (date_utc y m d h mi s ms)"
    using month_day_step(1) [of "12 * 1900 - 1"] by simp
  then show ?thesis by (simp add: month_day_le year_month_index le_div_iff)
qed

lemma shape_field_range:
  assumes "has_shape (replicate n (CHR ''0'')) (take n (drop i v))"
  shows "0 \<le> field v i n \<and> field v i n < 10 ^ n"
proof -
  have "list_all is_digit (take n (drop i v))" and "length (take n (drop i v)) = n"
    using assms unfolding has_shape_def list_all_length list_all2_conv_all_nth shape_char_def by auto
  then show ?thesis using parse_digits_range [of "take n (drop i v)"] by (simp add: field_def)
qed

lemma time_in_range:
  assumes "0 \<le> getUTCFullYear t" and "getUTCFullYear t \<le> 20000"
  shows "\<bar>t\<bar> \<le> max_time"
proof -
  have "0 \<le> month_index t" "\<not> 240012 \<le> month_index t"
    using assms month_range [of t] by (auto simp: month_index_def)
  then have "month_start 0 \<le> t" "t < month_start 240012"
    using month_start_le [of 0 t] month_start_le [of 240012 t] by auto
  moreover have "month_start 0 = - 62167219200000" "month_start 240012 = 569003443200000"
    by code_simp+
  ultimately show ?thesis by (simp add: max_time_def)
qed

lemma valid_timestamp_parse:
  assumes "isValidUtcTimestamp v"
  shows "\<exists>t. date_parse v = Some t \<and> 100 \<le> getUTCFullYear t \<and> getUTCFullYear t \<le> 9999"
proof -
  define y mo d h mi s ms where "y = field v 0 4" and "mo = field v 5 2" and "d = field v 8 2"
    and "h = field v 11 2" and "mi = field v 14 2" and "s = field v 17 2"
    and "ms = (if length v = 24 then field v 20 3 else 0)"
  note defs = y_def mo_def d_def h_def mi_def s_def ms_def
  define t where "t = date_utc y (mo - 1) d h mi s ms"
  have sh: "has_shape (''0000'' @ ''-00-00T00:00:00Z'') v \<or> has_shape (''0000'' @ ''-00-00T00:00:00.000Z'') v"
    using assms by (simp add: isValidUtcTimestamp_def)
  have g: "getUTCFullYear t = y" "getUTCMonth t = mo - 1" "getUTCDate t = d" "getUTCHours t = h"
    "getUTCMinutes t = mi" "getUTCSeconds t = s" "getUTCMilliseconds t = ms"
    using assms unfolding isValidUtcTimestamp_def Let_def t_def defs by blast+
  have r: "0 \<le> mo - 1" "mo \<le> 12" "1 \<le> d" "d \<le> 31" "0 \<le> h" "h \<le> 23" "0 \<le> mi" "mi \<le> 59" "0 \<le> s" "s \<le> 59" "0 \<le> ms"
    using month_range [of t] date_range [of t] time_ranges [of t] by (simp_all add: g)
  have s4: "has_shape ''0000'' (take 4 v)" and tl: "is_iso_tail (drop 4 v)"
    using sh by (auto simp: is_iso_tail_def dest!: shape_split_year simp del: append_Cons append_Nil)
  have "0 \<le> y \<and> y < 10 ^ 4"
    unfolding y_def by (rule shape_field_range) (use s4 in \<open>simp add: numeral_eq_Suc\<close>)
  moreover have "\<not> (0 \<le> y \<and> y \<le> 99)"
    using date_utc_year [of y "mo - 1" d h mi s ms] r g(1) by (auto simp: t_def)
  ultimately have y: "100 \<le> y" "y \<le> 9999" by auto
  have t: "t = make_date (make_day y (mo - 1) d) (make_time h mi s ms)"
    using y by (simp add: t_def date_utc_def)
  have clip: "time_clip t = Some t" using time_in_range [of t] y g(1) by (simp add: time_clip_def)
  have f: "field (drop 4 v) 1 2 = mo" "field (drop 4 v) 4 2 = d" "field (drop 4 v) 7 2 = h"
    "field (drop 4 v) 10 2 = mi" "field (drop 4 v) 13 2 = s"
    "(if length (drop 4 v) = 20 then field (drop 4 v) 16 3 else 0) = ms"
    by (auto simp: field_drop defs)
  have "parse_iso_tail y (drop 4 v) = Some t"
    unfolding parse_iso_tail_def Let_def f t [symmetric] using tl r clip by simp
  then have "date_parse v = Some t" using s4 by (simp add: date_parse_def y_def)
  then show ?thesis using y g(1) by auto
qed

lemma first_candidate_index: "first_candidate t = (t div 60000 + 1) * 60000"
proof -
  define c where "c = setUTCSeconds t 0 0"
  have c: "c = make_date (day_of t) (make_time (getUTCHours t) (getUTCMinutes t) 0 0)"
    by (simp add: c_def setUTCSeconds_def)
  have g: "day_of c = day_of t" "getUTCHours c = getUTCHours t" "getUTCMinutes c = getUTCMinutes t"
    "getUTCSeconds c = 0" "getUTCMilliseconds c = 0"
    using time_of_make_date [of "getUTCHours t" "getUTCMinutes t" 0 0 "day_of t"] time_ranges [of t]
    by (simp_all add: c)
  have "first_candidate t = setUTCMinutes c (getUTCMinutes c + 1)"
    by (simp add: first_candidate_def c_def Let_def)
  also have "\<dots> = (t div 60000 + 1) * 60000"
    unfolding setUTCMinutes_def g minute_index(1) hour_index(1)
    by (simp add: make_date_def make_time_def ms_per_day_def algebra_simps)
  finally show ?thesis .
qed

section \<open>The next occurrence\<close>

lemma first_candidate_least:
  "t < first_candidate t" "cron_matches c u \<Longrightarrow> t < u \<Longrightarrow> first_candidate t \<le> u"
proof -
  show "t < first_candidate t" using div_bounds [of 60000 t] by (simp add: first_candidate_index)
  assume m: "cron_matches c u" and "t < u"
  define k where "k = u div 60000"
  have u: "u = k * 60000" using m unfolding cron_matches_def k_def by (metis add.right_neutral div_mult_mod_eq)
  then have "\<not> k \<le> t div 60000" using \<open>t < u\<close> by (simp add: le_div_iff)
  then have "(t div 60000 + 1) * 60000 \<le> k * 60000" by simp
  then show "first_candidate t \<le> u" by (simp only: first_candidate_index u)
qed

lemma next_occurrence_search:
  assumes wf: "cron_wf c" and y: "100 \<le> getUTCFullYear t"
  shows "\<exists>res. cron_loop c (getUTCFullYear (first_candidate t) + 8) (first_candidate t) = Some res
    \<and> (case res of
         Some r \<Rightarrow> t < r \<and> cron_matches c r \<and> (\<forall>u. t < u \<and> u < r \<longrightarrow> \<not> cron_matches c u)
           \<and> getUTCFullYear r \<le> getUTCFullYear (first_candidate t) + 8
       | None \<Rightarrow> (\<forall>u. t < u \<longrightarrow> \<not> cron_matches c u))"
proof -
  let ?c = "first_candidate t"
  have lt: "t < ?c" by (rule first_candidate_least)
  have yc: "100 \<le> getUTCFullYear ?c" using year_mono [of t ?c] lt y by linarith
  have al: "?c mod 60000 = 0" by (simp add: first_candidate_index)
  obtain res where res: "cron_loop c (getUTCFullYear ?c + 8) ?c = Some res"
    and spec: "case res of
         Some r \<Rightarrow> ?c \<le> r \<and> skips c ?c r \<and> cron_matches c r \<and> getUTCFullYear r \<le> getUTCFullYear ?c + 8
       | None \<Rightarrow> (\<forall>u. ?c \<le> u \<and> getUTCFullYear u \<le> getUTCFullYear ?c + 8 \<longrightarrow> \<not> cron_matches c u)"
    using cron_loop_correct [OF wf al yc] by blast
  show ?thesis
  proof (cases res)
    case (Some r)
    then have r: "?c \<le> r" "skips c ?c r" "cron_matches c r" "getUTCFullYear r \<le> getUTCFullYear ?c + 8"
      using spec by auto
    have "\<not> cron_matches c u" if "t < u" "u < r" for u
      using r(2) that first_candidate_least(2) [of c u t] by (auto simp: skips_def)
    then show ?thesis using res Some r lt by auto
  next
    case None
    have "\<not> cron_matches c u" if "t < u" for u
    proof
      assume m: "cron_matches c u"
      then have "?c \<le> u" using that by (rule first_candidate_least)
      then have "getUTCFullYear ?c \<le> getUTCFullYear u" by (rule year_mono)
      from recurs_within_eight_years [OF m this] obtain v where v: "cron_matches c v"
        "getUTCFullYear ?c < getUTCFullYear v" "getUTCFullYear v \<le> getUTCFullYear ?c + 8" by blast
      then have "?c \<le> v" using year_mono [of v ?c] by linarith
      with v spec None show False by auto
    qed
    with res None show ?thesis by auto
  qed
qed

lemma nextCronOccurrence_spec:
  assumes valid: "isValidUtcTimestamp after" and parsed: "parseCron expression = Some c"
  shows "\<exists>t. date_parse after = Some t \<and>
    (case nextCronOccurrence expression after of
       None \<Rightarrow> False
     | Some None \<Rightarrow> (\<forall>u. t < u \<longrightarrow> \<not> cron_matches c u)
     | Some (Some s) \<Rightarrow> \<exists>r. date_parse s = Some r \<and> t < r \<and> cron_matches c r
         \<and> (\<forall>u. t < u \<and> u < r \<longrightarrow> \<not> cron_matches c u))"
proof -
  obtain t where t: "date_parse after = Some t" and y: "100 \<le> getUTCFullYear t" "getUTCFullYear t \<le> 9999"
    using valid_timestamp_parse [OF valid] by blast
  let ?c = "first_candidate t"
  obtain res where res: "cron_loop c (getUTCFullYear ?c + 8) ?c = Some res"
    and spec: "case res of
         Some r \<Rightarrow> t < r \<and> cron_matches c r \<and> (\<forall>u. t < u \<and> u < r \<longrightarrow> \<not> cron_matches c u)
           \<and> getUTCFullYear r \<le> getUTCFullYear ?c + 8
       | None \<Rightarrow> (\<forall>u. t < u \<longrightarrow> \<not> cron_matches c u)"
    using next_occurrence_search [OF parseCron_wf [OF parsed], of t] y by auto
  have yc: "getUTCFullYear ?c \<le> 10000"
  proof -
    have "?c \<le> month_start (12 * (getUTCFullYear t + 1))"
    proof -
      have "t < month_start (12 * (getUTCFullYear t + 1))"
        using month_start_le [of "12 * (getUTCFullYear t + 1)" t] month_range [of t]
        by (simp add: month_index_def)
      then have "t div 60000 < month_day (12 * (getUTCFullYear t + 1)) * 1440"
        using le_div_iff [of 60000 "month_day (12 * (getUTCFullYear t + 1)) * 1440" t]
        by (simp add: month_start_def ms_per_day_def)
      then show ?thesis by (simp add: first_candidate_index month_start_def ms_per_day_def)
    qed
    from month_index_mono [OF this] have "month_index ?c \<le> 12 * (getUTCFullYear t + 1)" by simp
    then show ?thesis using y(2) month_range [of ?c] by (simp add: month_index_def)
  qed
  show ?thesis
  proof (cases res)
    case (Some r)
    then have "getUTCFullYear t \<le> getUTCFullYear r" using spec year_mono [of t r] by simp
    then obtain s where s: "to_iso r = Some s"
      using time_in_range [of r] to_iso_some [of r] spec Some y yc by auto
    from date_parse_to_iso [OF s] show ?thesis
      using t res Some s spec valid parsed by (simp add: nextCronOccurrence_def Let_def)
  next
    case None
    then show ?thesis using t res spec valid parsed by (simp add: nextCronOccurrence_def Let_def)
  qed
qed

text \<open>C20: for a valid timestamp and a parsable expression the search for the next cron occurrence
  always ends without an exception. It returns the first instant strictly after the given one that
  matches the expression, and it returns null only if no later instant matches at all, so the
  eight-year bound of the loop never loses an occurrence.\<close>
theorem nextCronOccurrence_correct:
  assumes valid: "isValidUtcTimestamp after" and parsed: "parseCron expression = Some c"
  shows "\<exists>t. date_parse after = Some t \<and>
    (case nextCronOccurrence expression after of
       None \<Rightarrow> False
     | Some None \<Rightarrow> (\<forall>u. t < u \<longrightarrow> \<not> cron_matches c u)
     | Some (Some s) \<Rightarrow> \<exists>r. date_parse s = Some r \<and> t < r \<and> cron_matches c r
         \<and> (\<forall>u. t < u \<and> u < r \<longrightarrow> \<not> cron_matches c u))"
  by (rule nextCronOccurrence_spec [OF assms])

theorem nextCronOccurrence_correct_witness:
  "\<exists>t. date_parse ''2026-01-01T05:59:45.000Z'' = Some t \<and>
    (case nextCronOccurrence ''0 6 * * *'' ''2026-01-01T05:59:45.000Z'' of
       None \<Rightarrow> False
     | Some None \<Rightarrow> (\<forall>u. t < u \<longrightarrow> \<not> cron_matches (the (parseCron ''0 6 * * *'')) u)
     | Some (Some s) \<Rightarrow> \<exists>r. date_parse s = Some r \<and> t < r \<and> cron_matches (the (parseCron ''0 6 * * *'')) r
         \<and> (\<forall>u. t < u \<and> u < r \<longrightarrow> \<not> cron_matches (the (parseCron ''0 6 * * *'')) u))"
proof -
  have v: "isValidUtcTimestamp ''2026-01-01T05:59:45.000Z''" by code_simp
  have "parseCron ''0 6 * * *'' \<noteq> None" by code_simp
  then have p: "parseCron ''0 6 * * *'' = Some (the (parseCron ''0 6 * * *''))" by simp
  show ?thesis by (rule nextCronOccurrence_correct [OF v p])
qed

section \<open>What a field accepts\<close>

definition item_values :: "string \<Rightarrow> int \<Rightarrow> int \<Rightarrow> int set" where
  "item_values item lo hi =
    {v. \<exists>star a b st. parse_item item lo hi = Some (star, a, b, st) \<and> a \<le> v \<and> v \<le> b \<and> st dvd v - a}"

lemma range_loop_dvd:
  assumes "1 \<le> st"
  shows "set (range_loop a b st acc) = set acc \<union> {v. a \<le> v \<and> v \<le> b \<and> st dvd v - a}"
proof -
  have "{a + st * int i |i. a + st * int i \<le> b} = {v. a \<le> v \<and> v \<le> b \<and> st dvd v - a}" (is "?A = ?B")
  proof
    show "?A \<subseteq> ?B" using assms by auto
    show "?B \<subseteq> ?A"
    proof
      fix v assume v: "v \<in> ?B"
      then obtain q where q: "v - a = st * q" by auto
      have "0 \<le> st * q" using v by (simp flip: q)
      then have "0 \<le> q" using assms by (simp add: zero_le_mult_iff)
      then have "v = a + st * int (nat q)" using q by simp
      with v show "v \<in> ?A" by (intro CollectI exI [of _ "nat q"]) auto
    qed
  qed
  then show ?thesis by (simp add: range_loop_set [OF assms])
qed

lemma parse_items_values:
  assumes "parse_items items lo hi acc = Some f" and "lo \<le> hi"
  shows "set (cf_values f) = set (cf_values acc) \<union> (\<Union>item \<in> set items. item_values item lo hi)
    \<and> (\<forall>item \<in> set items. parse_item item lo hi \<noteq> None)"
  using assms
proof (induction items arbitrary: acc)
  case (Cons item rest)
  then obtain star a b st where p: "parse_item item lo hi = Some (star, a, b, st)"
    and r: "parse_items rest lo hi
      \<lparr>cf_any = cf_any acc \<or> star, cf_values = range_loop a b st (cf_values acc)\<rparr> = Some f"
    by (auto split: option.splits)
  have "item_values item lo hi = {v. a \<le> v \<and> v \<le> b \<and> st dvd v - a}"
    by (simp add: item_values_def p)
  then show ?case
    using Cons.IH [OF r Cons.prems(2)] p parse_item_bounds [OF p Cons.prems(2)]
    by (simp add: range_loop_dvd Un_assoc)
qed simp

text \<open>A cron field accepts exactly the values its comma-separated items list: every item must
  parse, an item \<open>a-b/n\<close> contributes the values from \<open>a\<close> to \<open>b\<close> in steps of \<open>n\<close>, and all
  of them lie in the range of the field.\<close>
theorem parseField_values:
  assumes "parseField source lo hi = Some f" and "lo \<le> hi"
  shows "set (cf_values f) = (\<Union>item \<in> set (split_on (CHR '','') source). item_values item lo hi)
    \<and> set (cf_values f) \<subseteq> {lo..hi} \<and> set (cf_values f) \<noteq> {}
    \<and> (\<forall>item \<in> set (split_on (CHR '','') source). parse_item item lo hi \<noteq> None)"
  using parse_items_values [of _ lo hi _ f] parseField_wf [OF assms] assms
  unfolding parseField_def field_wf_def by fastforce

theorem parseField_values_witness:
  "\<exists>f. parseField ''6-18/2,30'' 0 59 = Some f \<and> set (cf_values f) \<subseteq> {0..59}"
proof -
  have "parseField ''6-18/2,30'' 0 59 \<noteq> None" by code_simp
  then obtain f where f: "parseField ''6-18/2,30'' 0 59 = Some f" by blast
  from parseField_values [OF f] f show ?thesis by auto
qed

section \<open>Printed instants as valid timestamps\<close>

lemma isValid_make:
  assumes "100 \<le> getUTCFullYear t" and "getUTCFullYear t \<le> 9999"
  shows "isValidUtcTimestamp (iso_year (getUTCFullYear t) @ iso_tail t)"
proof -
  let ?y = "getUTCFullYear t"
  let ?v = "iso_year ?y @ iso_tail t"
  have l: "length (iso_year ?y) = 4" and y: "iso_year ?y = pad_digits 4 ?y" using assms by (simp_all add: iso_year_def)
  have s4: "list_all2 shape_char ''0000'' (pad_digits 4 ?y)"
    using shape_pad_digits [of 4 ?y] by (simp add: numeral_eq_Suc)
  have tl: "list_all2 shape_char ''-00-00T00:00:00.000Z'' (iso_tail t)"
    using iso_tail_shape [of t] by (auto simp: is_iso_tail_def has_shape_def dest: list_all2_lengthD)
  have sh: "has_shape ''0000-00-00T00:00:00.000Z'' ?v"
    using list_all2_appendI [OF s4 tl] by (simp add: has_shape_def y)
  have f: "field ?v (4 + i) n = field (iso_tail t) i n" for i n
    using l by (simp add: field_def)
  have f0: "field ?v 0 4 = ?y" using assms by (simp add: field_def y parse_pad_digits)
  have g: "field ?v 5 2 = getUTCMonth t + 1" "field ?v 8 2 = getUTCDate t" "field ?v 11 2 = getUTCHours t"
    "field ?v 14 2 = getUTCMinutes t" "field ?v 17 2 = getUTCSeconds t" "field ?v 20 3 = getUTCMilliseconds t"
    using f [of "Suc 0" 2] f [of 4 2] f [of 7 2] f [of 10 2] f [of 13 2] f [of 16 3]
    by (simp_all add: iso_tail_fields)
  have "length ?v = 24" using l by (simp add: iso_tail_shape)
  moreover have "date_utc ?y (getUTCMonth t) (getUTCDate t) (getUTCHours t) (getUTCMinutes t)
      (getUTCSeconds t) (getUTCMilliseconds t) = t"
    using assms by (simp add: date_utc_def make_date_getters)
  ultimately show ?thesis unfolding isValidUtcTimestamp_def Let_def g f0 using sh by simp
qed

text \<open>The instants the API prints with \<open>toISOString\<close> are accepted by \<open>isValidUtcTimestamp\<close>
  exactly when their year lies between 100 and 9999, and an accepted timestamp always parses to an
  instant in that range.\<close>
theorem isValidUtcTimestamp_printed:
  "(to_iso t = Some s \<longrightarrow> (isValidUtcTimestamp s \<longleftrightarrow> 100 \<le> getUTCFullYear t \<and> getUTCFullYear t \<le> 9999))
   \<and> (isValidUtcTimestamp v \<longrightarrow> (\<exists>u. date_parse v = Some u \<and> 100 \<le> getUTCFullYear u \<and> getUTCFullYear u \<le> 9999))"
proof -
  have "isValidUtcTimestamp s \<longleftrightarrow> 100 \<le> getUTCFullYear t \<and> getUTCFullYear t \<le> 9999" if s: "to_iso t = Some s"
  proof
    assume "isValidUtcTimestamp s"
    then show "100 \<le> getUTCFullYear t \<and> getUTCFullYear t \<le> 9999"
      using valid_timestamp_parse [of s] date_parse_to_iso [OF s] by auto
  next
    assume "100 \<le> getUTCFullYear t \<and> getUTCFullYear t \<le> 9999"
    then show "isValidUtcTimestamp s"
      using isValid_make [of t] s by (auto simp: to_iso_def time_clip_def split: if_splits)
  qed
  then show ?thesis using valid_timestamp_parse by blast
qed

theorem isValidUtcTimestamp_printed_witness:
  "isValidUtcTimestamp ''2026-01-01T00:00:00.000Z'' \<and> to_iso 1767225600000 = Some ''2026-01-01T00:00:00.000Z''"
proof -
  have i: "to_iso 1767225600000 = Some ''2026-01-01T00:00:00.000Z''" by code_simp
  moreover have "100 \<le> getUTCFullYear 1767225600000 \<and> getUTCFullYear 1767225600000 \<le> 9999" by code_simp
  ultimately show ?thesis using isValidUtcTimestamp_printed [of 1767225600000 "''2026-01-01T00:00:00.000Z''"] by blast
qed

section \<open>Steps on a starred day field\<close>


end
