(* ===== verification/RateLimit.thy ===== *)
theory RateLimit
  imports Prelude
begin

text \<open>
  The request rate limiter of \<open>services/api/src/rate-limit.ts\<close>: configuration, the
  classification of requests into buckets, the source key of a client and the fixed-window
  in-memory limiter.

  The limiter's state is its insertion-ordered map from keys to window entries; \<open>consume\<close>
  is the method of the same name, returning the decision and the new map. The source
  mutates the entry object after a possible eviction, so the write back reaches the map
  only if the key is still in it.

  The lemmas show the memory bound and that, as long as the tracked keys fit, every key is
  granted exactly the first \<open>limit\<close> requests of each window.
\<close>

section \<open>Configuration and classification\<close>

datatype rate_limit_bucket = Login | Read | Mutation | Scheduler | Host | PublicIngress

record rate_limits =
  lim_login :: nat
  lim_read :: nat
  lim_mutation :: nat
  lim_scheduler :: nat
  lim_host :: nat
  lim_publicIngress :: nat

datatype fail_mode = Fail_closed | Fail_open

record rate_limit_config =
  rl_enabled :: bool
  rl_windowSeconds :: nat
  rl_limits :: rate_limits
  rl_maxEntries :: nat
  rl_failMode :: fail_mode

record rate_limit_decision =
  rld_allowed :: bool
  rld_limit :: nat
  rld_remaining :: nat
  rld_resetAtMs :: int

definition DEFAULT_RATE_LIMIT_CONFIG :: rate_limit_config where
  "DEFAULT_RATE_LIMIT_CONFIG =
    \<lparr>rl_enabled = True, rl_windowSeconds = 60,
     rl_limits = \<lparr>lim_login = 10, lim_read = 300, lim_mutation = 60, lim_scheduler = 60,
       lim_host = 600, lim_publicIngress = 60\<rparr>,
     rl_maxEntries = 10000, rl_failMode = Fail_closed\<rparr>"

fun limit_of :: "rate_limits \<Rightarrow> rate_limit_bucket \<Rightarrow> nat" where
  "limit_of l Login = lim_login l"
| "limit_of l Read = lim_read l"
| "limit_of l Mutation = lim_mutation l"
| "limit_of l Scheduler = lim_scheduler l"
| "limit_of l Host = lim_host l"
| "limit_of l PublicIngress = lim_publicIngress l"

definition limitFor :: "rate_limit_config \<Rightarrow> rate_limit_bucket \<Rightarrow> nat" where
  "limitFor config bucket = limit_of (rl_limits config) bucket"

definition classifyRateLimitBucket :: "string \<Rightarrow> string \<Rightarrow> bool \<Rightarrow> rate_limit_bucket option" where
  "classifyRateLimitBucket meth pathname login =
    (if login then Some Login
     else if \<not> starts_with pathname ''/api/v1/'' then None
     else if starts_with pathname ''/api/v1/scheduler/'' then Some Scheduler
     else if starts_with pathname ''/api/v1/hosts'' \<or> starts_with pathname ''/api/v1/host-inventories''
       \<or> starts_with pathname ''/api/v1/host/'' then Some Host
     else if meth = ''GET'' \<or> meth = ''HEAD'' then Some Read
     else Some Mutation)"

datatype header_value = Single string | Multiple "string list"

definition clientSourceKey :: "header_value option \<Rightarrow> string option \<Rightarrow> bool \<Rightarrow> string" where
  "clientSourceKey forwarded remoteAddress trustProxy =
    (let first = (case forwarded of None \<Rightarrow> None
           | Some (Multiple []) \<Rightarrow> None
           | Some (Multiple (x # xs)) \<Rightarrow> Some x
           | Some (Single v) \<Rightarrow> Some (split_on (CHR '','') v ! 0))
     in if trustProxy \<and> (case first of None \<Rightarrow> False | Some f \<Rightarrow> js_trim f \<noteq> [])
        then ''ip:'' @ js_trim (the first)
        else ''ip:'' @ opt_or remoteAddress ''unknown'')"

section \<open>Windows\<close>

definition windowStartMs :: "int \<Rightarrow> nat \<Rightarrow> int" where
  "windowStartMs nowMs windowSeconds =
    (let size = int windowSeconds * 1000 in nowMs div size * size)"

definition retryAfterSeconds :: "int \<Rightarrow> int \<Rightarrow> int" where
  "retryAfterSeconds resetAtMs nowMs = max 1 (- ((nowMs - resetAtMs) div 1000))"

section \<open>The limiter\<close>

record memory_entry =
  me_windowStartMs :: int
  me_count :: nat
  me_touchedAtMs :: int

type_synonym limiter = "(string, memory_entry) jsmap"

function evictIfNeeded :: "nat \<Rightarrow> limiter \<Rightarrow> limiter" where
  "evictIfNeeded maxEntries m =
    (if maxEntries < length m
     then evictIfNeeded maxEntries (js_delete (fst (hd m)) m) else m)"
  by pat_completeness auto
termination evictIfNeeded
proof (relation "measure (\<lambda>(maxEntries, m). length m)")
  fix maxEntries :: nat and m :: limiter
  assume "maxEntries < length m"
  then have "m \<noteq> []" by auto
  then have "length (AList.delete (fst (hd m)) m) < length m"
    by (cases m) (auto simp: less_Suc_eq_le length_delete_le)
  then show "((maxEntries, js_delete (fst (hd m)) m), maxEntries, m) \<in> measure (\<lambda>(maxEntries, m). length m)"
    by (simp add: js_delete_def)
qed simp

declare evictIfNeeded.simps [simp del]

definition write_entry :: "string \<Rightarrow> memory_entry \<Rightarrow> limiter \<Rightarrow> limiter" where
  "write_entry key e m = (if js_has m key then js_set key e m else m)"

definition consume ::
    "nat \<Rightarrow> string \<Rightarrow> nat \<Rightarrow> nat \<Rightarrow> int \<Rightarrow> limiter \<Rightarrow> rate_limit_decision \<times> limiter" where
  "consume maxEntries key limit windowSeconds nowMs m =
    (let start = windowStartMs nowMs windowSeconds;
         resetAtMs = start + int windowSeconds * 1000;
         fresh = (case js_get m key of None \<Rightarrow> True | Some e \<Rightarrow> me_windowStartMs e \<noteq> start);
         entry = (if fresh then \<lparr>me_windowStartMs = start, me_count = 0, me_touchedAtMs = nowMs\<rparr>
                  else the (js_get m key));
         m1 = (if fresh then evictIfNeeded maxEntries (js_set key entry (js_delete key m)) else m);
         entry1 = entry\<lparr>me_touchedAtMs := nowMs\<rparr>
     in if limit \<le> me_count entry1
        then (\<lparr>rld_allowed = False, rld_limit = limit, rld_remaining = 0, rld_resetAtMs = resetAtMs\<rparr>,
              write_entry key entry1 m1)
        else
          let entry2 = entry1\<lparr>me_count := me_count entry1 + 1\<rparr>
          in (\<lparr>rld_allowed = True, rld_limit = limit, rld_remaining = limit - me_count entry2,
                rld_resetAtMs = resetAtMs\<rparr>,
              write_entry key entry2 m1))"

definition limiter_size :: "limiter \<Rightarrow> nat" where
  "limiter_size m = length m"

section \<open>Memory bound\<close>

lemma length_keys: "length m = length (js_keys m)"
  by (simp add: js_keys_def)

lemma evict_bound: "length (evictIfNeeded n m) \<le> n"
proof (induction n m rule: evictIfNeeded.induct)
  case (1 n m)
  then show ?case by (cases "n < length m") (subst evictIfNeeded.simps; simp)+
qed

lemma evict_id: "length m \<le> n \<Longrightarrow> evictIfNeeded n m = m"
  by (subst evictIfNeeded.simps) simp

lemma evict_wf: "js_wf m \<Longrightarrow> js_wf (evictIfNeeded n m)"
proof (induction n m rule: evictIfNeeded.induct)
  case (1 n m)
  then show ?case by (cases "n < length m") (subst evictIfNeeded.simps; simp)+
qed

lemma write_entry_keys: "js_keys (write_entry k e m) = js_keys m"
  using js_get_keys [of m k] by (auto simp: write_entry_def js_map_simps)

lemma write_entry_wf [simp]: "js_wf m \<Longrightarrow> js_wf (write_entry k e m)"
  by (simp add: write_entry_def)

lemma write_entry_get:
  "js_get (write_entry k e m) k' = (if k' = k \<and> js_get m k \<noteq> None then Some e else js_get m k')"
  by (auto simp: write_entry_def js_map_simps)

lemma consume_wf: "js_wf m \<Longrightarrow> js_wf (snd (consume n k l w now m))"
  by (simp add: consume_def Let_def evict_wf)

lemma consume_size:
  assumes "length m \<le> n"
  shows "length (snd (consume n k l w now m)) \<le> n"
  using assms evict_bound by (simp add: consume_def Let_def length_keys write_entry_keys)

section \<open>Sequences of requests\<close>

fun consume_all ::
    "nat \<Rightarrow> nat \<Rightarrow> nat \<Rightarrow> (string \<times> int) list \<Rightarrow> limiter \<Rightarrow> rate_limit_decision list \<times> limiter" where
  "consume_all n limit w [] m = ([], m)"
| "consume_all n limit w ((k, now) # rs) m =
    (let (d, m1) = consume n k limit w now m; (ds, m2) = consume_all n limit w rs m1
     in (d # ds, m2))"

definition requests_in :: "nat \<Rightarrow> (string \<times> int) list \<Rightarrow> string \<Rightarrow> int \<Rightarrow> nat" where
  "requests_in w rs k start = length (filter (\<lambda>(k', now). k' = k \<and> windowStartMs now w = start) rs)"

definition granted_in ::
    "nat \<Rightarrow> (string \<times> int) list \<Rightarrow> rate_limit_decision list \<Rightarrow> string \<Rightarrow> int \<Rightarrow> nat" where
  "granted_in w rs ds k start =
    length (filter (\<lambda>((k', now), d). k' = k \<and> windowStartMs now w = start \<and> rld_allowed d) (zip rs ds))"

definition tracks :: "nat \<Rightarrow> nat \<Rightarrow> (string \<times> int) list \<Rightarrow> limiter \<Rightarrow> bool" where
  "tracks limit w h m =
    (js_wf m \<and> set (js_keys m) = fst ` set h
     \<and> (\<forall>k e. js_get m k = Some e \<longrightarrow>
          me_count e = min limit (requests_in w h k (me_windowStartMs e))
          \<and> (\<exists>t. (k, t) \<in> set h \<and> windowStartMs t w = me_windowStartMs e)
          \<and> (\<forall>t. (k, t) \<in> set h \<longrightarrow> windowStartMs t w \<le> me_windowStartMs e)))"

lemma tracksD:
  assumes "tracks limit w h m" and "js_get m k = Some e"
  shows "me_count e = min limit (requests_in w h k (me_windowStartMs e))"
    and "\<exists>t. (k, t) \<in> set h \<and> windowStartMs t w = me_windowStartMs e"
    and "(k, t) \<in> set h \<Longrightarrow> windowStartMs t w \<le> me_windowStartMs e"
  using assms unfolding tracks_def by blast+

lemma window_mono: "0 < w \<Longrightarrow> s \<le> t \<Longrightarrow> windowStartMs s w \<le> windowStartMs t w"
  by (simp add: windowStartMs_def Let_def zdiv_mono1 mult_right_mono)

lemma requests_in_snoc:
  "requests_in w (h @ [(k, now)]) k' W
    = requests_in w h k' W + (if k' = k \<and> W = windowStartMs now w then 1 else 0)"
  by (auto simp: requests_in_def)

lemma requests_in_none: "(\<And>t. (k, t) \<in> set h \<Longrightarrow> windowStartMs t w \<noteq> W) \<Longrightarrow> requests_in w h k W = 0"
  by (auto simp: requests_in_def filter_empty_conv)

lemma insert_entry_keys:
  assumes "js_wf m"
  shows "length (js_set k e (js_delete k m)) = card (insert k (set (js_keys m)))"
proof -
  have "distinct (js_keys (js_set k e (js_delete k m)))"
    using assms by (intro jsm.inv_distinct) auto
  then have "length (js_set k e (js_delete k m)) = card (set (js_keys (js_set k e (js_delete k m))))"
    by (simp add: length_keys distinct_card)
  also have "set (js_keys (js_set k e (js_delete k m))) = insert k (set (js_keys m))"
    by (auto simp: js_map_simps)
  finally show ?thesis .
qed

lemma fresh_window_unused:
  assumes tr: "tracks limit w h m" and w: "0 < w" and past: "\<forall>(k', t) \<in> set h. t \<le> now"
    and fresh: "case js_get m k of None \<Rightarrow> True | Some e \<Rightarrow> me_windowStartMs e \<noteq> windowStartMs now w"
  shows "requests_in w h k (windowStartMs now w) = 0"
proof (rule requests_in_none)
  fix t
  assume t: "(k, t) \<in> set h"
  then have "k \<in> fst ` set h" by force
  then have "k \<in> set (js_keys m)" using tr by (simp add: tracks_def)
  then obtain e where e: "js_get m k = Some e" using js_get_keys [of m k] by auto
  obtain t' where t': "(k, t') \<in> set h" "windowStartMs t' w = me_windowStartMs e"
    using tracksD(2) [OF tr e] by blast
  have le: "windowStartMs t w \<le> me_windowStartMs e" by (rule tracksD(3) [OF tr e t])
  have "t' \<le> now" using past t'(1) by auto
  then have "me_windowStartMs e \<le> windowStartMs now w" using window_mono [OF w, of t' now] t'(2) by simp
  then show "windowStartMs t w \<noteq> windowStartMs now w" using le fresh e by auto
qed

lemma consume_step:
  assumes tr: "tracks limit w h m" and w: "0 < w" and past: "\<forall>(k', t) \<in> set h. t \<le> now"
    and room: "card (insert k (fst ` set h)) \<le> n"
  shows "rld_allowed (fst (consume n k limit w now m)) = (requests_in w h k (windowStartMs now w) < limit)
    \<and> (\<exists>e. (\<forall>k'. js_get (snd (consume n k limit w now m)) k' = (if k' = k then Some e else js_get m k'))
        \<and> me_windowStartMs e = windowStartMs now w
        \<and> me_count e = min limit (Suc (requests_in w h k (windowStartMs now w))))"
proof (cases "case js_get m k of None \<Rightarrow> True | Some e \<Rightarrow> me_windowStartMs e \<noteq> windowStartMs now w")
  case True
  note z = fresh_window_unused [OF tr w past True]
  have wf: "js_wf m" and ks: "set (js_keys m) = fst ` set h" using tr by (auto simp: tracks_def)
  have ev: "evictIfNeeded n (js_set k e (js_delete k m)) = js_set k e (js_delete k m)" for e
    using room by (intro evict_id) (simp add: insert_entry_keys wf ks)
  show ?thesis
    using True z by (cases "limit = 0") (auto simp: consume_def Let_def ev write_entry_get js_map_simps)
next
  case False
  then obtain e where e: "js_get m k = Some e" "me_windowStartMs e = windowStartMs now w"
    by (auto split: option.splits)
  have c: "me_count e = min limit (requests_in w h k (windowStartMs now w))"
    using tr e by (auto simp: tracks_def)
  show ?thesis
    using e c
    by (cases "limit \<le> requests_in w h k (windowStartMs now w)")
       (auto simp: consume_def Let_def write_entry_get)
qed

lemma consume_tracks:
  assumes tr: "tracks limit w h m" and w: "0 < w" and past: "\<forall>(k', t) \<in> set h. t \<le> now"
    and room: "card (insert k (fst ` set h)) \<le> n"
  shows "tracks limit w (h @ [(k, now)]) (snd (consume n k limit w now m))"
proof -
  let ?m = "snd (consume n k limit w now m)"
  obtain e where get: "\<And>k'. js_get ?m k' = (if k' = k then Some e else js_get m k')"
    and ew: "me_windowStartMs e = windowStartMs now w"
    and ec: "me_count e = min limit (Suc (requests_in w h k (windowStartMs now w)))"
    using consume_step [OF assms] by blast
  have wf: "js_wf ?m" using tr by (simp add: tracks_def consume_wf)
  have "k' \<in> set (js_keys ?m) \<longleftrightarrow> k' = k \<or> k' \<in> set (js_keys m)" for k'
    by (simp add: js_get_keys [symmetric] get)
  then have "set (js_keys ?m) = insert k (set (js_keys m))" by blast
  then have ks: "set (js_keys ?m) = fst ` set (h @ [(k, now)])" using tr by (simp add: tracks_def)
  have "windowStartMs t w \<le> windowStartMs now w" if "(k, t) \<in> set h" for t
    using past that window_mono [OF w, of t now] by auto
  then show ?thesis
    using tr wf ks ew ec unfolding tracks_def get requests_in_snoc by auto
qed

lemma consume_all_grants:
  assumes "tracks limit w h m" and "0 < w" and "sorted (map snd (h @ rs))"
    and "card (fst ` set (h @ rs)) \<le> n"
  shows "granted_in w rs (fst (consume_all n limit w rs m)) k W + min limit (requests_in w h k W)
    = min limit (requests_in w (h @ rs) k W)"
  using assms
proof (induction rs arbitrary: h m)
  case Nil
  then show ?case by (simp add: granted_in_def)
next
  case (Cons r rs)
  obtain k0 now where r: "r = (k0, now)" by fastforce
  have past: "\<forall>(k', t) \<in> set h. t \<le> now" using Cons.prems(3) by (auto simp: r sorted_append)
  have "insert k0 (fst ` set h) \<subseteq> fst ` set (h @ r # rs)" by (auto simp: r)
  then have room: "card (insert k0 (fst ` set h)) \<le> n"
    using Cons.prems(4) card_mono [of "fst ` set (h @ r # rs)"] by (meson finite_imageI finite_set order_trans)
  obtain d m1 where dm: "consume n k0 limit w now m = (d, m1)" by fastforce
  have al: "rld_allowed d = (requests_in w h k0 (windowStartMs now w) < limit)"
    using consume_step [OF Cons.prems(1,2) past room] dm by simp
  have tr: "tracks limit w (h @ [r]) m1"
    using consume_tracks [OF Cons.prems(1,2) past room] dm by (simp add: r)
  have ih: "granted_in w rs (fst (consume_all n limit w rs m1)) k W + min limit (requests_in w (h @ [r]) k W)
      = min limit (requests_in w (h @ r # rs) k W)"
    using Cons.IH [OF tr] Cons.prems by simp
  have g: "granted_in w (r # rs) (fst (consume_all n limit w (r # rs) m)) k W
      = (if k0 = k \<and> windowStartMs now w = W \<and> rld_allowed d then 1 else 0)
        + granted_in w rs (fst (consume_all n limit w rs m1)) k W"
    by (simp add: r dm granted_in_def split: prod.splits)
  show ?case using ih al unfolding g by (auto simp: r requests_in_snoc split: if_splits)
qed

text \<open>The in-memory limiter never holds more entries than its bound, whatever requests
  arrive.\<close>
theorem limiter_memory_bound:
  "limiter_size (snd (consume_all maxEntries limit w rs [])) \<le> maxEntries"
proof -
  have "length (snd (consume_all maxEntries limit w rs m)) \<le> maxEntries" if "length m \<le> maxEntries" for m
    using that
  proof (induction rs arbitrary: m)
    case (Cons r rs)
    obtain k now where r: "r = (k, now)" by fastforce
    have "length (snd (consume maxEntries k limit w now m)) \<le> maxEntries"
      using consume_size [OF Cons.prems] .
    from Cons.IH [OF this] show ?case by (simp add: r split: prod.splits) (metis snd_conv)
  qed simp
  from this [of "[]"] show ?thesis by (simp add: limiter_size_def)
qed

text \<open>C25: over any sequence of requests in time order whose distinct keys fit the memory bound,
  the limiter grants every key exactly the smaller of the limit and the number of its requests in
  each fixed window: never more than the limit, and no denial before the limit is reached.\<close>
theorem limiter_grants_exactly_the_limit:
  assumes "0 < w" and "sorted (map snd rs)" and "card (fst ` set rs) \<le> maxEntries"
  shows "granted_in w rs (fst (consume_all maxEntries limit w rs [])) k W
    = min limit (requests_in w rs k W)"
proof -
  have "tracks limit w [] []" by (simp add: tracks_def js_keys_def)
  from consume_all_grants [OF this assms(1), of rs] assms(2,3) show ?thesis
    by (simp add: requests_in_def)
qed

definition sample_requests :: "(string \<times> int) list" where
  "sample_requests = [(''a'', 0), (''a'', 100), (''b'', 200), (''a'', 300), (''a'', 60000)]"

theorem limiter_grants_exactly_the_limit_witness:
  "granted_in 60 sample_requests (fst (consume_all 10 2 60 sample_requests [])) ''a'' 0 = 2"
proof -
  have "granted_in 60 sample_requests (fst (consume_all 10 2 60 sample_requests [])) ''a'' 0
      = min 2 (requests_in 60 sample_requests ''a'' 0)"
    by (rule limiter_grants_exactly_the_limit) (simp_all add: sample_requests_def card_insert_if)
  also have "\<dots> = 2" by code_simp
  finally show ?thesis .
qed

end
