(* ===== verification/Authz.thy ===== *)
theory Authz
  imports Prelude
begin

text \<open>
  Roles and capabilities, \<open>modules/shared/src/authz.ts\<close>: the capability table, the effective
  role of a principal, and the normalisation and validation of account grants.

  The lemmas show that the roles form the documented hierarchy, that a bound host fences
  a principal into the agent role, and that normalised grants are stable and valid.
\<close>

datatype user_role = Read_only | Author | Operator | Maintainer | Agent | Admin

datatype capability = Sessions_write | Sessions_spawn | Sessions_cancel_any | Sessions_archive
  | Schedules_write | Repositories_operate | Fleet_drain | Fleet_inventory | Fleet_exec_config
  | Providers_accounts | Providers_leases | Catalog_write | Accounts_write | Integrations_write
  | Audit_read | Scheduler_run | Agent_protocol

definition CAPABILITIES :: "capability list" where
  "CAPABILITIES = [Sessions_write, Sessions_spawn, Sessions_cancel_any, Sessions_archive,
    Schedules_write, Repositories_operate, Fleet_drain, Fleet_inventory, Fleet_exec_config,
    Providers_accounts, Providers_leases, Catalog_write, Accounts_write, Integrations_write,
    Audit_read, Scheduler_run, Agent_protocol]"

definition AUTHOR_CAPABILITIES :: "capability list" where
  "AUTHOR_CAPABILITIES = [Sessions_write, Sessions_spawn, Sessions_archive]"

definition OPERATOR_CAPABILITIES :: "capability list" where
  "OPERATOR_CAPABILITIES = AUTHOR_CAPABILITIES @ [Sessions_cancel_any, Schedules_write,
    Repositories_operate, Fleet_drain, Providers_leases]"

definition MAINTAINER_CAPABILITIES :: "capability list" where
  "MAINTAINER_CAPABILITIES = OPERATOR_CAPABILITIES @ [Fleet_inventory, Providers_accounts]"

fun ROLE_CAPABILITIES :: "user_role \<Rightarrow> capability list" where
  "ROLE_CAPABILITIES Read_only = []"
| "ROLE_CAPABILITIES Author = AUTHOR_CAPABILITIES"
| "ROLE_CAPABILITIES Operator = OPERATOR_CAPABILITIES"
| "ROLE_CAPABILITIES Maintainer = MAINTAINER_CAPABILITIES"
| "ROLE_CAPABILITIES Agent = [Agent_protocol, Fleet_drain]"
| "ROLE_CAPABILITIES Admin = CAPABILITIES"

record authz_principal =
  ap_role :: user_role
  ap_kind :: "string option"
  ap_allowedRepositoryIds :: "string list option"
  ap_boundHostId :: "string option"

definition effective_role :: "user_role \<Rightarrow> string option \<Rightarrow> user_role" where
  "effective_role role boundHostId =
    (if truthy_str boundHostId then (if role = Read_only then Read_only else Agent) else role)"

definition effectiveRole :: "authz_principal \<Rightarrow> user_role" where
  "effectiveRole p = effective_role (ap_role p) (ap_boundHostId p)"

definition roleHas :: "user_role \<Rightarrow> capability \<Rightarrow> bool" where
  "roleHas role c = List.member (ROLE_CAPABILITIES role) c"

definition principalHas :: "authz_principal \<Rightarrow> capability \<Rightarrow> bool" where
  "principalHas p c =
    (let role = effectiveRole p
     in if c = Agent_protocol
        then roleHas role c \<and> ap_kind p = Some ''service-account'' \<and> truthy_str (ap_boundHostId p)
        else roleHas role c)"

definition principalCapabilities :: "authz_principal \<Rightarrow> capability list" where
  "principalCapabilities p = filter (principalHas p) CAPABILITIES"

record account_grant =
  ag_role :: user_role
  ag_allowedRepositoryIds :: "string list option"
  ag_boundHostId :: "string option"

definition scoped :: "string list option \<Rightarrow> bool" where
  "scoped ids = (case ids of None \<Rightarrow> False | Some xs \<Rightarrow> xs \<noteq> [])"

definition normalizeAccountGrant :: "account_grant \<Rightarrow> account_grant" where
  "normalizeAccountGrant g =
    \<lparr>ag_role = effective_role (ag_role g) (ag_boundHostId g),
     ag_allowedRepositoryIds =
       (if scoped (ag_allowedRepositoryIds g) then ag_allowedRepositoryIds g else None),
     ag_boundHostId = (if truthy_str (ag_boundHostId g) then ag_boundHostId g else None)\<rparr>"

definition accountGrantError :: "account_grant \<Rightarrow> string option" where
  "accountGrantError g =
    (if ag_role g = Admin \<and> (scoped (ag_allowedRepositoryIds g) \<or> truthy_str (ag_boundHostId g))
     then Some ''admin accounts cannot be repository- or host-scoped''
     else if ag_role g = Agent
     then (if \<not> truthy_str (ag_boundHostId g) then Some ''agent accounts require boundHostId'' else None)
     else if truthy_str (ag_boundHostId g) then Some ''boundHostId is only valid on agent accounts''
     else None)"

section \<open>Properties\<close>

fun rank :: "user_role \<Rightarrow> nat option" where
  "rank Read_only = Some 0"
| "rank Author = Some 1"
| "rank Operator = Some 2"
| "rank Maintainer = Some 3"
| "rank Admin = Some 4"
| "rank Agent = None"

lemmas capability_lists = CAPABILITIES_def AUTHOR_CAPABILITIES_def OPERATOR_CAPABILITIES_def
  MAINTAINER_CAPABILITIES_def

lemma all_capabilities: "c \<in> set CAPABILITIES"
  by (cases c) (simp_all add: CAPABILITIES_def)

lemma roles_nested:
  "set (ROLE_CAPABILITIES Read_only) \<subseteq> set (ROLE_CAPABILITIES Author)"
  "set (ROLE_CAPABILITIES Author) \<subseteq> set (ROLE_CAPABILITIES Operator)"
  "set (ROLE_CAPABILITIES Operator) \<subseteq> set (ROLE_CAPABILITIES Maintainer)"
  "set (ROLE_CAPABILITIES Maintainer) \<subseteq> set (ROLE_CAPABILITIES Admin)"
  using all_capabilities by (auto simp: capability_lists)

text \<open>C26: a principal bound to a host holds at most the agent capabilities, and among those the
  host protocol only as a service account; a principal that is not bound never holds the host
  protocol, whatever its role, admin included.\<close>
theorem bound_host_fences_principal:
  "(truthy_str (ap_boundHostId p) \<longrightarrow>
      set (principalCapabilities p) \<subseteq> {Agent_protocol, Fleet_drain})
   \<and> (principalHas p Agent_protocol \<longrightarrow>
      ap_kind p = Some ''service-account'' \<and> truthy_str (ap_boundHostId p) \<and> effectiveRole p = Agent)"
  by (cases "ap_role p")
     (auto simp: principalCapabilities_def principalHas_def effectiveRole_def effective_role_def roleHas_def
       Let_def split: if_splits)

text \<open>Apart from the host daemon's role, the roles form a chain: a higher role can do
  everything a lower one can, for principals that are not bound to a host.\<close>
theorem role_hierarchy_monotone:
  assumes "rank (ap_role p) = Some i" and "rank (ap_role q) = Some j" and "i \<le> j"
    and "\<not> truthy_str (ap_boundHostId p)" and "\<not> truthy_str (ap_boundHostId q)"
  shows "set (principalCapabilities p) \<subseteq> set (principalCapabilities q)"
  using assms all_capabilities roles_nested
  by (cases "ap_role p"; cases "ap_role q")
     (auto simp: principalCapabilities_def principalHas_def effectiveRole_def effective_role_def roleHas_def
       Let_def split: if_splits)

text \<open>Normalising a grant twice is normalising it once, it grants exactly the effective role,
  and the only normalised grants that validation rejects are an unbound agent, a scoped admin and a
  bound read-only account.\<close>
theorem normalized_grant_stable:
  "normalizeAccountGrant (normalizeAccountGrant g) = normalizeAccountGrant g
   \<and> (accountGrantError (normalizeAccountGrant g) \<noteq> None \<longleftrightarrow>
        (\<not> truthy_str (ag_boundHostId g) \<and> ag_role g = Agent)
        \<or> (\<not> truthy_str (ag_boundHostId g) \<and> ag_role g = Admin \<and> scoped (ag_allowedRepositoryIds g))
        \<or> (truthy_str (ag_boundHostId g) \<and> ag_role g = Read_only))"
  by (cases "ag_role g"; cases "truthy_str (ag_boundHostId g)"; cases "scoped (ag_allowedRepositoryIds g)")
     (simp_all add: normalizeAccountGrant_def effective_role_def accountGrantError_def scoped_def)

definition sample_principal :: "user_role \<Rightarrow> authz_principal" where
  "sample_principal r = \<lparr>ap_role = r, ap_kind = None, ap_allowedRepositoryIds = None, ap_boundHostId = None\<rparr>"

theorem bound_host_fences_principal_witness:
  "set (principalCapabilities ((sample_principal Admin)\<lparr>ap_boundHostId := Some ''h1''\<rparr>)) \<subseteq> {Agent_protocol, Fleet_drain}"
  using bound_host_fences_principal [of "(sample_principal Admin)\<lparr>ap_boundHostId := Some ''h1''\<rparr>"] by simp

theorem role_hierarchy_monotone_witness:
  "set (principalCapabilities (sample_principal Author)) \<subseteq> set (principalCapabilities (sample_principal Operator))"
  by (rule role_hierarchy_monotone [of _ 1 _ 2]) (simp_all add: sample_principal_def)

end
