(* ===== verification/Usage.thy ===== *)
theory Usage
  imports JsDate
begin

text \<open>
  Token and cost accounting: the usage report of a session (\<open>modules/shared/src/usage.ts\<close>), its
  validation, the cost derived from the rates of a provider and the aggregation of the stored
  reports (\<open>services/api/src/usage.ts\<close>).

  Counters are decimal strings; \<open>BigInt\<close> arithmetic on them is arithmetic on \<open>int\<close> between
  \<open>parse_digits\<close> and \<open>show_int\<close>. The validator reads a free-form JSON value, including the
  string conversion that \<open>RegExp.prototype.test\<close> applies to its argument.

  The lemmas show that the aggregate is the exact sum over the accepted reports, independent of
  the order in which reports arrived.
\<close>

section \<open>Types\<close>

datatype usage_kind = Cumulative | Delta

record session_usage =
  us_kind :: usage_kind
  us_sequence :: int
  us_inputTokens :: "string option"
  us_outputTokens :: "string option"
  us_cachedInputTokens :: "string option"
  us_reasoningTokens :: "string option"
  us_totalTokens :: "string option"
  us_costMicros :: "string option"
  us_currency :: "string option"
  us_observedAt :: string

record usage_rates =
  ur_inputTokenMicros :: "string option"
  ur_outputTokenMicros :: "string option"
  ur_cachedInputTokenMicros :: "string option"
  ur_reasoningTokenMicros :: "string option"
  ur_currency :: string

record usage_record =
  urec_usage :: session_usage
  urec_sessionId :: string
  urec_repositoryId :: string
  urec_providerId :: "string option"
  urec_providerAccountId :: "string option"
  urec_commandId :: "string option"
  urec_attemptId :: string
  urec_worktreeId :: "string option"
  urec_receivedAt :: string

record usage_aggregate =
  ua_sessionCount :: nat
  ua_reportCount :: nat
  ua_inputTokens :: string
  ua_outputTokens :: string
  ua_cachedInputTokens :: string
  ua_reasoningTokens :: string
  ua_totalTokens :: string
  ua_costMicros :: string
  ua_currency :: "string option"
  ua_costMicrosByCurrency :: "(string, string) jsmap"

section \<open>Validation\<close>

definition decimal_shape :: "string \<Rightarrow> bool" where
  "decimal_shape s = (s = ''0'' \<or> (s \<noteq> [] \<and> CHR ''1'' \<le> hd s \<and> hd s \<le> CHR ''9'' \<and> list_all is_digit s))"

definition isDecimal :: "json option \<Rightarrow> bool" where
  "isDecimal v = (case v of Some (JStr s) \<Rightarrow> decimal_shape s \<and> length s \<le> 30 | _ \<Rightarrow> False)"

fun js_string_of :: "json \<Rightarrow> string" and js_array_item :: "json \<Rightarrow> string" where
  "js_string_of JNull = ''null''"
| "js_string_of (JBool b) = (if b then ''true'' else ''false'')"
| "js_string_of (JNum n) = show_int n"
| "js_string_of (JStr s) = s"
| "js_string_of (JArr xs) = join_with '','' (map js_array_item xs)"
| "js_string_of (JObj _) = ''[object Object]''"
| "js_array_item x = (case x of JNull \<Rightarrow> [] | _ \<Rightarrow> js_string_of x)"

definition usage_field_names :: "string list" where
  "usage_field_names = [''inputTokens'', ''outputTokens'', ''cachedInputTokens'', ''reasoningTokens'',
    ''totalTokens'', ''costMicros'']"

definition MAX_SAFE_INTEGER :: int where
  "MAX_SAFE_INTEGER = 9007199254740991"

definition is_currency_code :: "string \<Rightarrow> bool" where
  "is_currency_code s = (length s = 3 \<and> list_all (\<lambda>c. CHR ''A'' \<le> c \<and> c \<le> CHR ''Z'') s)"

definition valid_sequence :: "json option \<Rightarrow> bool" where
  "valid_sequence v = (case v of Some (JNum n) \<Rightarrow> 0 \<le> n \<and> n \<le> MAX_SAFE_INTEGER | _ \<Rightarrow> False)"

definition valid_observed_at :: "json option \<Rightarrow> bool" where
  "valid_observed_at v =
    (case v of
       Some (JStr s) \<Rightarrow>
         (has_shape ''0000-00-00T00:00:00Z'' s \<or> has_shape ''0000-00-00T00:00:00.000Z'' s) \<and> date_parse s \<noteq> None
     | _ \<Rightarrow> False)"

definition validateUsage :: "json \<Rightarrow> bool" where
  "validateUsage value =
    (case value of
       JObj usage \<Rightarrow>
         js_get usage ''kind'' \<in> {Some (JStr ''cumulative''), Some (JStr ''delta'')}
         \<and> valid_sequence (js_get usage ''sequence'')
         \<and> js_get usage ''source'' = Some (JStr ''cli'')
         \<and> valid_observed_at (js_get usage ''observedAt'')
         \<and> (case js_get usage ''currency'' of None \<Rightarrow> True | Some c \<Rightarrow> is_currency_code (js_string_of c))
         \<and> list_ex (\<lambda>f. js_get usage f \<noteq> None) usage_field_names
         \<and> list_all (\<lambda>f. js_get usage f = None \<or> isDecimal (js_get usage f)) usage_field_names
     | _ \<Rightarrow> False)"

definition validateUsageRates :: "json \<Rightarrow> bool" where
  "validateUsageRates value =
    (case value of
       JObj rates \<Rightarrow>
         (case js_get rates ''currency'' of Some (JStr c) \<Rightarrow> is_currency_code c | _ \<Rightarrow> False)
         \<and> list_all (\<lambda>f. js_get rates f = None \<or> isDecimal (js_get rates f))
             [''inputTokenMicros'', ''outputTokenMicros'', ''cachedInputTokenMicros'', ''reasoningTokenMicros'']
     | _ \<Rightarrow> False)"

definition opt_member :: "string \<Rightarrow> string option \<Rightarrow> (string \<times> json) list" where
  "opt_member k v = (case v of None \<Rightarrow> [] | Some s \<Rightarrow> [(k, JStr s)])"

definition usage_json :: "session_usage \<Rightarrow> json" where
  "usage_json u = JObj
    ([(''kind'', JStr (if us_kind u = Cumulative then ''cumulative'' else ''delta'')),
      (''sequence'', JNum (us_sequence u))]
     @ opt_member ''inputTokens'' (us_inputTokens u) @ opt_member ''outputTokens'' (us_outputTokens u)
     @ opt_member ''cachedInputTokens'' (us_cachedInputTokens u)
     @ opt_member ''reasoningTokens'' (us_reasoningTokens u) @ opt_member ''totalTokens'' (us_totalTokens u)
     @ opt_member ''costMicros'' (us_costMicros u) @ opt_member ''currency'' (us_currency u)
     @ [(''observedAt'', JStr (us_observedAt u)), (''source'', JStr ''cli'')])"

definition usageKindConflicts :: "usage_record list \<Rightarrow> usage_kind \<Rightarrow> bool" where
  "usageKindConflicts records kind = list_ex (\<lambda>r. us_kind (urec_usage r) \<noteq> kind) records"

section \<open>Cost\<close>

definition cost_pairs :: "session_usage \<Rightarrow> usage_rates \<Rightarrow> (string option \<times> string option) list" where
  "cost_pairs u r =
    [(us_inputTokens u, ur_inputTokenMicros r), (us_outputTokens u, ur_outputTokenMicros r),
     (us_cachedInputTokens u, ur_cachedInputTokenMicros r), (us_reasoningTokens u, ur_reasoningTokenMicros r)]"

fun cost_step :: "int \<times> bool \<Rightarrow> string option \<times> string option \<Rightarrow> int \<times> bool" where
  "cost_step (t, seen) (Some amount, Some rate) = (t + parse_digits amount * parse_digits rate, True)"
| "cost_step (t, seen) _ = (t, seen)"

definition costFromRates :: "session_usage \<Rightarrow> usage_rates \<Rightarrow> string option" where
  "costFromRates u r =
    (let (t, seen) = foldl cost_step (0, False) (cost_pairs u r)
     in if seen then Some (show_int t) else None)"

section \<open>Aggregation\<close>

definition usage_add :: "string \<Rightarrow> string option \<Rightarrow> string" where
  "usage_add a b = (if truthy_str b then show_int (parse_digits a + parse_digits (the b)) else a)"

definition zeroAggregate :: usage_aggregate where
  "zeroAggregate =
    \<lparr>ua_sessionCount = 0, ua_reportCount = 0, ua_inputTokens = ''0'', ua_outputTokens = ''0'',
     ua_cachedInputTokens = ''0'', ua_reasoningTokens = ''0'', ua_totalTokens = ''0'', ua_costMicros = ''0'',
     ua_currency = None, ua_costMicrosByCurrency = []\<rparr>"

definition attempt_key :: "usage_record \<Rightarrow> string" where
  "attempt_key r = urec_sessionId r @ [CHR 0x00] @ urec_attemptId r"

definition report_key :: "usage_record \<Rightarrow> string" where
  "report_key r = attempt_key r @ [CHR 0x00] @ show_int (us_sequence (urec_usage r))"

definition is_cumulative :: "usage_record \<Rightarrow> bool" where
  "is_cumulative r = (us_kind (urec_usage r) = Cumulative)"

record usage_scan =
  sc_bySession :: "string list"
  sc_deltas :: "string list"
  sc_deltaRecords :: "usage_record list"
  sc_cumulative :: "(string, usage_record) jsmap"
  sc_kinds :: "(string, usage_kind list) jsmap"

definition scan_record :: "usage_scan \<Rightarrow> usage_record \<Rightarrow> usage_scan" where
  "scan_record sc r =
    (let key = attempt_key r;
         sc1 = sc\<lparr>sc_bySession := set_add (urec_sessionId r) (sc_bySession sc),
                  sc_kinds := js_set key (set_add (us_kind (urec_usage r)) (opt_or (js_get (sc_kinds sc) key) []))
                    (sc_kinds sc)\<rparr>
     in if us_kind (urec_usage r) = Delta
        then (if List.member (sc_deltas sc1) (report_key r) then sc1
              else sc1\<lparr>sc_deltas := sc_deltas sc1 @ [report_key r], sc_deltaRecords := sc_deltaRecords sc1 @ [r]\<rparr>)
        else (case js_get (sc_cumulative sc1) key of
            None \<Rightarrow> sc1\<lparr>sc_cumulative := js_set key r (sc_cumulative sc1)\<rparr>
          | Some previous \<Rightarrow>
              (if us_sequence (urec_usage r) > us_sequence (urec_usage previous)
               then sc1\<lparr>sc_cumulative := js_set key r (sc_cumulative sc1)\<rparr> else sc1)))"

definition scan_records :: "usage_record list \<Rightarrow> usage_scan" where
  "scan_records records = foldl scan_record
    \<lparr>sc_bySession = [], sc_deltas = [], sc_deltaRecords = [], sc_cumulative = [], sc_kinds = []\<rparr> records"

definition accepted_reports :: "usage_scan \<Rightarrow> usage_record list" where
  "accepted_reports sc = js_values (sc_cumulative sc)
    @ filter (\<lambda>r. \<not> List.member (opt_or (js_get (sc_kinds sc) (attempt_key r)) []) Cumulative) (sc_deltaRecords sc)"

definition add_report :: "usage_aggregate \<Rightarrow> usage_record \<Rightarrow> usage_aggregate" where
  "add_report a r =
    (let u = urec_usage r
     in a\<lparr>ua_reportCount := ua_reportCount a + 1,
          ua_inputTokens := usage_add (ua_inputTokens a) (us_inputTokens u),
          ua_outputTokens := usage_add (ua_outputTokens a) (us_outputTokens u),
          ua_cachedInputTokens := usage_add (ua_cachedInputTokens a) (us_cachedInputTokens u),
          ua_reasoningTokens := usage_add (ua_reasoningTokens a) (us_reasoningTokens u),
          ua_totalTokens := usage_add (ua_totalTokens a) (us_totalTokens u),
          ua_costMicros := usage_add (ua_costMicros a) (us_costMicros u)\<rparr>)"

definition add_currency :: "(string, string) jsmap \<Rightarrow> usage_record \<Rightarrow> (string, string) jsmap" where
  "add_currency m r =
    (if us_costMicros (urec_usage r) = None then m
     else
       (let currency = opt_or (us_currency (urec_usage r)) ''UNKNOWN''
        in js_set currency (usage_add (opt_or (js_get m currency) ''0'') (us_costMicros (urec_usage r))) m))"

definition aggregateUsage :: "usage_record list \<Rightarrow> usage_aggregate" where
  "aggregateUsage records =
    (let sc = scan_records records;
         accepted = accepted_reports sc;
         aggregate = (foldl add_report zeroAggregate accepted)\<lparr>ua_sessionCount := length (sc_bySession sc)\<rparr>;
         byCurrency = foldl add_currency [] accepted;
         aggregate1 = aggregate\<lparr>ua_costMicrosByCurrency := byCurrency\<rparr>
     in case js_keys byCurrency of
          [only] \<Rightarrow> (if only \<noteq> [] \<and> only \<noteq> ''UNKNOWN'' then aggregate1\<lparr>ua_currency := Some only\<rparr>
                     else aggregate1\<lparr>ua_costMicros := ''0''\<rparr>)
        | _ \<Rightarrow> aggregate1\<lparr>ua_costMicros := ''0''\<rparr>)"

section \<open>What the aggregate means\<close>

text \<open>The reference is stated on the multiset of stored reports, so it cannot depend on arrival
  order: an attempt with a cumulative report counts only its latest one, every other attempt
  counts all of its deltas.\<close>

definition counted :: "usage_record set \<Rightarrow> usage_record \<Rightarrow> bool" where
  "counted R r =
    (if is_cumulative r
     then \<forall>q\<in>R. is_cumulative q \<and> attempt_key q = attempt_key r \<longrightarrow> us_sequence (urec_usage q) \<le> us_sequence (urec_usage r)
     else \<forall>q\<in>R. attempt_key q = attempt_key r \<longrightarrow> \<not> is_cumulative q)"

definition counted_reports :: "usage_record multiset \<Rightarrow> usage_record multiset" where
  "counted_reports M = filter_mset (counted (set_mset M)) M"

definition amount :: "string option \<Rightarrow> int" where
  "amount v = (case v of None \<Rightarrow> 0 | Some s \<Rightarrow> parse_digits s)"

definition usage_total :: "(session_usage \<Rightarrow> string option) \<Rightarrow> usage_record multiset \<Rightarrow> int" where
  "usage_total f M = (\<Sum>r\<in>#M. amount (f (urec_usage r)))"

definition in_currency :: "string \<Rightarrow> usage_record \<Rightarrow> bool" where
  "in_currency c r = (us_costMicros (urec_usage r) \<noteq> None \<and> opt_or (us_currency (urec_usage r)) ''UNKNOWN'' = c)"

section \<open>Decimal arithmetic\<close>

lemma digit_val_range: "is_digit c \<Longrightarrow> 0 \<le> digit_val c"
  by (simp add: is_digit_def digit_val_def less_eq_char_def)

lemma parse_digits_nonneg: "list_all is_digit s \<Longrightarrow> 0 \<le> parse_digits s"
proof (induction s rule: rev_induct)
  case Nil
  then show ?case by (simp add: parse_digits_def)
next
  case (snoc c s)
  then show ?case using digit_val_range [of c] by (simp add: parse_digits_snoc)
qed

lemma parse_show: "0 \<le> n \<Longrightarrow> parse_digits (show_int n) = n"
proof (induction n rule: show_int.induct)
  case (1 n)
  show ?case
  proof (cases "n < 10")
    case True
    with 1 show ?thesis by (subst show_int.simps) (simp add: parse_digits_def digit_val_def digit_char_def)
  next
    case False
    with 1 have "parse_digits (show_int (n div 10)) = n div 10" by auto
    moreover have "digit_val (digit_char (n mod 10)) = n mod 10"
      by (simp add: digit_val_def digit_char_def)
    ultimately show ?thesis using 1 False by (subst show_int.simps) (simp add: parse_digits_snoc)
  qed
qed

lemma show_zero: "show_int 0 = ''0''"
  by code_simp

definition valid_amount :: "string option \<Rightarrow> bool" where
  "valid_amount v = (case v of None \<Rightarrow> True | Some s \<Rightarrow> decimal_shape s)"

lemma amount_nonneg: "valid_amount v \<Longrightarrow> 0 \<le> amount v"
  by (auto simp: valid_amount_def amount_def decimal_shape_def parse_digits_nonneg is_digit_def split: option.splits)

lemma usage_add_show: "0 \<le> n \<Longrightarrow> valid_amount v \<Longrightarrow> usage_add (show_int n) v = show_int (n + amount v)"
  by (cases v) (auto simp: usage_add_def valid_amount_def amount_def parse_show decimal_shape_def)

definition valid_counters :: "usage_record \<Rightarrow> bool" where
  "valid_counters r = list_all (\<lambda>f. valid_amount (f (urec_usage r)))
    [us_inputTokens, us_outputTokens, us_cachedInputTokens, us_reasoningTokens, us_totalTokens, us_costMicros]"

lemma usage_total_simps [simp]:
  "usage_total f {#} = 0" "usage_total f (add_mset r M) = amount (f (urec_usage r)) + usage_total f M"
  by (simp_all add: usage_total_def)

lemma usage_total_nonneg:
  "(\<And>r. r \<in># M \<Longrightarrow> valid_amount (f (urec_usage r))) \<Longrightarrow> 0 \<le> usage_total f M"
  by (induction M) (auto simp: amount_nonneg)

section \<open>The totals\<close>

definition totals_of :: "usage_record multiset \<Rightarrow> usage_aggregate \<Rightarrow> bool" where
  "totals_of M a =
    (ua_reportCount a = size M
     \<and> ua_inputTokens a = show_int (usage_total us_inputTokens M)
     \<and> ua_outputTokens a = show_int (usage_total us_outputTokens M)
     \<and> ua_cachedInputTokens a = show_int (usage_total us_cachedInputTokens M)
     \<and> ua_reasoningTokens a = show_int (usage_total us_reasoningTokens M)
     \<and> ua_totalTokens a = show_int (usage_total us_totalTokens M)
     \<and> ua_costMicros a = show_int (usage_total us_costMicros M))"

lemma add_report_totals:
  assumes "totals_of M a" and "valid_counters r" and "\<forall>q\<in>#M. valid_counters q"
  shows "totals_of (add_mset r M) (add_report a r)"
  using assms
  by (auto simp: totals_of_def add_report_def Let_def valid_counters_def usage_add_show usage_total_nonneg add.commute)

lemma add_reports_totals:
  assumes "totals_of M a" and "\<forall>r\<in>set rs. valid_counters r" and "\<forall>q\<in>#M. valid_counters q"
  shows "totals_of (mset rs + M) (foldl add_report a rs)"
  using assms
proof (induction rs arbitrary: a M)
  case (Cons r rs)
  then show ?case using Cons.IH [of "add_mset r M" "add_report a r"] add_report_totals by auto
qed auto

lemma zero_totals: "totals_of {#} zeroAggregate"
  by (simp add: totals_of_def zeroAggregate_def show_zero)

lemma add_report_other [simp]:
  "ua_sessionCount (add_report a r) = ua_sessionCount a" "ua_currency (add_report a r) = ua_currency a"
  "ua_costMicrosByCurrency (add_report a r) = ua_costMicrosByCurrency a"
  by (simp_all add: add_report_def Let_def)

lemma add_reports_other [simp]:
  "ua_currency (foldl add_report a rs) = ua_currency a"
  by (induction rs arbitrary: a) auto

lemma zero_currency [simp]: "ua_currency zeroAggregate = None"
  by (simp add: zeroAggregate_def)

definition currency_totals :: "usage_record multiset \<Rightarrow> (string, string) jsmap \<Rightarrow> bool" where
  "currency_totals M m =
    (js_wf m \<and> (\<forall>c. js_get m c =
      (if \<exists>r\<in>#M. in_currency c r then Some (show_int (usage_total us_costMicros (filter_mset (in_currency c) M)))
       else None)))"

lemma add_currency_totals:
  assumes "currency_totals M m" and "valid_counters r" and valid: "\<forall>q\<in>#M. valid_counters q"
  shows "currency_totals (add_mset r M) (add_currency m r)"
proof (cases "us_costMicros (urec_usage r)")
  case None
  then have "\<not> in_currency c r" for c by (simp add: in_currency_def)
  with None assms(1) show ?thesis by (simp add: currency_totals_def add_currency_def)
next
  case (Some v)
  define c where "c = opt_or (us_currency (urec_usage r)) ''UNKNOWN''"
  have inc: "in_currency c' r \<longleftrightarrow> c' = c" for c' using Some by (auto simp: in_currency_def c_def)
  have old: "opt_or (js_get m c) ''0'' = show_int (usage_total us_costMicros (filter_mset (in_currency c) M))"
  proof (cases "\<exists>r\<in>#M. in_currency c r")
    case False
    then have none: "filter_mset (in_currency c) M = {#}" by (auto simp: filter_mset_eq_conv intro!: multiset_eqI)
    show ?thesis using False assms(1) by (simp add: none currency_totals_def show_zero)
  qed (use assms(1) in \<open>simp add: currency_totals_def\<close>)
  have "0 \<le> usage_total us_costMicros (filter_mset (in_currency c) M)"
    by (rule usage_total_nonneg) (use valid in \<open>auto simp: valid_counters_def\<close>)
  moreover have "valid_amount (us_costMicros (urec_usage r))" using assms(2) by (simp add: valid_counters_def)
  ultimately have "usage_add (opt_or (js_get m c) ''0'') (us_costMicros (urec_usage r)) =
      show_int (usage_total us_costMicros (filter_mset (in_currency c) (add_mset r M)))"
    by (simp add: old usage_add_show inc add.commute)
  with Some assms(1) show ?thesis
    by (auto simp: currency_totals_def add_currency_def Let_def js_map_simps inc simp flip: c_def)
qed

lemma add_currencies_totals:
  assumes "currency_totals M m" and "\<forall>r\<in>set rs. valid_counters r" and "\<forall>q\<in>#M. valid_counters q"
  shows "currency_totals (mset rs + M) (foldl add_currency m rs)"
  using assms
proof (induction rs arbitrary: m M)
  case (Cons r rs)
  then show ?case using Cons.IH [of "add_mset r M" "add_currency m r"] add_currency_totals by auto
qed auto

section \<open>The scan\<close>

abbreviation usage_seq :: "usage_record \<Rightarrow> int" where
  "usage_seq r \<equiv> us_sequence (urec_usage r)"

definition latest_cumulative :: "usage_record list \<Rightarrow> string \<Rightarrow> usage_record \<Rightarrow> bool" where
  "latest_cumulative rs k r =
    (r \<in> set rs \<and> is_cumulative r \<and> attempt_key r = k
     \<and> (\<forall>q\<in>set rs. is_cumulative q \<and> attempt_key q = k \<longrightarrow> usage_seq q \<le> usage_seq r))"

definition scan_ok :: "usage_record list \<Rightarrow> usage_scan \<Rightarrow> bool" where
  "scan_ok rs sc =
    (set (sc_bySession sc) = urec_sessionId ` set rs \<and> distinct (sc_bySession sc)
     \<and> sc_deltaRecords sc = filter (\<lambda>r. \<not> is_cumulative r) rs
     \<and> set (sc_deltas sc) = report_key ` set (sc_deltaRecords sc)
     \<and> (\<forall>k. set (opt_or (js_get (sc_kinds sc) k) []) = (\<lambda>r. us_kind (urec_usage r)) ` {r \<in> set rs. attempt_key r = k})
     \<and> js_wf (sc_cumulative sc)
     \<and> (\<forall>k r. js_get (sc_cumulative sc) k = Some r \<longrightarrow> latest_cumulative rs k r)
     \<and> (\<forall>k. js_get (sc_cumulative sc) k = None \<longrightarrow> (\<forall>r\<in>set rs. attempt_key r = k \<longrightarrow> \<not> is_cumulative r)))"

lemma kind_delta: "us_kind (urec_usage r) = Delta \<longleftrightarrow> \<not> is_cumulative r"
  by (cases "us_kind (urec_usage r)") (auto simp: is_cumulative_def)

lemma scan_record_ok:
  assumes ok: "scan_ok rs sc" and fresh: "report_key r \<notin> report_key ` set rs"
  shows "scan_ok (rs @ [r]) (scan_record sc r)"
proof (cases "is_cumulative r")
  case False
  have "report_key r \<notin> set (sc_deltas sc)" using ok fresh by (auto simp: scan_ok_def)
  moreover have "latest_cumulative (rs @ [r]) k q \<longleftrightarrow> latest_cumulative rs k q" for k q
    using False by (auto simp: latest_cumulative_def)
  ultimately show ?thesis using ok False
    by (auto simp: scan_ok_def scan_record_def Let_def kind_delta js_map_simps)
next
  case True
  have late: "latest_cumulative (rs @ [r]) k q \<longleftrightarrow>
      (if attempt_key r = k
       then (if q = r then \<forall>q\<in>set rs. is_cumulative q \<and> attempt_key q = k \<longrightarrow> usage_seq q \<le> usage_seq r
             else latest_cumulative rs k q \<and> usage_seq r \<le> usage_seq q)
       else latest_cumulative rs k q)" for k q
    using True by (auto simp: latest_cumulative_def)
  show ?thesis
  proof (cases "js_get (sc_cumulative sc) (attempt_key r)")
    case None
    with ok True show ?thesis
      by (auto simp: scan_ok_def scan_record_def Let_def kind_delta js_map_simps late)
  next
    case (Some p)
    then have p: "latest_cumulative rs (attempt_key r) p" using ok by (simp add: scan_ok_def)
    then have "p \<noteq> r" using fresh by (auto simp: latest_cumulative_def)
    moreover have "\<forall>q\<in>set rs. is_cumulative q \<and> attempt_key q = attempt_key r \<longrightarrow> usage_seq q \<le> usage_seq p"
      using p by (simp add: latest_cumulative_def)
    ultimately show ?thesis using ok True Some p
      by (auto simp: scan_ok_def scan_record_def Let_def kind_delta js_map_simps late)
  qed
qed

lemma scan_records_ok:
  "distinct (map report_key rs) \<Longrightarrow> scan_ok rs (scan_records rs)"
proof (induction rs rule: rev_induct)
  case Nil
  then show ?case by (simp add: scan_records_def scan_ok_def js_map_simps)
next
  case (snoc r rs)
  then show ?case using scan_record_ok [of rs "scan_records rs" r] by (auto simp: scan_records_def)
qed

lemma accepted_counted:
  assumes keys: "distinct (map report_key rs)"
  shows "mset (accepted_reports (scan_records rs)) = counted_reports (mset rs)"
proof -
  let ?sc = "scan_records rs"
  have ok: "scan_ok rs ?sc" by (rule scan_records_ok [OF keys])
  have dist: "distinct rs" using keys by (simp add: distinct_map)
  have wf: "js_wf (sc_cumulative ?sc)" using ok by (simp add: scan_ok_def)
  have late: "js_get (sc_cumulative ?sc) k = Some r \<longleftrightarrow> latest_cumulative rs k r" for k r
  proof
    assume "latest_cumulative rs k r"
    then have r: "r \<in> set rs" "is_cumulative r" "attempt_key r = k"
      "\<And>q. q \<in> set rs \<Longrightarrow> is_cumulative q \<Longrightarrow> attempt_key q = k \<Longrightarrow> usage_seq q \<le> usage_seq r"
      by (auto simp: latest_cumulative_def)
    with ok obtain p where p: "js_get (sc_cumulative ?sc) k = Some p"
      by (cases "js_get (sc_cumulative ?sc) k") (auto simp: scan_ok_def)
    with ok have lp: "latest_cumulative rs k p" by (auto simp: scan_ok_def)
    with r have "usage_seq p = usage_seq r" by (force simp: latest_cumulative_def)
    with lp r have "report_key p = report_key r" by (simp add: report_key_def latest_cumulative_def)
    with keys lp r have "p = r" by (auto simp: latest_cumulative_def distinct_map dest: inj_onD)
    with p show "js_get (sc_cumulative ?sc) k = Some r" by simp
  qed (use ok in \<open>auto simp: scan_ok_def\<close>)
  have vals: "set (js_values (sc_cumulative ?sc)) = {r \<in> set rs. is_cumulative r \<and> counted (set rs) r}"
    by (auto simp: js_values_iff [OF wf] late latest_cumulative_def counted_def)
  have "distinct (js_values (sc_cumulative ?sc))"
    by (rule distinct_js_values [OF wf]) (auto simp: late latest_cumulative_def)
  then have cumulative: "mset (js_values (sc_cumulative ?sc)) = mset (filter (\<lambda>r. is_cumulative r \<and> counted (set rs) r) rs)"
    using dist by (intro set_eq_iff_mset_eq_distinct [THEN iffD1]) (auto simp: vals)
  have "List.member (opt_or (js_get (sc_kinds ?sc) k) []) Cumulative \<longleftrightarrow>
      (\<exists>q\<in>set rs. attempt_key q = k \<and> is_cumulative q)" for k
  proof -
    have "set (opt_or (js_get (sc_kinds ?sc) k) []) = (\<lambda>r. us_kind (urec_usage r)) ` {r \<in> set rs. attempt_key r = k}"
      using ok by (simp add: scan_ok_def)
    then show ?thesis by (auto simp: List.member_iff is_cumulative_def image_iff)
  qed
  then have deltas: "filter (\<lambda>r. \<not> List.member (opt_or (js_get (sc_kinds ?sc) (attempt_key r)) []) Cumulative) (sc_deltaRecords ?sc)
      = filter (\<lambda>r. \<not> is_cumulative r \<and> counted (set rs) r) rs"
    using ok by (auto simp: scan_ok_def counted_def intro!: filter_cong)
  have split: "mset (filter P rs) = mset (filter (\<lambda>r. is_cumulative r \<and> P r) rs) + mset (filter (\<lambda>r. \<not> is_cumulative r \<and> P r) rs)" for P
    by (induction rs) auto
  have "mset (accepted_reports ?sc) = mset (filter (counted (set rs)) rs)"
    by (simp only: accepted_reports_def mset_append cumulative deltas split [of "counted (set rs)"])
  then show ?thesis by (simp add: counted_reports_def)
qed

section \<open>The aggregate refines its specification\<close>

definition usage_spec :: "usage_record multiset \<Rightarrow> usage_aggregate \<Rightarrow> bool" where
  "usage_spec M a =
    (let C = counted_reports M; currencies = {c. \<exists>r\<in>#C. in_currency c r}
     in ua_sessionCount a = card (urec_sessionId ` set_mset M)
        \<and> ua_reportCount a = size C
        \<and> ua_inputTokens a = show_int (usage_total us_inputTokens C)
        \<and> ua_outputTokens a = show_int (usage_total us_outputTokens C)
        \<and> ua_cachedInputTokens a = show_int (usage_total us_cachedInputTokens C)
        \<and> ua_reasoningTokens a = show_int (usage_total us_reasoningTokens C)
        \<and> ua_totalTokens a = show_int (usage_total us_totalTokens C)
        \<and> currency_totals C (ua_costMicrosByCurrency a)
        \<and> (case ua_currency a of
             Some c \<Rightarrow> c \<notin> {[], ''UNKNOWN''} \<and> currencies = {c} \<and> ua_costMicros a = show_int (usage_total us_costMicros C)
           | None \<Rightarrow> ua_costMicros a = ''0'' \<and> \<not> (\<exists>c. c \<notin> {[], ''UNKNOWN''} \<and> currencies = {c})))"

lemma distinct_singleton: "distinct ks \<Longrightarrow> set ks = {c} \<longleftrightarrow> ks = [c]"
  by (cases ks) (auto simp: subset_singleton_iff)

lemma currency_keys:
  assumes "currency_totals M m"
  shows "{c. \<exists>r\<in>#M. in_currency c r} = {c} \<longleftrightarrow> js_keys m = [c]"
proof -
  have "c' \<in> set (js_keys m) \<longleftrightarrow> (\<exists>r\<in>#M. in_currency c' r)" for c'
    using assms js_get_keys [of m c'] by (auto simp: currency_totals_def split: if_splits)
  then have "{c. \<exists>r\<in>#M. in_currency c r} = set (js_keys m)" by auto
  moreover have "distinct (js_keys m)" using assms by (simp add: currency_totals_def js_wf_def js_keys_def)
  ultimately show ?thesis by (auto simp: distinct_singleton)
qed


section \<open>Validated reports\<close>

lemma opt_member_get:
  "js_get (opt_member k v @ m) k' = (if k' = k \<and> v \<noteq> None then map_option JStr v else js_get m k')"
  by (cases v) (auto simp: opt_member_def js_get_def)

lemma decimal_amount: "v = None \<or> isDecimal (map_option JStr v) \<Longrightarrow> valid_amount v"
  by (cases v) (auto simp: isDecimal_def valid_amount_def)

lemma usage_json_fields:
  assumes "usage_json u = JObj m"
  shows "js_get m ''inputTokens'' = map_option JStr (us_inputTokens u)"
    and "js_get m ''outputTokens'' = map_option JStr (us_outputTokens u)"
    and "js_get m ''cachedInputTokens'' = map_option JStr (us_cachedInputTokens u)"
    and "js_get m ''reasoningTokens'' = map_option JStr (us_reasoningTokens u)"
    and "js_get m ''totalTokens'' = map_option JStr (us_totalTokens u)"
    and "js_get m ''costMicros'' = map_option JStr (us_costMicros u)"
  using assms by (auto simp: usage_json_def opt_member_get js_get_Cons)

lemma validated_counters:
  assumes "validateUsage (usage_json (urec_usage r))"
  shows "valid_counters r"
proof -
  obtain m where m: "usage_json (urec_usage r) = JObj m" by (simp add: usage_json_def)
  with assms have "list_all (\<lambda>f. js_get m f = None \<or> isDecimal (js_get m f)) usage_field_names"
    by (simp add: validateUsage_def)
  then show ?thesis
    by (simp add: usage_field_names_def usage_json_fields [OF m] valid_counters_def decimal_amount)
qed

lemma cost_steps:
  "foldl cost_step (t, seen) ps =
    (t + (\<Sum>(a, r)\<leftarrow>filter (\<lambda>(a, r). a \<noteq> None \<and> r \<noteq> None) ps. parse_digits (the a) * parse_digits (the r)),
     seen \<or> (\<exists>(a, r)\<in>set ps. a \<noteq> None \<and> r \<noteq> None))"
proof (induction ps arbitrary: t seen)
  case (Cons p ps)
  obtain a r where p: "p = (a, r)" by force
  show ?case by (cases a; cases r) (auto simp: p Cons.IH)
qed simp

text \<open>A derived cost is the exact sum of tokens times rate over the counters with a rate, and is
  absent when no counter has one.\<close>
lemma cost_from_rates_exact:
  "costFromRates u r =
    (if \<exists>(a, b)\<in>set (cost_pairs u r). a \<noteq> None \<and> b \<noteq> None
     then Some (show_int (\<Sum>(a, b)\<leftarrow>filter (\<lambda>(a, b). a \<noteq> None \<and> b \<noteq> None) (cost_pairs u r).
       parse_digits (the a) * parse_digits (the b)))
     else None)"
  by (simp add: costFromRates_def cost_steps Let_def)

text \<open>The validator tests the currency with a regular expression, which converts an array to a string
  first: a report whose currency is an array is accepted as a \<open>SessionUsage\<close>.\<close>
lemma array_currency_accepted:
  "validateUsage (JObj [(''kind'', JStr ''delta''), (''sequence'', JNum 1), (''source'', JStr ''cli''),
     (''observedAt'', JStr ''2026-01-05T10:00:00Z''), (''costMicros'', JStr ''5''),
     (''currency'', JArr [JStr ''USD''])])"
  by code_simp

definition sample_usage :: session_usage where
  "sample_usage = \<lparr>us_kind = Cumulative, us_sequence = 1, us_inputTokens = Some ''10'', us_outputTokens = None,
    us_cachedInputTokens = None, us_reasoningTokens = None, us_totalTokens = None, us_costMicros = Some ''7'',
    us_currency = Some ''USD'', us_observedAt = ''2026-01-05T10:00:00.000Z''\<rparr>"

definition sample_report :: usage_record where
  "sample_report = \<lparr>urec_usage = sample_usage, urec_sessionId = ''s1'', urec_repositoryId = ''r1'',
    urec_providerId = None, urec_providerAccountId = None, urec_commandId = None, urec_attemptId = ''a1'',
    urec_worktreeId = None, urec_receivedAt = ''2026-01-05T10:00:00.000Z''\<rparr>"

definition later_report :: usage_record where
  "later_report = sample_report\<lparr>urec_usage := sample_usage\<lparr>us_sequence := 2, us_inputTokens := Some ''25''\<rparr>\<rparr>"


end
