(* ===== verification/Records.thy ===== *)
theory Records
  imports Usage
begin

text \<open>
  The data of the control plane, field by field: \<open>SessionRecord\<close>, \<open>WorktreeRecord\<close> and
  \<open>WorkspaceSlotRecord\<close> (\<open>services/api/src/db/types.ts\<close>), \<open>ConnectionRecord\<close>
  (\<open>db/plane-storage-types.ts\<close>), the catalog entries \<open>Provider\<close>, \<open>ProviderAccount\<close> and
  \<open>Command\<close> and the routing target (\<open>modules/shared/src\<close>). An optional field is an
  \<open>option\<close>; a field of type \<open>string | null | undefined\<close> is a \<open>nullable\<close>. Free-form JSON
  (metadata, results) is kept as \<open>json\<close>.

  \<open>isTerminalSessionStatus\<close> and the other status predicates of
  \<open>modules/shared/src/validation.ts\<close> are here because every component uses them.
\<close>

section \<open>Enumerations\<close>

datatype session_status = Queued | Running | Completed | Failed | Cancelled | Timed_out

datatype session_type = Type_prompt | Type_scheduled | Type_workspace

datatype worktree_status = Idle | Busy | Wt_error

datatype infra_code = Checkout_fetch_failed | Host_lost

datatype command_start_state = Pending | Authorized

datatype log_stream = Stdout | Stderr | System

datatype host_capability = Scheduled_main_checkout | Prior_session_context | Workspace_sessions
  | Session_spawn | Session_outputs

datatype target_ref = Provider_target string | Command_target string

definition TERMINAL_SESSION_STATUSES :: "session_status list" where
  "TERMINAL_SESSION_STATUSES = [Completed, Failed, Cancelled, Timed_out]"

definition ACTIVE_SESSION_STATUSES :: "session_status list" where
  "ACTIVE_SESSION_STATUSES = [Queued, Running]"

definition isTerminalSessionStatus :: "session_status \<Rightarrow> bool" where
  "isTerminalSessionStatus s = List.member TERMINAL_SESSION_STATUSES s"

definition isActiveSessionStatus :: "session_status \<Rightarrow> bool" where
  "isActiveSessionStatus s = List.member ACTIVE_SESSION_STATUSES s"

fun status_name :: "session_status \<Rightarrow> string" where
  "status_name Queued = ''queued''"
| "status_name Running = ''running''"
| "status_name Completed = ''completed''"
| "status_name Failed = ''failed''"
| "status_name Cancelled = ''cancelled''"
| "status_name Timed_out = ''timed_out''"

fun infra_code_name :: "infra_code \<Rightarrow> string" where
  "infra_code_name Checkout_fetch_failed = ''checkout_fetch_failed''"
| "infra_code_name Host_lost = ''host_lost''"

section \<open>Catalog\<close>

datatype capture_stream = Capture_stdout | Capture_stderr | Capture_either

record resume_ref_capture =
  rrc_stream :: capture_stream
  rrc_linePrefix :: string

record provider =
  prov_id :: string
  prov_name :: string
  prov_defaultCommandId :: "string option"
  prov_usageRates :: "usage_rates option"

record provider_account =
  acct_id :: string
  acct_providerId :: string
  acct_label :: string
  acct_usageLimitCooldownSeconds :: int
  acct_maxConcurrentSessions :: "int option"
  acct_usageLimitedUntil :: "string option"
  acct_lastUsageLimitedAt :: "string option"
  acct_lastAssignedAt :: "string option"
  acct_createdAt :: string
  acct_updatedAt :: string

record command =
  cmd_id :: string
  cmd_name :: string
  cmd_argv :: "string list"
  cmd_appendPrompt :: bool
  cmd_appendPromptSeparator :: "bool option"
  cmd_resumeArgvTemplate :: "string list option"
  cmd_resumeRefCapture :: "resume_ref_capture option"
  cmd_providerId :: "string option"

record session_resume_spec =
  rs_resumeArgvTemplate :: "string list option"
  rs_resumeRefCapture :: "resume_ref_capture option"
  rs_argv :: "string list"
  rs_appendPrompt :: bool
  rs_appendPromptSeparator :: "bool option"

section \<open>Sessions\<close>

record resolved_route =
  rr_targetIndex :: nat
  rr_providerId :: "string option"
  rr_providerAccountId :: "string option"
  rr_commandId :: string
  rr_hostId :: string
  rr_worktreeId :: "string option"
  rr_workspacePoolId :: "string option"
  rr_workspaceSlotId :: "string option"
  rr_attemptId :: string

record account_lease =
  pal_concurrencyId :: string
  pal_providerAccountId :: string
  pal_slot :: nat
  pal_attemptId :: string

record terminal_hook_handoff =
  thh_handoffId :: string
  thh_attemptId :: "string option"
  thh_hostId :: string
  thh_repositoryId :: string
  thh_worktreeId :: "string option"
  thh_mainCheckoutLease :: bool
  thh_status :: session_status
  thh_errorCode :: "string option"
  thh_expiresAt :: string
  thh_ref :: "string option"
  thh_metadata :: "json option"

record session_record =
  s_retentionToken :: "string option"
  s_retentionClaimedAt :: "string option"
  s_sessionOutputsSupported :: "bool option"
  s_outputsUploadExpiresAt :: "string option"
  s_terminalHookLifecycleEnqueuedAt :: "string option"
  s_id :: string
  s_repositoryId :: string
  s_workspacePoolId :: "string option"
  s_workspaceSlotId :: "string nullable"
  s_setupProfileId :: "string option"
  s_workspaceSetupScript :: "string option"
  s_destroyWorkspaceAfter :: "bool option"
  s_prompt :: string
  s_target :: target_ref
  s_fallbacks :: "target_ref list"
  s_targetDisplayNames :: "string list"
  s_queueTtlSeconds :: int
  s_queueExpiresAt :: string
  s_resolvedRoute :: "resolved_route option"
  s_attemptId :: "string option"
  s_suppressedTargetIndexes :: "nat list option"
  s_resolvedArgv :: "string list option"
  s_resumeSpec :: "session_resume_spec option"
  s_timeout :: int
  s_priority :: int
  s_requiredLabels :: "string list"
  s_status :: session_status
  s_queueShard :: int
  s_createdAt :: string
  s_ref :: "string option"
  s_worktreeId :: "string nullable"
  s_hostId :: "string nullable"
  s_activeHostId :: "string option"
  s_activeHostOrder :: "string option"
  s_concurrencyId :: "string option"
  s_scheduleId :: "string option"
  s_metadata :: "json option"
  s_principalId :: "string option"
  s_parentSessionId :: "string option"
  s_rootSessionId :: "string option"
  s_descendantCount :: "int option"
  s_sessionApiKeyHash :: "string option"
  s_cancelledByDrainOperationId :: "string option"
  s_errorCode :: "string option"
  s_errorMessage :: "string option"
  s_infrastructureRetryCount :: "nat option"
  s_lastInfrastructureErrorCode :: "infra_code option"
  s_infrastructureRetryAttemptId :: "string option"
  s_url :: "string option"
  s_type :: "session_type option"
  s_source :: "string option"
  s_startedAt :: "string option"
  s_completedAt :: "string option"
  s_ackReceivedAt :: "string option"
  s_assignmentConnectionId :: "string option"
  s_assignmentSentAt :: "string option"
  s_primaryCommandStartState :: "command_start_state option"
  s_reconnectDeadlineAt :: "string option"
  s_exitCode :: "int nullable"
  s_cliResumeRef :: "string option"
  s_result :: "json option"
  s_resumedFromSessionId :: "string option"
  s_pinnedHostId :: "string nullable"
  s_pinnedProviderAccountId :: "string nullable"
  s_pinnedTargetIndex :: "nat option"
  s_pinnedCommandId :: "string option"
  s_pinExpiresAt :: "string option"
  s_resumeFallback :: "bool option"
  s_mainCheckoutLease :: "bool option"
  s_workspaceSlotLease :: "bool option"
  s_providerAccountLease :: "account_lease option"
  s_timedOutHostId :: "string option"
  s_timedOutAssignmentConnectionId :: "string option"
  s_hostAssignmentLease :: "string option"
  s_terminalHookHandoff :: "terminal_hook_handoff option"
  s_terminalHookHandoffSettled :: "(string \<times> string) option"
  s_terminalHookHandoffExpiredAt :: "string option"

section \<open>Host inventory\<close>

record workspace_slot_record =
  slot_id :: string
  slot_name :: string
  slot_hostId :: string
  slot_workspacePoolId :: string
  slot_path :: string
  slot_status :: worktree_status
  slot_online :: bool
  slot_currentSessionId :: "string option"
  slot_retired :: "bool option"
  slot_connectionId :: "string option"
  slot_lastAssignedAt :: "string option"
  slot_errorMessage :: "string option"

record worktree_record =
  wt_id :: string
  wt_name :: string
  wt_hostId :: string
  wt_repositoryId :: string
  wt_path :: string
  wt_labels :: "string list"
  wt_status :: worktree_status
  wt_online :: bool
  wt_currentSessionId :: "string option"
  wt_connectionId :: "string option"
  wt_lastAssignedAt :: "string option"

record account_readiness =
  ready_providerAccountId :: string
  ready_ready :: bool
  ready_fingerprint :: string

record host_runtime =
  hrt_daemonVersion :: string
  hrt_gitVersion :: "string option"
  hrt_gitReady :: bool
  hrt_gitReadinessReason :: "string option"
  hrt_environmentNames :: "string list option"
  hrt_environmentNamesCaseSensitive :: "bool option"

record connection_record =
  conn_connectionId :: string
  conn_is_host :: bool
  conn_hostId :: string
  conn_connectedAt :: string
  conn_lastHeartbeatAt :: string
  conn_repositoryIds :: "string list option"
  conn_capabilities :: "host_capability list option"
  conn_maxConcurrentAssignments :: "nat option"
  conn_providerAccountReadiness :: "account_readiness list option"
  conn_runtime :: "host_runtime option"
  conn_protocolVersion :: "nat option"
  conn_negotiatedProtocolVersion :: "nat option"
  conn_registered :: "bool option"

section \<open>Predicates on sessions\<close>

fun truthy_nullable :: "string nullable \<Rightarrow> bool" where
  "truthy_nullable (Val s) = (s \<noteq> '''')"
| "truthy_nullable _ = False"

definition truthy_bool :: "bool option \<Rightarrow> bool" where
  "truthy_bool b = (b = Some True)"

definition hasHostCapability :: "host_capability list option \<Rightarrow> host_capability \<Rightarrow> bool" where
  "hasHostCapability caps c = (case caps of None \<Rightarrow> False | Some cs \<Rightarrow> List.member cs c)"

lemma isTerminal_simps [simp]:
  "isTerminalSessionStatus Queued = False" "isTerminalSessionStatus Running = False"
  "isTerminalSessionStatus Completed" "isTerminalSessionStatus Failed"
  "isTerminalSessionStatus Cancelled" "isTerminalSessionStatus Timed_out"
  by (simp_all add: isTerminalSessionStatus_def TERMINAL_SESSION_STATUSES_def)

lemma isActive_simps [simp]:
  "isActiveSessionStatus Queued" "isActiveSessionStatus Running"
  "isActiveSessionStatus Completed = False" "isActiveSessionStatus Failed = False"
  "isActiveSessionStatus Cancelled = False" "isActiveSessionStatus Timed_out = False"
  by (simp_all add: isActiveSessionStatus_def ACTIVE_SESSION_STATUSES_def)

lemma active_not_terminal: "isActiveSessionStatus s \<longleftrightarrow> \<not> isTerminalSessionStatus s"
  by (cases s) auto

section \<open>An empty session\<close>

definition blank_session :: session_record where
  "blank_session =
    \<lparr>s_retentionToken = None, s_retentionClaimedAt = None, s_sessionOutputsSupported = None,
     s_outputsUploadExpiresAt = None, s_terminalHookLifecycleEnqueuedAt = None, s_id = '''',
     s_repositoryId = '''', s_workspacePoolId = None, s_workspaceSlotId = Undefined,
     s_setupProfileId = None, s_workspaceSetupScript = None, s_destroyWorkspaceAfter = None,
     s_prompt = '''', s_target = Command_target '''', s_fallbacks = [], s_targetDisplayNames = [],
     s_queueTtlSeconds = 691200, s_queueExpiresAt = '''', s_resolvedRoute = None, s_attemptId = None,
     s_suppressedTargetIndexes = None, s_resolvedArgv = None, s_resumeSpec = None, s_timeout = 60,
     s_priority = 0, s_requiredLabels = [], s_status = Queued, s_queueShard = 0, s_createdAt = '''',
     s_ref = None, s_worktreeId = Undefined, s_hostId = Undefined, s_activeHostId = None,
     s_activeHostOrder = None, s_concurrencyId = None, s_scheduleId = None, s_metadata = None,
     s_principalId = None, s_parentSessionId = None, s_rootSessionId = None,
     s_descendantCount = None, s_sessionApiKeyHash = None, s_cancelledByDrainOperationId = None,
     s_errorCode = None, s_errorMessage = None, s_infrastructureRetryCount = None,
     s_lastInfrastructureErrorCode = None, s_infrastructureRetryAttemptId = None, s_url = None,
     s_type = None, s_source = None, s_startedAt = None, s_completedAt = None,
     s_ackReceivedAt = None, s_assignmentConnectionId = None, s_assignmentSentAt = None,
     s_primaryCommandStartState = None, s_reconnectDeadlineAt = None, s_exitCode = Undefined,
     s_cliResumeRef = None, s_result = None, s_resumedFromSessionId = None,
     s_pinnedHostId = Undefined, s_pinnedProviderAccountId = Undefined, s_pinnedTargetIndex = None,
     s_pinnedCommandId = None, s_pinExpiresAt = None, s_resumeFallback = None,
     s_mainCheckoutLease = None, s_workspaceSlotLease = None, s_providerAccountLease = None,
     s_timedOutHostId = None, s_timedOutAssignmentConnectionId = None, s_hostAssignmentLease = None,
     s_terminalHookHandoff = None, s_terminalHookHandoffSettled = None,
     s_terminalHookHandoffExpiredAt = None\<rparr>"

end
