(* ===== verification/QueueOrder.thy ===== *)
theory QueueOrder
  imports Records
begin

text \<open>
  Queue order, \<open>services/api/src/control-plane-ordering.ts\<close>: the order keys stored in the
  index, the priority/FIFO comparator, the merge of the sorted shards and the round-robin
  order of worktrees.

  \<open>String.prototype.localeCompare\<close> depends on the collation of the runtime and is the
  parameter \<open>lc\<close> of the comparators; what the code relies on is that it is a consistent
  comparator (locale \<open>js_comparator\<close>), which the code-unit order \<open>str_compare\<close> is. The
  merge is the source's loop over the head of every shard, with the index of each shard
  kept beside it.

  The lemmas show that the queue handed to the scheduler is a sorted permutation of the
  queued sessions of its kind, and that the stored key sorts as the comparator does.
\<close>

type_synonym collation = "string \<Rightarrow> string \<Rightarrow> int"

section \<open>Definitions\<close>

definition routeWorktreeIdOf :: "session_record \<Rightarrow> string option" where
  "routeWorktreeIdOf s =
    (case s_resolvedRoute s of None \<Rightarrow> None
     | Some r \<Rightarrow> (case rr_worktreeId r of
         None \<Rightarrow> None | Some w \<Rightarrow> if w \<noteq> [] then Some w else None))"

definition QUEUE_ORDER_PRIORITY_OFFSET :: int where
  "QUEUE_ORDER_PRIORITY_OFFSET = 10000"

definition createdOrderKey :: "session_record \<Rightarrow> string" where
  "createdOrderKey s = s_createdAt s @ ''#'' @ s_id s"

definition clamp_priority :: "int \<Rightarrow> int" where
  "clamp_priority p = min (QUEUE_ORDER_PRIORITY_OFFSET * 2) (max 0 p)"

definition priorityOrderKey :: "session_record \<Rightarrow> string" where
  "priorityOrderKey s =
    pad_digits 5 (clamp_priority (QUEUE_ORDER_PRIORITY_OFFSET + s_priority s))
    @ ''#'' @ s_createdAt s @ ''#'' @ s_id s"

definition repositoryPriorityOrderKey :: "(string \<Rightarrow> string) \<Rightarrow> string \<Rightarrow> session_record \<Rightarrow> string" where
  "repositoryPriorityOrderKey sha256 repositoryId s =
    sha256 repositoryId @ ''#'' @ priorityOrderKey s"

definition compareSessionsForQueue :: "collation \<Rightarrow> session_record \<Rightarrow> session_record \<Rightarrow> int" where
  "compareSessionsForQueue lc a b =
    (if s_priority b \<noteq> s_priority a then s_priority b - s_priority a
     else by_then (lc (s_createdAt a) (s_createdAt b)) (lc (s_id a) (s_id b)))"

definition queueOrderKey :: "session_record \<Rightarrow> string" where
  "queueOrderKey s =
    pad_digits 5 (clamp_priority (QUEUE_ORDER_PRIORITY_OFFSET - s_priority s))
    @ ''#'' @ s_createdAt s @ ''#'' @ s_id s"

definition queueOrderKeyForWrite ::
    "string option \<Rightarrow> int option \<Rightarrow> string option \<Rightarrow> string \<Rightarrow> string" where
  "queueOrderKeyForWrite i p c fallbackId =
    queueOrderKey (blank_session\<lparr>
      s_id := (if truthy_str i then the i else fallbackId),
      s_priority := opt_or p 0,
      s_createdAt := opt_or c ''''\<rparr>)"

definition shard_head :: "'a list \<times> nat \<Rightarrow> 'a option" where
  "shard_head h = (if snd h < length (fst h) then Some (fst h ! snd h) else None)"

definition consider_shard ::
    "('a \<Rightarrow> 'a \<Rightarrow> int) \<Rightarrow> ('a list \<times> nat) list \<Rightarrow> nat option \<Rightarrow> nat \<Rightarrow> nat option" where
  "consider_shard cmp hs winner shard =
    (case shard_head (hs ! shard) of
       None \<Rightarrow> winner
     | Some candidate \<Rightarrow>
        (case winner of
           None \<Rightarrow> Some shard
         | Some w \<Rightarrow> if cmp candidate (fst (hs ! w) ! snd (hs ! w)) < 0 then Some shard else winner))"

definition pick_winner :: "('a \<Rightarrow> 'a \<Rightarrow> int) \<Rightarrow> ('a list \<times> nat) list \<Rightarrow> nat option" where
  "pick_winner cmp hs = foldl (consider_shard cmp hs) None [0..<length hs]"

definition advance :: "('a list \<times> nat) list \<Rightarrow> nat \<Rightarrow> ('a list \<times> nat) list" where
  "advance hs w = hs[w := (fst (hs ! w), snd (hs ! w) + 1)]"

definition remaining :: "('a list \<times> nat) list \<Rightarrow> nat" where
  "remaining hs = sum_list (map (\<lambda>h. length (fst h) - snd h) hs)"

lemma consider_shard_valid:
  assumes "case w of None \<Rightarrow> True | Some k \<Rightarrow> k < length hs \<and> shard_head (hs ! k) \<noteq> None"
    and "i < length hs"
  shows "case consider_shard cmp hs w i of None \<Rightarrow> True | Some k \<Rightarrow> k < length hs \<and> shard_head (hs ! k) \<noteq> None"
  using assms by (auto simp: consider_shard_def split: option.splits)

lemma pick_winner_valid:
  assumes "pick_winner cmp hs = Some w"
  shows "w < length hs \<and> snd (hs ! w) < length (fst (hs ! w))"
proof -
  have "case foldl (consider_shard cmp hs) None [0..<n] of None \<Rightarrow> True
      | Some k \<Rightarrow> k < length hs \<and> shard_head (hs ! k) \<noteq> None" if "n \<le> length hs" for n
    using that
  proof (induction n)
    case (Suc n)
    then show ?case using consider_shard_valid [where w = "foldl (consider_shard cmp hs) None [0..<n]" and hs = hs and i = n and cmp = cmp]
      by simp
  qed simp
  from this [of "length hs"] show ?thesis
    using assms by (auto simp: pick_winner_def shard_head_def split: if_splits)
qed

lemma remaining_advance:
  assumes "w < length hs" and "snd (hs ! w) < length (fst (hs ! w))"
  shows "remaining (advance hs w) < remaining hs"
proof -
  have hs: "hs = take w hs @ hs ! w # drop (Suc w) hs" using assms(1) by (rule id_take_nth_drop)
  have "remaining hs = remaining (take w hs) + (length (fst (hs ! w)) - snd (hs ! w)) + remaining (drop (Suc w) hs)"
    using arg_cong [OF hs, of remaining] by (simp add: remaining_def)
  moreover have "remaining (advance hs w) = remaining (take w hs)
      + (length (fst (hs ! w)) - Suc (snd (hs ! w))) + remaining (drop (Suc w) hs)"
    using assms(1) by (simp add: advance_def upd_conv_take_nth_drop remaining_def)
  ultimately show ?thesis using assms(2) by simp
qed

function merge_loop :: "('a \<Rightarrow> 'a \<Rightarrow> int) \<Rightarrow> ('a list \<times> nat) list \<Rightarrow> 'a list \<Rightarrow> 'a list" where
  "merge_loop cmp hs merged =
    (case pick_winner cmp hs of
       None \<Rightarrow> merged
     | Some w \<Rightarrow> merge_loop cmp (advance hs w) (merged @ [fst (hs ! w) ! snd (hs ! w)]))"
  by pat_completeness auto
termination merge_loop
  by (relation "measure (\<lambda>(cmp, hs, merged). remaining hs)")
     (auto dest: pick_winner_valid intro: remaining_advance)

declare merge_loop.simps [simp del]

definition mergeQueuedShardHeads :: "collation \<Rightarrow> session_record list list \<Rightarrow> session_record list" where
  "mergeQueuedShardHeads lc shards =
    merge_loop (compareSessionsForQueue lc) (map (\<lambda>s. (s, 0)) shards) []"

definition queue_type :: "session_record \<Rightarrow> session_type" where
  "queue_type s =
    (if s_type s = Some Type_scheduled then Type_scheduled
     else if s_type s = Some Type_workspace then Type_workspace
     else Type_prompt)"

definition push_shard ::
    "session_type \<Rightarrow> session_record list list \<Rightarrow> session_record \<Rightarrow> session_record list list" where
  "push_shard ty shards s =
    (if s_status s \<noteq> Queued then shards
     else if queue_type s \<noteq> ty then shards
     else if 0 \<le> s_queueShard s \<and> nat (s_queueShard s) < length shards
     then shards[nat (s_queueShard s) := shards ! nat (s_queueShard s) @ [s]]
     else shards)"

definition queuedSessionsByShard ::
    "collation \<Rightarrow> session_record list \<Rightarrow> nat \<Rightarrow> session_type \<Rightarrow> session_record list list" where
  "queuedSessionsByShard lc sessions shardCount ty =
    map (js_sort (compareSessionsForQueue lc))
      (foldl (push_shard ty) (replicate shardCount []) sessions)"

definition orderedQueuedSessions ::
    "collation \<Rightarrow> session_record list \<Rightarrow> nat \<Rightarrow> session_type \<Rightarrow> session_record list" where
  "orderedQueuedSessions lc sessions shardCount ty =
    mergeQueuedShardHeads lc (queuedSessionsByShard lc sessions shardCount ty)"

definition compareWorktreesForRoundRobin :: "collation \<Rightarrow> worktree_record \<Rightarrow> worktree_record \<Rightarrow> int" where
  "compareWorktreesForRoundRobin lc a b =
    by_then (lc (opt_or (wt_lastAssignedAt a) '''') (opt_or (wt_lastAssignedAt b) ''''))
      (lc (wt_id a) (wt_id b))"

definition sessionInWorktree :: "session_record \<Rightarrow> string \<Rightarrow> bool" where
  "sessionInWorktree s w = (routeWorktreeIdOf s = Some w \<or> s_worktreeId s = Val w)"

section \<open>The comparators are consistent\<close>

lemma queue_comparator:
  assumes "js_comparator lc"
  shows "js_comparator (compareSessionsForQueue lc)"
proof -
  have p: "js_comparator (\<lambda>a b. s_priority b - s_priority a)"
    using js_comparator_swap [OF js_comparator_on [OF js_comparator_minus, of s_priority]] by simp
  have c: "js_comparator (\<lambda>a b. lc (s_createdAt a) (s_createdAt b))"
    and i: "js_comparator (\<lambda>a b. lc (s_id a) (s_id b))"
    using js_comparator_on [OF assms] by blast+
  have "compareSessionsForQueue lc = (\<lambda>a b. by_then (s_priority b - s_priority a)
      (by_then (lc (s_createdAt a) (s_createdAt b)) (lc (s_id a) (s_id b))))"
    by (intro ext) (simp add: compareSessionsForQueue_def by_then_def)
  then show ?thesis using js_comparator_by_then [OF p js_comparator_by_then [OF c i]] by simp
qed

lemma round_robin_comparator:
  assumes "js_comparator lc"
  shows "js_comparator (compareWorktreesForRoundRobin lc)"
  unfolding compareWorktreesForRoundRobin_def
  by (intro js_comparator_by_then js_comparator_on [OF assms, of "\<lambda>w. opt_or (wt_lastAssignedAt w) ''''"]
      js_comparator_on [OF assms, of wt_id])

interpretation queue_order: js_comparator "compareSessionsForQueue str_compare"
  by (rule queue_comparator) (rule str_order.js_comparator_axioms)

interpretation round_robin: js_comparator "compareWorktreesForRoundRobin str_compare"
  by (rule round_robin_comparator) (rule str_order.js_comparator_axioms)

section \<open>Merging sorted shards\<close>

definition pending :: "('a list \<times> nat) list \<Rightarrow> 'a list" where
  "pending hs = concat (map (\<lambda>h. drop (snd h) (fst h)) hs)"

lemma mset_pending_advance:
  assumes "w < length hs" and "snd (hs ! w) < length (fst (hs ! w))"
  shows "mset (pending hs) = add_mset (fst (hs ! w) ! snd (hs ! w)) (mset (pending (advance hs w)))"
proof -
  let ?h = "hs ! w"
  have hs: "hs = take w hs @ ?h # drop (Suc w) hs" using assms(1) by (rule id_take_nth_drop)
  have d: "drop (snd ?h) (fst ?h) = fst ?h ! snd ?h # drop (Suc (snd ?h)) (fst ?h)"
    using assms(2) by (simp add: Cons_nth_drop_Suc)
  have "mset (pending hs) = mset (pending (take w hs)) + mset (drop (snd ?h) (fst ?h)) + mset (pending (drop (Suc w) hs))"
    using arg_cong [OF hs, of "\<lambda>x. mset (pending x)"] by (simp add: pending_def)
  moreover have "mset (pending (advance hs w)) = mset (pending (take w hs))
      + mset (drop (Suc (snd ?h)) (fst ?h)) + mset (pending (drop (Suc w) hs))"
    using assms(1) by (simp add: advance_def upd_conv_take_nth_drop pending_def)
  ultimately show ?thesis by (simp add: d)
qed

context js_comparator
begin

lemma winner_least:
  "n \<le> length hs \<Longrightarrow>
   case foldl (consider_shard cmp hs) None [0..<n] of
     None \<Rightarrow> \<forall>i < n. shard_head (hs ! i) = None
   | Some k \<Rightarrow> k < n \<and> (\<exists>c. shard_head (hs ! k) = Some c
       \<and> (\<forall>i < n. \<forall>d. shard_head (hs ! i) = Some d \<longrightarrow> cmp c d \<le> 0))"
proof (induction n)
  case (Suc n)
  let ?w = "foldl (consider_shard cmp hs) None [0..<n]"
  note step = consider_shard_def [where cmp = cmp and hs = hs and shard = n]
  show ?case
  proof (cases "shard_head (hs ! n)")
    case None
    then show ?thesis using Suc
      by (auto simp: step less_Suc_eq split: option.splits)
  next
    case (Some d)
    show ?thesis
    proof (cases ?w)
      case None
      then show ?thesis using Suc Some le_refl by (auto simp: step less_Suc_eq)
    next
      case (Some k)
      with Suc obtain c where k: "k < n" and c: "shard_head (hs ! k) = Some c"
        and least: "\<And>i e. i < n \<Longrightarrow> shard_head (hs ! i) = Some e \<Longrightarrow> cmp c e \<le> 0" by auto
      have fc: "fst (hs ! k) ! snd (hs ! k) = c" using c by (auto simp: shard_head_def split: if_splits)
      show ?thesis
      proof (cases "cmp d c < 0")
        case True
        then have "foldl (consider_shard cmp hs) None [0..<Suc n] = Some n"
          using Some \<open>shard_head (hs ! n) = Some d\<close> fc by (simp add: step)
        moreover have "cmp d e \<le> 0" if "i < Suc n" "shard_head (hs ! i) = Some e" for i e
          using that least le_trans [of d c e] True \<open>shard_head (hs ! n) = Some d\<close> le_refl
          by (cases "i = n") (auto simp: less_Suc_eq)
        ultimately show ?thesis using \<open>shard_head (hs ! n) = Some d\<close> by auto
      next
        case False
        then have "foldl (consider_shard cmp hs) None [0..<Suc n] = Some k"
          using Some \<open>shard_head (hs ! n) = Some d\<close> fc by (simp add: step)
        moreover have "cmp c d \<le> 0" using False not_le_lt by (metis linorder_not_less)
        ultimately show ?thesis using k c least \<open>shard_head (hs ! n) = Some d\<close>
          by (auto simp: less_Suc_eq)
      qed
    qed
  qed
qed simp

lemma winner_below_pending:
  assumes sorted: "\<forall>h \<in> set hs. sorted_wrt (\<lambda>a b. cmp a b \<le> 0) (fst h)"
    and w: "pick_winner cmp hs = Some w" and x: "x \<in> set (pending hs)"
  shows "cmp (fst (hs ! w) ! snd (hs ! w)) x \<le> 0"
proof -
  obtain h where h: "h \<in> set hs" and xh: "x \<in> set (drop (snd h) (fst h))" using x by (auto simp: pending_def)
  obtain i where i: "i < length hs" "hs ! i = h" using h by (auto simp: in_set_conv_nth)
  have l: "snd h < length (fst h)" using xh by (cases "snd h < length (fst h)") auto
  have sh: "shard_head (hs ! i) = Some (fst h ! snd h)" using i l by (simp add: shard_head_def)
  have d: "drop (snd h) (fst h) = fst h ! snd h # drop (Suc (snd h)) (fst h)" using l by (simp add: Cons_nth_drop_Suc)
  have "sorted_wrt (\<lambda>a b. cmp a b \<le> 0) (drop (snd h) (fst h))" using sorted h by (auto intro: sorted_wrt_drop)
  then have "cmp (fst h ! snd h) x \<le> 0" using xh le_refl unfolding d by auto
  moreover have "cmp (fst (hs ! w) ! snd (hs ! w)) (fst h ! snd h) \<le> 0"
    using winner_least [of "length hs" hs] w sh i by (auto simp: pick_winner_def shard_head_def split: if_splits)
  ultimately show ?thesis using le_trans by blast
qed

lemma no_winner_done:
  assumes "pick_winner cmp hs = None"
  shows "pending hs = []"
proof -
  have none: "\<forall>i < length hs. shard_head (hs ! i) = None"
    using winner_least [of "length hs" hs] assms by (simp add: pick_winner_def)
  have "drop (snd h) (fst h) = []" if h: "h \<in> set hs" for h
  proof -
    obtain i where "i < length hs" "hs ! i = h" using h by (auto simp: in_set_conv_nth)
    with none have "shard_head h = None" by auto
    then show ?thesis by (simp add: shard_head_def split: if_splits)
  qed
  then show ?thesis by (simp add: pending_def)
qed

lemma merge_loop_correct:
  assumes "\<forall>h \<in> set hs. sorted_wrt (\<lambda>a b. cmp a b \<le> 0) (fst h)"
    and "sorted_wrt (\<lambda>a b. cmp a b \<le> 0) acc" and "\<forall>a \<in> set acc. \<forall>b \<in> set (pending hs). cmp a b \<le> 0"
  shows "mset (merge_loop cmp hs acc) = mset acc + mset (pending hs)
    \<and> sorted_wrt (\<lambda>a b. cmp a b \<le> 0) (merge_loop cmp hs acc)"
  using assms
proof (induction "remaining hs" arbitrary: hs acc rule: less_induct)
  case less
  show ?case
  proof (cases "pick_winner cmp hs")
    case None
    then show ?thesis using less.prems no_winner_done [OF None] by (subst (1 2) merge_loop.simps) simp
  next
    case (Some w)
    let ?c = "fst (hs ! w) ! snd (hs ! w)"
    note v = pick_winner_valid [OF Some]
    have m: "mset (pending hs) = add_mset ?c (mset (pending (advance hs w)))"
      using mset_pending_advance v by blast
    have sub: "set (pending hs) = insert ?c (set (pending (advance hs w)))"
      using arg_cong [OF m, of set_mset] by simp
    have "\<forall>h \<in> set (advance hs w). sorted_wrt (\<lambda>a b. cmp a b \<le> 0) (fst h)"
      using less.prems(1) v unfolding advance_def by (auto dest!: set_update_subset_insert [THEN subsetD])
    moreover have "sorted_wrt (\<lambda>a b. cmp a b \<le> 0) (acc @ [?c])"
      using less.prems(2,3) sub by (simp add: sorted_wrt_append)
    moreover have "\<forall>a \<in> set (acc @ [?c]). \<forall>b \<in> set (pending (advance hs w)). cmp a b \<le> 0"
      using less.prems(3) sub winner_below_pending [OF less.prems(1) Some] by auto
    ultimately have "mset (merge_loop cmp (advance hs w) (acc @ [?c])) = mset (acc @ [?c]) + mset (pending (advance hs w))
      \<and> sorted_wrt (\<lambda>a b. cmp a b \<le> 0) (merge_loop cmp (advance hs w) (acc @ [?c]))"
      using less.hyps [of "advance hs w" "acc @ [?c]"] remaining_advance v by blast
    moreover have "merge_loop cmp hs acc = merge_loop cmp (advance hs w) (acc @ [?c])"
      using Some by (subst merge_loop.simps) simp
    ultimately show ?thesis by (simp add: m)
  qed
qed

end

section \<open>The queue is a sorted permutation of the queued sessions\<close>

definition belongs :: "nat \<Rightarrow> session_type \<Rightarrow> session_record \<Rightarrow> bool" where
  "belongs shardCount ty s = (s_status s = Queued \<and> queue_type s = ty
    \<and> 0 \<le> s_queueShard s \<and> s_queueShard s < int shardCount)"

lemma length_push_shards [simp]: "length (foldl (push_shard ty) shards ss) = length shards"
  by (induction ss arbitrary: shards) (simp_all add: push_shard_def)

lemma mset_concat_push:
  "mset (concat (push_shard ty shards s)) =
   (if belongs (length shards) ty s then add_mset s (mset (concat shards)) else mset (concat shards))"
proof (cases "belongs (length shards) ty s")
  case True
  define i where "i = nat (s_queueShard s)"
  have i: "i < length shards" using True by (auto simp: belongs_def i_def)
  have "push_shard ty shards s = shards[i := shards ! i @ [s]]"
    using True i by (simp add: push_shard_def belongs_def i_def)
  moreover have "mset (concat (shards[i := shards ! i @ [s]])) = add_mset s (mset (concat shards))"
  proof -
    have sh: "shards = take i shards @ shards ! i # drop (Suc i) shards" using i by (rule id_take_nth_drop)
    have "mset (concat shards) = mset (concat (take i shards)) + mset (shards ! i) + mset (concat (drop (Suc i) shards))"
      using arg_cong [OF sh, of "\<lambda>x. mset (concat x)"] by simp
    then show ?thesis using i by (simp add: upd_conv_take_nth_drop)
  qed
  ultimately show ?thesis using True by simp
next
  case False
  then show ?thesis by (auto simp: push_shard_def belongs_def)
qed

lemma mset_concat_pushes:
  "mset (concat (foldl (push_shard ty) shards ss)) =
   mset (concat shards) + mset (filter (belongs (length shards) ty) ss)"
proof (induction ss arbitrary: shards)
  case (Cons s ss)
  have "length (push_shard ty shards s) = length shards" by (simp add: push_shard_def)
  then show ?case using Cons [of "push_shard ty shards s"] by (simp add: mset_concat_push)
qed simp

lemma mset_concat_sorted: "mset (concat (map (js_sort cmp) xss)) = mset (concat xss)"
  by (induction xss) simp_all

lemma mset_shards:
  "mset (concat (queuedSessionsByShard lc ss n ty)) = mset (filter (belongs n ty) ss)"
proof -
  have "mset (concat (replicate n [])) = {#}" by (induction n) auto
  then show ?thesis
    by (simp add: queuedSessionsByShard_def mset_concat_sorted mset_concat_pushes)
qed

lemma merge_sorted_shards:
  assumes lc: "js_comparator lc"
    and "\<forall>shard \<in> set shards. sorted_wrt (\<lambda>a b. compareSessionsForQueue lc a b \<le> 0) shard"
  shows "mset (mergeQueuedShardHeads lc shards) = mset (concat shards)
    \<and> sorted_wrt (\<lambda>a b. compareSessionsForQueue lc a b \<le> 0) (mergeQueuedShardHeads lc shards)"
proof -
  have p: "pending (map (\<lambda>s. (s, 0)) shards) = concat shards" by (simp add: pending_def comp_def)
  show ?thesis
    unfolding mergeQueuedShardHeads_def p [symmetric]
    using js_comparator.merge_loop_correct [OF queue_comparator [OF lc], of "map (\<lambda>s. (s, 0)) shards" "[]"] assms(2)
    by simp
qed

lemma ordered_queue:
  assumes "js_comparator lc"
  shows "mset (orderedQueuedSessions lc sessions shardCount ty) = mset (filter (belongs shardCount ty) sessions)
    \<and> sorted_wrt (\<lambda>a b. compareSessionsForQueue lc a b \<le> 0) (orderedQueuedSessions lc sessions shardCount ty)"
proof -
  have "\<forall>shard \<in> set (queuedSessionsByShard lc sessions shardCount ty).
      sorted_wrt (\<lambda>a b. compareSessionsForQueue lc a b \<le> 0) shard"
    unfolding queuedSessionsByShard_def
    using js_comparator.sorted_sort [OF queue_comparator [OF assms]] by auto
  from merge_sorted_shards [OF assms this] show ?thesis
    by (simp add: orderedQueuedSessions_def mset_shards)
qed

lemma queue_element:
  assumes "js_comparator lc" and "s \<in> set (orderedQueuedSessions lc sessions n ty)"
  shows "s \<in> set sessions \<and> s_status s = Queued \<and> queue_type s = ty"
proof -
  have "set (orderedQueuedSessions lc sessions n ty) = set (filter (belongs n ty) sessions)"
    using ordered_queue [OF assms(1)] mset_eq_setD by blast
  with assms(2) show ?thesis by (simp add: belongs_def)
qed

lemma queue_distinct:
  assumes "js_comparator lc" and "distinct (map f sessions)"
  shows "distinct (map f (orderedQueuedSessions lc sessions n ty))"
proof -
  have "mset (map f (orderedQueuedSessions lc sessions n ty)) = mset (map f (filter (belongs n ty) sessions))"
    using ordered_queue [OF assms(1), of sessions n ty] by simp
  with mset_eq_imp_distinct_iff show ?thesis using distinct_map_filter [OF assms(2)] by blast
qed

text \<open>C21: for every consistent collation, the queue the scheduler walks contains exactly the
  queued sessions of the requested kind whose shard exists, each of them once, ordered by
  descending priority, then creation time, then id.\<close>
theorem orderedQueuedSessions_correct:
  assumes "js_comparator lc"
  shows "mset (orderedQueuedSessions lc sessions shardCount ty) = mset (filter (belongs shardCount ty) sessions)
    \<and> sorted_wrt (\<lambda>a b. compareSessionsForQueue lc a b \<le> 0) (orderedQueuedSessions lc sessions shardCount ty)"
  using assms by (rule ordered_queue)

definition sample_queue :: "session_record list" where
  "sample_queue =
    [blank_session\<lparr>s_id := ''b'', s_queueShard := 1, s_createdAt := ''2026-01-02T00:00:00.000Z''\<rparr>,
     blank_session\<lparr>s_id := ''a'', s_queueShard := 0, s_createdAt := ''2026-01-01T00:00:00.000Z''\<rparr>,
     blank_session\<lparr>s_id := ''c'', s_queueShard := 1, s_priority := 5, s_createdAt := ''2026-01-03T00:00:00.000Z''\<rparr>]"

theorem orderedQueuedSessions_correct_witness:
  "mset (orderedQueuedSessions str_compare sample_queue 4 Type_prompt)
     = mset (filter (belongs 4 Type_prompt) sample_queue)
   \<and> map s_id (orderedQueuedSessions str_compare sample_queue 4 Type_prompt) = [''c'', ''a'', ''b'']"
proof
  show "mset (orderedQueuedSessions str_compare sample_queue 4 Type_prompt)
      = mset (filter (belongs 4 Type_prompt) sample_queue)"
    using orderedQueuedSessions_correct [OF str_order.js_comparator_axioms, of sample_queue 4 Type_prompt] by blast
  show "map s_id (orderedQueuedSessions str_compare sample_queue 4 Type_prompt) = [''c'', ''a'', ''b'']"
    by code_simp
qed

section \<open>The stored key sorts like the comparator\<close>

lemma digit_order:
  assumes "0 \<le> a" "a \<le> 9" "0 \<le> b" "b \<le> 9"
  shows "str_compare [digit_char a] [digit_char b] = sgn (a - b)"
proof -
  have "of_char (digit_char n) = nat n + 48" if "0 \<le> n" "n \<le> 9" for n :: int
    using that by (simp add: digit_char_def)
  then have "digit_char a < digit_char b \<longleftrightarrow> a < b" "digit_char b < digit_char a \<longleftrightarrow> b < a"
    using assms by (auto simp: less_char_def)
  then show ?thesis by (auto simp: sgn_if)
qed

lemma pad_digits_order:
  "0 \<le> m \<Longrightarrow> m < 10 ^ k \<Longrightarrow> 0 \<le> n \<Longrightarrow> n < 10 ^ k \<Longrightarrow>
   str_compare (pad_digits k m) (pad_digits k n) = sgn (m - n)"
proof (induction k arbitrary: m n)
  case (Suc k)
  have ih: "str_compare (pad_digits k (m div 10)) (pad_digits k (n div 10)) = sgn (m div 10 - n div 10)"
    using Suc.prems by (intro Suc.IH) auto
  have d: "str_compare [digit_char (m mod 10)] [digit_char (n mod 10)] = sgn (m mod 10 - n mod 10)"
    by (rule digit_order) auto
  have "str_compare (pad_digits (Suc k) m) (pad_digits (Suc k) n)
      = by_then (sgn (m div 10 - n div 10)) (sgn (m mod 10 - n mod 10))"
    using str_compare_same_length_append [of "pad_digits k (m div 10)" "pad_digits k (n div 10)"] ih d by simp
  also have "\<dots> = sgn (m - n)"
  proof (cases "m div 10 = n div 10")
    case True
    then have "m mod 10 - n mod 10 = m - n"
      using div_mult_mod_eq [of m 10] div_mult_mod_eq [of n 10] by linarith
    then show ?thesis using True by (simp add: by_then_def)
  next
    case False
    then have "sgn (m div 10 - n div 10) = sgn (m - n)" by (auto simp: sgn_if)
    then show ?thesis using False by (simp add: by_then_def sgn_if split: if_splits)
  qed
  finally show ?case .
qed (simp add: sgn_if)

lemma key_order:
  assumes "length (s_createdAt a) = length (s_createdAt b)" and "0 \<le> m" "m < 100000" "0 \<le> n" "n < 100000"
  shows "str_compare (pad_digits 5 m @ ''#'' @ s_createdAt a @ ''#'' @ s_id a)
      (pad_digits 5 n @ ''#'' @ s_createdAt b @ ''#'' @ s_id b)
    = by_then (sgn (m - n)) (by_then (str_compare (s_createdAt a) (s_createdAt b)) (str_compare (s_id a) (s_id b)))"
  using assms pad_digits_order [of m 5 n]
  by (simp add: str_compare_same_length_append str_compare_append_left by_then_def)

text \<open>On sessions with validated priorities and creation times of equal length, the stored
  \<open>queueOrder\<close> key sorts in ascending code-unit order exactly as \<open>compareSessionsForQueue\<close>
  orders the sessions under the code-unit collation: the index and the in-memory queue agree.\<close>
theorem queueOrderKey_agrees_with_comparator:
  assumes "\<bar>s_priority a\<bar> \<le> QUEUE_ORDER_PRIORITY_OFFSET" and "\<bar>s_priority b\<bar> \<le> QUEUE_ORDER_PRIORITY_OFFSET"
    and "length (s_createdAt a) = length (s_createdAt b)"
  shows "sgn (str_compare (queueOrderKey a) (queueOrderKey b)) = sgn (compareSessionsForQueue str_compare a b)"
proof -
  have c: "clamp_priority (10000 - s_priority a) = 10000 - s_priority a"
    "clamp_priority (10000 - s_priority b) = 10000 - s_priority b"
    using assms(1,2) by (auto simp: clamp_priority_def QUEUE_ORDER_PRIORITY_OFFSET_def)
  show ?thesis
    unfolding queueOrderKey_def QUEUE_ORDER_PRIORITY_OFFSET_def c
    using key_order [OF assms(3), of "10000 - s_priority a" "10000 - s_priority b"] assms(1,2)
    by (auto simp: QUEUE_ORDER_PRIORITY_OFFSET_def compareSessionsForQueue_def by_then_def sgn_if)
qed

theorem queueOrderKey_agrees_with_comparator_witness:
  "sgn (str_compare (queueOrderKey (sample_queue ! 2)) (queueOrderKey (sample_queue ! 0)))
    = sgn (compareSessionsForQueue str_compare (sample_queue ! 2) (sample_queue ! 0))"
  by (rule queueOrderKey_agrees_with_comparator)
     (simp_all add: sample_queue_def blank_session_def QUEUE_ORDER_PRIORITY_OFFSET_def)

end
