(* ===== verification/Commands.thy ===== *)
theory Commands
  imports Records
begin

text \<open>
  Commands and their native resume templates: \<open>modules/shared/src/command-resume.ts\<close>
  (validation of argv vectors, of the executable and of the resume specification, and the
  expansion of a template) and \<open>prior-context.ts\<close> (the pointer appended to a resume prompt).

  A value of type \<open>unknown\<close> is \<open>json option\<close>, \<open>None\<close> being \<open>undefined\<close>; a validator returns
  \<open>Inl\<close> the error message or \<open>Inr\<close> the normalised value. The global regular expression
  \<open>PLACEHOLDER\<close> is the left-to-right scanner \<open>template_tokens\<close>, and the replacing expression
  of \<open>materializeResumeArgv\<close> is the separate scanner \<open>expand_placeholders\<close>; that the two
  agree on validated templates is proved, and carries the argv properties.
\<close>

section \<open>Constants\<close>

definition MAX_COMMAND_ARGV_ITEMS :: nat where
  "MAX_COMMAND_ARGV_ITEMS = 64"

definition MAX_COMMAND_ARG_LENGTH :: nat where
  "MAX_COMMAND_ARG_LENGTH = 4096"

definition MAX_RESUME_REF_CAPTURE_LENGTH :: nat where
  "MAX_RESUME_REF_CAPTURE_LENGTH = 128"

definition MAX_CLI_RESUME_REF_BYTES :: nat where
  "MAX_CLI_RESUME_REF_BYTES = 512"

definition ALLOWED_PLACEHOLDERS :: "string list" where
  "ALLOWED_PLACEHOLDERS = [''prompt'', ''cliResumeRef'']"

datatype command_executable_kind = Bare | Relative

record command_resume_spec =
  crs_resumeArgvTemplate :: "string list option"
  crs_resumeRefCapture :: "resume_ref_capture option"

section \<open>Validation of arguments\<close>

definition hasControlChars :: "string \<Rightarrow> bool" where
  "hasControlChars s = list_ex (\<lambda>c. char_code c \<le> 31 \<or> char_code c = 127) s"

definition safeArg :: "json option \<Rightarrow> string \<Rightarrow> string option" where
  "safeArg value label =
    (case value of
       Some (JStr s) \<Rightarrow>
         (if s = [] then Some (label @ '' must contain non-empty strings'')
          else if MAX_COMMAND_ARG_LENGTH < length s
            then Some (label @ '' entries must be at most 4096 characters'')
          else if hasControlChars s
            then Some (label @ '' entries must not contain control characters'')
          else None)
     | _ \<Rightarrow> Some (label @ '' must contain non-empty strings''))"

definition path_separator :: "char \<Rightarrow> bool" where
  "path_separator c = (c = CHR ''/'' \<or> c = CHR 0x5C)"

definition is_letter :: "char \<Rightarrow> bool" where
  "is_letter c = ((65 \<le> char_code c \<and> char_code c \<le> 90) \<or> (97 \<le> char_code c \<and> char_code c \<le> 122))"

definition path_segments :: "string \<Rightarrow> string list" where
  "path_segments s = split_on (CHR ''/'') (map (\<lambda>c. if path_separator c then CHR ''/'' else c) s)"

definition absolute_path :: "string \<Rightarrow> bool" where
  "absolute_path s = (case s of [] \<Rightarrow> False
     | c # cs \<Rightarrow> path_separator c \<or> is_letter c \<and> starts_with cs '':'')"

definition validateCommandExecutable :: "json option \<Rightarrow> string \<Rightarrow> string + command_executable_kind" where
  "validateCommandExecutable value label =
    (case safeArg value label of
       Some e \<Rightarrow> Inl e
     | None \<Rightarrow> (case value of
         Some (JStr executable) \<Rightarrow>
           (if absolute_path executable
              then Inl (label @ '' must not be an absolute or drive-qualified path'')
            else if List.member (path_segments executable) ''..''
              then Inl (label @ '' must not contain '' @ [CHR 0x27] @ ''..'' @ [CHR 0x27] @ '' path segments'')
            else Inr (if list_ex path_separator executable then Relative else Bare))
       | _ \<Rightarrow> Inl []))"

definition isValidCliResumeRef :: "json option \<Rightarrow> bool" where
  "isValidCliResumeRef value =
    (case value of
       Some (JStr s) \<Rightarrow> 0 < length s \<and> utf8_length s \<le> MAX_CLI_RESUME_REF_BYTES \<and> \<not> hasControlChars s
     | _ \<Rightarrow> False)"

fun json_string :: "json \<Rightarrow> string" where
  "json_string (JStr s) = s"
| "json_string _ = []"

fun first_safe_error :: "string \<Rightarrow> json list \<Rightarrow> string option" where
  "first_safe_error label [] = None"
| "first_safe_error label (a # as) =
    (case safeArg (Some a) label of Some e \<Rightarrow> Some e | None \<Rightarrow> first_safe_error label as)"

definition validateCommandArgv :: "json option \<Rightarrow> string + string list" where
  "validateCommandArgv argv =
    (case argv of
       Some (JArr as) \<Rightarrow>
         (if as = [] \<or> MAX_COMMAND_ARGV_ITEMS < length as then Inl ''argv must contain 1-64 entries''
          else case first_safe_error ''argv'' as of
            Some e \<Rightarrow> Inl e
          | None \<Rightarrow> (case validateCommandExecutable (Some (hd as)) ''argv[0]'' of
              Inl e \<Rightarrow> Inl e
            | Inr _ \<Rightarrow> Inr (map json_string as)))
     | _ \<Rightarrow> Inl ''argv must contain 1-64 entries'')"

section \<open>The placeholder grammar\<close>

datatype template_token = Lit char | Placeholder string

definition name_char :: "char \<Rightarrow> bool" where
  "name_char c = (is_letter c \<or> is_digit c \<or> c = CHR ''_'')"

definition match_placeholder :: "string \<Rightarrow> (string \<times> string) option" where
  "match_placeholder s =
    (case s of
       [] \<Rightarrow> None
     | c # cs \<Rightarrow>
         (let name = takeWhile name_char cs; rest = dropWhile name_char cs
          in if c = CHR ''{'' \<and> name \<noteq> [] \<and> is_letter (hd name) \<and> starts_with rest ''}''
             then Some (name, tl rest) else None))"

lemma match_placeholder_shorter:
  "match_placeholder s = Some (name, rest) \<Longrightarrow> length rest < length s"
  using length_dropWhile_le [of name_char]
  by (auto simp: match_placeholder_def Let_def split: list.splits if_splits)
    (metis le_imp_less_Suc diff_le_self dual_order.trans)

function template_tokens :: "string \<Rightarrow> template_token list" where
  "template_tokens [] = []"
| "template_tokens (c # cs) =
    (case match_placeholder (c # cs) of
       Some (name, rest) \<Rightarrow> Placeholder name # template_tokens rest
     | None \<Rightarrow> Lit c # template_tokens cs)"
  by pat_completeness auto
termination template_tokens
  by (relation "measure length") (auto dest: match_placeholder_shorter)

fun token_names :: "template_token list \<Rightarrow> string list" where
  "token_names [] = []"
| "token_names (Placeholder n # ts) = n # token_names ts"
| "token_names (Lit c # ts) = token_names ts"

fun token_literals :: "template_token list \<Rightarrow> string" where
  "token_literals [] = []"
| "token_literals (Placeholder n # ts) = token_literals ts"
| "token_literals (Lit c # ts) = c # token_literals ts"

definition template_arg_error :: "json \<Rightarrow> string option" where
  "template_arg_error arg =
    (case safeArg (Some arg) ''resumeArgvTemplate'' of
       Some e \<Rightarrow> Some e
     | None \<Rightarrow>
         (let ts = template_tokens (json_string arg)
          in case List.find (\<lambda>n. \<not> List.member ALLOWED_PLACEHOLDERS n) (token_names ts) of
               Some n \<Rightarrow> Some (''unsupported resume placeholder: '' @ n)
             | None \<Rightarrow>
                 (if List.member (token_literals ts) (CHR ''{'') \<or> List.member (token_literals ts) (CHR ''}'')
                  then Some ''resumeArgvTemplate contains malformed placeholders'' else None)))"

fun first_template_error :: "json list \<Rightarrow> string option" where
  "first_template_error [] = None"
| "first_template_error (a # as) =
    (case template_arg_error a of Some e \<Rightarrow> Some e | None \<Rightarrow> first_template_error as)"

fun count_resume_refs :: "string \<Rightarrow> nat" where
  "count_resume_refs [] = 0"
| "count_resume_refs (c # cs) =
    (if starts_with (c # cs) ''{cliResumeRef}'' then Suc (count_resume_refs (drop 13 cs))
     else count_resume_refs cs)"

definition validate_template :: "json option \<Rightarrow> string + string list option" where
  "validate_template input =
    (case input of
       None \<Rightarrow> Inr None
     | Some JNull \<Rightarrow> Inr None
     | Some (JArr as) \<Rightarrow>
         (if as = [] \<or> MAX_COMMAND_ARGV_ITEMS < length as
            then Inl ''resumeArgvTemplate must contain 1-64 argv entries''
          else case first_template_error as of
            Some e \<Rightarrow> Inl e
          | None \<Rightarrow>
              (if token_names (template_tokens (json_string (hd as))) \<noteq> []
                 then Inl ''resumeArgvTemplate[0] must be a fixed executable without placeholders''
               else case validateCommandExecutable (Some (hd as)) ''resumeArgvTemplate[0]'' of
                 Inl e \<Rightarrow> Inl e
               | Inr _ \<Rightarrow>
                   (if sum_list (map (\<lambda>a. count_resume_refs (json_string a)) as) \<noteq> 1
                    then Inl ''resumeArgvTemplate must contain exactly one {cliResumeRef} placeholder''
                    else Inr (Some (map json_string as)))))
     | Some _ \<Rightarrow> Inl ''resumeArgvTemplate must contain 1-64 argv entries'')"

definition capture_stream_of :: "json option \<Rightarrow> capture_stream option" where
  "capture_stream_of v =
    (if v = Some (JStr ''stdout'') then Some Capture_stdout
     else if v = Some (JStr ''stderr'') then Some Capture_stderr
     else if v = Some (JStr ''either'') then Some Capture_either else None)"

definition validate_capture :: "json option \<Rightarrow> string + resume_ref_capture option" where
  "validate_capture input =
    (case input of
       None \<Rightarrow> Inr None
     | Some JNull \<Rightarrow> Inr None
     | Some (JObj capture) \<Rightarrow>
         (case capture_stream_of (map_of capture ''stream'') of
            None \<Rightarrow> Inl ''resumeRefCapture.stream must be stdout, stderr, or either''
          | Some stream \<Rightarrow>
              (case map_of capture ''linePrefix'' of
                 Some (JStr p) \<Rightarrow>
                   (if p = [] then Inl ''resumeRefCapture.linePrefix must be a non-empty string''
                    else if MAX_RESUME_REF_CAPTURE_LENGTH < length p
                      then Inl ''resumeRefCapture.linePrefix must be at most 128 characters''
                    else if hasControlChars p
                      then Inl ''resumeRefCapture.linePrefix must not contain control characters''
                    else Inr (Some \<lparr>rrc_stream = stream, rrc_linePrefix = p\<rparr>))
               | _ \<Rightarrow> Inl ''resumeRefCapture.linePrefix must be a non-empty string''))
     | Some _ \<Rightarrow> Inl ''resumeRefCapture must be an object'')"

definition validateCommandResumeSpec :: "json option \<Rightarrow> json option \<Rightarrow> string + command_resume_spec" where
  "validateCommandResumeSpec template capture =
    (case validate_template template of
       Inl e \<Rightarrow> Inl e
     | Inr t \<Rightarrow> (case validate_capture capture of
         Inl e \<Rightarrow> Inl e
       | Inr c \<Rightarrow> Inr \<lparr>crs_resumeArgvTemplate = t, crs_resumeRefCapture = c\<rparr>))"

section \<open>Expansion\<close>

fun expand_placeholders :: "string \<Rightarrow> string \<Rightarrow> string \<Rightarrow> string" where
  "expand_placeholders resumeRef prompt [] = []"
| "expand_placeholders resumeRef prompt (c # cs) =
    (if starts_with (c # cs) ''{cliResumeRef}''
       then resumeRef @ expand_placeholders resumeRef prompt (drop 13 cs)
     else if starts_with (c # cs) ''{prompt}''
       then prompt @ expand_placeholders resumeRef prompt (drop 7 cs)
     else c # expand_placeholders resumeRef prompt cs)"

fun materializeResumeArgv :: "string list \<Rightarrow> string \<Rightarrow> string \<Rightarrow> bool \<Rightarrow> string list" where
  "materializeResumeArgv [] resumeRef prompt appendPromptSeparator = []"
| "materializeResumeArgv (arg # template) resumeRef prompt appendPromptSeparator =
    (if appendPromptSeparator \<and> arg = ''{prompt}''
       then ''--'' # prompt # materializeResumeArgv template resumeRef prompt appendPromptSeparator
     else expand_placeholders resumeRef prompt arg
       # materializeResumeArgv template resumeRef prompt appendPromptSeparator)"

section \<open>The prior-context pointer\<close>

definition MAX_PROMPT_BYTES :: nat where
  "MAX_PROMPT_BYTES = 64 * 1024"

definition PRIOR_CONTEXT_RELATIVE_PATH :: string where
  "PRIOR_CONTEXT_RELATIVE_PATH = ''.auto-harness'' @ ''/'' @ ''prior-session.md''"

definition PRIOR_CONTEXT_PROMPT_POINTER :: string where
  "PRIOR_CONTEXT_PROMPT_POINTER =
    [CHR 0x0A, CHR 0x0A] @ ''A transcript of the previous session may be available at '' @ [CHR 0x60]
    @ PRIOR_CONTEXT_RELATIVE_PATH @ [CHR 0x60]
    @ '' in the working directory. Read or search that file if you need context from the previous run.''
    @ '' It is not part of the repository and must not be committed.''"

definition hasPriorContextPointer :: "string \<Rightarrow> bool" where
  "hasPriorContextPointer prompt = str_includes prompt PRIOR_CONTEXT_PROMPT_POINTER"

definition appendPriorContextPointer :: "string \<Rightarrow> string" where
  "appendPriorContextPointer prompt =
    (if hasPriorContextPointer prompt then prompt
     else let nextp = prompt @ PRIOR_CONTEXT_PROMPT_POINTER
       in if MAX_PROMPT_BYTES < utf8_length nextp then prompt else nextp)"

section \<open>The two scanners agree\<close>

fun render :: "string \<Rightarrow> string \<Rightarrow> template_token \<Rightarrow> string" where
  "render resumeRef prompt (Lit c) = [c]"
| "render resumeRef prompt (Placeholder n) = (if n = ''cliResumeRef'' then resumeRef else prompt)"

definition clean_template :: "string \<Rightarrow> bool" where
  "clean_template s \<longleftrightarrow>
    set (token_names (template_tokens s)) \<subseteq> {''prompt'', ''cliResumeRef''} \<and>
    CHR ''{'' \<notin> set (token_literals (template_tokens s)) \<and>
    CHR ''}'' \<notin> set (token_literals (template_tokens s))"

lemma match_placeholder_Some:
  assumes "match_placeholder (c # cs) = Some (name, rest)"
  shows "c = CHR ''{'' \<and> cs = name @ CHR ''}'' # rest"
proof -
  from assms have c: "c = CHR ''{''" and n: "name = takeWhile name_char cs"
    and sw: "starts_with (dropWhile name_char cs) ''}''" and r: "rest = tl (dropWhile name_char cs)"
    by (auto simp: match_placeholder_def Let_def split: if_splits)
  from sw obtain q where q: "dropWhile name_char cs = CHR ''}'' # q"
    by (auto simp: starts_with_prefix)
  have "cs = takeWhile name_char cs @ dropWhile name_char cs" by simp
  then have "cs = name @ CHR ''}'' # rest" using n r q by simp
  with c show ?thesis by simp
qed

lemma clean_Cons:
  assumes "clean_template (c # cs)"
  shows "(\<exists>name rest. match_placeholder (c # cs) = Some (name, rest) \<and> clean_template rest
            \<and> name \<in> {''prompt'', ''cliResumeRef''})
       \<or> (match_placeholder (c # cs) = None \<and> clean_template cs \<and> c \<noteq> CHR ''{'' \<and> c \<noteq> CHR ''}'')"
  using assms by (auto simp: clean_template_def split: option.splits)

lemma expand_is_render:
  "clean_template s \<Longrightarrow>
    expand_placeholders r p s = concat (map (render r p) (template_tokens s))"
proof (induction s rule: template_tokens.induct)
  case (2 c cs)
  from clean_Cons [OF "2.prems"] show ?case
  proof (elim disjE exE conjE)
    fix name rest
    assume m: "match_placeholder (c # cs) = Some (name, rest)" and "clean_template rest"
      and n: "name \<in> {''prompt'', ''cliResumeRef''}"
    then have "expand_placeholders r p rest = concat (map (render r p) (template_tokens rest))"
      using "2.IH" by blast
    with m n match_placeholder_Some [OF m] show ?thesis by auto
  next
    assume m: "match_placeholder (c # cs) = None" and "clean_template cs" and c: "c \<noteq> CHR ''{''"
    then have "expand_placeholders r p cs = concat (map (render r p) (template_tokens cs))" using "2.IH" by blast
    with m c show ?thesis by simp
  qed
qed simp

lemma count_is_tokens:
  "clean_template s \<Longrightarrow>
    count_resume_refs s = count_list (token_names (template_tokens s)) ''cliResumeRef''"
proof (induction s rule: template_tokens.induct)
  case (2 c cs)
  from clean_Cons [OF "2.prems"] show ?case
  proof (elim disjE exE conjE)
    fix name rest
    assume m: "match_placeholder (c # cs) = Some (name, rest)" and "clean_template rest"
      and n: "name \<in> {''prompt'', ''cliResumeRef''}"
    then have "count_resume_refs rest = count_list (token_names (template_tokens rest)) ''cliResumeRef''"
      using "2.IH" by blast
    with m n match_placeholder_Some [OF m] show ?thesis by auto
  next
    assume m: "match_placeholder (c # cs) = None" and "clean_template cs" and c: "c \<noteq> CHR ''{''"
    then have "count_resume_refs cs = count_list (token_names (template_tokens cs)) ''cliResumeRef''" using "2.IH" by blast
    with m c show ?thesis by simp
  qed
qed simp

lemma count_list_nat: "count_list xs x = length (filter (\<lambda>y. y = x) xs)"
  by (induction xs) auto

section \<open>What validation accepts\<close>

definition safe_string :: "string \<Rightarrow> bool" where
  "safe_string s \<longleftrightarrow> s \<noteq> [] \<and> length s \<le> MAX_COMMAND_ARG_LENGTH \<and> \<not> hasControlChars s"

lemma safeArg_None: "safeArg v l = None \<longleftrightarrow> (\<exists>s. v = Some (JStr s) \<and> safe_string s)"
  by (auto simp: safeArg_def safe_string_def split: option.splits json.splits)

lemma mapped_Cons:
  "(\<exists>ss. a # as = map f ss \<and> list_all P ss) \<longleftrightarrow>
    (\<exists>s. a = f s \<and> P s) \<and> (\<exists>ss. as = map f ss \<and> list_all P ss)"
proof
  assume "(\<exists>s. a = f s \<and> P s) \<and> (\<exists>ss. as = map f ss \<and> list_all P ss)"
  then obtain s ss where "a # as = map f (s # ss) \<and> list_all P (s # ss)" by auto
  then show "\<exists>ss. a # as = map f ss \<and> list_all P ss" by (rule exI)
qed (auto simp: Cons_eq_map_conv)

lemma first_safe_error_None:
  "first_safe_error l as = None \<longleftrightarrow> (\<exists>ss. as = map JStr ss \<and> list_all safe_string ss)"
proof (induction as)
  case (Cons a as)
  have "first_safe_error l (a # as) = None \<longleftrightarrow> safeArg (Some a) l = None \<and> first_safe_error l as = None"
    by (simp split: option.split)
  also have "\<dots> \<longleftrightarrow> (\<exists>s. a = JStr s \<and> safe_string s) \<and> (\<exists>ss. as = map JStr ss \<and> list_all safe_string ss)"
    by (simp add: safeArg_None Cons.IH)
  finally show ?case by (simp only: mapped_Cons)
qed simp

lemma template_arg_error_None:
  "template_arg_error a = None \<longleftrightarrow> (\<exists>s. a = JStr s \<and> safe_string s \<and> clean_template s)"
proof -
  have find: "List.find (\<lambda>n. \<not> List.member ALLOWED_PLACEHOLDERS n) ns = None \<longleftrightarrow>
      set ns \<subseteq> {''prompt'', ''cliResumeRef''}" for ns
    by (auto simp: find_None_iff ALLOWED_PLACEHOLDERS_def)
  have "template_arg_error a = None \<longleftrightarrow>
      safeArg (Some a) ''resumeArgvTemplate'' = None \<and> clean_template (json_string a)"
    by (simp add: template_arg_error_def Let_def clean_template_def find [symmetric] split: option.split)
  then show ?thesis by (auto simp: safeArg_None)
qed

lemma first_template_error_None:
  "first_template_error as = None \<longleftrightarrow>
    (\<exists>ss. as = map JStr ss \<and> list_all (\<lambda>s. safe_string s \<and> clean_template s) ss)"
proof (induction as)
  case (Cons a as)
  have "first_template_error (a # as) = None \<longleftrightarrow>
      template_arg_error a = None \<and> first_template_error as = None"
    by (simp split: option.split)
  then show ?case by (simp only: mapped_Cons template_arg_error_None Cons.IH)
qed simp

lemma validateCommandExecutable_Inr:
  assumes "validateCommandExecutable v l = Inr k"
  obtains s where "v = Some (JStr s)" "safe_string s" "\<not> absolute_path s" "''..'' \<notin> set (path_segments s)"
    "k = (if list_ex path_separator s then Relative else Bare)"
proof -
  from assms have "safeArg v l = None" by (auto simp: validateCommandExecutable_def split: option.splits)
  then obtain s where s: "v = Some (JStr s)" "safe_string s" by (auto simp: safeArg_None)
  then have "safeArg (Some (JStr s)) l = None" by (simp add: safeArg_None)
  with assms s that show ?thesis
    by (auto simp: validateCommandExecutable_def split: if_splits)
qed

lemma validate_template_Some:
  assumes "validate_template input = Inr (Some tmpl)"
  shows "input = Some (JArr (map JStr tmpl))" "tmpl \<noteq> []" "length tmpl \<le> MAX_COMMAND_ARGV_ITEMS"
    "list_all (\<lambda>s. safe_string s \<and> clean_template s) tmpl"
    "token_names (template_tokens (hd tmpl)) = []"
    "\<exists>k. validateCommandExecutable (Some (JStr (hd tmpl))) ''resumeArgvTemplate[0]'' = Inr k"
    "sum_list (map count_resume_refs tmpl) = 1"
proof -
  from assms obtain as where as: "input = Some (JArr as)" "as \<noteq> []"
      "length as \<le> MAX_COMMAND_ARGV_ITEMS"
    and e: "first_template_error as = None"
    and n: "token_names (template_tokens (json_string (hd as))) = []"
    and x: "\<exists>k. validateCommandExecutable (Some (hd as)) ''resumeArgvTemplate[0]'' = Inr k"
    and c: "sum_list (map (\<lambda>a. count_resume_refs (json_string a)) as) = 1"
    and t: "tmpl = map json_string as"
    unfolding validate_template_def
    by (auto split: option.splits json.splits if_splits sum.splits)
  from e obtain ss where ss: "as = map JStr ss"
    "list_all (\<lambda>s. safe_string s \<and> clean_template s) ss"
    by (auto simp: first_template_error_None)
  have "tmpl = ss" using t ss by (simp add: comp_def)
  then show "input = Some (JArr (map JStr tmpl))" "tmpl \<noteq> []" "length tmpl \<le> MAX_COMMAND_ARGV_ITEMS"
    "list_all (\<lambda>s. safe_string s \<and> clean_template s) tmpl"
    "token_names (template_tokens (hd tmpl)) = []"
    "\<exists>k. validateCommandExecutable (Some (JStr (hd tmpl))) ''resumeArgvTemplate[0]'' = Inr k"
    "sum_list (map count_resume_refs tmpl) = 1"
    using as ss n x c by (auto simp: hd_map comp_def)
qed

lemma render_no_names: "token_names ts = [] \<Longrightarrow> concat (map (render r p) ts) = token_literals ts"
  by (induction ts rule: token_names.induct) auto

lemma literals_no_names: "token_names (template_tokens s) = [] \<Longrightarrow> token_literals (template_tokens s) = s"
  by (induction s rule: template_tokens.induct) (auto split: option.splits)

lemma expand_fixed:
  "clean_template s \<Longrightarrow> token_names (template_tokens s) = [] \<Longrightarrow> expand_placeholders r p s = s"
  by (simp add: expand_is_render render_no_names literals_no_names)

lemma materialize_length:
  "length (materializeResumeArgv tmpl r p sep) =
    length tmpl + (if sep then count_list tmpl ''{prompt}'' else 0)"
  by (induction tmpl) auto

lemma materialize_no_separator:
  "materializeResumeArgv tmpl r p False = map (expand_placeholders r p) tmpl"
  by (induction tmpl) auto

lemma materialize_elements:
  "x \<in> set (materializeResumeArgv tmpl r p sep) \<Longrightarrow>
    x \<in> set (map (expand_placeholders r p) tmpl) \<or> sep \<and> (x = ''--'' \<or> x = p)"
  by (induction tmpl) (auto split: if_splits)

lemma materialize_hd:
  assumes "tmpl \<noteq> []" "clean_template (hd tmpl)" "token_names (template_tokens (hd tmpl)) = []"
  shows "hd (materializeResumeArgv tmpl r p sep) = hd tmpl"
proof (cases tmpl)
  case (Cons a as)
  have "template_tokens ''{prompt}'' = [Placeholder ''prompt'']" by code_simp
  with assms Cons have "a \<noteq> ''{prompt}''" by auto
  with assms Cons show ?thesis by (simp add: expand_fixed)
qed (use assms in simp)

section \<open>Properties\<close>

lemma materialize_is_render:
  "list_all clean_template tmpl \<Longrightarrow>
    materializeResumeArgv tmpl r p sep =
      concat (map (\<lambda>s. if sep \<and> s = ''{prompt}'' then [''--'', p]
        else [concat (map (render r p) (template_tokens s))]) tmpl)"
  by (induction tmpl) (auto simp: expand_is_render)

lemma validated_spec_template:
  "validateCommandResumeSpec t c = Inr v \<Longrightarrow> crs_resumeArgvTemplate v = Some tmpl \<Longrightarrow>
    validate_template t = Inr (Some tmpl)"
  by (auto simp: validateCommandResumeSpec_def split: sum.splits)

lemma validated_template_hd:
  assumes "validateCommandResumeSpec t c = Inr v" "crs_resumeArgvTemplate v = Some tmpl"
  shows "hd (materializeResumeArgv tmpl r p sep) = hd tmpl"
proof -
  note v = validate_template_Some [OF validated_spec_template [OF assms]]
  then have "clean_template (hd tmpl)" by (simp add: list_all_iff)
  then show ?thesis using v(2,5) by (simp add: materialize_hd)
qed

lemma validated_array_template:
  assumes "validateCommandResumeSpec (Some (JArr (map JStr t))) c = Inr v"
  shows "crs_resumeArgvTemplate v = Some t"
proof -
  obtain x where x: "validate_template (Some (JArr (map JStr t))) = Inr x" "crs_resumeArgvTemplate v = x"
    using assms by (auto simp: validateCommandResumeSpec_def split: sum.splits)
  then have "x = Some (map json_string (map JStr t))"
    by (auto simp: validate_template_def split: if_splits option.splits sum.splits)
  then show ?thesis using x by (simp add: comp_def)
qed

lemma validate_executable_label:
  "validateCommandExecutable v l = Inr k \<Longrightarrow> validateCommandExecutable v l' = Inr k"
  by (erule validateCommandExecutable_Inr)
    (auto simp: validateCommandExecutable_def safeArg_None [THEN iffD2] split: option.splits
      dest: safeArg_None [THEN iffD2])

text \<open>A resume template that passed validation expands, for every captured reference, every
  prompt and either separator setting, to an argv vector whose first element is the
  template's own first element and is an acceptable executable. Each template entry becomes
  one argument (two, \<open>--\<close> and the prompt, for a bare \<open>{prompt}\<close> entry with the separator
  enabled), obtained by replacing exactly the placeholders the validator saw, in one pass: text inserted for
  a placeholder is never scanned again. The reference is inserted exactly once.\<close>
theorem validated_template_expands_safely:
  assumes "validateCommandResumeSpec t c = Inr v" "crs_resumeArgvTemplate v = Some tmpl"
  shows "hd (materializeResumeArgv tmpl r p sep) = hd tmpl
    \<and> (\<exists>k. validateCommandExecutable (Some (JStr (hd (materializeResumeArgv tmpl r p sep)))) ''argv[0]'' = Inr k)
    \<and> materializeResumeArgv tmpl r p sep =
        concat (map (\<lambda>s. if sep \<and> s = ''{prompt}'' then [''--'', p]
          else [concat (map (render r p) (template_tokens s))]) tmpl)
    \<and> sum_list (map (\<lambda>s. count_list (token_names (template_tokens s)) ''cliResumeRef'') tmpl) = 1"
proof -
  note v = validate_template_Some [OF validated_spec_template [OF assms]] and hd = validated_template_hd [OF assms]
  have clean: "list_all clean_template tmpl" using v(4) by (simp add: list_all_iff)
  have "map (\<lambda>s. count_list (token_names (template_tokens s)) ''cliResumeRef'') tmpl = map count_resume_refs tmpl"
    using clean by (simp add: count_is_tokens list_all_iff)
  with v(7) have "sum_list (map (\<lambda>s. count_list (token_names (template_tokens s)) ''cliResumeRef'') tmpl) = 1"
    by (simp only:)
  with hd v(6) clean show ?thesis
    by (auto simp: materialize_is_render dest: validate_executable_label)
qed

theorem validated_template_expands_safely_witness:
  "materializeResumeArgv [''codex'', ''--resume={cliResumeRef}'', ''{prompt}''] ''r{prompt}'' ''-v'' True
    = [''codex'', ''--resume=r{prompt}'', ''--'', ''-v'']
   \<and> hd (materializeResumeArgv [''codex'', ''--resume={cliResumeRef}'', ''{prompt}''] ''r{prompt}'' ''-v'' True) = ''codex''"
proof -
  define v where "v = \<lparr>crs_resumeArgvTemplate = Some [''codex'', ''--resume={cliResumeRef}'', ''{prompt}''],
      crs_resumeRefCapture = None\<rparr>"
  have "validateCommandResumeSpec
      (Some (JArr [JStr ''codex'', JStr ''--resume={cliResumeRef}'', JStr ''{prompt}''])) None = Inr v"
    unfolding v_def by code_simp
  moreover have "crs_resumeArgvTemplate v = Some [''codex'', ''--resume={cliResumeRef}'', ''{prompt}'']"
    by (simp add: v_def)
  ultimately show ?thesis
    using validated_template_expands_safely [where r = "''r{prompt}''" and p = "''-v''" and sep = True]
    by fastforce
qed

lemma pointer_included: "hasPriorContextPointer (prompt @ PRIOR_CONTEXT_PROMPT_POINTER)"
  unfolding hasPriorContextPointer_def str_includes_infix by (metis append_Nil2)

text \<open>Appending the prior-context pointer is idempotent, never pushes a prompt over the byte
  limit, keeps the prompt as a prefix, and leaves a prompt unchanged only if the pointer is
  already there or would not fit.\<close>
theorem prior_context_pointer_once_and_bounded:
  "appendPriorContextPointer (appendPriorContextPointer prompt) = appendPriorContextPointer prompt
   \<and> utf8_length (appendPriorContextPointer prompt) \<le> max MAX_PROMPT_BYTES (utf8_length prompt)
   \<and> (\<exists>rest. appendPriorContextPointer prompt = prompt @ rest
        \<and> rest \<in> {[], PRIOR_CONTEXT_PROMPT_POINTER})
   \<and> (hasPriorContextPointer (appendPriorContextPointer prompt) \<longleftrightarrow>
        hasPriorContextPointer prompt
        \<or> utf8_length prompt + utf8_length PRIOR_CONTEXT_PROMPT_POINTER \<le> MAX_PROMPT_BYTES)"
  by (auto simp: appendPriorContextPointer_def Let_def pointer_included)

end
