(* ===== verification/Cascade.thy ===== *)
theory Cascade
  imports Records
begin

text \<open>
  Provider-account scopes on a host: the inventory records of
  \<open>modules/shared/src/host-inventory.ts\<close>, the cascade worktree, repository, host, provider
  default of \<open>provider-cascade.ts\<close>, the table the user interface renders
  (\<open>provider-cascade-scope.ts\<close>) and the edits of an override (\<open>scope-provider-accounts.ts\<close>).

  A JavaScript object used as a dictionary is an insertion-ordered map. The lemmas show
  that attachment to the host gates every override, that the rendered table agrees with
  the decisions of the scheduler, and that editing one override changes exactly that
  scope and account.
\<close>

section \<open>Inventory\<close>

record account_override =
  ov_enabled :: "bool option"
  ov_commandId :: "string option"

type_synonym overrides = "(string, account_override) jsmap"

record host_worktree =
  hw_id :: string
  hw_name :: string
  hw_path :: string
  hw_labels :: "string list"
  hw_setupScript :: "string option"
  hw_setupCacheInputs :: "string list option"
  hw_overrides :: "overrides option"

record host_repository =
  hr_id :: string
  hr_path :: string
  hr_defaultBranch :: string
  hr_worktrees :: "host_worktree list"
  hr_setupScript :: "string option"
  hr_setupCacheInputs :: "string list option"
  hr_terminalHookScript :: "string option"
  hr_requiredEnvironment :: "string list option"
  hr_overrides :: "overrides option"

record host_provider_account =
  hpa_providerAccountId :: string
  hpa_commandId :: "string option"

record host_inventory =
  hi_setupScript :: "string option"
  hi_setupCacheInputs :: "string list option"
  hi_setupCacheHostInputs :: "string list option"
  hi_allowedRoots :: "string list option"
  hi_requiredEnvironment :: "string list option"
  hi_repositories :: "host_repository list"
  hi_providerAccounts :: "host_provider_account list"
  hi_capabilities :: "host_capability list option"
  hi_workspacePools :: "json option"

record provider_catalog =
  cat_providers :: "(string, provider) jsmap"
  cat_providerAccounts :: "(string, provider_account) jsmap"

section \<open>The cascade\<close>

definition override_of :: "overrides option \<Rightarrow> string \<Rightarrow> account_override option" where
  "override_of ovs a = (case ovs of None \<Rightarrow> None | Some m \<Rightarrow> js_get m a)"

definition worktree_override :: "host_worktree option \<Rightarrow> string \<Rightarrow> account_override option" where
  "worktree_override w a = (case w of None \<Rightarrow> None | Some x \<Rightarrow> override_of (hw_overrides x) a)"

definition repository_override :: "host_repository option \<Rightarrow> string \<Rightarrow> account_override option" where
  "repository_override r a = (case r of None \<Rightarrow> None | Some x \<Rightarrow> override_of (hr_overrides x) a)"

definition attached :: "host_inventory option \<Rightarrow> string \<Rightarrow> bool" where
  "attached inventory a =
    (case inventory of None \<Rightarrow> False
     | Some i \<Rightarrow> list_ex (\<lambda>p. hpa_providerAccountId p = a) (hi_providerAccounts i))"

definition resolveProviderAccountEnabled ::
    "string \<Rightarrow> host_worktree option \<Rightarrow> host_repository option \<Rightarrow> host_inventory option \<Rightarrow> bool" where
  "resolveProviderAccountEnabled a w r inventory =
    (if \<not> attached inventory a then False
     else opt_or (first_some (Option.bind (worktree_override w a) ov_enabled)
       (Option.bind (repository_override r a) ov_enabled)) True)"

definition provider_default :: "provider_catalog \<Rightarrow> string \<Rightarrow> string option" where
  "provider_default cat a =
    (case js_get (cat_providerAccounts cat) a of
       None \<Rightarrow> None
     | Some acct \<Rightarrow> (case js_get (cat_providers cat) (acct_providerId acct) of
         None \<Rightarrow> None | Some p \<Rightarrow> prov_defaultCommandId p))"

definition resolveProviderAccountCommandId ::
    "string \<Rightarrow> host_worktree option \<Rightarrow> host_repository option \<Rightarrow> host_inventory option
     \<Rightarrow> provider_catalog \<Rightarrow> string option" where
  "resolveProviderAccountCommandId a w r inventory cat =
    (let hostAccount = (case inventory of None \<Rightarrow> None
           | Some i \<Rightarrow> List.find (\<lambda>p. hpa_providerAccountId p = a) (hi_providerAccounts i))
     in first_some (Option.bind (worktree_override w a) ov_commandId)
         (first_some (Option.bind (repository_override r a) ov_commandId)
           (first_some (Option.bind hostAccount hpa_commandId) (provider_default cat a))))"

section \<open>The table of a scope\<close>

datatype scope_source = From_worktree | From_repository | From_host

datatype command_source = Cmd_worktree | Cmd_repository | Cmd_host | Cmd_provider_default | Cmd_none

record scope_resolution =
  sr_providerAccountId :: string
  sr_enabled :: bool
  sr_enabledSource :: scope_source
  sr_commandId :: "string option"
  sr_commandSource :: command_source

definition resolve_scope_account ::
    "host_worktree option \<Rightarrow> host_repository option \<Rightarrow> provider_catalog \<Rightarrow> host_provider_account
     \<Rightarrow> scope_resolution" where
  "resolve_scope_account w r cat p =
    (let a = hpa_providerAccountId p;
         wtEnabled = Option.bind (worktree_override w a) ov_enabled;
         repoEnabled = Option.bind (repository_override r a) ov_enabled;
         (enabled, enabledSource) =
           (case wtEnabled of Some b \<Rightarrow> (b, From_worktree)
            | None \<Rightarrow> (case repoEnabled of Some b \<Rightarrow> (b, From_repository) | None \<Rightarrow> (True, From_host)));
         wtCommand = Option.bind (worktree_override w a) ov_commandId;
         repoCommand = Option.bind (repository_override r a) ov_commandId;
         providerDefault = provider_default cat a;
         (commandId, commandSource) =
           (case wtCommand of Some c \<Rightarrow> (Some c, Cmd_worktree)
            | None \<Rightarrow> (case repoCommand of Some c \<Rightarrow> (Some c, Cmd_repository)
              | None \<Rightarrow> (case hpa_commandId p of Some c \<Rightarrow> (Some c, Cmd_host)
                | None \<Rightarrow> (if truthy_str providerDefault then (providerDefault, Cmd_provider_default)
                    else (None, Cmd_none)))))
     in \<lparr>sr_providerAccountId = a, sr_enabled = enabled, sr_enabledSource = enabledSource,
          sr_commandId = commandId, sr_commandSource = commandSource\<rparr>)"

definition resolveProviderAccountsForScope ::
    "host_worktree option \<Rightarrow> host_repository option \<Rightarrow> host_inventory option \<Rightarrow> provider_catalog
     \<Rightarrow> scope_resolution list" where
  "resolveProviderAccountsForScope w r inventory cat =
    (case inventory of None \<Rightarrow> [] | Some i \<Rightarrow> map (resolve_scope_account w r cat) (hi_providerAccounts i))"

section \<open>Editing an override\<close>

record account_scope =
  scope_repositoryId :: string
  scope_worktreeId :: "string option"

definition empty_override :: account_override where
  "empty_override = \<lparr>ov_enabled = None, ov_commandId = None\<rparr>"

definition withOverride ::
    "overrides option \<Rightarrow> string \<Rightarrow> (account_override \<Rightarrow> account_override) \<Rightarrow> overrides option" where
  "withOverride ovs a mutate =
    (let patched = mutate (opt_or (override_of ovs a) empty_override);
         m = opt_or ovs [];
         m' = (if ov_enabled patched = None \<and> ov_commandId patched = None
               then js_delete a m else js_set a patched m)
     in if 0 < length (js_keys m') then Some m' else None)"

definition withScope ::
    "host_inventory \<Rightarrow> account_scope \<Rightarrow> string \<Rightarrow> (account_override \<Rightarrow> account_override) \<Rightarrow> host_inventory" where
  "withScope inventory scope a mutate =
    inventory\<lparr>hi_repositories := map (\<lambda>r.
      if hr_id r \<noteq> scope_repositoryId scope then r
      else case scope_worktreeId scope of
        None \<Rightarrow> r\<lparr>hr_overrides := withOverride (hr_overrides r) a mutate\<rparr>
      | Some wid \<Rightarrow> r\<lparr>hr_worktrees := map (\<lambda>w.
          if hw_id w = wid then w\<lparr>hw_overrides := withOverride (hw_overrides w) a mutate\<rparr> else w)
          (hr_worktrees r)\<rparr>) (hi_repositories inventory)\<rparr>"

definition setScopeProviderEnabled ::
    "host_inventory \<Rightarrow> account_scope \<Rightarrow> string \<Rightarrow> bool option \<Rightarrow> host_inventory" where
  "setScopeProviderEnabled inventory scope a enabled =
    withScope inventory scope a (\<lambda>current. current\<lparr>ov_enabled := enabled\<rparr>)"

definition setScopeProviderCommand ::
    "host_inventory \<Rightarrow> account_scope \<Rightarrow> string \<Rightarrow> string option \<Rightarrow> host_inventory" where
  "setScopeProviderCommand inventory scope a commandId =
    withScope inventory scope a (\<lambda>current. current\<lparr>ov_commandId := commandId\<rparr>)"

definition find_repository :: "host_inventory \<Rightarrow> string \<Rightarrow> host_repository option" where
  "find_repository inventory rid = List.find (\<lambda>r. hr_id r = rid) (hi_repositories inventory)"

definition find_worktree :: "host_inventory \<Rightarrow> string \<Rightarrow> string \<Rightarrow> host_worktree option" where
  "find_worktree inventory rid wid =
    (case find_repository inventory rid of None \<Rightarrow> None
     | Some r \<Rightarrow> List.find (\<lambda>w. hw_id w = wid) (hr_worktrees r))"

section \<open>Attachment gates the cascade\<close>

lemma enabled_cases:
  "resolveProviderAccountEnabled a w r inventory \<longleftrightarrow>
    attached inventory a \<and>
    (case Option.bind (worktree_override w a) ov_enabled of
       Some b \<Rightarrow> b
     | None \<Rightarrow> (case Option.bind (repository_override r a) ov_enabled of Some b \<Rightarrow> b | None \<Rightarrow> True))"
  by (auto simp: resolveProviderAccountEnabled_def split: option.splits)

section \<open>The table agrees with the scheduler\<close>

lemma truthy_str_iff: "truthy_str x \<longleftrightarrow> x \<noteq> None \<and> x \<noteq> Some ''''"
  by (cases x) auto

lemma find_distinct:
  assumes "distinct (map f xs)" and "x \<in> set xs"
  shows "List.find (\<lambda>y. f y = f x) xs = Some x"
  using assms by (induction xs) auto

text \<open>For an inventory that lists every account once, each row of the scope table shows the
  enablement the scheduler uses, and the command the scheduler would run, unless the provider's
  default command is the empty string.\<close>
theorem scope_table_agrees_with_scheduler:
  assumes "distinct (map hpa_providerAccountId (hi_providerAccounts inventory))"
    and "row \<in> set (resolveProviderAccountsForScope w r (Some inventory) cat)"
  shows "sr_enabled row = resolveProviderAccountEnabled (sr_providerAccountId row) w r (Some inventory)
    \<and> (provider_default cat (sr_providerAccountId row) \<noteq> Some '''' \<longrightarrow>
       sr_commandId row = resolveProviderAccountCommandId (sr_providerAccountId row) w r (Some inventory) cat)"
proof -
  obtain p where p: "p \<in> set (hi_providerAccounts inventory)" and row: "row = resolve_scope_account w r cat p"
    using assms(2) by (auto simp: resolveProviderAccountsForScope_def)
  let ?a = "hpa_providerAccountId p"
  have id: "sr_providerAccountId row = ?a"
    by (simp add: row resolve_scope_account_def Let_def split: prod.splits)
  have at: "attached (Some inventory) ?a" using p by (auto simp: attached_def list_ex_iff)
  have f: "List.find (\<lambda>q. hpa_providerAccountId q = ?a) (hi_providerAccounts inventory) = Some p"
    by (rule find_distinct [OF assms(1) p])
  have "sr_enabled row = resolveProviderAccountEnabled ?a w r (Some inventory)"
    using at by (auto simp: row resolve_scope_account_def Let_def resolveProviderAccountEnabled_def
      split: option.splits prod.splits)
  moreover have "sr_commandId row = resolveProviderAccountCommandId ?a w r (Some inventory) cat"
    if "provider_default cat ?a \<noteq> Some ''''"
    using that f
    by (auto simp: row resolve_scope_account_def Let_def resolveProviderAccountCommandId_def
      truthy_str_iff split: option.splits prod.splits if_splits)
  ultimately show ?thesis by (simp add: id)
qed

section \<open>Edits change exactly one override\<close>

lemma withOverride_get:
  "override_of (withOverride ovs a mutate) a' =
    (if a' = a then
       (let patched = mutate (opt_or (override_of ovs a) empty_override)
        in if ov_enabled patched = None \<and> ov_commandId patched = None then None else Some patched)
     else override_of ovs a')"
proof -
  define patched where "patched = mutate (opt_or (override_of ovs a) empty_override)"
  define m where "m = (if ov_enabled patched = None \<and> ov_commandId patched = None
    then js_delete a (opt_or ovs []) else js_set a patched (opt_or ovs []))"
  have w: "withOverride ovs a mutate = (if 0 < length (js_keys m) then Some m else None)"
    by (simp add: withOverride_def m_def patched_def Let_def)
  have "override_of (withOverride ovs a mutate) a' = js_get m a'"
    unfolding w using js_get_keys [of m a'] by (cases "js_get m a'") (auto simp: override_of_def)
  moreover have "js_get (opt_or ovs []) a' = override_of ovs a'"
    by (cases ovs) (simp_all add: override_of_def)
  ultimately show ?thesis
    by (simp add: m_def js_map_simps patched_def [symmetric] Let_def)
qed

lemma find_map: "(\<And>x. g (f x) = g x) \<Longrightarrow> List.find (\<lambda>x. g x = i) (map f xs) = map_option f (List.find (\<lambda>x. g x = i) xs)"
  by (induction xs) auto

lemma find_repository_withScope:
  "find_repository (withScope inventory scope a mutate) rid =
    map_option (\<lambda>r.
      if rid \<noteq> scope_repositoryId scope then r
      else case scope_worktreeId scope of
        None \<Rightarrow> r\<lparr>hr_overrides := withOverride (hr_overrides r) a mutate\<rparr>
      | Some wid \<Rightarrow> r\<lparr>hr_worktrees := map (\<lambda>w.
          if hw_id w = wid then w\<lparr>hw_overrides := withOverride (hw_overrides w) a mutate\<rparr> else w)
          (hr_worktrees r)\<rparr>) (find_repository inventory rid)"
    (is "_ = map_option ?F _")
proof -
  define G :: "host_repository \<Rightarrow> host_repository" where "G = (\<lambda>r. if hr_id r \<noteq> scope_repositoryId scope then r
      else case scope_worktreeId scope of
        None \<Rightarrow> r\<lparr>hr_overrides := withOverride (hr_overrides r) a mutate\<rparr>
      | Some wid \<Rightarrow> r\<lparr>hr_worktrees := map (\<lambda>w.
          if hw_id w = wid then w\<lparr>hw_overrides := withOverride (hw_overrides w) a mutate\<rparr> else w)
          (hr_worktrees r)\<rparr>)"
  have "find_repository (withScope inventory scope a mutate) rid = map_option G (find_repository inventory rid)"
    unfolding find_repository_def withScope_def
    by (simp add: G_def) (rule find_map, simp split: option.splits)
  also have "\<dots> = map_option ?F (find_repository inventory rid)"
  proof (rule map_option_cong)
    fix r
    assume "find_repository inventory rid = Some r"
    then have "hr_id r = rid" by (auto simp: find_repository_def find_Some_iff)
    then show "G r = ?F r" by (simp add: G_def)
  qed simp
  finally show ?thesis .
qed

lemma repository_override_withScope:
  "repository_override (find_repository (withScope inventory scope a mutate) rid) a' =
    (if rid = scope_repositoryId scope \<and> scope_worktreeId scope = None
     then (case find_repository inventory rid of None \<Rightarrow> None
       | Some r \<Rightarrow> override_of (withOverride (hr_overrides r) a mutate) a')
     else repository_override (find_repository inventory rid) a')"
  by (auto simp: repository_override_def find_repository_withScope split: option.splits)

lemma find_worktree_withScope:
  "find_worktree (withScope inventory scope a mutate) rid wid =
    map_option (\<lambda>w. if rid = scope_repositoryId scope \<and> scope_worktreeId scope = Some wid
        then w\<lparr>hw_overrides := withOverride (hw_overrides w) a mutate\<rparr> else w)
      (find_worktree inventory rid wid)"
proof (cases "find_repository inventory rid")
  case None
  then show ?thesis by (simp add: find_worktree_def find_repository_withScope)
next
  case (Some r)
  have id: "hw_id w = wid" if "List.find (\<lambda>w. hw_id w = wid) (hr_worktrees r) = Some w" for w
    using that by (auto simp: find_Some_iff)
  have m: "List.find (\<lambda>w. hw_id w = wid) (map (\<lambda>w. if hw_id w = x
        then w\<lparr>hw_overrides := withOverride (hw_overrides w) a mutate\<rparr> else w) (hr_worktrees r))
      = map_option (\<lambda>w. if hw_id w = x then w\<lparr>hw_overrides := withOverride (hw_overrides w) a mutate\<rparr> else w)
        (List.find (\<lambda>w. hw_id w = wid) (hr_worktrees r))" for x
    by (rule find_map) simp
  note [simp] = find_worktree_def find_repository_withScope m \<open>find_repository inventory rid = Some r\<close>
  show ?thesis
  proof (cases "List.find (\<lambda>w. hw_id w = wid) (hr_worktrees r)")
    case None
    then show ?thesis by (simp split: option.split)
  next
    case (Some w)
    with id have "hw_id w = wid" by blast
    with Some show ?thesis by (simp split: option.split)
  qed
qed

lemma worktree_override_withScope:
  "worktree_override (find_worktree (withScope inventory scope a mutate) rid wid) a' =
    (if rid = scope_repositoryId scope \<and> scope_worktreeId scope = Some wid
     then (case find_worktree inventory rid wid of None \<Rightarrow> None
       | Some w \<Rightarrow> override_of (withOverride (hw_overrides w) a mutate) a')
     else worktree_override (find_worktree inventory rid wid) a')"
  by (cases "find_worktree inventory rid wid")
     (auto simp: worktree_override_def find_worktree_withScope)

lemma attached_withScope: "attached (Some (withScope inventory scope a mutate)) a' = attached (Some inventory) a'"
  by (simp add: attached_def withScope_def)

definition scheduler_enabled :: "host_inventory \<Rightarrow> string \<Rightarrow> string \<Rightarrow> string \<Rightarrow> bool" where
  "scheduler_enabled inventory rid wid a =
    resolveProviderAccountEnabled a (find_worktree inventory rid wid) (find_repository inventory rid) (Some inventory)"

lemma override_none [simp]: "override_of None a = None"
  by (simp add: override_of_def)

text \<open>Setting the enable override of an existing worktree to a value makes the scheduler use
  that value there for an attached account; clearing it makes the worktree inherit the repository
  again; and every other account, and every other worktree, keeps its effective enablement.\<close>
theorem worktree_override_edit:
  assumes "find_worktree inventory rid wid = Some w" and "attached (Some inventory) a"
  shows "scheduler_enabled
        (setScopeProviderEnabled inventory \<lparr>scope_repositoryId = rid, scope_worktreeId = Some wid\<rparr> a v) rid wid a
      = (case v of Some b \<Rightarrow> b
         | None \<Rightarrow> resolveProviderAccountEnabled a None (find_repository inventory rid) (Some inventory))
    \<and> (rid' \<noteq> rid \<or> wid' \<noteq> wid \<or> a' \<noteq> a \<longrightarrow>
       scheduler_enabled
         (setScopeProviderEnabled inventory \<lparr>scope_repositoryId = rid, scope_worktreeId = Some wid\<rparr> a v) rid' wid' a'
       = scheduler_enabled inventory rid' wid' a')"
proof -
  let ?s = "\<lparr>scope_repositoryId = rid, scope_worktreeId = Some wid\<rparr>"
  let ?i = "setScopeProviderEnabled inventory ?s a v"
  have w: "Option.bind (worktree_override (find_worktree ?i rid wid) a) ov_enabled = v"
    using assms(1)
    by (simp add: setScopeProviderEnabled_def worktree_override_withScope withOverride_get Let_def)
  have r: "repository_override (find_repository ?i rid') x = repository_override (find_repository inventory rid') x" for rid' x
    by (simp add: setScopeProviderEnabled_def repository_override_withScope)
  have at: "attached (Some ?i) x = attached (Some inventory) x" for x
    by (simp add: setScopeProviderEnabled_def attached_withScope)
  have "scheduler_enabled ?i rid wid a
      = (case v of Some b \<Rightarrow> b
         | None \<Rightarrow> resolveProviderAccountEnabled a None (find_repository inventory rid) (Some inventory))"
    unfolding scheduler_enabled_def enabled_cases w r at
    using assms(2) by (simp add: worktree_override_def split: option.splits)
  moreover have "worktree_override (find_worktree ?i rid' wid') a' = worktree_override (find_worktree inventory rid' wid') a'"
    if "rid' \<noteq> rid \<or> wid' \<noteq> wid \<or> a' \<noteq> a"
    using that
    by (cases "find_worktree inventory rid' wid'")
       (auto simp: setScopeProviderEnabled_def worktree_override_def find_worktree_withScope withOverride_get)
  ultimately show ?thesis
    unfolding scheduler_enabled_def enabled_cases r at by auto
qed

section \<open>Instances\<close>

definition sample_worktree :: host_worktree where
  "sample_worktree = \<lparr>hw_id = ''w1'', hw_name = ''one'', hw_path = ''/w1'', hw_labels = [],
    hw_setupScript = None, hw_setupCacheInputs = None, hw_overrides = None\<rparr>"

definition sample_repository :: host_repository where
  "sample_repository = \<lparr>hr_id = ''r1'', hr_path = ''/r1'', hr_defaultBranch = ''main'',
    hr_worktrees = [sample_worktree], hr_setupScript = None, hr_setupCacheInputs = None,
    hr_terminalHookScript = None, hr_requiredEnvironment = None,
    hr_overrides = Some [(''acct'', \<lparr>ov_enabled = Some False, ov_commandId = None\<rparr>)]\<rparr>"

definition sample_inventory :: host_inventory where
  "sample_inventory = \<lparr>hi_setupScript = None, hi_setupCacheInputs = None, hi_setupCacheHostInputs = None,
    hi_allowedRoots = None, hi_requiredEnvironment = None, hi_repositories = [sample_repository],
    hi_providerAccounts = [\<lparr>hpa_providerAccountId = ''acct'', hpa_commandId = Some ''cmd''\<rparr>],
    hi_capabilities = None, hi_workspacePools = None\<rparr>"

definition sample_catalog :: provider_catalog where
  "sample_catalog = \<lparr>cat_providers = [], cat_providerAccounts = []\<rparr>"

lemmas sample_inventory_defs = sample_inventory_def sample_repository_def sample_worktree_def sample_catalog_def

theorem scope_table_agrees_with_scheduler_witness:
  "\<exists>row. row \<in> set (resolveProviderAccountsForScope None (Some sample_repository) (Some sample_inventory) sample_catalog)
    \<and> sr_enabled row = resolveProviderAccountEnabled (sr_providerAccountId row) None (Some sample_repository) (Some sample_inventory)"
proof -
  let ?rows = "resolveProviderAccountsForScope None (Some sample_repository) (Some sample_inventory) sample_catalog"
  have d: "distinct (map hpa_providerAccountId (hi_providerAccounts sample_inventory))"
    by (simp add: sample_inventory_defs)
  obtain row where row: "row \<in> set ?rows"
    by (simp add: resolveProviderAccountsForScope_def sample_inventory_defs)
  from scope_table_agrees_with_scheduler [OF d row] row show ?thesis by blast
qed

theorem worktree_override_edit_witness:
  "scheduler_enabled (setScopeProviderEnabled sample_inventory
      \<lparr>scope_repositoryId = ''r1'', scope_worktreeId = Some ''w1''\<rparr> ''acct'' (Some True)) ''r1'' ''w1'' ''acct''
   \<and> \<not> scheduler_enabled sample_inventory ''r1'' ''w1'' ''acct''"
proof
  have w: "find_worktree sample_inventory ''r1'' ''w1'' = Some sample_worktree"
    by (simp add: find_worktree_def find_repository_def sample_inventory_defs)
  have a: "attached (Some sample_inventory) ''acct''" by (simp add: attached_def sample_inventory_defs)
  from worktree_override_edit [OF w a, of "Some True"]
  show "scheduler_enabled (setScopeProviderEnabled sample_inventory
      \<lparr>scope_repositoryId = ''r1'', scope_worktreeId = Some ''w1''\<rparr> ''acct'' (Some True)) ''r1'' ''w1'' ''acct''"
    by simp
  show "\<not> scheduler_enabled sample_inventory ''r1'' ''w1'' ''acct''" by code_simp
qed

end
