(* ===== verification/SessionResult.thy ===== *)
theory SessionResult
  imports Prelude "HOL-Library.Sublist"
begin

text \<open>
  The machine-readable outcome of a session attempt (\<open>modules/shared/src/session-result.ts\<close>): the
  normalisation every peer applies to an untrusted result, the strict validator, and
  \<open>JSON.stringify\<close>, whose UTF-8 length is the storage budget.

  A result is a record; \<open>session_result_json\<close> is the object the code sends and stores. The
  platform's URL parser is the parameter \<open>protocol\<close>: the \<open>protocol\<close> of \<open>new URL(value)\<close>, or
  \<open>None\<close> when the constructor throws.

  The lemmas show that a normalised result passes the strict validator, what a second
  normalisation does, and how large a normalised result can be.
\<close>

section \<open>JSON text\<close>

definition hex_digit :: "nat \<Rightarrow> char" where
  "hex_digit n = (if n < 10 then char_of (48 + n) else char_of (87 + n))"

definition json_escape :: "char \<Rightarrow> string" where
  "json_escape c =
    (let n = char_code c
     in if c = CHR 0x22 then [CHR 0x5C, CHR 0x22]
        else if c = CHR 0x5C then [CHR 0x5C, CHR 0x5C]
        else if n = 8 then [CHR 0x5C, CHR ''b'']
        else if n = 9 then [CHR 0x5C, CHR ''t'']
        else if n = 10 then [CHR 0x5C, CHR ''n'']
        else if n = 12 then [CHR 0x5C, CHR ''f'']
        else if n = 13 then [CHR 0x5C, CHR ''r'']
        else if n < 32 then [CHR 0x5C, CHR ''u'', CHR ''0'', CHR ''0'', hex_digit (n div 16), hex_digit (n mod 16)]
        else [c])"

definition json_quote :: "string \<Rightarrow> string" where
  "json_quote s = [CHR 0x22] @ concat (map json_escape s) @ [CHR 0x22]"

fun json_stringify :: "json \<Rightarrow> string" and json_member :: "string \<times> json \<Rightarrow> string" where
  "json_stringify JNull = ''null''"
| "json_stringify (JBool b) = (if b then ''true'' else ''false'')"
| "json_stringify (JNum n) = show_int n"
| "json_stringify (JStr s) = json_quote s"
| "json_stringify (JArr xs) = ''['' @ join_with '','' (map json_stringify xs) @ '']''"
| "json_stringify (JObj ms) = ''{'' @ join_with '','' (map json_member ms) @ ''}''"
| "json_member (k, v) = json_quote k @ '':'' @ json_stringify v"

section \<open>Results\<close>

datatype summary_source = Source_agent | Source_harness

record session_result =
  res_summary :: string
  res_summarySource :: summary_source
  res_summaryTruncated :: bool
  res_branch :: "string option"
  res_filesChanged :: "string list option"
  res_filesChangedTruncated :: bool
  res_pullRequestUrl :: "string option"

definition MAX_SESSION_RESULT_BYTES :: nat where
  "MAX_SESSION_RESULT_BYTES = 32768"

definition MAX_SESSION_RESULT_SUMMARY_BYTES :: nat where
  "MAX_SESSION_RESULT_SUMMARY_BYTES = 4096"

definition MAX_SESSION_RESULT_BRANCH_BYTES :: nat where
  "MAX_SESSION_RESULT_BRANCH_BYTES = 1024"

definition MAX_SESSION_RESULT_URL_BYTES :: nat where
  "MAX_SESSION_RESULT_URL_BYTES = 2048"

definition MAX_SESSION_RESULT_FILES :: nat where
  "MAX_SESSION_RESULT_FILES = 256"

definition MAX_SESSION_RESULT_FILE_BYTES :: nat where
  "MAX_SESSION_RESULT_FILE_BYTES = 4096"

lemmas result_limits = MAX_SESSION_RESULT_BYTES_def MAX_SESSION_RESULT_SUMMARY_BYTES_def
  MAX_SESSION_RESULT_BRANCH_BYTES_def MAX_SESSION_RESULT_URL_BYTES_def MAX_SESSION_RESULT_FILES_def
  MAX_SESSION_RESULT_FILE_BYTES_def

fun source_name :: "summary_source \<Rightarrow> string" where
  "source_name Source_agent = ''agent''"
| "source_name Source_harness = ''harness''"

definition session_result_json :: "session_result \<Rightarrow> json" where
  "session_result_json r = JObj
    ([(''summary'', JStr (res_summary r)), (''summarySource'', JStr (source_name (res_summarySource r)))]
     @ (if res_summaryTruncated r then [(''summaryTruncated'', JBool True)] else [])
     @ (case res_branch r of None \<Rightarrow> [] | Some b \<Rightarrow> [(''branch'', JStr b)])
     @ (case res_pullRequestUrl r of None \<Rightarrow> [] | Some u \<Rightarrow> [(''pullRequestUrl'', JStr u)])
     @ (case res_filesChanged r of None \<Rightarrow> [] | Some fs \<Rightarrow> [(''filesChanged'', JArr (map JStr fs))])
     @ (if res_filesChangedTruncated r then [(''filesChangedTruncated'', JBool True)] else []))"

definition result_bytes :: "session_result \<Rightarrow> nat" where
  "result_bytes r = utf8_length (json_stringify (session_result_json r))"

section \<open>Normalisation\<close>

fun shrink_end :: "string \<Rightarrow> nat \<Rightarrow> nat \<Rightarrow> nat" where
  "shrink_end s n 0 = 0"
| "shrink_end s n (Suc e) = (if utf8_length (take (Suc e) s) > n then shrink_end s n e else Suc e)"

definition truncate_text :: "string \<Rightarrow> nat \<Rightarrow> string" where
  "truncate_text s n = (if utf8_length s \<le> n then s else take (shrink_end s n (min (length s) n)) s)"

definition text_field :: "json option \<Rightarrow> nat \<Rightarrow> string option" where
  "text_field v n = (case v of Some (JStr s) \<Rightarrow> Some (truncate_text s n) | _ \<Rightarrow> None)"

definition validHttpUrl :: "(string \<Rightarrow> string option) \<Rightarrow> string \<Rightarrow> bool" where
  "validHttpUrl protocol s = (protocol s \<in> {Some ''http:'', Some ''https:''})"

fun collect_files :: "string list \<Rightarrow> bool \<Rightarrow> json list \<Rightarrow> string list \<times> bool" where
  "collect_files files truncated [] = (files, truncated)"
| "collect_files files truncated (JStr s # rest) =
    (if s = [] then collect_files files truncated rest
     else if utf8_length s > MAX_SESSION_RESULT_FILE_BYTES then collect_files files True rest
     else
       (let files1 = set_add s files
        in if length files1 \<ge> MAX_SESSION_RESULT_FILES then (files1, truncated)
           else collect_files files1 truncated rest))"
| "collect_files files truncated (_ # rest) = collect_files files truncated rest"

function fit_budget :: "session_result \<Rightarrow> session_result" where
  "fit_budget r =
    (if result_bytes r > MAX_SESSION_RESULT_BYTES \<and> opt_or (res_filesChanged r) [] \<noteq> []
     then fit_budget (r\<lparr>res_filesChanged := map_option butlast (res_filesChanged r), res_filesChangedTruncated := True\<rparr>)
     else r)"
  by pat_completeness auto
termination fit_budget
proof (relation "measure (\<lambda>r. length (opt_or (res_filesChanged r) []))")
  fix r assume "result_bytes r > MAX_SESSION_RESULT_BYTES \<and> opt_or (res_filesChanged r) [] \<noteq> []"
  then show "(r\<lparr>res_filesChanged := map_option butlast (res_filesChanged r), res_filesChangedTruncated := True\<rparr>, r)
      \<in> measure (\<lambda>r. length (opt_or (res_filesChanged r) []))"
    by (cases "res_filesChanged r") auto
qed simp

declare fit_budget.simps [simp del]

definition source_field :: "json option \<Rightarrow> summary_source option" where
  "source_field v =
    (if v = Some (JStr ''agent'') then Some Source_agent
     else if v = Some (JStr ''harness'') then Some Source_harness else None)"

definition branch_field :: "json option \<Rightarrow> string option" where
  "branch_field v =
    (case v of
       Some (JStr s) \<Rightarrow> (if s \<noteq> [] \<and> utf8_length s \<le> MAX_SESSION_RESULT_BRANCH_BYTES then Some s else None)
     | _ \<Rightarrow> None)"

definition url_field :: "(string \<Rightarrow> string option) \<Rightarrow> json option \<Rightarrow> string option" where
  "url_field protocol v =
    (case v of
       Some (JStr s) \<Rightarrow> (if utf8_length s \<le> MAX_SESSION_RESULT_URL_BYTES \<and> validHttpUrl protocol s then Some s else None)
     | _ \<Rightarrow> None)"

definition files_field :: "json option \<Rightarrow> json option \<Rightarrow> string list option \<times> bool" where
  "files_field v flag =
    (case v of
       Some (JArr xs) \<Rightarrow>
         (let (files, truncated) = collect_files [] False xs
          in (if files \<noteq> [] \<or> xs = [] then Some (js_sort str_compare files) else None,
              truncated \<or> length xs > MAX_SESSION_RESULT_FILES \<or> flag = Some (JBool True)))
     | _ \<Rightarrow> (None, False))"

definition long_summary :: "json option \<Rightarrow> bool" where
  "long_summary v = (case v of Some (JStr s) \<Rightarrow> utf8_length s > MAX_SESSION_RESULT_SUMMARY_BYTES | _ \<Rightarrow> False)"

definition normalizeSessionResult :: "(string \<Rightarrow> string option) \<Rightarrow> json \<Rightarrow> session_result option" where
  "normalizeSessionResult protocol value =
    (case value of
       JObj input \<Rightarrow>
         (case (source_field (js_get input ''summarySource''),
                text_field (js_get input ''summary'') MAX_SESSION_RESULT_SUMMARY_BYTES) of
            (Some source, Some summary) \<Rightarrow>
              (if summary = [] then None
               else
                 (let (files, truncated) = files_field (js_get input ''filesChanged'') (js_get input ''filesChangedTruncated'')
                  in Some (fit_budget
                    \<lparr>res_summary = summary, res_summarySource = source,
                     res_summaryTruncated = (long_summary (js_get input ''summary'')
                       \<or> js_get input ''summaryTruncated'' = Some (JBool True)),
                     res_branch = branch_field (js_get input ''branch''),
                     res_filesChanged = files, res_filesChangedTruncated = truncated,
                     res_pullRequestUrl = url_field protocol (js_get input ''pullRequestUrl'')\<rparr>)))
          | _ \<Rightarrow> None)
     | _ \<Rightarrow> None)"

definition harnessSessionResult :: "string \<Rightarrow> session_result" where
  "harnessSessionResult status =
    \<lparr>res_summary = ''Session '' @ status, res_summarySource = Source_harness, res_summaryTruncated = False,
     res_branch = None, res_filesChanged = None, res_filesChangedTruncated = False, res_pullRequestUrl = None\<rparr>"

section \<open>The strict validator\<close>

definition true_flag :: "json option \<Rightarrow> bool" where
  "true_flag v = (v = None \<or> v = Some (JBool True))"

definition isSessionResult :: "(string \<Rightarrow> string option) \<Rightarrow> json \<Rightarrow> bool" where
  "isSessionResult protocol value =
    (case value of
       JObj input \<Rightarrow>
         (case js_get input ''summary'' of
            Some (JStr s) \<Rightarrow> s \<noteq> [] \<and> utf8_length s \<le> MAX_SESSION_RESULT_SUMMARY_BYTES
          | _ \<Rightarrow> False)
         \<and> source_field (js_get input ''summarySource'') \<noteq> None
         \<and> true_flag (js_get input ''summaryTruncated'')
         \<and> (case js_get input ''branch'' of
              None \<Rightarrow> True | Some (JStr s) \<Rightarrow> utf8_length s \<le> MAX_SESSION_RESULT_BRANCH_BYTES | _ \<Rightarrow> False)
         \<and> (case js_get input ''pullRequestUrl'' of
              None \<Rightarrow> True
            | Some (JStr s) \<Rightarrow> utf8_length s \<le> MAX_SESSION_RESULT_URL_BYTES \<and> validHttpUrl protocol s
            | _ \<Rightarrow> False)
         \<and> (case js_get input ''filesChanged'' of
              None \<Rightarrow> True
            | Some (JArr xs) \<Rightarrow> length xs \<le> MAX_SESSION_RESULT_FILES
                \<and> list_all (\<lambda>x. case x of
                    JStr s \<Rightarrow> s \<noteq> [] \<and> utf8_length s \<le> MAX_SESSION_RESULT_FILE_BYTES | _ \<Rightarrow> False) xs
            | _ \<Rightarrow> False)
         \<and> true_flag (js_get input ''filesChangedTruncated'')
     | _ \<Rightarrow> False)"

section \<open>Normalised results are canonical\<close>

lemma shrink_end_bound: "utf8_length (take (shrink_end s n e) s) \<le> n"
  by (induction s n e rule: shrink_end.induct) auto

lemma truncate_bound: "utf8_length (truncate_text s n) \<le> n"
  by (simp add: truncate_text_def shrink_end_bound)

definition canonical_files :: "string list \<Rightarrow> bool" where
  "canonical_files fs =
    (distinct fs \<and> length fs \<le> MAX_SESSION_RESULT_FILES
     \<and> (\<forall>f\<in>set fs. f \<noteq> [] \<and> utf8_length f \<le> MAX_SESSION_RESULT_FILE_BYTES))"

lemma collect_files_canonical:
  "canonical_files files \<Longrightarrow> length files < MAX_SESSION_RESULT_FILES
   \<Longrightarrow> canonical_files (fst (collect_files files truncated xs))"
proof (induction files truncated xs rule: collect_files.induct)
  case (2 files truncated s rest)
  show ?case
  proof (cases "s = [] \<or> utf8_length s > MAX_SESSION_RESULT_FILE_BYTES")
    case True
    then show ?thesis using "2.IH"(1,2) "2.prems" by auto
  next
    case False
    have "length (set_add s files) \<le> Suc (length files)" by (simp add: set_add_def)
    with False "2.prems" have f1: "canonical_files (set_add s files)" by (simp add: canonical_files_def)
    with False show ?thesis
      using "2.IH"(3) [OF _ _ refl] by (simp add: Let_def not_le)
  qed
qed auto

lemma collect_files_id:
  "canonical_files (files @ fs) \<Longrightarrow> length files < MAX_SESSION_RESULT_FILES
   \<Longrightarrow> collect_files files truncated (map JStr fs) = (files @ fs, truncated)"
proof (induction fs arbitrary: files)
  case (Cons f fs)
  then have new: "set_add f files = files @ [f]" by (auto simp: set_add_def canonical_files_def List.member_iff)
  show ?case
  proof (cases "length (files @ [f]) \<ge> MAX_SESSION_RESULT_FILES")
    case True
    with Cons.prems have "fs = []" by (cases fs) (auto simp: canonical_files_def)
    with Cons.prems new True show ?thesis by (auto simp: canonical_files_def)
  next
    case False
    with Cons.prems have "collect_files (files @ [f]) truncated (map JStr fs) = ((files @ [f]) @ fs, truncated)"
      by (intro Cons.IH) auto
    with Cons.prems new False show ?thesis by (auto simp: canonical_files_def)
  qed
qed simp

lemma fit_budget_result:
  obtains fs t where "fit_budget r = r\<lparr>res_filesChanged := fs, res_filesChangedTruncated := t\<rparr>"
    and "fs = None \<longleftrightarrow> res_filesChanged r = None"
    and "prefix (opt_or fs []) (opt_or (res_filesChanged r) [])"
    and "result_bytes (fit_budget r) \<le> MAX_SESSION_RESULT_BYTES \<or> opt_or fs [] = []"
proof (induction r arbitrary: thesis rule: fit_budget.induct)
  case (1 r)
  let ?r = "r\<lparr>res_filesChanged := map_option butlast (res_filesChanged r), res_filesChangedTruncated := True\<rparr>"
  show ?case
  proof (cases "result_bytes r > MAX_SESSION_RESULT_BYTES \<and> opt_or (res_filesChanged r) [] \<noteq> []")
    case True
    then have step: "fit_budget r = fit_budget ?r" by (subst fit_budget.simps) simp
    have shorter: "prefix (opt_or (res_filesChanged ?r) []) (opt_or (res_filesChanged r) [])"
      by (cases "res_filesChanged r") (simp_all add: prefixeq_butlast)
    show ?thesis
    proof (rule "1.IH" [OF True])
      fix fs t assume "fit_budget ?r = ?r\<lparr>res_filesChanged := fs, res_filesChangedTruncated := t\<rparr>"
        and "fs = None \<longleftrightarrow> res_filesChanged ?r = None" and "prefix (opt_or fs []) (opt_or (res_filesChanged ?r) [])"
        and "result_bytes (fit_budget ?r) \<le> MAX_SESSION_RESULT_BYTES \<or> opt_or fs [] = []"
      then show thesis
        using shorter by (intro "1.prems" [where fs = fs and t = t]) (simp_all add: step prefix_order.trans)
    qed
  next
    case False
    then have "fit_budget r = r" by (subst fit_budget.simps) auto
    with False show ?thesis by (intro "1.prems" [where fs = "res_filesChanged r" and t = "res_filesChangedTruncated r"]) auto
  qed
qed

definition canonical_result :: "(string \<Rightarrow> string option) \<Rightarrow> session_result \<Rightarrow> bool" where
  "canonical_result protocol r =
    (res_summary r \<noteq> [] \<and> utf8_length (res_summary r) \<le> MAX_SESSION_RESULT_SUMMARY_BYTES
     \<and> (\<forall>b. res_branch r = Some b \<longrightarrow> b \<noteq> [] \<and> utf8_length b \<le> MAX_SESSION_RESULT_BRANCH_BYTES)
     \<and> (\<forall>u. res_pullRequestUrl r = Some u \<longrightarrow> utf8_length u \<le> MAX_SESSION_RESULT_URL_BYTES \<and> validHttpUrl protocol u)
     \<and> (\<forall>fs. res_filesChanged r = Some fs \<longrightarrow> canonical_files fs \<and> sorted_wrt (\<lambda>a b. str_compare a b \<le> 0) fs)
     \<and> (result_bytes r \<le> MAX_SESSION_RESULT_BYTES \<or> opt_or (res_filesChanged r) [] = []))"

lemma canonical_prefix: "prefix xs ys \<Longrightarrow> canonical_files ys \<Longrightarrow> canonical_files xs"
  by (auto simp: canonical_files_def prefix_def)

lemma fit_budget_canonical:
  assumes "canonical_result protocol r \<or> canonical_result protocol (r\<lparr>res_filesChanged := None\<rparr>)"
    and files: "\<And>fs. res_filesChanged r = Some fs \<Longrightarrow> canonical_files fs \<and> sorted_wrt (\<lambda>a b. str_compare a b \<le> 0) fs"
  shows "canonical_result protocol (fit_budget r)"
proof (rule fit_budget_result [of r])
  fix fs t assume eq: "fit_budget r = r\<lparr>res_filesChanged := fs, res_filesChangedTruncated := t\<rparr>"
    and none: "fs = None \<longleftrightarrow> res_filesChanged r = None"
    and pre: "prefix (opt_or fs []) (opt_or (res_filesChanged r) [])"
    and fits: "result_bytes (fit_budget r) \<le> MAX_SESSION_RESULT_BYTES \<or> opt_or fs [] = []"
  have "canonical_files gs \<and> sorted_wrt (\<lambda>a b. str_compare a b \<le> 0) gs" if "fs = Some gs" for gs
  proof -
    obtain hs where "res_filesChanged r = Some hs" using none \<open>fs = Some gs\<close> by auto
    with pre \<open>fs = Some gs\<close> files [of hs] show ?thesis
      using canonical_prefix [of gs hs] by (auto simp: prefix_def sorted_wrt_append)
  qed
  with assms(1) fits show ?thesis
    by (auto simp: canonical_result_def eq)
qed

lemma files_field_canonical:
  "fst (files_field v flag) = Some fs \<Longrightarrow> canonical_files fs \<and> sorted_wrt (\<lambda>a b. str_compare a b \<le> 0) fs"
proof -
  assume fs: "fst (files_field v flag) = Some fs"
  then obtain xs where xs: "fs = js_sort str_compare (fst (collect_files [] False xs))"
    by (cases v; cases "the v") (auto simp: files_field_def Let_def split_beta split: if_splits)
  have "canonical_files (fst (collect_files [] False xs))"
    by (rule collect_files_canonical) (simp_all add: canonical_files_def result_limits)
  with xs show ?thesis by (simp add: canonical_files_def str_order.sorted_sort)
qed

lemma normalized_canonical:
  assumes "normalizeSessionResult protocol v = Some r"
  shows "canonical_result protocol r"
proof -
  obtain input source s where v: "v = JObj input" and source: "source_field (js_get input ''summarySource'') = Some source"
    and s: "js_get input ''summary'' = Some (JStr s)"
    using assms by (auto simp: normalizeSessionResult_def text_field_def split: json.splits option.splits)
  define files where "files = files_field (js_get input ''filesChanged'') (js_get input ''filesChangedTruncated'')"
  define r0 where "r0 = \<lparr>res_summary = truncate_text s MAX_SESSION_RESULT_SUMMARY_BYTES, res_summarySource = source,
    res_summaryTruncated = (long_summary (js_get input ''summary'') \<or> js_get input ''summaryTruncated'' = Some (JBool True)),
    res_branch = branch_field (js_get input ''branch''), res_filesChanged = fst files, res_filesChangedTruncated = snd files,
    res_pullRequestUrl = url_field protocol (js_get input ''pullRequestUrl'')\<rparr>"
  have r: "r = fit_budget r0" and ne: "truncate_text s MAX_SESSION_RESULT_SUMMARY_BYTES \<noteq> []"
    using assms by (auto simp: normalizeSessionResult_def text_field_def v source s r0_def files_def Let_def
        split: prod.splits if_splits)
  have "canonical_result protocol (r0\<lparr>res_filesChanged := None\<rparr>)"
    using ne by (auto simp: r0_def canonical_result_def truncate_bound branch_field_def url_field_def
        split: option.splits json.splits if_splits)
  then show ?thesis unfolding r
    by (intro fit_budget_canonical) (auto simp: r0_def files_def dest: files_field_canonical)
qed

lemma session_result_fields:
  assumes "session_result_json r = JObj m"
  shows "js_get m ''summary'' = Some (JStr (res_summary r))"
    and "js_get m ''summarySource'' = Some (JStr (source_name (res_summarySource r)))"
    and "js_get m ''summaryTruncated'' = (if res_summaryTruncated r then Some (JBool True) else None)"
    and "js_get m ''branch'' = map_option JStr (res_branch r)"
    and "js_get m ''pullRequestUrl'' = map_option JStr (res_pullRequestUrl r)"
    and "js_get m ''filesChanged'' = map_option (\<lambda>fs. JArr (map JStr fs)) (res_filesChanged r)"
    and "js_get m ''filesChangedTruncated'' = (if res_filesChangedTruncated r then Some (JBool True) else None)"
  using assms
  by (auto simp: session_result_json_def js_get_append js_get_Cons split: option.splits)

lemma source_roundtrip [simp]: "source_field (Some (JStr (source_name x))) = Some x"
  by (cases x) (simp_all add: source_field_def)

text \<open>C31: Every normalised result passes the strict validator: whatever JSON value a peer sends, a normalisation
  that yields a result yields one that is a well-formed \<open>SessionResult\<close> within every field limit.\<close>
theorem normalized_result_is_valid:
  assumes "normalizeSessionResult protocol v = Some r"
  shows "isSessionResult protocol (session_result_json r)"
proof -
  obtain m where m: "session_result_json r = JObj m" by (simp add: session_result_json_def)
  have "canonical_result protocol r" by (rule normalized_canonical [OF assms])
  then show ?thesis
    by (auto simp: isSessionResult_def m session_result_fields [OF m] canonical_result_def canonical_files_def
        true_flag_def list_all_iff split: option.splits)
qed

lemma renormalize_files:
  assumes "canonical_files fs" and "sorted_wrt (\<lambda>a b. str_compare a b \<le> 0) fs"
  shows "files_field (Some (JArr (map JStr fs))) flag = (Some fs, flag = Some (JBool True))"
proof -
  have "collect_files [] False (map JStr fs) = ([] @ fs, False)"
    by (rule collect_files_id) (use assms in \<open>simp_all add: result_limits\<close>)
  then show ?thesis using assms
    by (auto simp: files_field_def Let_def canonical_files_def str_order.sort_sorted)
qed

text \<open>Normalising the object of a normalised result again changes
  nothing, except that the truncation flag of a result without a file list is lost.\<close>
theorem renormalization_keeps_result:
  assumes "normalizeSessionResult protocol v = Some r"
  shows "normalizeSessionResult protocol (session_result_json r) =
    Some (if res_filesChanged r = None then r\<lparr>res_filesChangedTruncated := False\<rparr> else r)"
proof -
  obtain m where m: "session_result_json r = JObj m" by (simp add: session_result_json_def)
  have can: "canonical_result protocol r" by (rule normalized_canonical [OF assms])
  have summary: "text_field (Some (JStr (res_summary r))) MAX_SESSION_RESULT_SUMMARY_BYTES = Some (res_summary r)"
    "\<not> long_summary (Some (JStr (res_summary r)))" "res_summary r \<noteq> []"
    using can by (simp_all add: canonical_result_def text_field_def truncate_text_def long_summary_def)
  have branch: "branch_field (map_option JStr (res_branch r)) = res_branch r"
    using can by (cases "res_branch r") (simp_all add: canonical_result_def branch_field_def)
  have url: "url_field protocol (map_option JStr (res_pullRequestUrl r)) = res_pullRequestUrl r"
    using can by (cases "res_pullRequestUrl r") (simp_all add: canonical_result_def url_field_def)
  define F where "F = files_field (map_option (\<lambda>fs. JArr (map JStr fs)) (res_filesChanged r))
    (if res_filesChangedTruncated r then Some (JBool True) else None)"
  have "normalizeSessionResult protocol (session_result_json r) = Some (fit_budget
      \<lparr>res_summary = res_summary r, res_summarySource = res_summarySource r, res_summaryTruncated = res_summaryTruncated r,
       res_branch = res_branch r, res_filesChanged = fst F, res_filesChangedTruncated = snd F,
       res_pullRequestUrl = res_pullRequestUrl r\<rparr>)"
    by (simp add: normalizeSessionResult_def m session_result_fields [OF m] summary branch url F_def Let_def split_beta)
  also have "\<dots> = Some (fit_budget (r\<lparr>res_filesChanged := fst F, res_filesChangedTruncated := snd F\<rparr>))"
    by (cases r) simp
  finally have norm: "normalizeSessionResult protocol (session_result_json r) =
    Some (fit_budget (r\<lparr>res_filesChanged := fst F, res_filesChangedTruncated := snd F\<rparr>))" .
  show ?thesis
  proof (cases "res_filesChanged r")
    case None
    then have "F = (None, False)" by (simp add: F_def files_field_def)
    moreover have "fit_budget (r\<lparr>res_filesChanged := None, res_filesChangedTruncated := False\<rparr>)
        = r\<lparr>res_filesChangedTruncated := False\<rparr>"
      using None by (subst fit_budget.simps) (cases r; simp)
    ultimately show ?thesis using None norm by simp
  next
    case (Some fs)
    have "files_field (Some (JArr (map JStr fs))) flag = (Some fs, flag = Some (JBool True))" for flag
      using can Some by (intro renormalize_files) (simp_all add: canonical_result_def)
    then have "F = (Some fs, res_filesChangedTruncated r)" using Some by (simp add: F_def)
    with Some have "r\<lparr>res_filesChanged := fst F, res_filesChangedTruncated := snd F\<rparr> = r" by (cases r) simp
    moreover have "fit_budget r = r" using can Some by (subst fit_budget.simps) (auto simp: canonical_result_def)
    ultimately show ?thesis using Some norm by simp
  qed
qed

section \<open>The storage budget\<close>

lemma utf8_replicate [simp]: "utf8_length (replicate n c) = n * utf8_length [c]"
  by (induction n) auto

lemma utf8_concat_replicate [simp]: "utf8_length (concat (replicate n s)) = n * utf8_length s"
  by (induction n) auto

definition oversized_url :: string where
  "oversized_url = ''https://x/'' @ replicate 2038 (CHR 0x22)"

definition oversized_result :: json where
  "oversized_result = JObj
    [(''summary'', JStr (replicate 4096 (CHR 0x01))), (''summarySource'', JStr ''agent''),
     (''branch'', JStr (replicate 1024 (CHR 0x01))), (''pullRequestUrl'', JStr oversized_url)]"

lemma escape_sizes:
  "utf8_length (json_escape (CHR 0x01)) = 6" "utf8_length (json_escape (CHR 0x22)) = 2"
  "utf8_length [CHR 0x01] = 1" "utf8_length [CHR 0x22] = 1"
  by code_simp+

text \<open>C34: The storage budget is not enforced by the field limits: escaping makes a result with no file list to drop
  longer than the budget, and normalisation returns it as it is.\<close>
theorem normalized_result_can_exceed_budget:
  assumes "protocol oversized_url = Some ''https:''"
  shows "\<exists>r. normalizeSessionResult protocol oversized_result = Some r \<and> result_bytes r > MAX_SESSION_RESULT_BYTES"
proof -
  define r where "r = \<lparr>res_summary = replicate 4096 (CHR 0x01), res_summarySource = Source_agent, res_summaryTruncated = False,
    res_branch = Some (replicate 1024 (CHR 0x01)), res_filesChanged = None, res_filesChangedTruncated = False,
    res_pullRequestUrl = Some oversized_url\<rparr>"
  have lengths: "utf8_length (replicate 4096 (CHR 0x01)) = 4096" "utf8_length (replicate 1024 (CHR 0x01)) = 1024"
    "utf8_length oversized_url = 2048"
    by (simp_all add: oversized_url_def escape_sizes del: utf8_length_Cons) code_simp
  have "normalizeSessionResult protocol oversized_result = Some (fit_budget r)"
    using assms lengths
    by (simp add: normalizeSessionResult_def oversized_result_def js_get_Cons source_field_def text_field_def
        truncate_text_def long_summary_def branch_field_def url_field_def files_field_def validHttpUrl_def result_limits r_def)
  moreover have "fit_budget r = r" by (subst fit_budget.simps) (simp add: r_def)
  moreover have "result_bytes r > MAX_SESSION_RESULT_BYTES"
    by (simp add: result_bytes_def r_def session_result_json_def json_quote_def oversized_url_def escape_sizes result_limits
        char_code_def)
  ultimately show ?thesis by auto
qed

section \<open>Examples\<close>

definition sample_protocol :: "string \<Rightarrow> string option" where
  "sample_protocol s = (if starts_with s ''https://'' then Some ''https:'' else None)"

definition sample_value :: json where
  "sample_value = JObj [(''summary'', JStr ''done''), (''summarySource'', JStr ''agent''),
    (''pullRequestUrl'', JStr ''ftp://x''), (''filesChanged'', JArr [JStr ''b'', JNull, JStr ''a'', JStr ''b''])]"

definition sample_result :: session_result where
  "sample_result = \<lparr>res_summary = ''done'', res_summarySource = Source_agent, res_summaryTruncated = False,
    res_branch = None, res_filesChanged = Some [''a'', ''b''], res_filesChangedTruncated = False, res_pullRequestUrl = None\<rparr>"

lemma sample_normalized: "normalizeSessionResult sample_protocol sample_value = Some sample_result"
  by code_simp

theorem normalized_result_is_valid_witness:
  "normalizeSessionResult sample_protocol sample_value = Some sample_result
   \<and> isSessionResult sample_protocol (session_result_json sample_result)"
  using normalized_result_is_valid [OF sample_normalized] sample_normalized by simp

theorem renormalization_keeps_result_witness:
  "normalizeSessionResult sample_protocol sample_value = Some sample_result
   \<and> normalizeSessionResult sample_protocol (session_result_json sample_result) = Some sample_result"
  using renormalization_keeps_result [OF sample_normalized] sample_normalized by (simp add: sample_result_def)

theorem normalized_result_can_exceed_budget_witness:
  "sample_protocol oversized_url = Some ''https:''
   \<and> (\<exists>r. normalizeSessionResult sample_protocol oversized_result = Some r \<and> result_bytes r > MAX_SESSION_RESULT_BYTES)"
proof -
  have https: "sample_protocol oversized_url = Some ''https:''"
    by (simp add: sample_protocol_def oversized_url_def)
  with normalized_result_can_exceed_budget [of sample_protocol, OF https] show ?thesis by simp
qed

end
