(* ===== verification/ControlState.thy ===== *)
theory ControlState
  imports Cascade SessionResult
begin

text \<open>
  The state bag \<open>ControlPlaneState\<close> (\<open>services/api/src/control-plane-state.ts\<close>) of a
  control plane without durable storage (\<open>storage\<close> undefined), the records it holds, the
  persistence helpers, and the readiness predicates of a host
  (\<open>control-plane-host-environment.ts\<close>, \<open>control-plane-protocol.ts\<close>,
  \<open>control-plane-repository-admission-state.ts\<close>, \<open>modules/shared/src/repository-admission.ts\<close>).

  A JavaScript object of a \<open>Map\<close> that the code updates in place is an update of the map entry.
  The fields of the bag that belong to storage, write queues, archives, Slack, webhooks and audit
  are left out. The clock is the field \<open>st_now\<close>: one operation reads it as one instant. The random
  factories are functions of a counter (\<open>st_idFactory\<close>, \<open>st_attemptIdFactory\<close>, \<open>st_apiKeyFactory\<close>), the
  platform's URL parser is the parameter \<open>st_urlProtocol\<close> of session results; messages handed to
  \<open>onHostMessage\<close> are appended to \<open>st_outbox\<close>.
\<close>

section \<open>Records of the state\<close>

record provider_lease_entry =
  ple_sessionId :: string
  ple_attemptId :: string
  ple_slot :: nat
  ple_hostId :: string
  ple_providerAccountId :: string

record pending_ack =
  pa_sessionId :: string
  pa_worktreeId :: "string option"
  pa_attemptId :: string
  pa_assignedAtMs :: "int option"

record checkout_lease =
  cl_sessionId :: string
  cl_connectionId :: string

record repository_record =
  rep_id :: string
  rep_name :: string
  rep_url :: string
  rep_defaultBranch :: string
  rep_setupScript :: "string option"
  rep_terminalHookScript :: "string option"
  rep_admissionState :: "json option"
  rep_admissionStateChangedAt :: "string option"
  rep_activationCutoffAt :: "string option"
  rep_drainRequestedAt :: "string option"
  rep_drainCompletedAt :: "string option"
  rep_createdAt :: string
  rep_updatedAt :: string

record setup_profile =
  sp_id :: string
  sp_name :: string
  sp_script :: string

record workspace_pool_record =
  pool_id :: string
  pool_name :: string
  pool_setupProfiles :: "setup_profile list"
  pool_setupProfileSummaries :: "(string \<times> string) list option"
  pool_defaultSetupProfileId :: "string option"
  pool_destroyWorkspaceAfter :: bool
  pool_createdAt :: string
  pool_updatedAt :: string

record host_inventory_record =
  hir_hostId :: string
  hir_inventory :: host_inventory
  hir_updateConfig :: "json option"
  hir_daemonInstanceId :: "string option"
  hir_daemonStartedAt :: "string option"
  hir_restartCount :: "nat option"
  hir_lastRestartDetectedAt :: "string option"
  hir_runtime :: "host_runtime option"
  hir_updatedAt :: string
  hir_version :: "nat option"

record assign_message =
  am_sessionId :: string
  am_sessionType :: session_type
  am_repositoryId :: "string option"
  am_worktreeId :: "string option"
  am_workspacePoolId :: "string option"
  am_workspaceSlotId :: "string option"
  am_setupProfileId :: "string option"
  am_setupScript :: "string option"
  am_destroyWorkspaceAfter :: "bool option"
  am_prompt :: string
  am_sessionApiKey :: "string option"
  am_outputs :: bool
  am_resolvedArgv :: "string list"
  am_timeout :: int
  am_infrastructureRetryCount :: "nat option"
  am_assignedAt :: string
  am_attemptId :: string
  am_ref :: "string option"
  am_metadata :: "json option"
  am_resumeRefCapture :: "resume_ref_capture option"
  am_providerAccountId :: "string option"
  am_providerId :: "string option"
  am_commandId :: "string option"
  am_targetIndex :: "nat option"
  am_logSettings :: json
  am_resumedFromSessionId :: "string option"
  am_resume :: bool
  am_cliResumeRef :: "string option"
  am_priorContext :: "string option"

record log_record =
  lr_sessionId :: string
  lr_timestampSeq :: string
  lr_stream :: string
  lr_content :: string
  lr_timestamp :: string
  lr_seq :: int
  lr_dropped :: "int option"

datatype host_wire_message =
    Session_assign assign_message
  | Session_cancel string "string option"
  | Session_acknowledged string string
  | Command_start_acknowledged string string
  | Status_acknowledged string string "bool option" "string option" "string option"
  | Terminal_hook_acknowledged string string
  | Host_drain
  | Host_resume

record control_plane_state =
  st_sessions :: "(string, session_record) jsmap"
  st_worktrees :: "(string, worktree_record) jsmap"
  st_workspacePools :: "(string, workspace_pool_record) jsmap"
  st_workspaceSlots :: "(string, workspace_slot_record) jsmap"
  st_connections :: "(string, connection_record) jsmap"
  st_hostConnection :: "(string, string) jsmap"
  st_repositories :: "(string, repository_record) jsmap"
  st_hostInventories :: "(string, host_inventory_record) jsmap"
  st_providers :: "(string, provider) jsmap"
  st_providerAccounts :: "(string, provider_account) jsmap"
  st_commands :: "(string, command) jsmap"
  st_pendingAcks :: "(string, pending_ack) jsmap"
  st_mainCheckoutLeases :: "(string, checkout_lease) jsmap"
  st_providerAccountLeases :: "(string, provider_lease_entry) jsmap"
  st_logs :: "(string, log_record list) jsmap"
  st_usageRecords :: "(string, usage_record) jsmap"
  st_drainingHosts :: "string list"
  st_disconnectedHosts :: "(string, string) jsmap"
  st_now :: string
  st_attemptIdFactory :: "nat \<Rightarrow> string"
  st_attemptCount :: nat
  st_idFactory :: "nat \<Rightarrow> string"
  st_idCount :: nat
  st_apiKeyFactory :: "nat \<Rightarrow> string \<times> string"
  st_apiKeyCount :: nat
  st_shardCount :: nat
  st_ackDeadlineMs :: int
  st_heartbeatStaleMs :: int
  st_reconnectGraceMs :: int
  st_logSettings :: json
  st_urlProtocol :: "string \<Rightarrow> string option"
  st_outbox :: "(string \<times> host_wire_message) list"

section \<open>Persistence helpers\<close>

definition retains_host_claim :: "session_record \<Rightarrow> bool" where
  "retains_host_claim s =
    (s_status s = Running
     \<or> (s_status s = Cancelled \<and> (nullable_opt (s_worktreeId s) \<noteq> None \<or> s_mainCheckoutLease s = Some True))
     \<or> (s_status s = Timed_out \<and> (s_providerAccountLease s \<noteq> None \<or> s_hostAssignmentLease s \<noteq> None
          \<or> s_timedOutHostId s \<noteq> None)))"

definition sessionForPersistence :: "session_record \<Rightarrow> session_record" where
  "sessionForPersistence s =
    (let s1 = (if retains_host_claim s then s else s\<lparr>s_activeHostId := None, s_activeHostOrder := None\<rparr>)
     in if s_status s1 \<noteq> Running then s1\<lparr>s_sessionApiKeyHash := None\<rparr> else s1)"

definition put_session :: "session_record \<Rightarrow> control_plane_state \<Rightarrow> control_plane_state" where
  "put_session s st = st\<lparr>st_sessions := js_set (s_id s) s (st_sessions st)\<rparr>"

definition persistSession :: "session_record \<Rightarrow> control_plane_state \<Rightarrow> control_plane_state" where
  "persistSession s st = st\<lparr>st_sessions := js_set (s_id s) (sessionForPersistence s) (st_sessions st)\<rparr>"

definition persistWorktree :: "worktree_record \<Rightarrow> control_plane_state \<Rightarrow> control_plane_state" where
  "persistWorktree w st = st\<lparr>st_worktrees := js_set (wt_id w) w (st_worktrees st)\<rparr>"

definition send_to_host :: "string \<Rightarrow> host_wire_message \<Rightarrow> control_plane_state \<Rightarrow> control_plane_state" where
  "send_to_host h msg st = st\<lparr>st_outbox := st_outbox st @ [(h, msg)]\<rparr>"

definition next_attempt :: "control_plane_state \<Rightarrow> string \<times> control_plane_state" where
  "next_attempt st = (st_attemptIdFactory st (st_attemptCount st), st\<lparr>st_attemptCount := Suc (st_attemptCount st)\<rparr>)"

definition next_id :: "control_plane_state \<Rightarrow> string \<times> control_plane_state" where
  "next_id st = (st_idFactory st (st_idCount st), st\<lparr>st_idCount := Suc (st_idCount st)\<rparr>)"

definition createSessionApiKey :: "control_plane_state \<Rightarrow> (string \<times> string) \<times> control_plane_state" where
  "createSessionApiKey st = (st_apiKeyFactory st (st_apiKeyCount st), st\<lparr>st_apiKeyCount := Suc (st_apiKeyCount st)\<rparr>)"

definition wrap32 :: "int \<Rightarrow> int" where
  "wrap32 n = (n + 2 ^ 31) mod 2 ^ 32 - 2 ^ 31"

definition hashString :: "string \<Rightarrow> int" where
  "hashString s = foldl (\<lambda>h c. wrap32 (h * 31 + int (char_code c))) 0 s"

section \<open>Host readiness\<close>

definition HOST_PROTOCOL_VERSION :: nat where
  "HOST_PROTOCOL_VERSION = 7"

definition negotiateHostProtocolVersion :: "nat option \<Rightarrow> nat option" where
  "negotiateHostProtocolVersion v = (if v = Some HOST_PROTOCOL_VERSION then Some HOST_PROTOCOL_VERSION else None)"

definition connectionProtocolVersion :: "connection_record option \<Rightarrow> nat option" where
  "connectionProtocolVersion c =
    (case c of None \<Rightarrow> None
     | Some x \<Rightarrow> first_some (conn_negotiatedProtocolVersion x) (conn_protocolVersion x))"

definition isCurrentHostProtocol :: "nat option \<Rightarrow> bool" where
  "isCurrentHostProtocol v = (v = Some HOST_PROTOCOL_VERSION)"

definition live_connection :: "control_plane_state \<Rightarrow> string \<Rightarrow> connection_record option" where
  "live_connection st h = Option.bind (js_get (st_hostConnection st) h) (js_get (st_connections st))"

definition truthy_connection_id :: "control_plane_state \<Rightarrow> string \<Rightarrow> bool" where
  "truthy_connection_id st h = truthy_str (js_get (st_hostConnection st) h)"

definition hostAcceptsNewAssignments :: "control_plane_state \<Rightarrow> string \<Rightarrow> bool" where
  "hostAcceptsNewAssignments st h =
    (if \<not> truthy_connection_id st h then False
     else isCurrentHostProtocol (connectionProtocolVersion (live_connection st h)))"

definition hostGitReady :: "control_plane_state \<Rightarrow> string \<Rightarrow> bool" where
  "hostGitReady st h =
    (js_get (st_hostConnection st) h \<noteq> None
     \<and> (case Option.bind (live_connection st h) conn_runtime of None \<Rightarrow> False | Some r \<Rightarrow> hrt_gitReady r))"

definition upper_char :: "char \<Rightarrow> string" where
  "upper_char c =
    (let n = char_code c
     in if 97 \<le> n \<and> n \<le> 122 \<or> 224 \<le> n \<and> n \<le> 254 \<and> n \<noteq> 247 then [char_of (n - 32)]
        else if n = 223 then ''SS'' else [c])"

definition to_upper :: "string \<Rightarrow> string" where
  "to_upper s = concat (map upper_char s)"

fun unique_names :: "string list \<Rightarrow> string list \<Rightarrow> string list" where
  "unique_names seen [] = []"
| "unique_names seen (x # xs) =
    (if List.member seen x then unique_names seen xs else x # unique_names (x # seen) xs)"

record environment_readiness =
  er_required :: "string list"
  er_missing :: "string list"
  er_ready :: bool

definition repositoryEnvironmentReadiness ::
    "control_plane_state \<Rightarrow> string \<Rightarrow> string \<Rightarrow> environment_readiness" where
  "repositoryEnvironmentReadiness st h rid =
    (let inventory = js_get (st_hostInventories st) h;
         repository = Option.bind inventory (\<lambda>i. find_repository (hir_inventory i) rid);
         required = unique_names []
           (opt_or (Option.bind inventory (\<lambda>i. hi_requiredEnvironment (hir_inventory i))) []
            @ opt_or (Option.bind repository hr_requiredEnvironment) []);
         runtime = (if truthy_connection_id st h then Option.bind (live_connection st h) conn_runtime
                    else Option.bind inventory hir_runtime);
         caseSensitive = (Option.bind runtime hrt_environmentNamesCaseSensitive \<noteq> Some False);
         norm = (\<lambda>name. if caseSensitive then name else to_upper name);
         available = map norm (opt_or (Option.bind runtime hrt_environmentNames) []);
         missing = filter (\<lambda>name. \<not> List.member available (norm name)) required
     in \<lparr>er_required = required, er_missing = missing, er_ready = (missing = [])\<rparr>)"

definition hostEnvironmentReady :: "control_plane_state \<Rightarrow> string \<Rightarrow> string \<Rightarrow> bool" where
  "hostEnvironmentReady st h rid = er_ready (repositoryEnvironmentReadiness st h rid)"

section \<open>Repository admission\<close>

datatype repository_admission = Adm_active | Adm_paused | Adm_draining

definition repositoryAdmissionState :: "json option \<Rightarrow> repository_admission option" where
  "repositoryAdmissionState v =
    (if v = Some (JStr ''active'') then Some Adm_active
     else if v = Some (JStr ''paused'') then Some Adm_paused
     else if v = Some (JStr ''draining'') then Some Adm_draining else None)"

definition repositoryAdmissionOpen :: "json option \<Rightarrow> bool" where
  "repositoryAdmissionOpen v = (repositoryAdmissionState v = Some Adm_active)"

fun admission_name :: "repository_admission \<Rightarrow> string" where
  "admission_name Adm_active = ''active''"
| "admission_name Adm_paused = ''paused''"
| "admission_name Adm_draining = ''draining''"

definition repositoryAdmissionClosedMessage :: "repository_admission \<Rightarrow> string" where
  "repositoryAdmissionClosedMessage a = ''repository admission is '' @ admission_name a"

definition repositoryAdmissionFailure :: "control_plane_state \<Rightarrow> string \<Rightarrow> (string \<times> string) option" where
  "repositoryAdmissionFailure st rid =
    (case js_get (st_repositories st) rid of
       None \<Rightarrow> Some (''repository not found'', ''NOT_FOUND'')
     | Some r \<Rightarrow>
         (let admission = opt_or (repositoryAdmissionState (rep_admissionState r)) Adm_paused
          in if admission = Adm_active then None
             else Some (repositoryAdmissionClosedMessage admission, ''REPOSITORY_ADMISSION_CLOSED'')))"

section \<open>A fresh control plane\<close>

record control_plane_options =
  cpo_now :: string
  cpo_attemptIdFactory :: "nat \<Rightarrow> string"
  cpo_idFactory :: "nat \<Rightarrow> string"
  cpo_apiKeyFactory :: "nat \<Rightarrow> string \<times> string"
  cpo_shardCount :: "nat option"
  cpo_ackDeadlineMs :: "int option"
  cpo_heartbeatStaleMs :: "int option"
  cpo_reconnectGraceMs :: "int option"
  cpo_logSettings :: json
  cpo_urlProtocol :: "string \<Rightarrow> string option"

definition DEFAULT_QUEUE_SHARD_COUNT :: nat where
  "DEFAULT_QUEUE_SHARD_COUNT = 4"

definition DEFAULT_ACK_DEADLINE_MS :: int where
  "DEFAULT_ACK_DEADLINE_MS = 15000"

definition DEFAULT_HEARTBEAT_STALE_MS :: int where
  "DEFAULT_HEARTBEAT_STALE_MS = 60000"

definition nonzero_or :: "('a::zero) option \<Rightarrow> 'a \<Rightarrow> 'a" where
  "nonzero_or v d = (case v of None \<Rightarrow> d | Some x \<Rightarrow> if x = 0 then d else x)"

definition createControlPlaneState :: "control_plane_options \<Rightarrow> control_plane_state" where
  "createControlPlaneState options =
    \<lparr>st_sessions = [], st_worktrees = [], st_workspacePools = [], st_workspaceSlots = [],
     st_connections = [], st_hostConnection = [], st_repositories = [], st_hostInventories = [],
     st_providers = [], st_providerAccounts = [], st_commands = [], st_pendingAcks = [],
     st_mainCheckoutLeases = [], st_providerAccountLeases = [], st_logs = [], st_usageRecords = [], st_drainingHosts = [],
     st_disconnectedHosts = [], st_now = cpo_now options,
     st_attemptIdFactory = cpo_attemptIdFactory options, st_attemptCount = 0,
     st_idFactory = cpo_idFactory options, st_idCount = 0,
     st_apiKeyFactory = cpo_apiKeyFactory options, st_apiKeyCount = 0,
     st_shardCount = nonzero_or (cpo_shardCount options) DEFAULT_QUEUE_SHARD_COUNT,
     st_ackDeadlineMs = nonzero_or (cpo_ackDeadlineMs options) DEFAULT_ACK_DEADLINE_MS,
     st_heartbeatStaleMs = nonzero_or (cpo_heartbeatStaleMs options) DEFAULT_HEARTBEAT_STALE_MS,
     st_reconnectGraceMs = opt_or (cpo_reconnectGraceMs options) 75000,
     st_logSettings = cpo_logSettings options, st_urlProtocol = cpo_urlProtocol options, st_outbox = []\<rparr>"

definition sample_options :: control_plane_options where
  "sample_options =
    \<lparr>cpo_now = ''2026-01-05T10:00:00.000Z'', cpo_attemptIdFactory = (\<lambda>n. ''attempt-'' @ show_int (int n)),
     cpo_idFactory = (\<lambda>n. ''id-'' @ show_int (int n)),
     cpo_apiKeyFactory = (\<lambda>n. (''key-'' @ show_int (int n), ''hash-'' @ show_int (int n))),
     cpo_shardCount = None, cpo_ackDeadlineMs = None, cpo_heartbeatStaleMs = None,
     cpo_reconnectGraceMs = None, cpo_logSettings = JNull, cpo_urlProtocol = sample_protocol\<rparr>"

end
