(* ===== verification/Leases.thy ===== *)
theory Leases
  imports ControlState
begin

text \<open>
  Capacity of provider accounts and hosts, and the life cycle of account leases in a control
  plane without storage: \<open>services/api/src/control-plane-provider-account-leases.ts\<close>,
  \<open>control-plane-provider-account-capacity.ts\<close> and \<open>providerAccountLeaseConcurrencyId\<close> of
  \<open>modules/shared/src/host-registration.ts\<close>. The branches that talk to DynamoDB are not
  modelled.

  A function that changes the session object it is given returns the changed session beside
  the new state. The lemmas show that lease identifiers are unique per account and slot, that
  acquisition takes the lowest free slot below the cap, that a release is fenced by session
  and attempt and idempotent, and that along every sequence of lease operations the leases of an account occupy
  distinct slots below its cap.
\<close>

section \<open>Capacity constants\<close>

definition DEFAULT_MAX_CONCURRENT_SESSIONS :: int where
  "DEFAULT_MAX_CONCURRENT_SESSIONS = 1"

definition MAX_CONCURRENT_SESSIONS_LIMIT :: nat where
  "MAX_CONCURRENT_SESSIONS_LIMIT = 64"

definition maxConcurrentSessionsFor :: "provider_account option \<Rightarrow> int" where
  "maxConcurrentSessionsFor account =
    opt_or (Option.bind account acct_maxConcurrentSessions) DEFAULT_MAX_CONCURRENT_SESSIONS"

definition PROVIDER_ACCOUNT_LEASE_PREFIX :: string where
  "PROVIDER_ACCOUNT_LEASE_PREFIX = ''provider-lease:''"

definition providerAccountLeaseConcurrencyId :: "string \<Rightarrow> nat \<Rightarrow> string" where
  "providerAccountLeaseConcurrencyId a slot = PROVIDER_ACCOUNT_LEASE_PREFIX @ a @ '':'' @ show_int (int slot)"

section \<open>The state of a slot\<close>

record lease_lock =
  ll_concurrencyId :: string
  ll_providerAccountId :: string
  ll_slot :: nat
  ll_attemptId :: string
  ll_sessionId :: string
  ll_hostId :: "string option"

datatype release_block = Session_not_terminal | Session_assignment_attached
  | Session_not_found | Session_lease_mismatch

record lease_holder =
  lh_sessionId :: string
  lh_attemptId :: string
  lh_hostId :: "string option"
  lh_sessionStatus :: "session_status option"
  lh_sessionCreatedAt :: "string option"
  lh_sessionStartedAt :: "string option"
  lh_releasable :: bool
  lh_releaseBlock :: "release_block option"

record lease_state =
  ls_providerAccountId :: string
  ls_slot :: nat
  ls_holder :: "lease_holder option"

record lease_release_result =
  lrr_released :: bool
  lrr_before :: lease_state
  lrr_after :: lease_state

datatype lease_operation = Lease_ok lease_release_result "string option"
  | Lease_not_found | Lease_conflict "release_block option"

definition sessionAttemptId :: "session_record \<Rightarrow> string option" where
  "sessionAttemptId s = first_some (s_attemptId s) (map_option rr_attemptId (s_resolvedRoute s))"

definition sessionMatchesProviderAccountLease :: "session_record option \<Rightarrow> lease_lock \<Rightarrow> bool" where
  "sessionMatchesProviderAccountLease session lease =
    (case session of None \<Rightarrow> False
     | Some s \<Rightarrow> (case s_providerAccountLease s of None \<Rightarrow> False
         | Some held \<Rightarrow> pal_concurrencyId held = ll_concurrencyId lease
             \<and> pal_providerAccountId held = ll_providerAccountId lease
             \<and> pal_slot held = ll_slot lease
             \<and> pal_attemptId held = ll_attemptId lease
             \<and> sessionAttemptId s = Some (ll_attemptId lease)))"

definition sessionAssignmentDetached :: "session_record \<Rightarrow> bool" where
  "sessionAssignmentDetached s =
    (nullable_opt (s_worktreeId s) = None \<and> s_mainCheckoutLease s \<noteq> Some True
     \<and> s_assignmentConnectionId s = None \<and> s_hostAssignmentLease s = None
     \<and> s_timedOutHostId s = None \<and> s_timedOutAssignmentConnectionId s = None)"

definition release_block_of :: "lease_lock \<Rightarrow> session_record option \<Rightarrow> release_block option" where
  "release_block_of lease session =
    (case session of None \<Rightarrow> Some Session_not_found
     | Some s \<Rightarrow>
         (if \<not> sessionMatchesProviderAccountLease session lease then Some Session_lease_mismatch
          else if \<not> isTerminalSessionStatus (s_status s) then Some Session_not_terminal
          else if \<not> sessionAssignmentDetached s then Some Session_assignment_attached
          else None))"

definition providerAccountLeaseState :: "lease_lock \<Rightarrow> session_record option \<Rightarrow> lease_state" where
  "providerAccountLeaseState lease session =
    \<lparr>ls_providerAccountId = ll_providerAccountId lease, ls_slot = ll_slot lease,
     ls_holder = Some
       \<lparr>lh_sessionId = ll_sessionId lease, lh_attemptId = ll_attemptId lease,
        lh_hostId = first_some (Option.bind session (\<lambda>s. nullable_opt (s_hostId s))) (ll_hostId lease),
        lh_sessionStatus = map_option s_status session,
        lh_sessionCreatedAt = map_option s_createdAt session,
        lh_sessionStartedAt = Option.bind session s_startedAt,
        lh_releasable = (release_block_of lease session = None),
        lh_releaseBlock = release_block_of lease session\<rparr>\<rparr>"

definition freeProviderAccountLeaseState :: "string \<Rightarrow> nat \<Rightarrow> lease_state" where
  "freeProviderAccountLeaseState a slot =
    \<lparr>ls_providerAccountId = a, ls_slot = slot, ls_holder = None\<rparr>"

definition session_lock :: "string \<Rightarrow> string \<Rightarrow> nat \<Rightarrow> session_record \<Rightarrow> lease_lock option" where
  "session_lock cid a slot s =
    (case s_providerAccountLease s of None \<Rightarrow> None
     | Some l \<Rightarrow>
         (if pal_concurrencyId l = cid \<and> pal_providerAccountId l = a \<and> pal_slot l = slot
          then Some \<lparr>ll_concurrencyId = pal_concurrencyId l, ll_providerAccountId = pal_providerAccountId l,
                 ll_slot = pal_slot l, ll_attemptId = pal_attemptId l, ll_sessionId = s_id s,
                 ll_hostId = (if truthy_nullable (s_hostId s) then nullable_opt (s_hostId s) else None)\<rparr>
          else None))"

fun first_session_lock :: "string \<Rightarrow> string \<Rightarrow> nat \<Rightarrow> session_record list \<Rightarrow> lease_lock option" where
  "first_session_lock cid a slot [] = None"
| "first_session_lock cid a slot (s # ss) =
    (case session_lock cid a slot s of Some l \<Rightarrow> Some l | None \<Rightarrow> first_session_lock cid a slot ss)"

definition localProviderAccountLeaseLock :: "control_plane_state \<Rightarrow> string \<Rightarrow> nat \<Rightarrow> lease_lock option" where
  "localProviderAccountLeaseLock st a slot =
    (let cid = providerAccountLeaseConcurrencyId a slot
     in case js_get (st_providerAccountLeases st) cid of
          Some held \<Rightarrow> Some \<lparr>ll_concurrencyId = cid, ll_providerAccountId = ple_providerAccountId held,
            ll_slot = ple_slot held, ll_attemptId = ple_attemptId held,
            ll_sessionId = ple_sessionId held, ll_hostId = Some (ple_hostId held)\<rparr>
        | None \<Rightarrow> first_session_lock cid a slot (js_values (st_sessions st)))"

definition listProviderAccountLeaseStates ::
    "control_plane_state \<Rightarrow> string \<Rightarrow> (session_record option \<Rightarrow> bool) \<Rightarrow> lease_state list option" where
  "listProviderAccountLeaseStates st a mayAccessSession =
    (if \<not> js_has (st_providerAccounts st) a then None
     else Some (concat (map (\<lambda>slot.
       case localProviderAccountLeaseLock st a slot of
         None \<Rightarrow> []
       | Some lease \<Rightarrow>
           (let session = js_get (st_sessions st) (ll_sessionId lease)
            in if mayAccessSession session then [providerAccountLeaseState lease session] else []))
       [0..<MAX_CONCURRENT_SESSIONS_LIMIT])))"

definition forceReleaseLocalProviderAccountLease ::
    "control_plane_state \<Rightarrow> string \<Rightarrow> nat \<Rightarrow> (session_record option \<Rightarrow> bool)
     \<Rightarrow> lease_operation \<times> control_plane_state" where
  "forceReleaseLocalProviderAccountLease st a slot mayAccessSession =
    (if \<not> js_has (st_providerAccounts st) a then (Lease_not_found, st)
     else case localProviderAccountLeaseLock st a slot of
       None \<Rightarrow> (let free = freeProviderAccountLeaseState a slot
               in (Lease_ok \<lparr>lrr_released = False, lrr_before = free, lrr_after = free\<rparr> None, st))
     | Some lease \<Rightarrow>
         (let session = js_get (st_sessions st) (ll_sessionId lease);
              before = providerAccountLeaseState lease session
          in if \<not> mayAccessSession session then (Lease_not_found, st)
             else case session of
               None \<Rightarrow> (Lease_conflict (Some Session_not_found), st)
             | Some s \<Rightarrow>
                 (if \<not> sessionMatchesProviderAccountLease session lease
                     \<or> \<not> isTerminalSessionStatus (s_status s) \<or> \<not> sessionAssignmentDetached s
                  then (Lease_conflict (Option.bind (ls_holder before) lh_releaseBlock), st)
                  else
                    (let cid = providerAccountLeaseConcurrencyId a slot;
                         st1 = st\<lparr>st_sessions := js_set (ll_sessionId lease)
                                  (s\<lparr>s_providerAccountLease := None\<rparr>) (st_sessions st)\<rparr>;
                         cached = js_get (st_providerAccountLeases st) cid;
                         st2 = (case cached of None \<Rightarrow> st1
                           | Some e \<Rightarrow> (if ple_sessionId e = ll_sessionId lease \<and> ple_attemptId e = ll_attemptId lease
                               then st1\<lparr>st_providerAccountLeases := js_delete cid (st_providerAccountLeases st)\<rparr>
                               else st1))
                     in (Lease_ok \<lparr>lrr_released = True, lrr_before = before,
                            lrr_after = freeProviderAccountLeaseState a slot\<rparr> (Some (s_repositoryId s)), st2)))))"

section \<open>Readiness and occupancy\<close>

definition hostProviderAccountReady :: "control_plane_state \<Rightarrow> string \<Rightarrow> string option \<Rightarrow> bool" where
  "hostProviderAccountReady st h a =
    (if \<not> truthy_str a then True
     else (let readiness = (if truthy_connection_id st h
                 then Option.bind (live_connection st h) conn_providerAccountReadiness else None)
           in case readiness of None \<Rightarrow> False
              | Some es \<Rightarrow> list_ex (\<lambda>e. Some (ready_providerAccountId e) = a \<and> ready_ready e) es))"

definition sessionOccupiesHostAssignment :: "session_record \<Rightarrow> bool" where
  "sessionOccupiesHostAssignment s =
    (if \<not> truthy_nullable (s_hostId s) then False
     else s_status s = Running \<or> s_providerAccountLease s \<noteq> None
       \<or> nullable_opt (s_worktreeId s) \<noteq> None \<or> s_mainCheckoutLease s = Some True
       \<or> s_workspaceSlotLease s = Some True)"

definition sessionHoldsHostAssignment :: "session_record \<Rightarrow> string \<Rightarrow> bool" where
  "sessionHoldsHostAssignment s h = (s_hostId s = Val h \<and> sessionOccupiesHostAssignment s)"

definition hostOccupancyKey :: "session_record \<Rightarrow> string" where
  "hostOccupancyKey s =
    (if truthy_nullable (s_worktreeId s) then ''w:'' @ the (nullable_opt (s_worktreeId s))
     else if truthy_bool (s_mainCheckoutLease s) then ''c:'' @ s_repositoryId s
     else if truthy_nullable (s_workspaceSlotId s) then ''x:'' @ the (nullable_opt (s_workspaceSlotId s))
     else ''s:'' @ s_id s)"

definition host_occupancy_keys :: "control_plane_state \<Rightarrow> string \<Rightarrow> string list" where
  "host_occupancy_keys st h =
    map hostOccupancyKey (filter (\<lambda>s. sessionHoldsHostAssignment s h) (js_values (st_sessions st)))
    @ map (\<lambda>w. ''w:'' @ wt_id w)
        (filter (\<lambda>w. wt_hostId w = h \<and> (wt_status w = Busy \<or> truthy_str (wt_currentSessionId w)))
          (js_values (st_worktrees st)))
    @ map (\<lambda>x. ''x:'' @ slot_id x)
        (filter (\<lambda>x. slot_hostId x = h \<and> (slot_status x = Busy \<or> truthy_str (slot_currentSessionId x)))
          (js_values (st_workspaceSlots st)))
    @ map (\<lambda>k. ''c:'' @ drop (length h + 1) k)
        (filter (\<lambda>k. starts_with k (h @ [CHR 0x00])) (js_keys (st_mainCheckoutLeases st)))"

definition hostAssignmentOccupancyCount :: "control_plane_state \<Rightarrow> string \<Rightarrow> nat" where
  "hostAssignmentOccupancyCount st h = length (remdups (host_occupancy_keys st h))"

definition hostHasAssignmentCapacity :: "control_plane_state \<Rightarrow> string \<Rightarrow> bool" where
  "hostHasAssignmentCapacity st h =
    (case (if truthy_connection_id st h
           then Option.bind (live_connection st h) conn_maxConcurrentAssignments else None) of
       None \<Rightarrow> True
     | Some cap \<Rightarrow> hostAssignmentOccupancyCount st h < cap)"

definition sessionOccupiesProviderAccountLease :: "session_record \<Rightarrow> bool" where
  "sessionOccupiesProviderAccountLease s =
    (s_providerAccountLease s \<noteq> None
     \<and> (s_status s = Running
        \<or> (s_status s = Cancelled \<and> nullable_opt (s_hostId s) \<noteq> None)
        \<or> (s_status s = Timed_out \<and> s_timedOutHostId s \<noteq> None)))"

definition lease_holders :: "control_plane_state \<Rightarrow> string \<Rightarrow> string list" where
  "lease_holders st a =
    map ple_sessionId (filter (\<lambda>e. ple_providerAccountId e = a) (js_values (st_providerAccountLeases st)))"

definition session_uses_account :: "string \<Rightarrow> session_record \<Rightarrow> bool" where
  "session_uses_account a s =
    ((sessionOccupiesProviderAccountLease s
      \<and> map_option pal_providerAccountId (s_providerAccountLease s) = Some a)
     \<or> ((s_status s = Running \<or> s_status s = Cancelled \<and> nullable_opt (s_hostId s) \<noteq> None)
        \<and> Option.bind (s_resolvedRoute s) rr_providerAccountId = Some a))"

definition accountHasLeaseCapacityOverCap :: "control_plane_state \<Rightarrow> string \<Rightarrow> bool" where
  "accountHasLeaseCapacityOverCap st a =
    (let cap = maxConcurrentSessionsFor (js_get (st_providerAccounts st) a)
     in list_ex (\<lambda>e. ple_providerAccountId e = a \<and> cap \<le> int (ple_slot e)) (js_values (st_providerAccountLeases st))
        \<or> cap < int (length (remdups (lease_holders st a))))"

definition accountHasLeaseCapacityFromReadModel :: "control_plane_state \<Rightarrow> string option \<Rightarrow> bool" where
  "accountHasLeaseCapacityFromReadModel st acct =
    (case acct of None \<Rightarrow> True
     | Some a \<Rightarrow>
         (if a = [] then True
          else int (length (remdups (lease_holders st a
                 @ map s_id (filter (session_uses_account a) (js_values (st_sessions st))))))
               < maxConcurrentSessionsFor (js_get (st_providerAccounts st) a)))"

definition accountHasLeaseCapacity :: "control_plane_state \<Rightarrow> string option \<Rightarrow> bool" where
  "accountHasLeaseCapacity st a = (if \<not> truthy_str a then True else accountHasLeaseCapacityFromReadModel st a)"

definition rebuildProviderAccountLeasesFromSessions :: "control_plane_state \<Rightarrow> control_plane_state" where
  "rebuildProviderAccountLeasesFromSessions st =
    st\<lparr>st_providerAccountLeases := foldl (\<lambda>m s.
      case s_providerAccountLease s of None \<Rightarrow> m
      | Some l \<Rightarrow>
          (if \<not> sessionOccupiesProviderAccountLease s then m
           else js_set (pal_concurrencyId l)
             \<lparr>ple_sessionId = s_id s, ple_attemptId = pal_attemptId l, ple_slot = pal_slot l,
              ple_hostId = opt_or (first_some (nullable_opt (s_hostId s)) (s_timedOutHostId s)) [],
              ple_providerAccountId = pal_providerAccountId l\<rparr> m))
      [] (js_values (st_sessions st))\<rparr>"

section \<open>Acquisition and release\<close>

definition free_slot :: "control_plane_state \<Rightarrow> string \<Rightarrow> nat list \<Rightarrow> bool \<Rightarrow> nat option" where
  "free_slot st a occupiedSlots consultLocalMap =
    List.find (\<lambda>slot. \<not> List.member occupiedSlots slot
        \<and> \<not> (consultLocalMap \<and> js_has (st_providerAccountLeases st) (providerAccountLeaseConcurrencyId a slot)))
      [0..<nat (maxConcurrentSessionsFor (js_get (st_providerAccounts st) a))]"

definition tryAcquireProviderAccountLeaseLocal ::
    "control_plane_state \<Rightarrow> session_record \<Rightarrow> string option \<Rightarrow> string \<Rightarrow> string \<Rightarrow> nat list \<Rightarrow> bool
     \<Rightarrow> account_lease option \<times> control_plane_state" where
  "tryAcquireProviderAccountLeaseLocal st s acct attemptId hostId occupiedSlots consultLocalMap =
    (case acct of None \<Rightarrow> (None, st)
     | Some a \<Rightarrow>
         (if a = [] then (None, st)
          else case free_slot st a occupiedSlots consultLocalMap of
            None \<Rightarrow> (None, st)
          | Some slot \<Rightarrow>
              (let cid = providerAccountLeaseConcurrencyId a slot
               in (Some \<lparr>pal_concurrencyId = cid, pal_providerAccountId = a, pal_slot = slot, pal_attemptId = attemptId\<rparr>,
                   st\<lparr>st_providerAccountLeases := js_set cid
                      \<lparr>ple_sessionId = s_id s, ple_attemptId = attemptId, ple_slot = slot,
                       ple_hostId = hostId, ple_providerAccountId = a\<rparr> (st_providerAccountLeases st)\<rparr>))))"

definition releaseProviderAccountLeaseLocal ::
    "control_plane_state \<Rightarrow> session_record \<Rightarrow> bool \<times> control_plane_state" where
  "releaseProviderAccountLeaseLocal st s =
    (case s_providerAccountLease s of None \<Rightarrow> (False, st)
     | Some lease \<Rightarrow>
         (case js_get (st_providerAccountLeases st) (pal_concurrencyId lease) of
            None \<Rightarrow> (False, st)
          | Some held \<Rightarrow>
              (if ple_sessionId held \<noteq> s_id s \<or> ple_attemptId held \<noteq> pal_attemptId lease then (False, st)
               else (True, st\<lparr>st_providerAccountLeases :=
                 js_delete (pal_concurrencyId lease) (st_providerAccountLeases st)\<rparr>))))"

definition releaseProviderAccountLease ::
    "control_plane_state \<Rightarrow> session_record \<Rightarrow> session_record \<times> control_plane_state" where
  "releaseProviderAccountLease st s =
    (case s_providerAccountLease s of
       None \<Rightarrow> (s\<lparr>s_hostAssignmentLease := None\<rparr>, st)
     | Some _ \<Rightarrow> (s\<lparr>s_providerAccountLease := None, s_hostAssignmentLease := None\<rparr>,
                 snd (releaseProviderAccountLeaseLocal st s)))"

definition clear_timed_out :: "json option \<Rightarrow> session_record \<Rightarrow> session_record" where
  "clear_timed_out result s =
    s\<lparr>s_timedOutHostId := None, s_timedOutAssignmentConnectionId := None, s_activeHostId := None,
      s_activeHostOrder := None,
      s_result := (if result \<noteq> None \<and> s_result s = None then result else s_result s)\<rparr>"

definition releaseTimedOutProviderAccountLease ::
    "control_plane_state \<Rightarrow> session_record \<Rightarrow> json option \<Rightarrow> session_record \<times> control_plane_state" where
  "releaseTimedOutProviderAccountLease st s result =
    (case s_providerAccountLease s of
       None \<Rightarrow> (clear_timed_out result (s\<lparr>s_hostAssignmentLease := None\<rparr>), st)
     | Some _ \<Rightarrow> (let (s1, st1) = releaseProviderAccountLease st s in (clear_timed_out result s1, st1)))"

definition release_timed_out_step ::
    "string \<Rightarrow> string list \<times> control_plane_state \<Rightarrow> session_record \<Rightarrow> string list \<times> control_plane_state" where
  "release_timed_out_step h acc s =
    (case acc of (released, st) \<Rightarrow>
      (if s_status s \<noteq> Timed_out \<or> s_timedOutHostId s \<noteq> Some h then acc
       else (let (s1, st1) = releaseTimedOutProviderAccountLease st s None
             in (released @ [s_id s], put_session s1 st1))))"

definition releaseTimedOutProviderAccountLeasesForHost ::
    "control_plane_state \<Rightarrow> string \<Rightarrow> string list \<times> control_plane_state" where
  "releaseTimedOutProviderAccountLeasesForHost st h =
    foldl (release_timed_out_step h) ([], st) (js_values (st_sessions st))"

definition releaseProviderAccountLeaseForSession ::
    "control_plane_state \<Rightarrow> session_record \<Rightarrow> session_record \<times> control_plane_state" where
  "releaseProviderAccountLeaseForSession st s =
    (if s_providerAccountLease s = None then (s, st) else releaseProviderAccountLease st s)"

section \<open>Lease identifiers\<close>

lemma show_nat_step:
  "0 \<le> n \<Longrightarrow> show_int n = (if n < 10 then [] else show_int (n div 10)) @ [digit_char (n mod 10)]"
  using show_int.simps [of n] by auto

lemma show_nat_digits:
  "0 \<le> n \<Longrightarrow> list_all is_digit (show_int n) \<and> parse_digits (show_int n) = n"
proof (induction "nat n" arbitrary: n rule: less_induct)
  case less
  have d: "is_digit (digit_char (n mod 10))" "digit_val (digit_char (n mod 10)) = n mod 10"
    using digit_char_digit [of "n mod 10"] by auto
  show ?case
  proof (cases "n < 10")
    case True
    then have "show_int n = [digit_char (n mod 10)]" using less.prems show_nat_step by simp
    then show ?thesis using d True less.prems by (simp add: parse_digits_def)
  next
    case False
    then have e: "show_int n = show_int (n div 10) @ [digit_char (n mod 10)]"
      using less.prems show_nat_step [of n] by simp
    have "list_all is_digit (show_int (n div 10)) \<and> parse_digits (show_int (n div 10)) = n div 10"
      using False by (intro less.hyps) auto
    then show ?thesis unfolding e using d by simp
  qed
qed

lemma show_nat_inj:
  assumes "show_int (int n) = show_int (int m)"
  shows "n = m"
proof -
  have "int n = parse_digits (show_int (int n))" by (simp add: show_nat_digits)
  also have "\<dots> = parse_digits (show_int (int m))" by (simp only: assms)
  also have "\<dots> = int m" by (simp add: show_nat_digits)
  finally show ?thesis by simp
qed

lemma colon_not_digit: "list_all is_digit s \<Longrightarrow> CHR '':'' \<notin> set s"
proof -
  have "\<not> is_digit (CHR '':'')" by code_simp
  then show "list_all is_digit s \<Longrightarrow> CHR '':'' \<notin> set s" by (auto simp: list_all_iff)
qed

lemma last_separator_unique:
  assumes "a @ c # s = b @ c # t" "c \<notin> set s" "c \<notin> set t"
  shows "a = b \<and> s = t"
proof -
  have tw: "takeWhile (\<lambda>x. x \<noteq> c) (rev u @ c # r) = rev u" if "c \<notin> set u" for u r
    using that by (subst takeWhile_append2) auto
  have "rev s @ c # rev a = rev t @ c # rev b" using arg_cong [OF assms(1), of rev] by simp
  then have "rev s = rev t" using tw [OF assms(2)] tw [OF assms(3)] by metis
  then show ?thesis using assms(1) by simp
qed

lemma concurrencyId_inj:
  "providerAccountLeaseConcurrencyId a n = providerAccountLeaseConcurrencyId b m \<longleftrightarrow> a = b \<and> n = m"
proof
  assume "providerAccountLeaseConcurrencyId a n = providerAccountLeaseConcurrencyId b m"
  then have e: "a @ CHR '':'' # show_int (int n) = b @ CHR '':'' # show_int (int m)"
    by (simp add: providerAccountLeaseConcurrencyId_def)
  have free: "CHR '':'' \<notin> set (show_int (int k))" for k
    using show_nat_digits [of "int k"] colon_not_digit by simp
  from last_separator_unique [OF e free free] show "a = b \<and> n = m"
    by (auto dest: show_nat_inj)
qed simp

section \<open>The contract of a slot pool\<close>

text \<open>
  What the scheduler relies on when it takes and returns capacity of an account: slots are
  numbered, a slot has at most one holder, acquisition takes the lowest free slot below the cap, and a
  release acts only for the current holder.
\<close>

locale slot_pool =
  fixes holder :: "'st \<Rightarrow> 'k \<Rightarrow> nat \<Rightarrow> 'i option"
    and cap :: "'st \<Rightarrow> 'k \<Rightarrow> nat"
    and acquire :: "'st \<Rightarrow> 'k \<Rightarrow> 'w \<Rightarrow> nat option \<times> 'st"
    and release :: "'st \<Rightarrow> 'k \<Rightarrow> nat \<Rightarrow> 'w \<Rightarrow> 'st"
    and owner :: "'w \<Rightarrow> 'i"
    and valid :: "'k \<Rightarrow> bool"
  assumes acquire_slot: "acquire st k w = (Some n, st') \<Longrightarrow>
      n < cap st k \<and> holder st k n = None \<and> (\<forall>m < n. holder st k m \<noteq> None)"
    and acquire_holder: "acquire st k w = (Some n, st') \<Longrightarrow>
      holder st' = (holder st)(k := (holder st k)(n \<mapsto> owner w))"
    and acquire_cap: "acquire st k w = (r, st') \<Longrightarrow> cap st' = cap st"
    and acquire_full: "valid k \<Longrightarrow> acquire st k w = (None, st') \<Longrightarrow>
      st' = st \<and> (\<forall>m < cap st k. holder st k m \<noteq> None)"
    and release_holder: "holder (release st k n w) =
      (if holder st k n = Some (owner w) then (holder st)(k := (holder st k)(n := None)) else holder st)"
    and release_cap: "cap (release st k n w) = cap st"
begin

lemma within_acquire:
  assumes "\<forall>k n. holder st k n \<noteq> None \<longrightarrow> n < cap st k" and "acquire st k w = (Some m, st')"
  shows "\<forall>k n. holder st' k n \<noteq> None \<longrightarrow> n < cap st' k"
  using assms acquire_slot [OF assms(2)] acquire_holder [OF assms(2)] acquire_cap [OF assms(2)] by auto

lemma within_release:
  assumes "\<forall>k n. holder st k n \<noteq> None \<longrightarrow> n < cap st k"
  shows "\<forall>k n. holder (release st k' m w) k n \<noteq> None \<longrightarrow> n < cap (release st k' m w) k"
  using assms by (auto simp: release_holder release_cap)

lemma held_below: "\<forall>n. holder st k n \<noteq> None \<longrightarrow> n < cap st k \<Longrightarrow> {n. holder st k n \<noteq> None} \<subseteq> {..<cap st k}"
  by auto

lemma count_le_cap:
  "\<forall>n. holder st k n \<noteq> None \<longrightarrow> n < cap st k \<Longrightarrow> card {n. holder st k n \<noteq> None} \<le> cap st k"
  using card_mono [OF _ held_below] by force

lemma acquire_succeeds_iff:
  assumes "valid k" and "\<forall>n. holder st k n \<noteq> None \<longrightarrow> n < cap st k"
  shows "fst (acquire st k w) \<noteq> None \<longleftrightarrow> card {n. holder st k n \<noteq> None} < cap st k"
proof (cases "acquire st k w")
  case (Pair r st')
  show ?thesis
  proof (cases r)
    case None
    then have "{..<cap st k} \<subseteq> {n. holder st k n \<noteq> None}" using acquire_full [OF assms(1)] Pair by auto
    then have "{n. holder st k n \<noteq> None} = {..<cap st k}" using held_below [OF assms(2)] by blast
    then show ?thesis using Pair None by simp
  next
    case (Some n)
    then have "n < cap st k" "holder st k n = None" using acquire_slot Pair by auto
    then have "n \<in> {..<cap st k}" "n \<notin> {n. holder st k n \<noteq> None}" by auto
    then have "{n. holder st k n \<noteq> None} \<subset> {..<cap st k}" using held_below [OF assms(2)] by blast
    then have "card {n. holder st k n \<noteq> None} < card {..<cap st k}" by (intro psubset_card_mono) auto
    then show ?thesis using Pair Some by simp
  qed
qed

lemma release_idem: "holder (release (release st k n w) k n w) = holder (release st k n w)"
  by (auto simp: release_holder)

lemma release_frees: "holder st k n = Some (owner w) \<Longrightarrow> holder (release st k n w) k n = None"
  by (simp add: release_holder)

lemma reacquire:
  assumes "valid k" and "holder st k n = Some (owner w)" and "n < cap st k"
  shows "\<exists>m. fst (acquire (release st k n w) k v) = Some m \<and> m \<le> n"
proof (cases "acquire (release st k n w) k v")
  case (Pair r st')
  have free: "holder (release st k n w) k n = None" and c: "n < cap (release st k n w) k"
    using assms release_frees by (auto simp: release_cap)
  show ?thesis
  proof (cases r)
    case None
    then show ?thesis using acquire_full [OF assms(1)] Pair free c by blast
  next
    case (Some m)
    then have "\<forall>i < m. holder (release st k n w) k i \<noteq> None" using acquire_slot Pair by blast
    then have "m \<le> n" using free by (meson not_le)
    then show ?thesis using Pair Some by simp
  qed
qed

end

section \<open>Account leases are a slot pool\<close>

definition account_cap :: "control_plane_state \<Rightarrow> string \<Rightarrow> nat" where
  "account_cap st a = nat (maxConcurrentSessionsFor (js_get (st_providerAccounts st) a))"

definition slot_holder :: "control_plane_state \<Rightarrow> string \<Rightarrow> nat \<Rightarrow> (string \<times> string) option" where
  "slot_holder st a n =
    map_option (\<lambda>e. (ple_sessionId e, ple_attemptId e))
      (js_get (st_providerAccountLeases st) (providerAccountLeaseConcurrencyId a n))"

definition acquire_slot_of :: "control_plane_state \<Rightarrow> string \<Rightarrow> session_record \<times> string \<times> string
    \<Rightarrow> nat option \<times> control_plane_state" where
  "acquire_slot_of st a w =
    (case w of (s, attemptId, hostId) \<Rightarrow>
      (case tryAcquireProviderAccountLeaseLocal st s (Some a) attemptId hostId [] True of
         (l, st') \<Rightarrow> (map_option pal_slot l, st')))"

definition release_slot_of :: "control_plane_state \<Rightarrow> string \<Rightarrow> nat \<Rightarrow> session_record \<times> string \<times> string
    \<Rightarrow> control_plane_state" where
  "release_slot_of st a n w =
    (case w of (s, attemptId, hostId) \<Rightarrow>
      snd (releaseProviderAccountLeaseLocal st
        (s\<lparr>s_providerAccountLease := Some \<lparr>pal_concurrencyId = providerAccountLeaseConcurrencyId a n,
            pal_providerAccountId = a, pal_slot = n, pal_attemptId = attemptId\<rparr>\<rparr>)))"

definition slot_owner :: "session_record \<times> string \<times> string \<Rightarrow> string \<times> string" where
  "slot_owner w = (case w of (s, attemptId, hostId) \<Rightarrow> (s_id s, attemptId))"

lemma find_upt:
  "List.find P [0..<m] = Some n \<longleftrightarrow> n < m \<and> P n \<and> (\<forall>i < n. \<not> P i)"
  "List.find P [0..<m] = None \<longleftrightarrow> (\<forall>i < m. \<not> P i)"
proof -
  show "List.find P [0..<m] = Some n \<longleftrightarrow> n < m \<and> P n \<and> (\<forall>i < n. \<not> P i)"
    unfolding find_Some_iff by auto
  show "List.find P [0..<m] = None \<longleftrightarrow> (\<forall>i < m. \<not> P i)"
    unfolding find_None_iff by auto
qed

lemma acquire_slot_of_Some:
  assumes "acquire_slot_of st a (s, attemptId, hostId) = (Some n, st')"
  shows "n < account_cap st a" "slot_holder st a n = None" "\<forall>m < n. slot_holder st a m \<noteq> None"
    "st' = st\<lparr>st_providerAccountLeases := js_set (providerAccountLeaseConcurrencyId a n)
        \<lparr>ple_sessionId = s_id s, ple_attemptId = attemptId, ple_slot = n, ple_hostId = hostId,
         ple_providerAccountId = a\<rparr> (st_providerAccountLeases st)\<rparr>"
  using assms
  by (auto simp: acquire_slot_of_def tryAcquireProviderAccountLeaseLocal_def Let_def free_slot_def
      find_upt account_cap_def slot_holder_def js_map_simps split: if_splits option.splits)

lemma acquire_slot_of_None:
  "acquire_slot_of st a w = (None, st') \<Longrightarrow> st' = st \<and> (a \<noteq> [] \<longrightarrow> (\<forall>m < account_cap st a. slot_holder st a m \<noteq> None))"
  by (auto simp: acquire_slot_of_def tryAcquireProviderAccountLeaseLocal_def Let_def free_slot_def
      find_upt account_cap_def slot_holder_def js_map_simps split: if_splits option.splits prod.splits)

lemma slot_holder_set:
  "slot_holder (st\<lparr>st_providerAccountLeases := js_set (providerAccountLeaseConcurrencyId a n) e (st_providerAccountLeases st)\<rparr>)
    = (slot_holder st)(a := (slot_holder st a)(n \<mapsto> (ple_sessionId e, ple_attemptId e)))"
  by (rule ext)+ (auto simp: slot_holder_def js_map_simps concurrencyId_inj)

lemma slot_holder_delete:
  "slot_holder (st\<lparr>st_providerAccountLeases := js_delete (providerAccountLeaseConcurrencyId a n) (st_providerAccountLeases st)\<rparr>)
    = (slot_holder st)(a := (slot_holder st a)(n := None))"
  by (rule ext)+ (auto simp: slot_holder_def js_map_simps concurrencyId_inj)

lemma release_slot_of_eq:
  "release_slot_of st a n w =
    (if slot_holder st a n = Some (slot_owner w)
     then st\<lparr>st_providerAccountLeases := js_delete (providerAccountLeaseConcurrencyId a n) (st_providerAccountLeases st)\<rparr>
     else st)"
  by (cases w) (auto simp: release_slot_of_def releaseProviderAccountLeaseLocal_def slot_holder_def
      slot_owner_def split: option.splits)

interpretation acct_pool: slot_pool slot_holder account_cap acquire_slot_of release_slot_of slot_owner "\<lambda>a. a \<noteq> []"
proof
  fix st k n st' and w :: "session_record \<times> string \<times> string"
  assume a: "acquire_slot_of st k w = (Some n, st')"
  obtain s attemptId hostId where w: "w = (s, attemptId, hostId)" by (cases w)
  note f = acquire_slot_of_Some [OF a [unfolded w]]
  show "n < account_cap st k \<and> slot_holder st k n = None \<and> (\<forall>m < n. slot_holder st k m \<noteq> None)"
    using f by blast
  show "slot_holder st' = (slot_holder st)(k := (slot_holder st k)(n \<mapsto> slot_owner w))"
    unfolding f(4) slot_holder_set by (simp add: slot_owner_def w)
next
  fix st k r st' and w :: "session_record \<times> string \<times> string"
  assume a: "acquire_slot_of st k w = (r, st')"
  obtain s attemptId hostId where w: "w = (s, attemptId, hostId)" by (cases w)
  show "account_cap st' = account_cap st"
  proof (cases r)
    case None
    then show ?thesis using acquire_slot_of_None a by blast
  next
    case (Some n)
    then show ?thesis using acquire_slot_of_Some(4) [of st k s attemptId hostId n st'] a w
      by (auto simp: account_cap_def)
  qed
next
  fix st k st' and w :: "session_record \<times> string \<times> string"
  assume "k \<noteq> []" "acquire_slot_of st k w = (None, st')"
  then show "st' = st \<and> (\<forall>m < account_cap st k. slot_holder st k m \<noteq> None)"
    using acquire_slot_of_None by blast
next
  fix st k n and w :: "session_record \<times> string \<times> string"
  show "slot_holder (release_slot_of st k n w) =
      (if slot_holder st k n = Some (slot_owner w)
       then (slot_holder st)(k := (slot_holder st k)(n := None)) else slot_holder st)"
    by (simp add: release_slot_of_eq slot_holder_delete)
  show "account_cap (release_slot_of st k n w) = account_cap st"
    by (auto simp: release_slot_of_eq account_cap_def)
qed

section \<open>Every sequence of lease operations\<close>

text \<open>
  The steps are the operations of this theory, with any arguments, interleaved with arbitrary
  writes of session records by the rest of the control plane.
\<close>

inductive lease_step :: "control_plane_state \<Rightarrow> control_plane_state \<Rightarrow> bool" where
  ls_acquire: "lease_step st (snd (tryAcquireProviderAccountLeaseLocal st s a attemptId hostId occupied True))"
| ls_release: "lease_step st (snd (releaseProviderAccountLease st s))"
| ls_timed_out: "lease_step st (snd (releaseTimedOutProviderAccountLease st s result))"
| ls_host: "lease_step st (snd (releaseTimedOutProviderAccountLeasesForHost st h))"
| ls_for_session: "lease_step st (snd (releaseProviderAccountLeaseForSession st s))"
| ls_force: "lease_step st (snd (forceReleaseLocalProviderAccountLease st acct n mayAccess))"
| ls_sessions: "lease_step st (st\<lparr>st_sessions := m\<rparr>)"

inductive lease_reachable :: "control_plane_state \<Rightarrow> bool" where
  lr_start: "st_providerAccountLeases st = [] \<Longrightarrow> lease_reachable st"
| lr_step: "lease_reachable st \<Longrightarrow> lease_step st st' \<Longrightarrow> lease_reachable st'"

definition leases_ok :: "control_plane_state \<Rightarrow> bool" where
  "leases_ok st \<longleftrightarrow> js_wf (st_providerAccountLeases st) \<and>
    (\<forall>k e. js_get (st_providerAccountLeases st) k = Some e \<longrightarrow>
      k = providerAccountLeaseConcurrencyId (ple_providerAccountId e) (ple_slot e)
      \<and> ple_slot e < account_cap st (ple_providerAccountId e))"

definition only_drops_leases :: "control_plane_state \<Rightarrow> control_plane_state \<Rightarrow> bool" where
  "only_drops_leases st st' \<longleftrightarrow> st_providerAccounts st' = st_providerAccounts st \<and>
    (js_wf (st_providerAccountLeases st) \<longrightarrow> js_wf (st_providerAccountLeases st')) \<and>
    (\<forall>k e. js_get (st_providerAccountLeases st') k = Some e \<longrightarrow> js_get (st_providerAccountLeases st) k = Some e)"

lemma only_drops_refl [simp]: "only_drops_leases st st"
  by (simp add: only_drops_leases_def)

lemma only_drops_trans: "only_drops_leases a b \<Longrightarrow> only_drops_leases b c \<Longrightarrow> only_drops_leases a c"
  by (auto simp: only_drops_leases_def)

lemma only_drops_ok: "only_drops_leases st st' \<Longrightarrow> leases_ok st \<Longrightarrow> leases_ok st'"
  by (auto simp: only_drops_leases_def leases_ok_def account_cap_def)

lemma only_drops_put [simp]: "only_drops_leases st (put_session s st') = only_drops_leases st st'"
  by (simp add: only_drops_leases_def put_session_def)

lemma only_drops_sessions [simp]: "only_drops_leases st (st'\<lparr>st_sessions := m\<rparr>) = only_drops_leases st st'"
  by (simp add: only_drops_leases_def)

lemma only_drops_delete [simp]:
  "only_drops_leases st (st\<lparr>st_providerAccountLeases := js_delete k (st_providerAccountLeases st)\<rparr>)"
  by (auto simp: only_drops_leases_def js_map_simps)

lemma release_local_drops: "only_drops_leases st (snd (releaseProviderAccountLeaseLocal st s))"
  by (simp add: releaseProviderAccountLeaseLocal_def split: option.split)

lemma release_drops: "only_drops_leases st (snd (releaseProviderAccountLease st s))"
  by (simp add: releaseProviderAccountLease_def release_local_drops split: option.split)

lemma release_timed_out_drops:
  "only_drops_leases st (snd (releaseTimedOutProviderAccountLease st s result))"
  using release_drops [of st s]
  by (auto simp: releaseTimedOutProviderAccountLease_def Let_def split: option.split prod.split)

lemma release_for_session_drops:
  "only_drops_leases st (snd (releaseProviderAccountLeaseForSession st s))"
  by (simp add: releaseProviderAccountLeaseForSession_def release_drops)

lemma release_step_drops:
  "only_drops_leases st (snd acc) \<Longrightarrow> only_drops_leases st (snd (release_timed_out_step h acc s))"
  using release_timed_out_drops [of "snd acc" s None]
  by (auto simp: release_timed_out_step_def split: prod.split intro: only_drops_trans)

lemma release_host_drops:
  "only_drops_leases st (snd (releaseTimedOutProviderAccountLeasesForHost st h))"
proof -
  have "only_drops_leases st (snd acc) \<Longrightarrow> only_drops_leases st (snd (foldl (release_timed_out_step h) acc ss))" for acc ss
    by (induction ss arbitrary: acc) (simp_all add: release_step_drops del: split_paired_All)
  from this [of "([], st)"] show ?thesis
    by (simp add: releaseTimedOutProviderAccountLeasesForHost_def)
qed

lemma force_release_drops:
  "only_drops_leases st (snd (forceReleaseLocalProviderAccountLease st a n p))"
proof -
  have d: "only_drops_leases st
      (st\<lparr>st_sessions := m, st_providerAccountLeases := js_delete k (st_providerAccountLeases st)\<rparr>)" for m k
    by (auto simp: only_drops_leases_def js_map_simps)
  show ?thesis
    by (auto simp: forceReleaseLocalProviderAccountLease_def Let_def d split: option.splits)
qed

lemmas lease_drops = release_drops release_timed_out_drops release_for_session_drops
  release_host_drops force_release_drops

lemma acquire_ok:
  assumes "leases_ok st"
  shows "leases_ok (snd (tryAcquireProviderAccountLeaseLocal st s a attemptId hostId occupied consult))"
proof -
  have set_ok: "leases_ok (st\<lparr>st_providerAccountLeases := js_set (providerAccountLeaseConcurrencyId acct n) e
      (st_providerAccountLeases st)\<rparr>)"
    if "n < account_cap st acct" "ple_providerAccountId e = acct" "ple_slot e = n" for acct n e
    using assms that by (auto simp: leases_ok_def js_map_simps account_cap_def)
  show ?thesis
    using assms by (auto simp: tryAcquireProviderAccountLeaseLocal_def Let_def free_slot_def find_upt
        account_cap_def intro!: set_ok split: option.splits)
qed

lemma leases_ok_sessions [simp]: "leases_ok (st\<lparr>st_sessions := m\<rparr>) = leases_ok st"
  by (simp add: leases_ok_def account_cap_def)

lemma lease_step_ok: "lease_step st st' \<Longrightarrow> leases_ok st \<Longrightarrow> leases_ok st'"
  by (induction rule: lease_step.induct)
    (auto intro: acquire_ok only_drops_ok lease_drops)

lemma reachable_leases_ok: "lease_reachable st \<Longrightarrow> leases_ok st"
proof (induction rule: lease_reachable.induct)
  case (lr_start st)
  then show ?case by (simp add: leases_ok_def)
qed (rule lease_step_ok)

section \<open>Properties\<close>

lemma entry_of_value:
  assumes "js_wf m" and "e \<in> set (js_values m)"
  obtains k where "js_get m k = Some e"
proof -
  from assms(2) obtain k where "(k, e) \<in> set m" by (force simp: js_values_def)
  then show ?thesis using that js_in_get [OF assms(1)] by blast
qed

lemma account_slots_distinct:
  assumes wf: "js_wf m"
    and key: "\<And>k e. (k, e) \<in> set m \<Longrightarrow> k = providerAccountLeaseConcurrencyId (ple_providerAccountId e) (ple_slot e)"
  shows "distinct (map ple_slot (filter (\<lambda>e. ple_providerAccountId e = a) (js_values m)))"
  using assms
proof (induction m)
  case (Cons p m)
  obtain k e where p: "p = (k, e)" by (cases p)
  have IH: "distinct (map ple_slot (filter (\<lambda>e. ple_providerAccountId e = a) (js_values m)))"
    using Cons by (auto simp: js_wf_def)
  have "ple_slot e \<notin> set (map ple_slot (filter (\<lambda>e. ple_providerAccountId e = a) (js_values m)))"
    if ea: "ple_providerAccountId e = a"
  proof
    assume "ple_slot e \<in> set (map ple_slot (filter (\<lambda>e. ple_providerAccountId e = a) (js_values m)))"
    then obtain k' e' where e': "(k', e') \<in> set m" "ple_providerAccountId e' = a" "ple_slot e' = ple_slot e"
      by (auto simp: js_values_def)
    have "k = k'" using Cons.prems(2) [of k e] Cons.prems(2) [of k' e'] e' ea p by simp
    then show False using Cons.prems(1) e' p by (force simp: js_wf_def)
  qed
  then show ?case using IH p by (simp add: js_values_def)
qed (simp add: js_values_def)

lemma leases_ok_slots:
  assumes "leases_ok st"
  shows "distinct (map ple_slot (filter (\<lambda>e. ple_providerAccountId e = a) (js_values (st_providerAccountLeases st))))"
    and "\<forall>e \<in> set (js_values (st_providerAccountLeases st)). ple_slot e < account_cap st (ple_providerAccountId e)"
proof -
  have wf: "js_wf (st_providerAccountLeases st)" using assms by (simp add: leases_ok_def)
  show "distinct (map ple_slot (filter (\<lambda>e. ple_providerAccountId e = a) (js_values (st_providerAccountLeases st))))"
    by (rule account_slots_distinct [OF wf]) (use assms js_in_get [OF wf] in \<open>auto simp: leases_ok_def\<close>)
  show "\<forall>e \<in> set (js_values (st_providerAccountLeases st)). ple_slot e < account_cap st (ple_providerAccountId e)"
    using assms entry_of_value [OF wf] by (metis leases_ok_def)
qed

lemma leases_ok_holder:
  assumes "leases_ok st" and "slot_holder st a n \<noteq> None"
  shows "n < account_cap st a"
proof -
  from assms(2) obtain e where e: "js_get (st_providerAccountLeases st) (providerAccountLeaseConcurrencyId a n) = Some e"
    by (auto simp: slot_holder_def)
  then have "providerAccountLeaseConcurrencyId a n = providerAccountLeaseConcurrencyId (ple_providerAccountId e) (ple_slot e)"
    and "ple_slot e < account_cap st (ple_providerAccountId e)"
    using assms(1) by (auto simp: leases_ok_def)
  then show ?thesis by (simp add: concurrencyId_inj)
qed

lemma leases_ok_count:
  assumes "leases_ok st"
  shows "length (lease_holders st a) \<le> account_cap st a"
proof -
  define slots where "slots = map ple_slot (filter (\<lambda>e. ple_providerAccountId e = a) (js_values (st_providerAccountLeases st)))"
  have "set slots \<subseteq> {..<account_cap st a}" using leases_ok_slots(2) [OF assms] by (auto simp: slots_def)
  then have "card (set slots) \<le> account_cap st a" using card_mono [of "{..<account_cap st a}"] by fastforce
  moreover have "card (set slots) = length slots"
    using leases_ok_slots(1) [OF assms] distinct_card unfolding slots_def by blast
  ultimately show ?thesis by (simp add: slots_def lease_holders_def)
qed

text \<open>C6: Along every sequence of acquisitions, releases, forced releases and session writes that starts
  without leases, the number of leases of an account never exceeds its configured cap, no two leases
  of an account share a slot, every slot is below the cap, and the over-cap check never fires
  for an account with a positive cap.\<close>
theorem account_leases_never_exceed_cap:
  assumes "lease_reachable st"
  shows "length (lease_holders st a) \<le> account_cap st a
    \<and> distinct (map ple_slot (filter (\<lambda>e. ple_providerAccountId e = a) (js_values (st_providerAccountLeases st))))
    \<and> (0 < maxConcurrentSessionsFor (js_get (st_providerAccounts st) a) \<longrightarrow> \<not> accountHasLeaseCapacityOverCap st a)"
proof -
  note ok = reachable_leases_ok [OF assms]
  have slots: "\<forall>e \<in> set (js_values (st_providerAccountLeases st)). ple_slot e < account_cap st (ple_providerAccountId e)"
    by (rule leases_ok_slots(2) [OF ok])
  have "length (remdups (lease_holders st a)) \<le> account_cap st a"
    using leases_ok_count [OF ok, of a] length_remdups_leq order_trans by blast
  then have "\<not> accountHasLeaseCapacityOverCap st a"
    if "0 < maxConcurrentSessionsFor (js_get (st_providerAccounts st) a)"
    using that slots by (auto simp: accountHasLeaseCapacityOverCap_def Let_def list_ex_iff account_cap_def)
  then show ?thesis using leases_ok_count [OF ok] leases_ok_slots(1) [OF ok] by blast
qed

text \<open>C18: In a reachable state an account takes another lease exactly when it holds fewer than
  its cap, the new lease is the lowest free slot, and nobody else's slot changes.\<close>
theorem lease_acquisition_is_exact:
  assumes "lease_reachable st" and "a \<noteq> []"
    and "tryAcquireProviderAccountLeaseLocal st s (Some a) attemptId hostId [] True = (r, st')"
  shows "(r \<noteq> None \<longleftrightarrow> card {n. slot_holder st a n \<noteq> None} < account_cap st a)
    \<and> (case r of None \<Rightarrow> st' = st
       | Some l \<Rightarrow> slot_holder st a (pal_slot l) = None \<and> (\<forall>m < pal_slot l. slot_holder st a m \<noteq> None)
           \<and> slot_holder st' = (slot_holder st)(a := (slot_holder st a)(pal_slot l \<mapsto> (s_id s, attemptId))))"
proof -
  have acq: "acquire_slot_of st a (s, attemptId, hostId) = (map_option pal_slot r, st')"
    using assms(3) by (simp add: acquire_slot_of_def)
  have "\<forall>n. slot_holder st a n \<noteq> None \<longrightarrow> n < account_cap st a"
    using leases_ok_holder reachable_leases_ok [OF assms(1)] by blast
  then have "r \<noteq> None \<longleftrightarrow> card {n. slot_holder st a n \<noteq> None} < account_cap st a"
    using acct_pool.acquire_succeeds_iff [OF assms(2), of st "(s, attemptId, hostId)"] acq by simp
  then show ?thesis
    using acct_pool.acquire_slot [of st a "(s, attemptId, hostId)" _ st']
      acct_pool.acquire_holder [of st a "(s, attemptId, hostId)" _ st']
      acct_pool.acquire_full [OF assms(2), of st "(s, attemptId, hostId)" st'] acq
    by (cases r) (simp_all add: slot_owner_def)
qed

text \<open>C19: Releasing the lease a session records removes exactly that slot when the session and
  attempt still hold it, is a no-op for a stale attempt or another session, and a second
  release changes nothing.\<close>
theorem lease_release_is_fenced_and_idempotent:
  assumes "s_providerAccountLease s =
      Some \<lparr>pal_concurrencyId = providerAccountLeaseConcurrencyId a n, pal_providerAccountId = a,
        pal_slot = n, pal_attemptId = attemptId\<rparr>"
  shows "slot_holder (snd (releaseProviderAccountLeaseLocal st s)) =
      (if slot_holder st a n = Some (s_id s, attemptId)
       then (slot_holder st)(a := (slot_holder st a)(n := None)) else slot_holder st)
    \<and> fst (releaseProviderAccountLeaseLocal st s) = (slot_holder st a n = Some (s_id s, attemptId))
    \<and> releaseProviderAccountLeaseLocal (snd (releaseProviderAccountLeaseLocal st s)) s
        = (False, snd (releaseProviderAccountLeaseLocal st s))"
proof -
  have eq: "snd (releaseProviderAccountLeaseLocal st' s) = release_slot_of st' a n (s, attemptId, [])" for st'
  proof -
    have "s\<lparr>s_providerAccountLease := s_providerAccountLease s\<rparr> = s" by simp
    then show ?thesis unfolding release_slot_of_def assms by simp
  qed
  have fst: "fst (releaseProviderAccountLeaseLocal st' s) = (slot_holder st' a n = Some (s_id s, attemptId))" for st'
    using assms by (auto simp: releaseProviderAccountLeaseLocal_def slot_holder_def split: option.splits)
  have stays: "release_slot_of (release_slot_of st a n w) a n w = release_slot_of st a n w" for w
    using slot_holder_delete by (simp add: release_slot_of_eq)
  show ?thesis
    using fst [of st] fst [of "snd (releaseProviderAccountLeaseLocal st s)"]
      acct_pool.release_holder [of st a n "(s, attemptId, [])"] stays
    by (auto simp: eq slot_owner_def prod_eq_iff split: if_splits)
qed

text \<open>The operator's forced release succeeds only for a session that is terminal, detached from
  its assignment and holding exactly that slot for its current attempt; then the session's lease and the slot
  are free. In every other case the state does not change.\<close>
theorem forced_release_is_safe:
  assumes "forceReleaseLocalProviderAccountLease st a n mayAccess = (op, st')"
  shows "(case op of
      Lease_ok r repo \<Rightarrow>
        (if lrr_released r
         then \<exists>s l. localProviderAccountLeaseLock st a n = Some l \<and> js_get (st_sessions st) (ll_sessionId l) = Some s
           \<and> mayAccess (Some s) \<and> isTerminalSessionStatus (s_status s) \<and> sessionAssignmentDetached s
           \<and> sessionMatchesProviderAccountLease (Some s) l \<and> sessionAttemptId s = Some (ll_attemptId l)
           \<and> js_get (st_sessions st') (ll_sessionId l) = Some (s\<lparr>s_providerAccountLease := None\<rparr>)
           \<and> slot_holder st' a n = None
         else localProviderAccountLeaseLock st a n = None \<and> st' = st)
    | Lease_not_found \<Rightarrow> st' = st
    | Lease_conflict b \<Rightarrow> st' = st \<and> b \<noteq> None)"
proof (cases "localProviderAccountLeaseLock st a n")
  case None
  then show ?thesis using assms
    by (auto simp: forceReleaseLocalProviderAccountLease_def Let_def split: if_splits)
next
  case (Some l)
  show ?thesis
  proof (cases "js_get (st_sessions st) (ll_sessionId l)")
    case None
    then show ?thesis using assms Some
      by (auto simp: forceReleaseLocalProviderAccountLease_def Let_def split: if_splits)
  next
    case s: (Some s)
    show ?thesis
    proof (cases "js_has (st_providerAccounts st) a \<and> mayAccess (Some s) \<and> release_block_of l (Some s) = None")
      case True
      then have ok: "sessionMatchesProviderAccountLease (Some s) l" "isTerminalSessionStatus (s_status s)"
        "sessionAssignmentDetached s"
        by (auto simp: release_block_of_def split: if_splits)
      then have "sessionAttemptId s = Some (ll_attemptId l)"
        by (auto simp: sessionMatchesProviderAccountLease_def split: option.splits)
      then show ?thesis using assms Some s True ok
        by (auto simp: forceReleaseLocalProviderAccountLease_def Let_def js_map_simps slot_holder_def
            localProviderAccountLeaseLock_def split: option.splits if_splits)
    next
      case False
      then show ?thesis using assms Some s
        by (auto simp: forceReleaseLocalProviderAccountLease_def Let_def providerAccountLeaseState_def
            release_block_of_def split: if_splits)
    qed
  qed
qed

section \<open>Examples\<close>

definition sample_account :: provider_account where
  "sample_account = \<lparr>acct_id = ''acct'', acct_providerId = ''prov'', acct_label = ''main'',
    acct_usageLimitCooldownSeconds = 60, acct_maxConcurrentSessions = Some 2, acct_usageLimitedUntil = None,
    acct_lastUsageLimitedAt = None, acct_lastAssignedAt = None, acct_createdAt = '''', acct_updatedAt = ''''\<rparr>"

definition lease_demo :: control_plane_state where
  "lease_demo = (createControlPlaneState sample_options)\<lparr>st_providerAccounts := [(''acct'', sample_account)]\<rparr>"

definition lease_demo_lease :: account_lease where
  "lease_demo_lease = \<lparr>pal_concurrencyId = providerAccountLeaseConcurrencyId ''acct'' 0,
    pal_providerAccountId = ''acct'', pal_slot = 0, pal_attemptId = ''at1''\<rparr>"

definition lease_demo_session :: session_record where
  "lease_demo_session = blank_session\<lparr>s_id := ''s1'', s_status := Completed, s_attemptId := Some ''at1'',
    s_providerAccountLease := Some lease_demo_lease\<rparr>"

definition lease_demo1 :: control_plane_state where
  "lease_demo1 = (snd (tryAcquireProviderAccountLeaseLocal lease_demo lease_demo_session (Some ''acct'') ''at1'' ''h1'' [] True))
    \<lparr>st_sessions := [(''s1'', lease_demo_session)]\<rparr>"

lemma lease_demo_reachable: "lease_reachable lease_demo"
  by (rule lr_start) (simp add: lease_demo_def createControlPlaneState_def)

lemma lease_demo1_reachable: "lease_reachable lease_demo1"
  unfolding lease_demo1_def
  by (rule lr_step [OF lr_step [OF lease_demo_reachable ls_acquire] ls_sessions])

theorem account_leases_never_exceed_cap_witness:
  "lease_holders lease_demo1 ''acct'' = [''s1''] \<and> length (lease_holders lease_demo1 ''acct'') \<le> account_cap lease_demo1 ''acct''"
proof -
  have "lease_holders lease_demo1 ''acct'' = [''s1'']" by code_simp
  with account_leases_never_exceed_cap [OF lease_demo1_reachable, of "''acct''"] show ?thesis by blast
qed

theorem lease_acquisition_is_exact_witness:
  "(fst (tryAcquireProviderAccountLeaseLocal lease_demo1 blank_session (Some ''acct'') ''at2'' ''h1'' [] True) \<noteq> None)
    = (card {n. slot_holder lease_demo1 ''acct'' n \<noteq> None} < account_cap lease_demo1 ''acct'')"
proof -
  obtain r st' where "tryAcquireProviderAccountLeaseLocal lease_demo1 blank_session (Some ''acct'') ''at2'' ''h1'' [] True = (r, st')"
    by fastforce
  with lease_acquisition_is_exact [OF lease_demo1_reachable _ this] show ?thesis by simp
qed

theorem lease_release_is_fenced_and_idempotent_witness:
  "slot_holder (snd (releaseProviderAccountLeaseLocal lease_demo1 lease_demo_session)) ''acct'' 0 = None"
proof -
  have l: "s_providerAccountLease lease_demo_session = Some \<lparr>pal_concurrencyId = providerAccountLeaseConcurrencyId ''acct'' 0,
      pal_providerAccountId = ''acct'', pal_slot = 0, pal_attemptId = ''at1''\<rparr>"
    by (simp add: lease_demo_session_def lease_demo_lease_def)
  have "slot_holder lease_demo1 ''acct'' 0 = Some (s_id lease_demo_session, ''at1'')" by code_simp
  with lease_release_is_fenced_and_idempotent [OF l, of lease_demo1] show ?thesis by simp
qed

theorem forced_release_is_safe_witness:
  "slot_holder (snd (forceReleaseLocalProviderAccountLease lease_demo1 ''acct'' 0 (\<lambda>_. True))) ''acct'' 0 = None"
proof -
  obtain r repo st' where f: "forceReleaseLocalProviderAccountLease lease_demo1 ''acct'' 0 (\<lambda>_. True) = (Lease_ok r repo, st')"
    and rel: "lrr_released r"
  proof -
    have "case fst (forceReleaseLocalProviderAccountLease lease_demo1 ''acct'' 0 (\<lambda>_. True)) of
        Lease_ok r repo \<Rightarrow> lrr_released r | _ \<Rightarrow> False"
      by code_simp
    then show ?thesis
      by (cases "forceReleaseLocalProviderAccountLease lease_demo1 ''acct'' 0 (\<lambda>_. True)")
        (auto split: lease_operation.splits intro: that)
  qed
  from forced_release_is_safe [OF f] rel show ?thesis using f by auto
qed

end
