(* ===== verification/Targets.thy ===== *)
theory Targets
  imports QueueOrder Commands Leases
begin

text \<open>
  Resolution of a session's ordered route policy against a host,
  \<open>services/api/src/control-plane-session-target.ts\<close>, and the final argv of an assignment,
  \<open>control-plane-session-output-prompt.ts\<close>.

  A policy entry names a command or a provider. A provider entry yields one route per
  eligible account of the provider in \<open>lastAssignedAt\<close> order; a command entry yields one route, or one per
  eligible account of its provider. A session that continues a captured CLI conversation
  resolves at its pinned index from the frozen resume specification instead. \<open>nowMs\<close> is an
  \<open>int option\<close>, \<open>None\<close> standing for \<open>NaN\<close>; \<open>lc\<close> is \<open>localeCompare\<close>.

  The lemmas show that every route a resolution returns is allowed by the catalog, the
  cascade and the pins, that the single-route and the all-routes resolutions agree, and that
  a deleted command is never replayed from a frozen snapshot.
\<close>

section \<open>Routes\<close>

record target_route =
  tr_providerId :: "string option"
  tr_providerAccountId :: "string option"
  tr_commandId :: string
  tr_resolvedArgv :: "string list"
  tr_resumeSpec :: session_resume_spec

record session_route =
  rt_targetIndex :: nat
  rt_providerId :: "string option"
  rt_providerAccountId :: "string option"
  rt_commandId :: string
  rt_resolvedArgv :: "string list"
  rt_resumeSpec :: session_resume_spec

definition with_target_index :: "nat \<Rightarrow> target_route \<Rightarrow> session_route" where
  "with_target_index i r =
    \<lparr>rt_targetIndex = i, rt_providerId = tr_providerId r, rt_providerAccountId = tr_providerAccountId r,
     rt_commandId = tr_commandId r, rt_resolvedArgv = tr_resolvedArgv r, rt_resumeSpec = tr_resumeSpec r\<rparr>"

definition buildProviderCatalog :: "control_plane_state \<Rightarrow> provider_catalog" where
  "buildProviderCatalog st = \<lparr>cat_providers = st_providers st, cat_providerAccounts = st_providerAccounts st\<rparr>"

definition session_targets :: "session_record \<Rightarrow> target_ref list" where
  "session_targets s = s_target s # s_fallbacks s"

definition target_at :: "session_record \<Rightarrow> nat \<Rightarrow> target_ref option" where
  "target_at s i = (if i < length (session_targets s) then Some (session_targets s ! i) else None)"

definition suppressed_at :: "session_record \<Rightarrow> nat \<Rightarrow> bool" where
  "suppressed_at s i = (case s_suppressedTargetIndexes s of None \<Rightarrow> False | Some is \<Rightarrow> List.member is i)"

definition time_after :: "string \<Rightarrow> int option \<Rightarrow> bool" where
  "time_after t nowMs = (case (date_parse t, nowMs) of (Some a, Some b) \<Rightarrow> b < a | _ \<Rightarrow> False)"

definition time_not_after :: "string \<Rightarrow> int option \<Rightarrow> bool" where
  "time_not_after t nowMs = (case (date_parse t, nowMs) of (Some a, Some b) \<Rightarrow> a \<le> b | _ \<Rightarrow> False)"

section \<open>Argv and resume specifications of a command\<close>

definition buildArgv :: "command option \<Rightarrow> string \<Rightarrow> string list option" where
  "buildArgv c prompt =
    (case c of None \<Rightarrow> None
     | Some cmd \<Rightarrow>
         (if length (cmd_argv cmd) = 0 then None
          else if \<not> cmd_appendPrompt cmd then Some (cmd_argv cmd)
          else if truthy_bool (cmd_appendPromptSeparator cmd) then Some (cmd_argv cmd @ [''--'', prompt])
          else Some (cmd_argv cmd @ [prompt])))"

definition commandResumeSpec :: "command \<Rightarrow> session_resume_spec" where
  "commandResumeSpec c =
    \<lparr>rs_resumeArgvTemplate = cmd_resumeArgvTemplate c, rs_resumeRefCapture = cmd_resumeRefCapture c,
     rs_argv = cmd_argv c, rs_appendPrompt = cmd_appendPrompt c,
     rs_appendPromptSeparator = cmd_appendPromptSeparator c\<rparr>"

definition copyResumeSpec ::
    "session_resume_spec \<Rightarrow> string list \<Rightarrow> string list option \<Rightarrow> session_resume_spec" where
  "copyResumeSpec spec argv template =
    \<lparr>rs_resumeArgvTemplate = template, rs_resumeRefCapture = rs_resumeRefCapture spec,
     rs_argv = argv, rs_appendPrompt = rs_appendPrompt spec,
     rs_appendPromptSeparator = rs_appendPromptSeparator spec\<rparr>"

section \<open>Eligible accounts\<close>

definition scope_inventory :: "control_plane_state \<Rightarrow> worktree_record \<Rightarrow> host_inventory option" where
  "scope_inventory st w = map_option hir_inventory (js_get (st_hostInventories st) (wt_hostId w))"

definition scope_repository :: "control_plane_state \<Rightarrow> worktree_record \<Rightarrow> host_repository option" where
  "scope_repository st w = Option.bind (scope_inventory st w) (\<lambda>i. find_repository i (wt_repositoryId w))"

definition scope_worktree :: "control_plane_state \<Rightarrow> worktree_record \<Rightarrow> host_worktree option" where
  "scope_worktree st w =
    Option.bind (scope_repository st w) (\<lambda>r. List.find (\<lambda>x. hw_id x = wt_id w) (hr_worktrees r))"

definition account_enabled :: "control_plane_state \<Rightarrow> worktree_record \<Rightarrow> string \<Rightarrow> bool" where
  "account_enabled st w a =
    resolveProviderAccountEnabled a (scope_worktree st w) (scope_repository st w) (scope_inventory st w)"

definition account_usable :: "provider_account \<Rightarrow> int option \<Rightarrow> bool" where
  "account_usable account nowMs =
    (\<not> truthy_str (acct_usageLimitedUntil account)
     \<or> time_not_after (the (acct_usageLimitedUntil account)) nowMs)"

definition compare_accounts :: "collation \<Rightarrow> provider_account \<Rightarrow> provider_account \<Rightarrow> int" where
  "compare_accounts lc a b =
    by_then (lc (opt_or (acct_lastAssignedAt a) []) (opt_or (acct_lastAssignedAt b) []))
      (lc (acct_id a) (acct_id b))"

definition resolveEligibleAccounts ::
    "collation \<Rightarrow> control_plane_state \<Rightarrow> string \<Rightarrow> worktree_record \<Rightarrow> int option \<Rightarrow> string nullable
     \<Rightarrow> provider_account list" where
  "resolveEligibleAccounts lc st providerId w nowMs pinned =
    js_sort (compare_accounts lc)
      (filter (\<lambda>a. account_enabled st w (acct_id a))
        (filter (\<lambda>a. account_usable a nowMs)
          (filter (\<lambda>a. \<not> truthy_nullable pinned \<or> Val (acct_id a) = pinned)
            (filter (\<lambda>a. acct_providerId a = providerId) (js_values (st_providerAccounts st))))))"

section \<open>Live routes\<close>

definition command_route :: "command \<Rightarrow> string list \<Rightarrow> string option \<Rightarrow> string option \<Rightarrow> target_route" where
  "command_route c argv providerId accountId =
    \<lparr>tr_providerId = providerId, tr_providerAccountId = accountId, tr_commandId = cmd_id c,
     tr_resolvedArgv = argv, tr_resumeSpec = commandResumeSpec c\<rparr>"

definition account_route ::
    "control_plane_state \<Rightarrow> provider_catalog \<Rightarrow> string \<Rightarrow> string \<Rightarrow> worktree_record \<Rightarrow> provider_account
     \<Rightarrow> target_route list" where
  "account_route st cat providerId prompt w account =
    (let commandId = resolveProviderAccountCommandId (acct_id account) (scope_worktree st w)
           (scope_repository st w) (scope_inventory st w) cat;
         cmd = (if truthy_str commandId then js_get (st_commands st) (the commandId) else None)
     in case (buildArgv cmd prompt, cmd) of
          (Some argv, Some c) \<Rightarrow>
            (if truthy_str commandId
             then [\<lparr>tr_providerId = Some providerId, tr_providerAccountId = Some (acct_id account),
                    tr_commandId = the commandId, tr_resolvedArgv = argv,
                    tr_resumeSpec = commandResumeSpec c\<rparr>]
             else [])
        | _ \<Rightarrow> [])"

fun resolveTargets ::
    "collation \<Rightarrow> control_plane_state \<Rightarrow> provider_catalog \<Rightarrow> target_ref \<Rightarrow> string \<Rightarrow> worktree_record
     \<Rightarrow> int option \<Rightarrow> string nullable \<Rightarrow> target_route list" where
  "resolveTargets lc st cat (Command_target cid) prompt w nowMs pinned =
    (case js_get (st_commands st) cid of
       None \<Rightarrow> []
     | Some c \<Rightarrow>
         (case buildArgv (Some c) prompt of
            None \<Rightarrow> []
          | Some argv \<Rightarrow>
              (case cmd_providerId c of
                 None \<Rightarrow> [command_route c argv None None]
               | Some p \<Rightarrow> map (\<lambda>a. command_route c argv (Some p) (Some (acct_id a)))
                   (resolveEligibleAccounts lc st p w nowMs pinned))))"
| "resolveTargets lc st cat (Provider_target p) prompt w nowMs pinned =
    concat (map (account_route st cat p prompt w) (resolveEligibleAccounts lc st p w nowMs pinned))"

definition resolveTarget ::
    "collation \<Rightarrow> control_plane_state \<Rightarrow> provider_catalog \<Rightarrow> target_ref \<Rightarrow> string \<Rightarrow> worktree_record
     \<Rightarrow> int option \<Rightarrow> string nullable \<Rightarrow> target_route option" where
  "resolveTarget lc st cat target prompt w nowMs pinned =
    (case resolveTargets lc st cat target prompt w nowMs pinned of [] \<Rightarrow> None | r # _ \<Rightarrow> Some r)"

section \<open>Native continuation\<close>

definition prefersNativeResumeRoute :: "session_record \<Rightarrow> bool" where
  "prefersNativeResumeRoute s =
    (s_cliResumeRef s \<noteq> None \<and> Option.bind (s_resumeSpec s) rs_resumeArgvTemplate \<noteq> None)"

definition native_account_allowed ::
    "control_plane_state \<Rightarrow> worktree_record \<Rightarrow> int option \<Rightarrow> string \<Rightarrow> bool" where
  "native_account_allowed st w nowMs a =
    (case js_get (st_providerAccounts st) a of
       None \<Rightarrow> False
     | Some account \<Rightarrow>
         \<not> (truthy_str (acct_usageLimitedUntil account) \<and> time_after (the (acct_usageLimitedUntil account)) nowMs)
         \<and> account_enabled st w a)"

definition native_template :: "session_resume_spec \<Rightarrow> string list option option" where
  "native_template spec =
    (case rs_resumeArgvTemplate spec of
       None \<Rightarrow> Some None
     | Some t \<Rightarrow> (case validateCommandResumeSpec (Some (JArr (map JStr t))) None of
         Inl _ \<Rightarrow> None
       | Inr v \<Rightarrow> Some (crs_resumeArgvTemplate v)))"

definition native_argv :: "session_record \<Rightarrow> session_resume_spec \<Rightarrow> string list option \<Rightarrow> string list" where
  "native_argv s spec template =
    (case template of
       Some t \<Rightarrow> materializeResumeArgv t (opt_or (s_cliResumeRef s) []) (s_prompt s)
         (truthy_bool (rs_appendPromptSeparator spec))
     | None \<Rightarrow>
         (if \<not> rs_appendPrompt spec then rs_argv spec
          else if truthy_bool (rs_appendPromptSeparator spec) then rs_argv spec @ [''--'', s_prompt s]
          else rs_argv spec @ [s_prompt s]))"

definition resolveNativeResumeRoute ::
    "control_plane_state \<Rightarrow> provider_catalog \<Rightarrow> session_record \<Rightarrow> worktree_record \<Rightarrow> int option \<Rightarrow> nat
     \<Rightarrow> session_route option" where
  "resolveNativeResumeRoute st cat s w nowMs i =
    (case (s_resumeSpec s, s_pinnedCommandId s) of
       (Some spec, Some cid) \<Rightarrow>
         (let accountId = nullable_opt (s_pinnedProviderAccountId s)
          in if \<not> truthy_str (s_resumedFromSessionId s)
                \<or> (\<not> truthy_str (s_cliResumeRef s) \<and> \<not> truthy_bool (s_resumeFallback s))
                \<or> s_pinnedTargetIndex s \<noteq> Some i
                \<or> \<not> js_has (st_commands st) cid
             then None
             else if truthy_str accountId \<and> \<not> native_account_allowed st w nowMs (the accountId) then None
             else if rs_resumeArgvTemplate spec \<noteq> None \<and> \<not> truthy_str (s_cliResumeRef s) then None
             else case native_template spec of
               None \<Rightarrow> None
             | Some template \<Rightarrow>
                 Some \<lparr>rt_targetIndex = i,
                   rt_providerId = (if truthy_str accountId
                     then map_option acct_providerId (js_get (cat_providerAccounts cat) (the accountId)) else None),
                   rt_providerAccountId = (if truthy_str accountId then accountId else None),
                   rt_commandId = cid,
                   rt_resolvedArgv = native_argv s spec template,
                   rt_resumeSpec = copyResumeSpec spec (rs_argv spec) template\<rparr>)
     | _ \<Rightarrow> None)"

definition matchesNativeResumePin :: "session_record \<Rightarrow> session_route \<Rightarrow> bool" where
  "matchesNativeResumePin s r =
    (if \<not> truthy_nullable (s_pinnedHostId s) then True
     else if s_pinnedTargetIndex s \<noteq> None \<and> s_pinnedTargetIndex s \<noteq> Some (rt_targetIndex r) then False
     else if s_pinnedCommandId s \<noteq> None \<and> s_pinnedCommandId s \<noteq> Some (rt_commandId r) then False
     else \<not> truthy_nullable (s_pinnedProviderAccountId s)
       \<or> nullable_opt (s_pinnedProviderAccountId s) = rt_providerAccountId r)"

section \<open>Routes of a session\<close>

definition pin_parameter :: "session_record \<Rightarrow> string nullable" where
  "pin_parameter s = (if truthy_nullable (s_pinnedHostId s) then s_pinnedProviderAccountId s else Undefined)"

definition checked_pin :: "session_record \<Rightarrow> session_route option \<Rightarrow> session_route option" where
  "checked_pin s r = (case r of None \<Rightarrow> None | Some x \<Rightarrow> if matchesNativeResumePin s x then Some x else None)"

definition resolveSessionTargetRouteAt ::
    "collation \<Rightarrow> control_plane_state \<Rightarrow> provider_catalog \<Rightarrow> session_record \<Rightarrow> worktree_record \<Rightarrow> int option
     \<Rightarrow> nat \<Rightarrow> session_route option" where
  "resolveSessionTargetRouteAt lc st cat s w nowMs i =
    (if suppressed_at s i then None
     else case target_at s i of
       None \<Rightarrow> None
     | Some target \<Rightarrow>
         (if prefersNativeResumeRoute s \<and> s_pinnedTargetIndex s = Some i
          then checked_pin s (resolveNativeResumeRoute st cat s w nowMs i)
          else checked_pin s
            (case resolveTarget lc st cat target (s_prompt s) w nowMs (pin_parameter s) of
               Some r \<Rightarrow> Some (with_target_index i r)
             | None \<Rightarrow> resolveNativeResumeRoute st cat s w nowMs i)))"

fun first_route :: "(nat \<Rightarrow> session_route option) \<Rightarrow> nat list \<Rightarrow> session_route option" where
  "first_route f [] = None"
| "first_route f (i # is) = (case f i of Some r \<Rightarrow> Some r | None \<Rightarrow> first_route f is)"

definition resolveSessionTargetRoute ::
    "collation \<Rightarrow> control_plane_state \<Rightarrow> provider_catalog \<Rightarrow> session_record \<Rightarrow> worktree_record \<Rightarrow> int option
     \<Rightarrow> session_route option" where
  "resolveSessionTargetRoute lc st cat s w nowMs =
    first_route (resolveSessionTargetRouteAt lc st cat s w nowMs) [0..<1 + length (s_fallbacks s)]"

definition resolveSessionTargetArgv ::
    "collation \<Rightarrow> control_plane_state \<Rightarrow> provider_catalog \<Rightarrow> session_record \<Rightarrow> worktree_record \<Rightarrow> string list option" where
  "resolveSessionTargetArgv lc st cat s w =
    map_option rt_resolvedArgv (resolveSessionTargetRoute lc st cat s w (date_parse (st_now st)))"

definition resolveSessionTargetRoutesAt ::
    "collation \<Rightarrow> control_plane_state \<Rightarrow> provider_catalog \<Rightarrow> session_record \<Rightarrow> worktree_record \<Rightarrow> int option
     \<Rightarrow> nat \<Rightarrow> session_route list" where
  "resolveSessionTargetRoutesAt lc st cat s w nowMs i =
    (if suppressed_at s i then []
     else case target_at s i of
       None \<Rightarrow> []
     | Some target \<Rightarrow>
         (if prefersNativeResumeRoute s \<and> s_pinnedTargetIndex s = Some i
          then (case checked_pin s (resolveNativeResumeRoute st cat s w nowMs i) of None \<Rightarrow> [] | Some r \<Rightarrow> [r])
          else
            (let routes = map (with_target_index i)
                   (resolveTargets lc st cat target (s_prompt s) w nowMs (pin_parameter s))
             in if length routes = 0
                then (case checked_pin s (resolveNativeResumeRoute st cat s w nowMs i) of None \<Rightarrow> [] | Some r \<Rightarrow> [r])
                else filter (matchesNativeResumePin s) routes)))"

section \<open>Scheduled and workspace runs\<close>

definition main_checkout_worktree :: "string \<Rightarrow> session_record \<Rightarrow> host_repository \<Rightarrow> worktree_record" where
  "main_checkout_worktree hostId s repository =
    \<lparr>wt_id = ''main-checkout:'' @ hostId @ '':'' @ s_repositoryId s, wt_name = ''main checkout'',
     wt_hostId = hostId, wt_repositoryId = s_repositoryId s, wt_path = hr_path repository, wt_labels = [],
     wt_status = Idle, wt_online = True, wt_currentSessionId = None, wt_connectionId = None,
     wt_lastAssignedAt = None\<rparr>"

definition resolveScheduledSessionTargets ::
    "collation \<Rightarrow> control_plane_state \<Rightarrow> provider_catalog \<Rightarrow> session_record \<Rightarrow> string \<Rightarrow> session_route list" where
  "resolveScheduledSessionTargets lc st cat s hostId =
    (case js_get (st_hostInventories st) hostId of
       None \<Rightarrow> []
     | Some host \<Rightarrow>
         (case find_repository (hir_inventory host) (s_repositoryId s) of
            None \<Rightarrow> []
          | Some repository \<Rightarrow>
              concat (map (\<lambda>i. if suppressed_at s i then []
                else filter (matchesNativeResumePin s) (map (with_target_index i)
                  (resolveTargets lc st cat (session_targets s ! i) (s_prompt s)
                    (main_checkout_worktree hostId s repository) (date_parse (st_now st)) (pin_parameter s))))
                [0..<length (session_targets s)])))"

definition resolveScheduledSessionTarget ::
    "collation \<Rightarrow> control_plane_state \<Rightarrow> provider_catalog \<Rightarrow> session_record \<Rightarrow> string \<Rightarrow> session_route option" where
  "resolveScheduledSessionTarget lc st cat s hostId =
    (case resolveScheduledSessionTargets lc st cat s hostId of [] \<Rightarrow> None | r # _ \<Rightarrow> Some r)"

definition slot_worktree :: "workspace_slot_record \<Rightarrow> worktree_record" where
  "slot_worktree x =
    \<lparr>wt_id = slot_id x, wt_name = slot_name x, wt_hostId = slot_hostId x, wt_repositoryId = [],
     wt_path = slot_path x, wt_labels = [], wt_status = slot_status x, wt_online = slot_online x,
     wt_currentSessionId = None, wt_connectionId = None, wt_lastAssignedAt = None\<rparr>"

definition resolveWorkspaceSessionTargets ::
    "collation \<Rightarrow> control_plane_state \<Rightarrow> provider_catalog \<Rightarrow> session_record \<Rightarrow> workspace_slot_record
     \<Rightarrow> session_route list" where
  "resolveWorkspaceSessionTargets lc st cat s x =
    concat (map (\<lambda>i. if suppressed_at s i then []
      else case target_at s i of
        None \<Rightarrow> []
      | Some target \<Rightarrow> map (with_target_index i)
          (resolveTargets lc st cat target (s_prompt s) (slot_worktree x) (date_parse (st_now st)) Undefined))
      [0..<Suc (length (s_fallbacks s))])"

section \<open>The output pointer\<close>

definition OUTPUT_POINTER :: string where
  "OUTPUT_POINTER = [CHR 0x0A, CHR 0x0A] @ ''If relevant, you may write the final JSON value to $HARNESS_OUTPUT_FILE and place files to keep in $HARNESS_ARTIFACTS_DIR.''"

definition appendSessionOutputPointer :: "string \<Rightarrow> string" where
  "appendSessionOutputPointer prompt = (if ends_with prompt OUTPUT_POINTER then prompt else prompt @ OUTPUT_POINTER)"

definition assignmentOutputArgv ::
    "control_plane_state \<Rightarrow> session_record \<Rightarrow> string \<Rightarrow> string list \<Rightarrow> bool \<Rightarrow> session_resume_spec \<Rightarrow> string list" where
  "assignmentOutputArgv st s commandId argv supported routeSpec =
    (if \<not> supported \<or> s_prompt s = [] then argv
     else (let pointed = appendSessionOutputPointer (s_prompt s)
       in case (if truthy_str (s_cliResumeRef s) \<and> \<not> truthy_bool (s_resumeFallback s)
                then rs_resumeArgvTemplate routeSpec else None) of
            Some t \<Rightarrow> materializeResumeArgv t (the (s_cliResumeRef s)) pointed
              (truthy_bool (rs_appendPromptSeparator routeSpec))
          | None \<Rightarrow>
              (case js_get (st_commands st) commandId of
                 None \<Rightarrow> argv
               | Some c \<Rightarrow>
                   (if \<not> cmd_appendPrompt c \<or> argv = [] \<or> last argv \<noteq> s_prompt s then argv
                    else butlast argv @ [pointed]))))"

section \<open>Every route is allowed\<close>

definition catalog_keyed :: "control_plane_state \<Rightarrow> bool" where
  "catalog_keyed st \<longleftrightarrow> js_wf (st_providerAccounts st)
    \<and> (\<forall>k a. js_get (st_providerAccounts st) k = Some a \<longrightarrow> acct_id a = k)
    \<and> (\<forall>k c. js_get (st_commands st) k = Some c \<longrightarrow> cmd_id c = k)"

definition account_allowed :: "control_plane_state \<Rightarrow> worktree_record \<Rightarrow> int \<Rightarrow> string \<Rightarrow> bool" where
  "account_allowed st w now a \<longleftrightarrow>
    (\<exists>account. js_get (st_providerAccounts st) a = Some account \<and> account_enabled st w a
      \<and> (\<forall>ms. Option.bind (acct_usageLimitedUntil account) date_parse = Some ms \<longrightarrow> ms \<le> now))"

lemma date_parse_empty [simp]: "date_parse [] = None"
  by code_simp

lemma usable_until:
  "account_usable account (Some now) \<Longrightarrow>
    Option.bind (acct_usageLimitedUntil account) date_parse = Some ms \<Longrightarrow> ms \<le> now"
  by (cases "acct_usageLimitedUntil account") (auto simp: account_usable_def time_not_after_def)

lemma eligible_account_allowed:
  assumes "catalog_keyed st" and "a \<in> set (resolveEligibleAccounts lc st p w (Some now) pinned)"
  shows "account_allowed st w now (acct_id a)" "acct_providerId a = p"
    "truthy_nullable pinned \<Longrightarrow> Val (acct_id a) = pinned"
proof -
  have a: "a \<in> set (js_values (st_providerAccounts st))" "account_enabled st w (acct_id a)"
    "account_usable a (Some now)"
    using assms(2) by (auto simp: resolveEligibleAccounts_def)
  obtain k where k: "js_get (st_providerAccounts st) k = Some a"
    using assms(1) a(1) entry_of_value unfolding catalog_keyed_def by metis
  then have "acct_id a = k" using assms(1) by (simp add: catalog_keyed_def)
  then show "account_allowed st w now (acct_id a)"
    using a k usable_until [OF a(3)] by (auto simp: account_allowed_def)
  show "acct_providerId a = p" "truthy_nullable pinned \<Longrightarrow> Val (acct_id a) = pinned"
    using assms(2) by (auto simp: resolveEligibleAccounts_def)
qed

lemma account_route_fields:
  "r \<in> set (account_route st cat p prompt w a) \<Longrightarrow>
    tr_providerAccountId r = Some (acct_id a) \<and> tr_providerId r = Some p \<and> js_has (st_commands st) (tr_commandId r)
    \<and> (\<exists>c. buildArgv (Some c) prompt = Some (tr_resolvedArgv r) \<and> js_get (st_commands st) (tr_commandId r) = Some c)"
  by (auto simp: account_route_def Let_def js_map_simps split: option.splits if_splits) metis+

lemma live_route_allowed:
  assumes "catalog_keyed st" and "r \<in> set (resolveTargets lc st cat target prompt w (Some now) pinned)"
  shows "js_has (st_commands st) (tr_commandId r)
    \<and> (\<exists>c. js_get (st_commands st) (tr_commandId r) = Some c \<and> buildArgv (Some c) prompt = Some (tr_resolvedArgv r))
    \<and> (\<forall>a. tr_providerAccountId r = Some a \<longrightarrow> account_allowed st w now a)"
proof (cases target)
  case (Provider_target p)
  with assms(2) obtain a where "a \<in> set (resolveEligibleAccounts lc st p w (Some now) pinned)"
    "r \<in> set (account_route st cat p prompt w a)"
    by auto
  then show ?thesis using eligible_account_allowed(1) [OF assms(1)] account_route_fields by fastforce
next
  case (Command_target cid)
  obtain c where c1: "js_get (st_commands st) cid = Some c"
    using assms(2) Command_target by (cases "js_get (st_commands st) cid") auto
  obtain argv where c2: "buildArgv (Some c) prompt = Some argv"
    using assms(2) Command_target c1 by (cases "buildArgv (Some c) prompt") auto
  note c = c1 c2
  have r: "r \<in> set (case cmd_providerId c of None \<Rightarrow> [command_route c argv None None]
        | Some p \<Rightarrow> map (\<lambda>a. command_route c argv (Some p) (Some (acct_id a)))
            (resolveEligibleAccounts lc st p w (Some now) pinned))"
    using assms(2) Command_target c by simp
  have "cmd_id c = cid" using assms(1) c(1) by (simp add: catalog_keyed_def)
  then show ?thesis using r c eligible_account_allowed(1) [OF assms(1)]
    by (cases "cmd_providerId c") (auto simp: command_route_def js_map_simps)
qed

lemma native_route_fields:
  assumes "resolveNativeResumeRoute st cat s w nowMs i = Some r"
  shows "rt_targetIndex r = i" "js_has (st_commands st) (rt_commandId r)"
    "s_pinnedCommandId s = Some (rt_commandId r)" "s_pinnedTargetIndex s = Some i"
    "rt_providerAccountId r = Some a \<Longrightarrow> a \<noteq> [] \<and> native_account_allowed st w nowMs a"
    "\<exists>spec template. s_resumeSpec s = Some spec \<and> native_template spec = Some template
      \<and> rt_resolvedArgv r = native_argv s spec template
      \<and> (rs_resumeArgvTemplate spec \<noteq> None \<longrightarrow> truthy_str (s_cliResumeRef s))"
  using assms by (auto simp: resolveNativeResumeRoute_def Let_def split: option.splits if_splits)

lemma native_account_is_allowed:
  assumes "native_account_allowed st w (Some now) a"
  shows "account_allowed st w now a"
proof -
  obtain account where a: "js_get (st_providerAccounts st) a = Some account" "account_enabled st w a"
    and t: "\<not> (truthy_str (acct_usageLimitedUntil account)
      \<and> time_after (the (acct_usageLimitedUntil account)) (Some now))"
    using assms by (auto simp: native_account_allowed_def split: option.splits)
  have "ms \<le> now" if "Option.bind (acct_usageLimitedUntil account) date_parse = Some ms" for ms
    using that t by (cases "acct_usageLimitedUntil account") (auto simp: time_after_def)
  then show ?thesis using a by (auto simp: account_allowed_def)
qed

lemma checked_pin_Some: "checked_pin s r = Some x \<longleftrightarrow> r = Some x \<and> matchesNativeResumePin s x"
  by (auto simp: checked_pin_def split: option.splits if_splits)

lemma routes_cases:
  assumes "r \<in> set (resolveSessionTargetRoutesAt lc st cat s w nowMs i)"
  shows "\<not> suppressed_at s i \<and> i \<le> length (s_fallbacks s) \<and> matchesNativeResumePin s r
    \<and> (resolveNativeResumeRoute st cat s w nowMs i = Some r
       \<or> (\<exists>target x. target_at s i = Some target \<and> r = with_target_index i x
          \<and> \<not> (prefersNativeResumeRoute s \<and> s_pinnedTargetIndex s = Some i)
          \<and> x \<in> set (resolveTargets lc st cat target (s_prompt s) w nowMs (pin_parameter s))))"
proof -
  have ns: "\<not> suppressed_at s i" using assms by (auto simp: resolveSessionTargetRoutesAt_def)
  then obtain target where t: "target_at s i = Some target"
    using assms by (cases "target_at s i") (auto simp: resolveSessionTargetRoutesAt_def)
  define native where "native = checked_pin s (resolveNativeResumeRoute st cat s w nowMs i)"
  from t have "i \<le> length (s_fallbacks s)"
    by (simp add: target_at_def session_targets_def less_Suc_eq_le split: if_splits)
  moreover have "native = Some r \<or> (\<exists>x. r = with_target_index i x \<and> matchesNativeResumePin s r
      \<and> \<not> (prefersNativeResumeRoute s \<and> s_pinnedTargetIndex s = Some i)
      \<and> x \<in> set (resolveTargets lc st cat target (s_prompt s) w nowMs (pin_parameter s)))"
    using assms t ns by (cases native) (auto simp: resolveSessionTargetRoutesAt_def Let_def native_def split: if_splits)
  ultimately show ?thesis using ns t checked_pin_Some unfolding native_def by blast
qed

lemma routes_allowed:
  assumes "catalog_keyed st" and "r \<in> set (resolveSessionTargetRoutesAt lc st cat s w (Some now) i)"
  shows "rt_targetIndex r = i \<and> i \<le> length (s_fallbacks s) \<and> \<not> suppressed_at s i
    \<and> js_has (st_commands st) (rt_commandId r) \<and> matchesNativeResumePin s r
    \<and> (\<forall>a. rt_providerAccountId r = Some a \<longrightarrow> account_allowed st w now a)"
  using routes_cases [OF assms(2)]
proof (elim conjE disjE exE)
  assume n: "resolveNativeResumeRoute st cat s w (Some now) i = Some r"
    and *: "\<not> suppressed_at s i" "i \<le> length (s_fallbacks s)" "matchesNativeResumePin s r"
  show ?thesis
    using * native_route_fields [OF n] native_account_is_allowed by blast
next
  fix target x
  assume x: "x \<in> set (resolveTargets lc st cat target (s_prompt s) w (Some now) (pin_parameter s))"
    and r: "r = with_target_index i x"
    and *: "\<not> suppressed_at s i" "i \<le> length (s_fallbacks s)" "matchesNativeResumePin s r"
  show ?thesis using * live_route_allowed [OF assms(1) x] by (simp add: r with_target_index_def)
qed

section \<open>Properties\<close>

text \<open>C28: Every route offered for a policy entry carries that entry's index, which is inside the policy
  and not suppressed; its command exists in the catalog; it matches the session's pins; and its
  account, if any, exists, is enabled for the worktree by the cascade and is not usage-limited now.\<close>
theorem offered_routes_are_allowed:
  assumes "catalog_keyed st" and "r \<in> set (resolveSessionTargetRoutesAt lc st cat s w (Some now) i)"
  shows "rt_targetIndex r = i \<and> i \<le> length (s_fallbacks s) \<and> \<not> suppressed_at s i
    \<and> js_has (st_commands st) (rt_commandId r) \<and> matchesNativeResumePin s r
    \<and> (\<forall>a. rt_providerAccountId r = Some a \<longrightarrow> account_allowed st w now a)"
  by (rule routes_allowed [OF assms])

lemma pinned_live_routes:
  assumes "catalog_keyed st" "truthy_nullable pinned"
  shows "length (resolveEligibleAccounts lc st p w nowMs pinned) \<le> 1"
proof -
  define xs where "xs = resolveEligibleAccounts lc st p w nowMs pinned"
  have wf: "js_wf (st_providerAccounts st)" using assms by (simp add: catalog_keyed_def)
  have "distinct (map acct_id (js_values (st_providerAccounts st)))"
  proof -
    have "map acct_id (js_values (st_providerAccounts st)) = js_keys (st_providerAccounts st)"
      using assms(1) js_in_get [OF wf] unfolding catalog_keyed_def
      by (auto simp: js_values_def js_keys_def intro!: map_cong)
    then show ?thesis using wf by (simp add: js_wf_def js_keys_def)
  qed
  then have "distinct (js_values (st_providerAccounts st))" "inj_on acct_id (set (js_values (st_providerAccounts st)))"
    by (auto simp: distinct_map)
  then have d: "distinct xs" "inj_on acct_id (set xs)"
    by (auto simp: xs_def resolveEligibleAccounts_def inj_on_def)
  have "\<forall>a \<in> set xs. Val (acct_id a) = pinned"
    using assms(2) by (auto simp: xs_def resolveEligibleAccounts_def)
  then have "\<forall>a \<in> set xs. \<forall>b \<in> set xs. a = b"
    using d(2) by (metis inj_onD nullable.inject)
  then show ?thesis using d(1) unfolding xs_def [symmetric]
    by (metis One_nat_def diff_is_0_eq distinct_conv_nth le_SucI le_zero_eq less_Suc_eq less_one linorder_not_le nth_mem zero_less_one)
qed

lemma account_route_single: "length (account_route st cat p prompt w a) \<le> 1"
  by (auto simp: account_route_def Let_def split: option.split)

lemma pinned_targets_single:
  assumes "catalog_keyed st" "truthy_nullable pinned"
  shows "length (resolveTargets lc st cat target prompt w nowMs pinned) \<le> 1"
proof (cases target)
  case (Provider_target p)
  have "length (concat (map f xs)) \<le> 1"
    if "length xs \<le> 1" "\<And>x. length (f x) \<le> 1" for f :: "provider_account \<Rightarrow> target_route list" and xs
    using that by (cases xs) auto
  then show ?thesis
    using Provider_target pinned_live_routes [OF assms] account_route_single by simp
next
  case (Command_target c)
  then show ?thesis using pinned_live_routes [OF assms] by (auto split: option.split)
qed

text \<open>The single-route resolution of a policy entry is the first of the routes the scheduler
  enumerates for it, for every session that is not pinned to a host or is pinned to an account as well.\<close>
theorem single_and_all_routes_agree:
  assumes "catalog_keyed st"
    and "\<not> truthy_nullable (s_pinnedHostId s) \<or> truthy_nullable (s_pinnedProviderAccountId s)"
  shows "resolveSessionTargetRouteAt lc st cat s w nowMs i =
    (case resolveSessionTargetRoutesAt lc st cat s w nowMs i of [] \<Rightarrow> None | r # _ \<Rightarrow> Some r)"
proof (cases "suppressed_at s i \<or> target_at s i = None \<or> (prefersNativeResumeRoute s \<and> s_pinnedTargetIndex s = Some i)")
  case True
  then show ?thesis
    by (auto simp: resolveSessionTargetRouteAt_def resolveSessionTargetRoutesAt_def split: option.split)
next
  case False
  then obtain target where t: "target_at s i = Some target" by auto
  define rs where "rs = resolveTargets lc st cat target (s_prompt s) w nowMs (pin_parameter s)"
  show ?thesis
  proof (cases rs)
    case Nil
    then show ?thesis using False t unfolding rs_def
      by (auto simp: resolveSessionTargetRouteAt_def resolveSessionTargetRoutesAt_def resolveTarget_def split: option.split)
  next
    case (Cons x xs)
    have one: "resolveSessionTargetRouteAt lc st cat s w nowMs i = checked_pin s (Some (with_target_index i x))"
      using False t Cons by (auto simp: resolveSessionTargetRouteAt_def resolveTarget_def rs_def [symmetric])
    have all: "resolveSessionTargetRoutesAt lc st cat s w nowMs i =
        filter (matchesNativeResumePin s) (map (with_target_index i) (x # xs))"
      using False t Cons by (auto simp: resolveSessionTargetRoutesAt_def Let_def rs_def [symmetric])
    show ?thesis
    proof (cases "truthy_nullable (s_pinnedHostId s)")
      case True
      then have "length rs \<le> 1"
        using assms pinned_targets_single [OF assms(1)] by (simp add: rs_def pin_parameter_def)
      then show ?thesis using one all Cons by (auto simp: checked_pin_def)
    next
      case False
      then have "matchesNativeResumePin s r" for r by (simp add: matchesNativeResumePin_def)
      then show ?thesis using one all by (simp add: checked_pin_def)
    qed
  qed
qed

text \<open>A session pinned to a host and a command is only ever offered that command, and none at
  all once the command is deleted. Where a session continues a captured CLI conversation at its pinned entry, the
  argv is the expansion of its frozen and revalidated template with the captured reference,
  so the executable is the template's first entry.\<close>
theorem pinned_command_is_never_replaced:
  assumes "catalog_keyed st" "truthy_nullable (s_pinnedHostId s)" "s_pinnedCommandId s = Some c"
  shows "(\<forall>r \<in> set (resolveSessionTargetRoutesAt lc st cat s w (Some now) i). rt_commandId r = c)
    \<and> (\<not> js_has (st_commands st) c \<longrightarrow> resolveSessionTargetRoutesAt lc st cat s w (Some now) i = [])
    \<and> (\<forall>r \<in> set (resolveSessionTargetRoutesAt lc st cat s w (Some now) i).
        prefersNativeResumeRoute s \<and> s_pinnedTargetIndex s = Some i \<longrightarrow>
        (\<exists>spec t ref. s_resumeSpec s = Some spec \<and> rs_resumeArgvTemplate spec = Some t \<and> s_cliResumeRef s = Some ref
          \<and> rt_resolvedArgv r = materializeResumeArgv t ref (s_prompt s) (truthy_bool (rs_appendPromptSeparator spec))
          \<and> hd (rt_resolvedArgv r) = hd t))"
proof -
  note allowed = routes_allowed [OF assms(1)]
  have pin: "rt_commandId r = c" if "matchesNativeResumePin s r" for r
    using that assms(2,3) by (auto simp: matchesNativeResumePin_def split: if_splits)
  have native: "\<exists>spec t ref. s_resumeSpec s = Some spec \<and> rs_resumeArgvTemplate spec = Some t \<and> s_cliResumeRef s = Some ref
          \<and> rt_resolvedArgv r = materializeResumeArgv t ref (s_prompt s) (truthy_bool (rs_appendPromptSeparator spec))
          \<and> hd (rt_resolvedArgv r) = hd t"
    if r: "r \<in> set (resolveSessionTargetRoutesAt lc st cat s w (Some now) i)"
      and p: "prefersNativeResumeRoute s" "s_pinnedTargetIndex s = Some i" for r
  proof -
    have n: "resolveNativeResumeRoute st cat s w (Some now) i = Some r" using routes_cases [OF r] p by blast
    obtain spec template where spec: "s_resumeSpec s = Some spec" "native_template spec = Some template"
      "rt_resolvedArgv r = native_argv s spec template"
      using native_route_fields(6) [OF n] by blast
    obtain t ref where t: "rs_resumeArgvTemplate spec = Some t" and ref: "s_cliResumeRef s = Some ref"
      using p(1) spec(1) by (auto simp: prefersNativeResumeRoute_def)
    obtain v where v: "validateCommandResumeSpec (Some (JArr (map JStr t))) None = Inr v"
      "crs_resumeArgvTemplate v = template"
      using spec(2) t by (auto simp: native_template_def split: sum.splits)
    have tmpl: "template = Some t"
      using v validated_array_template by metis
    have "hd (materializeResumeArgv t ref (s_prompt s) sep) = hd t" for sep
      using v tmpl by (intro validated_template_hd) auto
    then show ?thesis using spec t ref tmpl by (auto simp: native_argv_def)
  qed
  have "resolveSessionTargetRoutesAt lc st cat s w (Some now) i = []" if "\<not> js_has (st_commands st) c"
    using allowed that pin by (metis ex_in_conv set_empty)
  then show ?thesis using allowed pin native by blast
qed

section \<open>Examples\<close>

definition sample_command :: command where
  "sample_command = \<lparr>cmd_id = ''cmd1'', cmd_name = ''codex'', cmd_argv = [''codex'', ''exec''],
    cmd_appendPrompt = True, cmd_appendPromptSeparator = Some True,
    cmd_resumeArgvTemplate = Some [''codex'', ''resume'', ''{cliResumeRef}'', ''{prompt}''],
    cmd_resumeRefCapture = None, cmd_providerId = Some ''prov''\<rparr>"

definition sample_repository :: host_repository where
  "sample_repository = \<lparr>hr_id = ''repo'', hr_path = ''/r'', hr_defaultBranch = ''main'',
    hr_worktrees = [\<lparr>hw_id = ''w1'', hw_name = ''w1'', hw_path = ''/w1'', hw_labels = [], hw_setupScript = None,
      hw_setupCacheInputs = None, hw_overrides = None\<rparr>],
    hr_setupScript = None, hr_setupCacheInputs = None, hr_terminalHookScript = None,
    hr_requiredEnvironment = None, hr_overrides = None\<rparr>"

definition sample_inventory :: host_inventory_record where
  "sample_inventory = \<lparr>hir_hostId = ''h1'',
    hir_inventory = \<lparr>hi_setupScript = None, hi_setupCacheInputs = None, hi_setupCacheHostInputs = None,
      hi_allowedRoots = None, hi_requiredEnvironment = None, hi_repositories = [sample_repository],
      hi_providerAccounts = [\<lparr>hpa_providerAccountId = ''acct'', hpa_commandId = Some ''cmd1''\<rparr>],
      hi_capabilities = None, hi_workspacePools = None\<rparr>,
    hir_updateConfig = None, hir_daemonInstanceId = None, hir_daemonStartedAt = None, hir_restartCount = None,
    hir_lastRestartDetectedAt = None, hir_runtime = None, hir_updatedAt = '''', hir_version = None\<rparr>"

definition sample_worktree :: worktree_record where
  "sample_worktree = \<lparr>wt_id = ''w1'', wt_name = ''w1'', wt_hostId = ''h1'', wt_repositoryId = ''repo'',
    wt_path = ''/w1'', wt_labels = [], wt_status = Idle, wt_online = True, wt_currentSessionId = None,
    wt_connectionId = Some ''c1'', wt_lastAssignedAt = None\<rparr>"

definition sample_connection :: connection_record where
  "sample_connection = \<lparr>conn_connectionId = ''c1'', conn_is_host = True, conn_hostId = ''h1'', conn_connectedAt = '''',
    conn_lastHeartbeatAt = ''2026-01-05T09:59:50.000Z'', conn_repositoryIds = Some [''repo''],
    conn_capabilities = Some [Scheduled_main_checkout, Workspace_sessions], conn_maxConcurrentAssignments = Some 4,
    conn_providerAccountReadiness = Some [\<lparr>ready_providerAccountId = ''acct'', ready_ready = True, ready_fingerprint = ''f''\<rparr>],
    conn_runtime = Some \<lparr>hrt_daemonVersion = ''1'', hrt_gitVersion = Some ''2.50'', hrt_gitReady = True,
      hrt_gitReadinessReason = None, hrt_environmentNames = None, hrt_environmentNamesCaseSensitive = None\<rparr>,
    conn_protocolVersion = Some 7, conn_negotiatedProtocolVersion = Some 7, conn_registered = Some True\<rparr>"

definition sample_session :: session_record where
  "sample_session = blank_session\<lparr>s_id := ''s1'', s_repositoryId := ''repo'', s_prompt := ''fix it'',
    s_target := Provider_target ''prov'', s_queueExpiresAt := ''2026-01-06T10:00:00.000Z'',
    s_createdAt := ''2026-01-05T09:00:00.000Z''\<rparr>"

definition sample_plane :: control_plane_state where
  "sample_plane = (createControlPlaneState sample_options)\<lparr>
    st_sessions := [(''s1'', sample_session)], st_worktrees := [(''w1'', sample_worktree)],
    st_connections := [(''c1'', sample_connection)], st_hostConnection := [(''h1'', ''c1'')],
    st_repositories := [(''repo'', \<lparr>rep_id = ''repo'', rep_name = ''repo'', rep_url = '''', rep_defaultBranch = ''main'',
      rep_setupScript = None, rep_terminalHookScript = None, rep_admissionState = Some (JStr ''active''),
      rep_admissionStateChangedAt = None, rep_activationCutoffAt = None, rep_drainRequestedAt = None,
      rep_drainCompletedAt = None, rep_createdAt = '''', rep_updatedAt = ''''\<rparr>)],
    st_hostInventories := [(''h1'', sample_inventory)],
    st_providers := [(''prov'', \<lparr>prov_id = ''prov'', prov_name = ''prov'', prov_defaultCommandId = None, prov_usageRates = None\<rparr>)],
    st_providerAccounts := [(''acct'', sample_account)], st_commands := [(''cmd1'', sample_command)]\<rparr>"

lemma sample_keyed: "catalog_keyed sample_plane"
  by (auto simp: catalog_keyed_def sample_plane_def createControlPlaneState_def js_wf_def js_get_def
      sample_account_def sample_command_def split: if_splits)

theorem offered_routes_are_allowed_witness:
  "map rt_resolvedArgv (resolveSessionTargetRoutesAt str_compare sample_plane (buildProviderCatalog sample_plane)
      sample_session sample_worktree (Some 0) 0) = [[''codex'', ''exec'', ''--'', ''fix it'']]
   \<and> account_allowed sample_plane sample_worktree 0 ''acct''"
proof -
  define rs where "rs = resolveSessionTargetRoutesAt str_compare sample_plane (buildProviderCatalog sample_plane)
      sample_session sample_worktree (Some 0) 0"
  have argv: "map rt_resolvedArgv rs = [[''codex'', ''exec'', ''--'', ''fix it'']]"
    unfolding rs_def by code_simp
  have acct: "map rt_providerAccountId rs = [Some ''acct'']" unfolding rs_def by code_simp
  then obtain r where r: "r \<in> set rs" "rt_providerAccountId r = Some ''acct''" by (cases rs) auto
  from offered_routes_are_allowed [OF sample_keyed r(1) [unfolded rs_def]] r(2) argv
  show ?thesis unfolding rs_def by blast
qed

theorem single_and_all_routes_agree_witness:
  "resolveSessionTargetRouteAt str_compare sample_plane (buildProviderCatalog sample_plane) sample_session sample_worktree (Some 0) 0
    = Some (hd (resolveSessionTargetRoutesAt str_compare sample_plane (buildProviderCatalog sample_plane)
        sample_session sample_worktree (Some 0) 0))"
proof -
  have "resolveSessionTargetRoutesAt str_compare sample_plane (buildProviderCatalog sample_plane)
      sample_session sample_worktree (Some 0) 0 \<noteq> []" by code_simp
  moreover have "\<not> truthy_nullable (s_pinnedHostId sample_session)"
    by (simp add: sample_session_def blank_session_def)
  ultimately show ?thesis
    using single_and_all_routes_agree [OF sample_keyed, of sample_session str_compare "buildProviderCatalog sample_plane"
        sample_worktree "Some 0" 0]
    by (auto split: list.splits)
qed

definition pinned_session :: session_record where
  "pinned_session = sample_session\<lparr>s_pinnedHostId := Val ''h1'', s_pinnedCommandId := Some ''cmd1'',
    s_pinnedTargetIndex := Some 0, s_pinnedProviderAccountId := Val ''acct'', s_resumedFromSessionId := Some ''s0'',
    s_cliResumeRef := Some ''ref-9'', s_resumeSpec := Some (commandResumeSpec sample_command)\<rparr>"

theorem pinned_command_is_never_replaced_witness:
  "(\<exists>r. r \<in> set (resolveSessionTargetRoutesAt str_compare sample_plane (buildProviderCatalog sample_plane)
      pinned_session sample_worktree (Some 0) 0)
    \<and> rt_commandId r = ''cmd1'' \<and> rt_resolvedArgv r = [''codex'', ''resume'', ''ref-9'', ''--'', ''fix it''])
   \<and> resolveSessionTargetRoutesAt str_compare (sample_plane\<lparr>st_commands := []\<rparr>) (buildProviderCatalog sample_plane)
      pinned_session sample_worktree (Some 0) 0 = []"
proof -
  define rs where "rs = resolveSessionTargetRoutesAt str_compare sample_plane (buildProviderCatalog sample_plane)
      pinned_session sample_worktree (Some 0) 0"
  have p: "truthy_nullable (s_pinnedHostId pinned_session)" "s_pinnedCommandId pinned_session = Some ''cmd1''"
    by (simp_all add: pinned_session_def)
  have argv: "map rt_resolvedArgv rs = [[''codex'', ''resume'', ''ref-9'', ''--'', ''fix it'']]"
    unfolding rs_def by code_simp
  then obtain r where r: "r \<in> set rs" "rt_resolvedArgv r = [''codex'', ''resume'', ''ref-9'', ''--'', ''fix it'']"
    by (cases rs) auto
  have "catalog_keyed (sample_plane\<lparr>st_commands := []\<rparr>)" using sample_keyed by (simp add: catalog_keyed_def)
  then have "resolveSessionTargetRoutesAt str_compare (sample_plane\<lparr>st_commands := []\<rparr>) (buildProviderCatalog sample_plane)
      pinned_session sample_worktree (Some 0) 0 = []"
    using pinned_command_is_never_replaced [OF _ p, of "sample_plane\<lparr>st_commands := []\<rparr>" str_compare] by (simp add: js_has_def)
  moreover have "rt_commandId r = ''cmd1''"
    using pinned_command_is_never_replaced [OF sample_keyed p, of str_compare "buildProviderCatalog sample_plane"] r
    unfolding rs_def by blast
  ultimately show ?thesis using r unfolding rs_def by blast
qed

end
