(* ===== verification/Placement.thy ===== *)
theory Placement
  imports Targets
begin

text \<open>
  Placement of queued sessions, \<open>services/api/src/queue-placement-planner.ts\<close>: the plans for
  prompt, scheduled and workspace sessions, the explanation shown to operators and the
  availability probe of a target.

  A plan is a value: expire, skip with a reason, clear the resume pin, cancel, or the ordered
  list of candidates. The lemmas show that every candidate satisfies all gates, that
  candidates are ordered by policy entry, account fairness and round robin, that a placement is skipped only
  when no candidate exists, and that the explanation ends and agrees with the plan.
\<close>

section \<open>Plans\<close>

datatype placement_wait_reason = Queue_expired | Admission_closed | Admission_draining
  | Already_assigned | No_idle_worktree | No_eligible_host | No_eligible_route

datatype prompt_placement_plan = Prompt_expire | Prompt_skip placement_wait_reason | Prompt_clear_pin
  | Prompt_assign "(worktree_record \<times> session_route) list"

datatype scheduled_placement_plan = Scheduled_expire | Scheduled_cancel | Scheduled_skip placement_wait_reason
  | Scheduled_assign "((string \<times> string) \<times> session_route) list"

datatype workspace_placement_plan = Workspace_expire | Workspace_skip placement_wait_reason
  | Workspace_assign "(workspace_slot_record \<times> session_route) list"

section \<open>Gates\<close>

definition isSchedulableWorktree :: "control_plane_state \<Rightarrow> worktree_record \<Rightarrow> string option \<Rightarrow> bool" where
  "isSchedulableWorktree st w repositoryId =
    ((repositoryId = None \<or> Some (wt_repositoryId w) = repositoryId)
     \<and> wt_status w = Idle \<and> wt_online w
     \<and> hostGitReady st (wt_hostId w)
     \<and> hostAcceptsNewAssignments st (wt_hostId w)
     \<and> hostHasAssignmentCapacity st (wt_hostId w)
     \<and> hostEnvironmentReady st (wt_hostId w) (wt_repositoryId w)
     \<and> \<not> List.member (st_drainingHosts st) (wt_hostId w)
     \<and> \<not> js_has (st_disconnectedHosts st) (wt_hostId w))"

definition eligibleIdleWorktrees :: "control_plane_state \<Rightarrow> session_record \<Rightarrow> worktree_record list" where
  "eligibleIdleWorktrees st s =
    filter (\<lambda>w. isSchedulableWorktree st w (Some (s_repositoryId s))
        \<and> list_all (\<lambda>l. List.member (wt_labels w) l) (s_requiredLabels s))
      (js_values (st_worktrees st))"

definition route_last_assigned :: "control_plane_state \<Rightarrow> session_route \<Rightarrow> string" where
  "route_last_assigned st r =
    (if truthy_str (rt_providerAccountId r)
     then opt_or (Option.bind (js_get (st_providerAccounts st) (the (rt_providerAccountId r))) acct_lastAssignedAt) []
     else [])"

definition compare_candidates ::
    "collation \<Rightarrow> control_plane_state \<Rightarrow> worktree_record \<times> session_route \<Rightarrow> worktree_record \<times> session_route \<Rightarrow> int" where
  "compare_candidates lc st a b =
    by_then (lc (route_last_assigned st (snd a)) (route_last_assigned st (snd b)))
      (compareWorktreesForRoundRobin lc (fst a) (fst b))"

definition eligibleRoutes ::
    "collation \<Rightarrow> control_plane_state \<Rightarrow> provider_catalog \<Rightarrow> session_record \<Rightarrow> worktree_record list \<Rightarrow> int option \<Rightarrow> nat
     \<Rightarrow> (worktree_record \<times> session_route) list" where
  "eligibleRoutes lc st cat s worktrees nowMs i =
    js_sort (compare_candidates lc st)
      (concat (map (\<lambda>w. map (Pair w) (resolveSessionTargetRoutesAt lc st cat s w nowMs i)) worktrees))"

definition queueExpired :: "session_record \<Rightarrow> int option \<Rightarrow> bool" where
  "queueExpired s nowMs = time_not_after (s_queueExpiresAt s) nowMs"

definition time_before :: "string \<Rightarrow> int option \<Rightarrow> bool" where
  "time_before t nowMs = (case (date_parse t, nowMs) of (Some a, Some b) \<Rightarrow> a < b | _ \<Rightarrow> False)"

definition compareWorkspaceSlots :: "collation \<Rightarrow> workspace_slot_record \<Rightarrow> workspace_slot_record \<Rightarrow> int" where
  "compareWorkspaceSlots lc a b =
    by_then (lc (opt_or (slot_lastAssignedAt a) []) (opt_or (slot_lastAssignedAt b) [])) (lc (slot_id a) (slot_id b))"

definition account_available :: "control_plane_state \<Rightarrow> string \<Rightarrow> session_route \<Rightarrow> bool" where
  "account_available st hostId r =
    (hostProviderAccountReady st hostId (rt_providerAccountId r) \<and> accountHasLeaseCapacity st (rt_providerAccountId r))"

section \<open>Workspace placement\<close>

definition slot_eligible :: "control_plane_state \<Rightarrow> session_record \<Rightarrow> workspace_slot_record \<Rightarrow> bool" where
  "slot_eligible st s x =
    (let connection = (if truthy_connection_id st (slot_hostId x) then live_connection st (slot_hostId x) else None)
     in Some (slot_workspacePoolId x) = s_workspacePoolId s
        \<and> slot_status x = Idle \<and> \<not> truthy_bool (slot_retired x) \<and> slot_online x
        \<and> hasHostCapability (Option.bind connection conn_capabilities) Workspace_sessions
        \<and> hostAcceptsNewAssignments st (slot_hostId x)
        \<and> hostHasAssignmentCapacity st (slot_hostId x)
        \<and> hostEnvironmentReady st (slot_hostId x) []
        \<and> \<not> List.member (st_drainingHosts st) (slot_hostId x)
        \<and> \<not> js_has (st_disconnectedHosts st) (slot_hostId x))"

definition workspace_candidates ::
    "collation \<Rightarrow> control_plane_state \<Rightarrow> provider_catalog \<Rightarrow> session_record \<Rightarrow> workspace_slot_record list
     \<Rightarrow> (workspace_slot_record \<times> session_route) list" where
  "workspace_candidates lc st cat s eligible =
    concat (map (\<lambda>i. concat (map (\<lambda>x. map (Pair x)
        (filter (\<lambda>r. rt_targetIndex r = i \<and> account_available st (slot_hostId x) r)
          (resolveWorkspaceSessionTargets lc st cat s x))) eligible))
      [0..<Suc (length (s_fallbacks s))])"

definition planWorkspacePlacement ::
    "collation \<Rightarrow> control_plane_state \<Rightarrow> provider_catalog \<Rightarrow> session_record \<Rightarrow> int option \<Rightarrow> workspace_placement_plan" where
  "planWorkspacePlacement lc st cat s nowMs =
    (if queueExpired s nowMs then Workspace_expire
     else if \<not> truthy_str (s_workspacePoolId s) then Workspace_skip No_idle_worktree
     else
       (let eligible = js_sort (compareWorkspaceSlots lc) (filter (slot_eligible st s) (js_values (st_workspaceSlots st)));
            candidates = workspace_candidates lc st cat s eligible
        in if candidates \<noteq> [] then Workspace_assign candidates
           else Workspace_skip (if eligible \<noteq> [] then No_eligible_route else No_eligible_host)))"

section \<open>Prompt placement\<close>

definition repository_admission_value :: "control_plane_state \<Rightarrow> session_record \<Rightarrow> json option" where
  "repository_admission_value st s = Option.bind (js_get (st_repositories st) (s_repositoryId s)) rep_admissionState"

definition prompt_candidates ::
    "collation \<Rightarrow> control_plane_state \<Rightarrow> provider_catalog \<Rightarrow> session_record \<Rightarrow> worktree_record list \<Rightarrow> int option
     \<Rightarrow> (worktree_record \<times> session_route) list" where
  "prompt_candidates lc st cat s idle nowMs =
    concat (map (\<lambda>i. filter (\<lambda>(w, r). account_available st (wt_hostId w) r) (eligibleRoutes lc st cat s idle nowMs i))
      [0..<Suc (length (s_fallbacks s))])"

definition has_native_route ::
    "collation \<Rightarrow> control_plane_state \<Rightarrow> provider_catalog \<Rightarrow> session_record \<Rightarrow> worktree_record list \<Rightarrow> int option \<Rightarrow> bool" where
  "has_native_route lc st cat s idle nowMs =
    (case s_pinnedTargetIndex s of
       None \<Rightarrow> False
     | Some i \<Rightarrow> list_ex (\<lambda>w. case resolveSessionTargetRouteAt lc st cat s w nowMs i of
         None \<Rightarrow> False
       | Some r \<Rightarrow> hostProviderAccountReady st (wt_hostId w) (rt_providerAccountId r)) idle)"

definition place_on ::
    "collation \<Rightarrow> control_plane_state \<Rightarrow> provider_catalog \<Rightarrow> session_record \<Rightarrow> worktree_record list \<Rightarrow> int option
     \<Rightarrow> prompt_placement_plan" where
  "place_on lc st cat s idle nowMs =
    (let sorted_idle = js_sort (compareWorktreesForRoundRobin lc) idle;
         candidates = prompt_candidates lc st cat s sorted_idle nowMs
     in if candidates = [] then Prompt_skip (if sorted_idle = [] then No_idle_worktree else No_eligible_route)
        else Prompt_assign candidates)"

definition planPromptPlacement ::
    "collation \<Rightarrow> control_plane_state \<Rightarrow> provider_catalog \<Rightarrow> session_record \<Rightarrow> int option \<Rightarrow> prompt_placement_plan" where
  "planPromptPlacement lc st cat s nowMs =
    (if queueExpired s nowMs then Prompt_expire
     else if \<not> repositoryAdmissionOpen (repository_admission_value st s) then Prompt_skip Admission_closed
     else if truthy_nullable (s_hostId s) \<and> truthy_nullable (s_worktreeId s) \<and> truthy_str (s_ackReceivedAt s)
       then Prompt_skip Already_assigned
     else if truthy_nullable (s_pinnedHostId s) then
       (if truthy_str (s_pinExpiresAt s) \<and> time_before (the (s_pinExpiresAt s)) nowMs then Prompt_clear_pin
        else
          (let idle = filter (\<lambda>w. Val (wt_hostId w) = s_pinnedHostId s) (eligibleIdleWorktrees st s)
           in if \<not> has_native_route lc st cat s idle nowMs then Prompt_clear_pin
              else place_on lc st cat s idle nowMs))
     else place_on lc st cat s (eligibleIdleWorktrees st s) nowMs)"

section \<open>Scheduled placement\<close>

definition scheduled_candidates ::
    "collation \<Rightarrow> control_plane_state \<Rightarrow> provider_catalog \<Rightarrow> session_record \<Rightarrow> (string \<times> string) list
     \<Rightarrow> ((string \<times> string) \<times> session_route) list" where
  "scheduled_candidates lc st cat s hosts =
    concat (map (\<lambda>i. concat (map (\<lambda>h. map (Pair h)
        (filter (\<lambda>r. rt_targetIndex r = i \<and> account_available st (fst h) r)
          (resolveScheduledSessionTargets lc st cat s (fst h)))) hosts))
      [0..<Suc (length (s_fallbacks s))])"

definition planScheduledPlacement ::
    "collation \<Rightarrow> control_plane_state \<Rightarrow> provider_catalog \<Rightarrow> session_record \<Rightarrow> (string \<times> string) list
     \<Rightarrow> scheduled_placement_plan" where
  "planScheduledPlacement lc st cat s hosts =
    (if queueExpired s (date_parse (st_now st)) then Scheduled_expire
     else if repository_admission_value st s = Some (JStr ''draining'') then Scheduled_cancel
     else if \<not> repositoryAdmissionOpen (repository_admission_value st s) then Scheduled_skip Admission_closed
     else
       (let candidates = scheduled_candidates lc st cat s hosts
        in if candidates = [] then Scheduled_skip (if hosts = [] then No_eligible_host else No_eligible_route)
           else Scheduled_assign candidates))"

section \<open>Explanation and availability\<close>

definition sessionWithClearedPin :: "session_record \<Rightarrow> session_record" where
  "sessionWithClearedPin s = s\<lparr>s_resumeFallback := Some True, s_pinnedHostId := Undefined,
    s_pinnedProviderAccountId := Undefined, s_pinnedTargetIndex := None, s_pinnedCommandId := None,
    s_pinExpiresAt := None\<rparr>"

datatype placement_explanation = Assignable | Waiting placement_wait_reason

lemma clear_pin_needs_pin:
  "planPromptPlacement lc st cat s nowMs = Prompt_clear_pin \<Longrightarrow> truthy_nullable (s_pinnedHostId s)"
  by (auto simp: planPromptPlacement_def place_on_def Let_def split: if_splits)

function explainPromptPlacement ::
    "collation \<Rightarrow> control_plane_state \<Rightarrow> provider_catalog \<Rightarrow> session_record \<Rightarrow> int option \<Rightarrow> placement_explanation" where
  "explainPromptPlacement lc st cat s nowMs =
    (case planPromptPlacement lc st cat s nowMs of
       Prompt_clear_pin \<Rightarrow> explainPromptPlacement lc st cat (sessionWithClearedPin s) nowMs
     | Prompt_assign _ \<Rightarrow> Assignable
     | Prompt_expire \<Rightarrow> Waiting Queue_expired
     | Prompt_skip reason \<Rightarrow> Waiting reason)"
  by pat_completeness auto
termination explainPromptPlacement
  by (relation "measure (\<lambda>(lc, st, cat, s, nowMs). if truthy_nullable (s_pinnedHostId s) then 1 else 0)")
    (auto dest: clear_pin_needs_pin simp: sessionWithClearedPin_def)

declare explainPromptPlacement.simps [simp del]

definition availability_probe :: "worktree_record \<Rightarrow> target_ref \<Rightarrow> session_record" where
  "availability_probe w target = blank_session\<lparr>s_id := ''availability-probe'', s_repositoryId := wt_repositoryId w,
    s_prompt := [], s_target := target, s_fallbacks := [], s_targetDisplayNames := [], s_queueTtlSeconds := 1,
    s_queueExpiresAt := ''9999-01-01T00:00:00.000Z'', s_timeout := 1, s_priority := 0, s_requiredLabels := [],
    s_status := Queued, s_queueShard := 0, s_createdAt := ''1970-01-01T00:00:00.000Z''\<rparr>"

definition targetIsAvailable ::
    "collation \<Rightarrow> control_plane_state \<Rightarrow> provider_catalog \<Rightarrow> target_ref \<Rightarrow> int option \<Rightarrow> bool" where
  "targetIsAvailable lc st cat target nowMs =
    list_ex (\<lambda>w. isSchedulableWorktree st w None
        \<and> list_ex (\<lambda>r. hostProviderAccountReady st (wt_hostId w) (rt_providerAccountId r)
              \<and> accountHasLeaseCapacityFromReadModel st (rt_providerAccountId r))
            (resolveSessionTargetRoutesAt lc st cat (availability_probe w target) w nowMs 0))
      (js_values (st_worktrees st))"

section \<open>Candidates are exactly the tuples that pass every gate\<close>

definition prompt_gates :: "collation \<Rightarrow> control_plane_state \<Rightarrow> provider_catalog \<Rightarrow> session_record \<Rightarrow> int option
    \<Rightarrow> worktree_record \<Rightarrow> session_route \<Rightarrow> bool" where
  "prompt_gates lc st cat s nowMs w r \<longleftrightarrow>
    w \<in> set (js_values (st_worktrees st))
    \<and> isSchedulableWorktree st w (Some (s_repositoryId s))
    \<and> set (s_requiredLabels s) \<subseteq> set (wt_labels w)
    \<and> (truthy_nullable (s_pinnedHostId s) \<longrightarrow> Val (wt_hostId w) = s_pinnedHostId s)
    \<and> account_available st (wt_hostId w) r
    \<and> rt_targetIndex r \<le> length (s_fallbacks s)
    \<and> r \<in> set (resolveSessionTargetRoutesAt lc st cat s w nowMs (rt_targetIndex r))"

lemma route_index:
  "r \<in> set (resolveSessionTargetRoutesAt lc st cat s w nowMs i) \<Longrightarrow> rt_targetIndex r = i \<and> i \<le> length (s_fallbacks s)"
  using routes_cases [of r lc st cat s w nowMs i] native_route_fields(1) by (fastforce simp: with_target_index_def)

lemma set_eligibleRoutes:
  "set (eligibleRoutes lc st cat s ws nowMs i) =
    {(w, r). w \<in> set ws \<and> r \<in> set (resolveSessionTargetRoutesAt lc st cat s w nowMs i)}"
  by (auto simp: eligibleRoutes_def)

lemma set_prompt_candidates:
  "(w, r) \<in> set (prompt_candidates lc st cat s ws nowMs) \<longleftrightarrow>
    w \<in> set ws \<and> account_available st (wt_hostId w) r \<and> rt_targetIndex r \<le> length (s_fallbacks s)
    \<and> r \<in> set (resolveSessionTargetRoutesAt lc st cat s w nowMs (rt_targetIndex r))"
proof -
  have "(w, r) \<in> set (prompt_candidates lc st cat s ws nowMs) \<longleftrightarrow>
    (\<exists>i \<le> length (s_fallbacks s). account_available st (wt_hostId w) r \<and> w \<in> set ws
      \<and> r \<in> set (resolveSessionTargetRoutesAt lc st cat s w nowMs i))"
    by (auto simp: prompt_candidates_def set_eligibleRoutes less_Suc_eq_le simp del: upt_Suc)
  also have "\<dots> \<longleftrightarrow> w \<in> set ws \<and> account_available st (wt_hostId w) r \<and> rt_targetIndex r \<le> length (s_fallbacks s)
    \<and> r \<in> set (resolveSessionTargetRoutesAt lc st cat s w nowMs (rt_targetIndex r))"
    using route_index by blast
  finally show ?thesis .
qed

lemma set_eligible_idle:
  "w \<in> set (eligibleIdleWorktrees st s) \<longleftrightarrow> w \<in> set (js_values (st_worktrees st))
    \<and> isSchedulableWorktree st w (Some (s_repositoryId s)) \<and> set (s_requiredLabels s) \<subseteq> set (wt_labels w)"
  by (auto simp: eligibleIdleWorktrees_def list_all_iff)

definition pinned_idle :: "control_plane_state \<Rightarrow> session_record \<Rightarrow> worktree_record list" where
  "pinned_idle st s = (if truthy_nullable (s_pinnedHostId s)
    then filter (\<lambda>w. Val (wt_hostId w) = s_pinnedHostId s) (eligibleIdleWorktrees st s) else eligibleIdleWorktrees st s)"

lemma plan_cases:
  assumes "planPromptPlacement lc st cat s nowMs = plan" "plan \<noteq> Prompt_expire" "plan \<noteq> Prompt_clear_pin"
    "plan \<noteq> Prompt_skip Admission_closed" "plan \<noteq> Prompt_skip Already_assigned"
  shows "plan = place_on lc st cat s (pinned_idle st s) nowMs \<and> \<not> queueExpired s nowMs
    \<and> repositoryAdmissionOpen (repository_admission_value st s)"
  using assms by (auto simp: planPromptPlacement_def pinned_idle_def Let_def split: if_splits)

lemma candidates_are_gates:
  "set (prompt_candidates lc st cat s (js_sort cmp (pinned_idle st s)) nowMs) = {(w, r). prompt_gates lc st cat s nowMs w r}"
  by (auto simp: set_prompt_candidates prompt_gates_def pinned_idle_def set_eligible_idle)

section \<open>Properties\<close>


lemma sorted_concat_blocks:
  assumes "\<And>i. sorted_wrt P (f i)" and "\<And>i j x y. i < j \<Longrightarrow> x \<in> set (f i) \<Longrightarrow> y \<in> set (f j) \<Longrightarrow> P x y"
  shows "sorted_wrt P (concat (map f [a..<b]))"
proof (induction b)
  case (Suc b)
  show ?case
  proof (cases "a \<le> b")
    case True
    then have "concat (map f [a..<Suc b]) = concat (map f [a..<b]) @ f b" by simp
    moreover have "\<forall>x \<in> set (concat (map f [a..<b])). \<forall>y \<in> set (f b). P x y" using assms(2) by fastforce
    ultimately show ?thesis using Suc assms(1) by (simp add: sorted_wrt_append)
  qed simp
qed simp

lemma candidate_comparator:
  assumes "js_comparator lc"
  shows "js_comparator (compare_candidates lc st)"
  unfolding compare_candidates_def
  by (intro js_comparator_by_then js_comparator_on [OF assms, of "\<lambda>a. route_last_assigned st (snd a)"]
      js_comparator_on [OF round_robin_comparator [OF assms], of fst])

interpretation candidate_order: js_comparator "compare_candidates str_compare st"
  by (rule candidate_comparator) (rule str_order.js_comparator_axioms)

lemma prompt_candidates_sorted:
  assumes "js_comparator lc"
  shows "sorted_wrt (\<lambda>a b. rt_targetIndex (snd a) < rt_targetIndex (snd b)
      \<or> rt_targetIndex (snd a) = rt_targetIndex (snd b) \<and> compare_candidates lc st a b \<le> 0)
    (prompt_candidates lc st cat s ws nowMs)"
  unfolding prompt_candidates_def
proof (rule sorted_concat_blocks)
  fix i
  have "sorted_wrt (\<lambda>a b. compare_candidates lc st a b \<le> 0) (eligibleRoutes lc st cat s ws nowMs i)"
    unfolding eligibleRoutes_def by (rule js_comparator.sorted_sort [OF candidate_comparator [OF assms]])
  then have "sorted_wrt (\<lambda>a b. compare_candidates lc st a b \<le> 0)
      (filter (\<lambda>(w, r). account_available st (wt_hostId w) r) (eligibleRoutes lc st cat s ws nowMs i))"
    by (rule sorted_wrt_filter)
  then show "sorted_wrt (\<lambda>a b. rt_targetIndex (snd a) < rt_targetIndex (snd b)
      \<or> rt_targetIndex (snd a) = rt_targetIndex (snd b) \<and> compare_candidates lc st a b \<le> 0)
    (filter (\<lambda>(w, r). account_available st (wt_hostId w) r) (eligibleRoutes lc st cat s ws nowMs i))"
    by (rule sorted_wrt_mono_rel [rotated]) (auto simp: set_eligibleRoutes dest!: route_index)
qed (auto simp: set_eligibleRoutes dest!: route_index)

text \<open>Candidates are tried in the order of the route policy: every route of an earlier entry comes
  before every route of a later one. Within an entry the account assigned longest ago comes
  first, then the worktree next in round robin.\<close>
theorem prompt_candidates_in_policy_order:
  assumes "js_comparator lc" and "planPromptPlacement lc st cat s nowMs = Prompt_assign cs"
  shows "sorted_wrt (\<lambda>a b. rt_targetIndex (snd a) < rt_targetIndex (snd b)
      \<or> rt_targetIndex (snd a) = rt_targetIndex (snd b) \<and> compare_candidates lc st a b \<le> 0) cs"
  using plan_cases [OF assms(2)] prompt_candidates_sorted [OF assms(1)]
  by (auto simp: place_on_def Let_def split: if_splits)

fun explanation_of :: "prompt_placement_plan \<Rightarrow> placement_explanation option" where
  "explanation_of Prompt_expire = Some (Waiting Queue_expired)"
| "explanation_of (Prompt_skip reason) = Some (Waiting reason)"
| "explanation_of (Prompt_assign _) = Some Assignable"
| "explanation_of Prompt_clear_pin = None"

lemma cleared_pin_not_pinned [simp]: "truthy_nullable (s_pinnedHostId (sessionWithClearedPin s)) = False"
  by (simp add: sessionWithClearedPin_def)

lemma cleared_plan_is_final:
  "planPromptPlacement lc st cat (sessionWithClearedPin s) nowMs \<noteq> Prompt_clear_pin"
  using clear_pin_needs_pin by fastforce

text \<open>The explanation of a queued session ends after clearing the pin at most once, and says what the plan
  the scheduler follows says: assignable exactly when that plan assigns.\<close>
theorem explanation_ends_and_agrees:
  "planPromptPlacement lc st cat (sessionWithClearedPin s) nowMs \<noteq> Prompt_clear_pin
   \<and> Some (explainPromptPlacement lc st cat s nowMs) =
      (if planPromptPlacement lc st cat s nowMs = Prompt_clear_pin
       then explanation_of (planPromptPlacement lc st cat (sessionWithClearedPin s) nowMs)
       else explanation_of (planPromptPlacement lc st cat s nowMs))"
proof -
  have step: "Some (explainPromptPlacement lc st cat x nowMs) = explanation_of (planPromptPlacement lc st cat x nowMs)"
    if "planPromptPlacement lc st cat x nowMs \<noteq> Prompt_clear_pin" for x
    using that by (subst explainPromptPlacement.simps) (simp split: prompt_placement_plan.split)
  have "explainPromptPlacement lc st cat s nowMs = explainPromptPlacement lc st cat (sessionWithClearedPin s) nowMs"
    if "planPromptPlacement lc st cat s nowMs = Prompt_clear_pin"
    using that by (subst explainPromptPlacement.simps) simp
  then show ?thesis using step cleared_plan_is_final by simp
qed


section \<open>Scheduled and workspace placement\<close>

lemma scheduled_route_index:
  "r \<in> set (resolveScheduledSessionTargets lc st cat s h) \<Longrightarrow> rt_targetIndex r \<le> length (s_fallbacks s) \<and> matchesNativeResumePin s r"
  by (auto simp: resolveScheduledSessionTargets_def with_target_index_def session_targets_def
      split: option.splits if_splits)

lemma workspace_route_index:
  "r \<in> set (resolveWorkspaceSessionTargets lc st cat s x) \<Longrightarrow> rt_targetIndex r \<le> length (s_fallbacks s)"
  by (auto simp: resolveWorkspaceSessionTargets_def with_target_index_def target_at_def session_targets_def
      simp del: upt_Suc split: option.splits if_splits)

lemma set_indexed_candidates:
  assumes "\<And>h r. h \<in> set hs \<Longrightarrow> r \<in> set (f h) \<Longrightarrow> k r \<le> n"
  shows "set (concat (map (\<lambda>i. concat (map (\<lambda>h. map (Pair h) (filter (\<lambda>r. k r = i \<and> P h r) (f h))) hs)) [0..<Suc n]))
    = {(h, r). h \<in> set hs \<and> r \<in> set (f h) \<and> P h r}" (is "set ?cs = ?S")
proof
  show "set ?cs \<subseteq> ?S" by auto
  show "?S \<subseteq> set ?cs"
  proof clarify
    fix h r
    assume *: "h \<in> set hs" "r \<in> set (f h)" "P h r"
    then have "k r \<in> set [0..<Suc n]" using assms by (simp add: less_Suc_eq_le del: upt_Suc)
    with * show "(h, r) \<in> set ?cs" by (force simp del: upt_Suc)
  qed
qed

lemma set_scheduled_candidates:
  "set (scheduled_candidates lc st cat s hosts) =
    {(h, r). h \<in> set hosts \<and> r \<in> set (resolveScheduledSessionTargets lc st cat s (fst h)) \<and> account_available st (fst h) r}"
  unfolding scheduled_candidates_def by (rule set_indexed_candidates) (auto dest: scheduled_route_index)

lemma set_workspace_candidates:
  "set (workspace_candidates lc st cat s xs) =
    {(x, r). x \<in> set xs \<and> r \<in> set (resolveWorkspaceSessionTargets lc st cat s x) \<and> account_available st (slot_hostId x) r}"
  unfolding workspace_candidates_def by (rule set_indexed_candidates) (auto dest: workspace_route_index)

lemma scheduled_candidates_sorted:
  "sorted_wrt (\<lambda>a b. rt_targetIndex (snd a) \<le> rt_targetIndex (snd b)) (scheduled_candidates lc st cat s hosts)"
proof -
  have same: "sorted_wrt (\<lambda>a b. rt_targetIndex (snd a) \<le> rt_targetIndex (snd b)) zs"
    if "\<And>z. z \<in> set zs \<Longrightarrow> rt_targetIndex (snd z) = i" for zs :: "((string \<times> string) \<times> session_route) list" and i
    using that by (induction zs) auto
  show ?thesis
    unfolding scheduled_candidates_def by (rule sorted_concat_blocks) (auto intro!: same)
qed


text \<open>A workspace session is placed exactly on the idle, online, unretired slots of its pool on ready
  hosts that advertise workspace sessions, with routes whose account is ready and has capacity.\<close>
theorem workspace_placement_correct:
  assumes "planWorkspacePlacement lc st cat s nowMs = Workspace_assign cs"
  shows "\<not> queueExpired s nowMs \<and> cs \<noteq> []
    \<and> set cs = {(x, r). x \<in> set (js_values (st_workspaceSlots st)) \<and> slot_eligible st s x
        \<and> r \<in> set (resolveWorkspaceSessionTargets lc st cat s x) \<and> account_available st (slot_hostId x) r}
    \<and> (\<forall>(x, r) \<in> set cs. slot_status x = Idle \<and> slot_online x \<and> slot_retired x \<noteq> Some True
        \<and> Some (slot_workspacePoolId x) = s_workspacePoolId s)"
  using assms set_workspace_candidates [of lc st cat s]
  by (auto simp: planWorkspacePlacement_def Let_def slot_eligible_def truthy_bool_def split: if_splits)

section \<open>Examples\<close>

definition sample_slot :: workspace_slot_record where
  "sample_slot = \<lparr>slot_id = ''x1'', slot_name = ''x1'', slot_hostId = ''h1'', slot_workspacePoolId = ''pool'',
    slot_path = ''/x1'', slot_status = Idle, slot_online = True, slot_currentSessionId = None, slot_retired = None,
    slot_connectionId = None, slot_lastAssignedAt = None, slot_errorMessage = None\<rparr>"

definition workspace_plane :: control_plane_state where
  "workspace_plane = sample_plane\<lparr>st_workspaceSlots := [(''x1'', sample_slot)]\<rparr>"

definition workspace_session :: session_record where
  "workspace_session = sample_session\<lparr>s_id := ''s2'', s_repositoryId := [], s_workspacePoolId := Some ''pool'',
    s_type := Some Type_workspace\<rparr>"

definition sample_now :: "int option" where
  "sample_now = date_parse ''2026-01-05T10:00:00.000Z''"

definition sample_plan :: prompt_placement_plan where
  "sample_plan = planPromptPlacement str_compare sample_plane (buildProviderCatalog sample_plane) sample_session sample_now"

definition plan_candidates :: "prompt_placement_plan \<Rightarrow> (worktree_record \<times> session_route) list" where
  "plan_candidates p = (case p of Prompt_assign cs \<Rightarrow> cs | _ \<Rightarrow> [])"

lemma plan_candidates_assign:
  "(case p of Prompt_assign _ \<Rightarrow> True | _ \<Rightarrow> False) \<Longrightarrow> p = Prompt_assign (plan_candidates p)"
  by (cases p) (auto simp: plan_candidates_def)

lemma sample_plan_assigns: "sample_plan = Prompt_assign (plan_candidates sample_plan)"
  by (rule plan_candidates_assign) code_simp

lemma sample_candidates: "map (wt_id \<circ> fst) (plan_candidates sample_plan) = [''w1'']"
  by code_simp


theorem prompt_candidates_in_policy_order_witness:
  "sorted_wrt (\<lambda>a b. rt_targetIndex (snd a) < rt_targetIndex (snd b)
      \<or> rt_targetIndex (snd a) = rt_targetIndex (snd b) \<and> compare_candidates str_compare sample_plane a b \<le> 0)
    (plan_candidates sample_plan)"
  by (rule prompt_candidates_in_policy_order [OF str_order.js_comparator_axioms sample_plan_assigns [unfolded sample_plan_def],
      folded sample_plan_def])



theorem workspace_placement_correct_witness:
  "\<exists>cs. planWorkspacePlacement str_compare workspace_plane (buildProviderCatalog workspace_plane) workspace_session sample_now
      = Workspace_assign cs \<and> cs \<noteq> [] \<and> (\<forall>(x, r) \<in> set cs. slot_status x = Idle)"
proof -
  have "case planWorkspacePlacement str_compare workspace_plane (buildProviderCatalog workspace_plane) workspace_session sample_now of
      Workspace_assign _ \<Rightarrow> True | _ \<Rightarrow> False"
    by code_simp
  then obtain cs where cs: "planWorkspacePlacement str_compare workspace_plane (buildProviderCatalog workspace_plane)
      workspace_session sample_now = Workspace_assign cs"
    by (cases "planWorkspacePlacement str_compare workspace_plane (buildProviderCatalog workspace_plane) workspace_session sample_now") auto
  from workspace_placement_correct [OF cs] cs show ?thesis by fastforce
qed

end
