(* ===== verification/Planner.thy ===== *)
theory Planner
  imports Records
begin

text \<open>
  The session-transition policy of \<open>services/api/src/session-transition-planner.ts\<close>: a pure
  function from a session, an event and a context to the list of effects its callers
  commit. Every event and every effect of the source is a constructor, and every
  \<open>plan*\<close> function is a definition with the guards and early returns of the code.

  The plan is an \<open>option\<close>: \<open>None\<close> is the \<open>RangeError\<close> that \<open>toISOString\<close> throws when the
  context's clock does not parse or the deadline leaves the range of \<open>Date\<close>.

  The lemmas show the fences of the protocol (stale attempts change nothing), that a
  terminal status is final, that resources are released exactly once with the session
  that held them, and the retry and usage-limit policies.
\<close>

named_theorems plan_defs \<open>the definitions of the plan functions\<close>

section \<open>Events, effects and context\<close>

record session_report =
  rep_exitCode :: "int nullable"
  rep_errorCode :: "string option"
  rep_errorMessage :: "string option"
  rep_cliResumeRef :: "string option"
  rep_result :: "json option"

definition no_report :: session_report where
  "no_report = \<lparr>rep_exitCode = Undefined, rep_errorCode = None, rep_errorMessage = None,
    rep_cliResumeRef = None, rep_result = None\<rparr>"

datatype transition_event =
    Ev_ack (ev_worktreeId: "string option") (ev_attemptId: string)
  | Ev_command_start (ev_worktreeId: "string option") (ev_attemptId: string)
  | Ev_status (ev_worktreeId: "string option") (ev_attemptId: string)
      (ev_status: session_status) (ev_report: session_report)
  | Ev_cancel
  | Ev_timeout
  | Ev_disconnect bool
  | Ev_infrastructure_failure infra_code
  | Ev_queue_expired
  | Ev_log (ev_attemptId: string)
  | Ev_reconnect_claim (ev_attemptId: string)

datatype ignore_reason = Stale_attempt | Already_acked | Not_running | Non_terminal
  | Not_due | Not_queued | Missing_account

datatype requeue_reason = Rq_usage_limit | Rq_missing_account | Rq_providerless
  | Rq_disconnect | Rq_infrastructure

datatype transition_effect =
    Eff_ignore ignore_reason
  | Eff_reject string
  | Eff_ack
  | Eff_authorize_command_start
  | Eff_retry_archive
  | Eff_patch_report "session_status option" session_report
  | Eff_finish session_status string bool session_report
  | Eff_requeue requeue_reason session_report
  | Eff_cooldown string string
  | Eff_suppress_target nat
  | Eff_fallback
  | Eff_release_worktree
  | Eff_release_workspace
  | Eff_release_lease
  | Eff_archive
  | Eff_reschedule session_type
  | Eff_notify_cancel
  | Eff_cancel bool
  | Eff_mark_reconnect string

datatype plan_source = Local | Durable

record transition_context =
  ctx_now :: string
  ctx_source :: plan_source
  ctx_protocolVersion :: "nat option"
  ctx_deferTerminalHookResult :: "bool option"
  ctx_providerAccount :: "int option"
  ctx_reconnectGraceMs :: "int option"

type_synonym plan = "transition_effect list"

section \<open>The plan functions\<close>

definition MAX_INFRASTRUCTURE_RETRIES :: nat where
  "MAX_INFRASTRUCTURE_RETRIES = 1"

fun effect_type :: "transition_effect \<Rightarrow> string" where
  "effect_type (Eff_ignore _) = ''ignore''"
| "effect_type (Eff_reject _) = ''reject''"
| "effect_type Eff_ack = ''ack''"
| "effect_type Eff_authorize_command_start = ''authorize_command_start''"
| "effect_type Eff_retry_archive = ''retry_archive''"
| "effect_type (Eff_patch_report _ _) = ''patch_report''"
| "effect_type (Eff_finish _ _ _ _) = ''finish''"
| "effect_type (Eff_requeue _ _) = ''requeue''"
| "effect_type (Eff_cooldown _ _) = ''cooldown''"
| "effect_type (Eff_suppress_target _) = ''suppress_target''"
| "effect_type Eff_fallback = ''fallback''"
| "effect_type Eff_release_worktree = ''release_worktree''"
| "effect_type Eff_release_workspace = ''release_workspace''"
| "effect_type Eff_release_lease = ''release_lease''"
| "effect_type Eff_archive = ''archive''"
| "effect_type (Eff_reschedule _) = ''reschedule''"
| "effect_type Eff_notify_cancel = ''notify_cancel''"
| "effect_type (Eff_cancel _) = ''cancel''"
| "effect_type (Eff_mark_reconnect _) = ''mark_reconnect''"

definition transitionEffect :: "plan \<Rightarrow> string \<Rightarrow> transition_effect option" where
  "transitionEffect p ty = List.find (\<lambda>e. effect_type e = ty) p"

definition attemptMatches :: "session_record \<Rightarrow> string option \<Rightarrow> string \<Rightarrow> bool" where
  "attemptMatches s wt a =
    ((case s_worktreeId s of Undefined \<Rightarrow> False | Null \<Rightarrow> wt = None | Val w \<Rightarrow> wt = Some w)
     \<and> s_attemptId s = Some a)"

definition remainingFallback :: "session_record \<Rightarrow> bool" where
  "remainingFallback s =
    ((case s_resolvedRoute s of None \<Rightarrow> 0 | Some r \<Rightarrow> rr_targetIndex r) < length (s_fallbacks s))"

definition scheduleKind :: "session_record \<Rightarrow> session_type" where
  "scheduleKind s =
    (if s_type s = Some Type_scheduled then Type_scheduled
     else if s_type s = Some Type_workspace then Type_workspace
     else Type_prompt)"

definition releaseEffects :: "session_record \<Rightarrow> plan" where
  "releaseEffects s =
    (if truthy_bool (s_mainCheckoutLease s) then [Eff_release_lease]
     else if truthy_nullable (s_workspaceSlotId s) then [Eff_release_workspace]
     else if truthy_nullable (s_worktreeId s) then [Eff_release_worktree]
     else [])"

definition overlay :: "session_report \<Rightarrow> session_report \<Rightarrow> session_report" where
  "overlay base over =
    \<lparr>rep_exitCode = (if rep_exitCode over = Undefined then rep_exitCode base else rep_exitCode over),
     rep_errorCode = first_some (rep_errorCode over) (rep_errorCode base),
     rep_errorMessage = first_some (rep_errorMessage over) (rep_errorMessage base),
     rep_cliResumeRef = first_some (rep_cliResumeRef over) (rep_cliResumeRef base),
     rep_result = first_some (rep_result over) (rep_result base)\<rparr>"

definition planAck :: "session_record \<Rightarrow> string option \<Rightarrow> string \<Rightarrow> plan" where
  "planAck s wt a =
    (if s_status s \<noteq> Running \<or> \<not> attemptMatches s wt a then [Eff_ignore Stale_attempt]
     else if s_ackReceivedAt s \<noteq> None then [Eff_ignore Already_acked]
     else [Eff_ack])"

definition planCommandStart :: "session_record \<Rightarrow> string option \<Rightarrow> string \<Rightarrow> plan" where
  "planCommandStart s wt a =
    (if s_status s \<noteq> Running \<or> \<not> attemptMatches s wt a then [Eff_ignore Stale_attempt]
     else if s_primaryCommandStartState s = Some Authorized then []
     else if s_primaryCommandStartState s \<noteq> Some Pending
       then [Eff_reject ''command start is not enabled for this assignment'']
     else [Eff_authorize_command_start])"

definition planInfrastructureFailure ::
    "session_record \<Rightarrow> infra_code \<Rightarrow> transition_context \<Rightarrow> string option \<Rightarrow> session_report \<Rightarrow> plan" where
  "planInfrastructureFailure s code ctx detail base =
    (if s_status s \<noteq> Running then [Eff_ignore Not_running]
     else
       let baseMessage = opt_or detail
             (if code = Checkout_fetch_failed then ''checkout fetch failed''
              else ''host was lost before command launch'');
           checkoutHookWasDeferred =
             (code \<noteq> Checkout_fetch_failed \<or> ctx_deferTerminalHookResult ctx = Some True);
           replaySafe = (checkoutHookWasDeferred
             \<and> (code \<noteq> Host_lost \<or> s_primaryCommandStartState s = Some Pending))
       in if replaySafe \<and> opt_or (s_infrastructureRetryCount s) 0 < MAX_INFRASTRUCTURE_RETRIES
          then releaseEffects s
            @ [Eff_requeue Rq_infrastructure
                 (no_report\<lparr>rep_errorCode := Some (infra_code_name code),
                   rep_errorMessage := Some (baseMessage @ ''; retrying once'')\<rparr>),
               Eff_reschedule (scheduleKind s)]
          else releaseEffects s
            @ [Eff_finish Failed (ctx_now ctx) False
                 (base\<lparr>rep_errorCode := Some (infra_code_name code),
                   rep_errorMessage := Some
                     (if \<not> checkoutHookWasDeferred
                      then baseMessage @ ''; terminal hook was not durably deferred''
                      else if replaySafe then baseMessage @ ''; automatic retry exhausted''
                      else ''host lost after command authorization or without a replay-safe checkpoint'')\<rparr>),
               Eff_archive])"

definition planUsageLimit ::
    "session_record \<Rightarrow> session_report \<Rightarrow> transition_context \<Rightarrow> plan option" where
  "planUsageLimit s rep ctx =
    (let leased = truthy_bool (s_mainCheckoutLease s);
         accountId = (case s_resolvedRoute s of None \<Rightarrow> None | Some r \<Rightarrow> rr_providerAccountId r);
         fallback = (if remainingFallback s then [Eff_fallback] else []);
         reschedule = Eff_reschedule (scheduleKind s);
         release = releaseEffects s;
         limit = no_report\<lparr>rep_errorCode := Some ''usage_limit'',
           rep_errorMessage := Some (opt_or (rep_errorMessage rep) ''provider usage limit; requeued'')\<rparr>
     in if truthy_str accountId
        then (case ctx_providerAccount ctx of
            Some cooldownSeconds \<Rightarrow>
              (case date_parse (ctx_now ctx) of
                 None \<Rightarrow> None
               | Some t \<Rightarrow>
                  (case to_iso (t + cooldownSeconds * 1000) of
                     None \<Rightarrow> None
                   | Some until \<Rightarrow> Some
                      ([Eff_cooldown (the accountId) until] @ release @ fallback
                       @ [Eff_requeue Rq_usage_limit (overlay limit rep), reschedule])))
          | None \<Rightarrow>
              (if ctx_source ctx = Durable \<and> \<not> leased then Some [Eff_ignore Missing_account]
               else
                 let missing = (ctx_source ctx = Durable \<and> leased)
                 in Some (release
                   @ [Eff_requeue (if missing then Rq_missing_account else Rq_usage_limit)
                       (overlay
                         (if missing
                          then limit\<lparr>rep_errorMessage := Some ''provider account missing; requeued''\<rparr>
                          else limit) rep),
                      reschedule])))
        else Some
          ([Eff_suppress_target (case s_resolvedRoute s of None \<Rightarrow> 0 | Some r \<Rightarrow> rr_targetIndex r)]
           @ release @ fallback
           @ [Eff_requeue Rq_providerless
                (overlay (no_report\<lparr>rep_errorCode := Some ''usage_limit''\<rparr>) rep), reschedule]))"

definition planLateTerminal ::
    "session_record \<Rightarrow> session_report \<Rightarrow> transition_context \<Rightarrow> plan \<Rightarrow> plan" where
  "planLateTerminal s rep ctx prefix =
    (let cancelled = (s_status s = Cancelled)
     in if ctx_source ctx = Durable \<and> \<not> cancelled then prefix @ [Eff_ignore Not_running]
        else if ctx_source ctx = Durable \<and> cancelled \<and> \<not> truthy_nullable (s_worktreeId s)
          \<and> \<not> truthy_bool (s_mainCheckoutLease s) \<and> \<not> truthy_nullable (s_workspaceSlotId s)
        then prefix @ [Eff_ignore Not_running]
        else prefix @ releaseEffects s
          @ (if rep_cliResumeRef rep \<noteq> None \<or> rep_result rep \<noteq> None
             then [Eff_patch_report None
               (no_report\<lparr>rep_cliResumeRef := rep_cliResumeRef rep, rep_result := rep_result rep\<rparr>)]
             else []))"

definition planStatus ::
    "session_record \<Rightarrow> string option \<Rightarrow> string \<Rightarrow> session_status \<Rightarrow> session_report
     \<Rightarrow> transition_context \<Rightarrow> plan option" where
  "planStatus s wt a st rep ctx =
    (let terminal = isTerminalSessionStatus st;
         prefix = (if ctx_source ctx = Durable \<and> terminal \<and> isTerminalSessionStatus (s_status s)
           then [Eff_retry_archive] else [])
     in if \<not> attemptMatches s wt a then Some (prefix @ [Eff_ignore Stale_attempt])
        else if \<not> terminal
        then (if ctx_source ctx = Local
              then Some [if s_status s = Running then Eff_patch_report (Some st) rep
                else Eff_patch_report None (no_report\<lparr>rep_cliResumeRef := rep_cliResumeRef rep\<rparr>)]
              else Some [Eff_ignore Non_terminal])
        else if s_status s \<noteq> Running then Some (planLateTerminal s rep ctx prefix)
        else if st = Failed \<and> rep_errorCode rep = Some ''usage_limit'' then planUsageLimit s rep ctx
        else if st = Failed \<and> rep_errorCode rep = Some ''checkout_fetch_failed''
        then Some (planInfrastructureFailure s Checkout_fetch_failed ctx (rep_errorMessage rep) rep)
        else Some (releaseEffects s
          @ [Eff_finish st (ctx_now ctx)
               (truthy_str (s_resumedFromSessionId s) \<and> rep_cliResumeRef rep = None) rep,
             Eff_archive]))"

definition planAttemptId :: "session_record \<Rightarrow> string \<Rightarrow> bool \<Rightarrow> plan" where
  "planAttemptId s a requireRunning =
    (if requireRunning \<and> s_status s \<noteq> Running \<or> s_attemptId s \<noteq> None \<and> s_attemptId s \<noteq> Some a
     then [Eff_ignore Stale_attempt] else [])"

definition planCancel :: "session_record \<Rightarrow> plan" where
  "planCancel s =
    (if isTerminalSessionStatus (s_status s)
     then [Eff_reject (''session already terminal: '' @ status_name (s_status s))]
     else if s_status s = Running \<and> truthy_nullable (s_hostId s)
     then [Eff_cancel True, Eff_notify_cancel]
     else Eff_cancel False # releaseEffects s)"

definition planTimeout :: "session_record \<Rightarrow> transition_context \<Rightarrow> plan" where
  "planTimeout s ctx =
    (if s_status s \<noteq> Running \<or> \<not> truthy_str (s_ackReceivedAt s) then [Eff_ignore Not_due]
     else releaseEffects s
       @ [Eff_finish Timed_out (ctx_now ctx) False
            (no_report\<lparr>rep_errorMessage := Some ''session exceeded timeout without a host terminal report''\<rparr>),
          Eff_notify_cancel, Eff_archive])"

definition planDisconnect :: "session_record \<Rightarrow> bool \<Rightarrow> transition_context \<Rightarrow> plan option" where
  "planDisconnect s acknowledged ctx =
    (if s_status s = Cancelled then Some (releaseEffects s)
     else if s_status s \<noteq> Running then Some [Eff_ignore Not_running]
     else if acknowledged
     then (case date_parse (ctx_now ctx) of
         None \<Rightarrow> None
       | Some t \<Rightarrow>
          (case to_iso (t + opt_or (ctx_reconnectGraceMs ctx) 0) of
             None \<Rightarrow> None
           | Some deadline \<Rightarrow> Some [Eff_mark_reconnect deadline]))
     else Some (releaseEffects s
       @ [Eff_requeue Rq_disconnect
           (no_report\<lparr>rep_errorMessage := Some ''host disconnected; requeued''\<rparr>)]))"

definition nan_greater :: "int option \<Rightarrow> int option \<Rightarrow> bool" where
  "nan_greater a b = (case (a, b) of (Some x, Some y) \<Rightarrow> x > y | _ \<Rightarrow> False)"

definition planQueueExpired :: "session_record \<Rightarrow> transition_context \<Rightarrow> plan" where
  "planQueueExpired s ctx =
    (if s_status s \<noteq> Queued then [Eff_ignore Not_queued]
     else if nan_greater (date_parse (s_queueExpiresAt s)) (date_parse (ctx_now ctx))
     then [Eff_ignore Not_due]
     else [Eff_finish Failed (ctx_now ctx) False
             (no_report\<lparr>rep_errorCode := Some ''queue_expired'',
               rep_errorMessage := Some ''queue TTL expired before capacity became available''\<rparr>),
           Eff_archive])"

fun planSessionTransition ::
    "session_record option \<Rightarrow> transition_event \<Rightarrow> transition_context \<Rightarrow> plan option" where
  "planSessionTransition None ev ctx = Some [Eff_reject ''session not found'']"
| "planSessionTransition (Some s) (Ev_ack wt a) ctx = Some (planAck s wt a)"
| "planSessionTransition (Some s) (Ev_command_start wt a) ctx = Some (planCommandStart s wt a)"
| "planSessionTransition (Some s) (Ev_status wt a st rep) ctx = planStatus s wt a st rep ctx"
| "planSessionTransition (Some s) Ev_cancel ctx = Some (planCancel s)"
| "planSessionTransition (Some s) Ev_timeout ctx = Some (planTimeout s ctx)"
| "planSessionTransition (Some s) (Ev_disconnect acked) ctx = planDisconnect s acked ctx"
| "planSessionTransition (Some s) (Ev_infrastructure_failure code) ctx =
    Some (planInfrastructureFailure s code ctx None no_report)"
| "planSessionTransition (Some s) Ev_queue_expired ctx = Some (planQueueExpired s ctx)"
| "planSessionTransition (Some s) (Ev_log a) ctx = Some (planAttemptId s a False)"
| "planSessionTransition (Some s) (Ev_reconnect_claim a) ctx = Some (planAttemptId s a True)"

lemmas [plan_defs] = planAck_def planCommandStart_def planInfrastructureFailure_def
  planUsageLimit_def planLateTerminal_def planStatus_def planAttemptId_def planCancel_def
  planTimeout_def planDisconnect_def planQueueExpired_def

lemmas small_plan_defs = planAck_def planCommandStart_def planStatus_def planLateTerminal_def
  planAttemptId_def planCancel_def planTimeout_def planDisconnect_def planQueueExpired_def

section \<open>Classes of effects\<close>

fun mutates :: "transition_effect \<Rightarrow> bool" where
  "mutates (Eff_ignore _) = False"
| "mutates (Eff_reject _) = False"
| "mutates Eff_retry_archive = False"
| "mutates _ = True"

fun settles :: "transition_effect \<Rightarrow> bool" where
  "settles (Eff_finish _ _ _ _) = True"
| "settles (Eff_requeue _ _) = True"
| "settles (Eff_cancel _) = True"
| "settles (Eff_mark_reconnect _) = True"
| "settles _ = False"

fun is_release :: "transition_effect \<Rightarrow> bool" where
  "is_release Eff_release_worktree = True"
| "is_release Eff_release_workspace = True"
| "is_release Eff_release_lease = True"
| "is_release _ = False"

fun late_effect :: "transition_effect \<Rightarrow> bool" where
  "late_effect (Eff_patch_report st _) = (st = None)"
| "late_effect e = (is_release e \<or> \<not> mutates e)"

fun usage_limit_effect :: "transition_effect \<Rightarrow> bool" where
  "usage_limit_effect (Eff_cooldown _ _) = True"
| "usage_limit_effect (Eff_suppress_target _) = True"
| "usage_limit_effect Eff_fallback = True"
| "usage_limit_effect (Eff_requeue r _) =
    (r = Rq_usage_limit \<or> r = Rq_missing_account \<or> r = Rq_providerless)"
| "usage_limit_effect _ = False"

definition fenced_out :: "session_record \<Rightarrow> transition_event \<Rightarrow> bool" where
  "fenced_out s ev =
    (case ev of
       Ev_ack wt a \<Rightarrow> \<not> attemptMatches s wt a
     | Ev_command_start wt a \<Rightarrow> \<not> attemptMatches s wt a
     | Ev_status wt a _ _ \<Rightarrow> \<not> attemptMatches s wt a
     | Ev_log a \<Rightarrow> s_attemptId s \<noteq> None \<and> s_attemptId s \<noteq> Some a
     | Ev_reconnect_claim a \<Rightarrow> s_attemptId s \<noteq> None \<and> s_attemptId s \<noteq> Some a
     | _ \<Rightarrow> False)"

lemma releaseEffects_cases:
  obtains "releaseEffects s = []" | "releaseEffects s = [Eff_release_lease]"
  | "releaseEffects s = [Eff_release_workspace]" | "releaseEffects s = [Eff_release_worktree]"
  by (metis releaseEffects_def)

lemma releaseEffects_class:
  "e \<in> set (releaseEffects s) \<Longrightarrow> is_release e" "filter is_release (releaseEffects s) = releaseEffects s"
  "filter settles (releaseEffects s) = []" "filter usage_limit_effect (releaseEffects s) = []"
  "length (releaseEffects s) \<le> 1"
  by (rule releaseEffects_cases [of s]; auto)+

lemma releaseEffects_late: "list_all late_effect (releaseEffects s)"
  by (rule releaseEffects_cases [of s]) auto


section \<open>Fencing\<close>

text \<open>C3: an acknowledgement, command start, status report, log chunk or reconnect claim that
  carries another attempt (or, where the event names a worktree, another worktree) than the one
  the session is fenced on yields a plan without any state-changing effect.\<close>
theorem stale_attempt_changes_nothing:
  assumes "fenced_out s ev" and "planSessionTransition (Some s) ev ctx = Some p"
  shows "list_all (\<lambda>e. \<not> mutates e) p"
  using assms by (cases ev) (auto simp: fenced_out_def plan_defs Let_def split: if_splits)

section \<open>Terminal statuses are final\<close>

text \<open>C4: once a session is completed, failed, cancelled or timed out, no event whatsoever makes
  the planner finish, requeue, cancel, acknowledge, archive or reschedule it again: every effect
  of the plan is an ignore, a reject, an archive retry, the release of a resource the session
  still holds, or a late report that leaves the status alone.\<close>
theorem terminal_status_is_final:
  assumes "isTerminalSessionStatus (s_status s)"
    and "planSessionTransition (Some s) ev ctx = Some p"
  shows "list_all late_effect p"
  using assms releaseEffects_late [of s]
  by (cases ev; cases "s_status s") (auto simp: plan_defs Let_def split: if_splits)

section \<open>One outcome per plan, resources released with it\<close>

lemma settles_once_infra:
  "length (filter settles (planInfrastructureFailure s code ctx d r)) \<le> 1"
  by (auto simp: plan_defs Let_def releaseEffects_class)

lemma settles_once_limit:
  "planUsageLimit s r ctx = Some p \<Longrightarrow> length (filter settles p) \<le> 1"
  by (auto simp: plan_defs Let_def releaseEffects_class split: if_splits option.splits)

text \<open>A plan decides at most one outcome for the session: among finishing it, requeueing it,
  cancelling it and marking it for reconnect, at most one effect occurs.\<close>
theorem plan_settles_at_most_once:
  assumes "planSessionTransition so ev ctx = Some p"
  shows "length (filter settles p) \<le> 1"
proof (cases so)
  case None
  with assms show ?thesis by auto
next
  case (Some s)
  then show ?thesis
    using assms settles_once_infra settles_once_limit
    by (cases ev)
       (auto simp: small_plan_defs Let_def releaseEffects_class split: if_splits option.splits)
qed

definition holds_resource :: "session_record \<Rightarrow> bool" where
  "holds_resource s = (truthy_bool (s_mainCheckoutLease s) \<or> truthy_nullable (s_workspaceSlotId s)
    \<or> truthy_nullable (s_worktreeId s))"

fun ends_attempt :: "transition_effect \<Rightarrow> bool" where
  "ends_attempt (Eff_finish _ _ _ _) = True"
| "ends_attempt (Eff_requeue _ _) = True"
| "ends_attempt _ = False"

lemma releaseEffects_length: "length (releaseEffects s) = (if holds_resource s then 1 else 0)"
  by (auto simp: releaseEffects_def holds_resource_def)

lemma release_infra:
  "s_status s = Running \<Longrightarrow> filter is_release (planInfrastructureFailure s code ctx d r) = releaseEffects s"
  by (simp add: plan_defs Let_def releaseEffects_class)

lemma release_limit:
  "planUsageLimit s r ctx = Some p \<Longrightarrow> e \<in> set p \<Longrightarrow> ends_attempt e \<Longrightarrow>
   filter is_release p = releaseEffects s"
  by (auto simp: plan_defs Let_def releaseEffects_class split: if_splits option.splits)

lemma ends_attempt_release:
  "\<not> (\<exists>e \<in> set (releaseEffects s). ends_attempt e)" "filter ends_attempt (releaseEffects s) = []"
  "Eff_archive \<notin> set (releaseEffects s)" "Eff_requeue q r \<notin> set (releaseEffects s)"
  "e \<in> set (releaseEffects s) \<Longrightarrow> \<not> usage_limit_effect e"
  by (rule releaseEffects_cases [of s]; auto)+


section \<open>Usage limits\<close>

lemma infra_no_limit: "e \<in> set (planInfrastructureFailure s code ctx d r) \<Longrightarrow> \<not> usage_limit_effect e"
  by (auto simp: planInfrastructureFailure_def Let_def dest: ends_attempt_release(5) split: if_splits)

lemma limit_requeues:
  assumes "planUsageLimit s r ctx = Some p" and "e \<in> set p" and "usage_limit_effect e"
  shows "length (filter ends_attempt p) = 1 \<and> (\<exists>r rep. Eff_requeue r rep \<in> set p) \<and> Eff_archive \<notin> set p"
  using assms
  by (auto simp: planUsageLimit_def Let_def ends_attempt_release split: if_splits option.splits)

lemma limit_not_infra: "planUsageLimit s r ctx = Some p \<Longrightarrow> Eff_requeue Rq_infrastructure q \<notin> set p"
  by (auto simp: planUsageLimit_def Let_def ends_attempt_release split: if_splits option.splits)

lemma infra_requeue_safe:
  assumes "Eff_requeue Rq_infrastructure q \<in> set (planInfrastructureFailure s code ctx d r)"
  shows "s_status s = Running \<and> opt_or (s_infrastructureRetryCount s) 0 = 0
    \<and> (code = Host_lost \<and> s_primaryCommandStartState s = Some Pending
       \<or> code = Checkout_fetch_failed \<and> ctx_deferTerminalHookResult ctx = Some True)"
  using assms
  by (cases code)
     (auto simp: planInfrastructureFailure_def Let_def ends_attempt_release
       MAX_INFRASTRUCTURE_RETRIES_def split: if_splits)

text \<open>C23: cooling down an account, suppressing a target, advancing to a fallback and requeueing
  for a usage limit happen only when the current attempt of a running session reports
  \<open>failed\<close> with error code \<open>usage_limit\<close>; the plan then requeues the session exactly once
  and neither finishes nor archives it.\<close>
theorem usage_limit_policy:
  assumes "planSessionTransition (Some s) ev ctx = Some p" and "\<exists>e \<in> set p. usage_limit_effect e"
  shows "(\<exists>wt a rep. ev = Ev_status wt a Failed rep \<and> rep_errorCode rep = Some ''usage_limit''
        \<and> attemptMatches s wt a) \<and> s_status s = Running
    \<and> length (filter ends_attempt p) = 1 \<and> (\<exists>r rep. Eff_requeue r rep \<in> set p) \<and> Eff_archive \<notin> set p"
  using assms limit_requeues [of s] infra_no_limit
  by (cases ev)
     (auto simp: small_plan_defs Let_def dest: ends_attempt_release(5) split: if_splits option.splits)

section \<open>Automatic infrastructure retry\<close>

text \<open>C24: the planner replays an attempt after an infrastructure failure only when no retry has
  been consumed yet and the replay is safe: a lost host must not have been authorised to start
  the command, and a failed checkout must come from the current attempt with its terminal hook
  durably deferred.\<close>
theorem infrastructure_retry_is_safe_and_bounded:
  assumes "planSessionTransition (Some s) ev ctx = Some p" and "Eff_requeue Rq_infrastructure r \<in> set p"
  shows "s_status s = Running \<and> opt_or (s_infrastructureRetryCount s) 0 = 0
    \<and> (ev = Ev_infrastructure_failure Host_lost \<and> s_primaryCommandStartState s = Some Pending
       \<or> ctx_deferTerminalHookResult ctx = Some True
         \<and> (ev = Ev_infrastructure_failure Checkout_fetch_failed
             \<or> (\<exists>wt a rep. ev = Ev_status wt a Failed rep \<and> attemptMatches s wt a
                  \<and> rep_errorCode rep = Some ''checkout_fetch_failed'')))"
  using assms
  by (cases ev)
     (auto simp: small_plan_defs Let_def ends_attempt_release(4) limit_not_infra
       dest: infra_requeue_safe split: if_splits option.splits)

section \<open>The planner never throws on a valid clock\<close>

text \<open>When the context's clock is an ISO instant and neither the account cooldown nor the
  reconnect grace leaves the range of \<open>Date\<close>, the planner returns a plan for every session and
  every event: no \<open>RangeError\<close> escapes.\<close>
theorem planner_total_on_valid_clock:
  assumes "date_parse (ctx_now ctx) = Some t"
    and "\<bar>t + opt_or (ctx_providerAccount ctx) 0 * 1000\<bar> \<le> max_time"
    and "\<bar>t + opt_or (ctx_reconnectGraceMs ctx) 0\<bar> \<le> max_time"
  shows "\<exists>p. planSessionTransition so ev ctx = Some p"
proof (cases so)
  case (Some s)
  have "\<exists>p. planUsageLimit s r ctx = Some p" for r
    using assms to_iso_none by (auto simp: planUsageLimit_def Let_def not_less split: option.splits)
  then show ?thesis
    using Some assms to_iso_none
    by (cases ev) (auto simp: planStatus_def planDisconnect_def Let_def not_less split: option.splits)
qed simp

section \<open>Instances\<close>

definition sample_running :: session_record where
  "sample_running = blank_session\<lparr>s_id := ''s1'', s_status := Running, s_worktreeId := Val ''w1'',
    s_hostId := Val ''h1'', s_attemptId := Some ''a2'', s_ackReceivedAt := Some ''2026-01-01T00:00:00.000Z''\<rparr>"

definition sample_context :: transition_context where
  "sample_context = \<lparr>ctx_now = ''2026-01-01T00:00:10.000Z'', ctx_source = Local,
    ctx_protocolVersion = Some 7, ctx_deferTerminalHookResult = None,
    ctx_providerAccount = Some 18000, ctx_reconnectGraceMs = Some 75000\<rparr>"

lemmas sample_defs = sample_running_def sample_context_def blank_session_def

theorem stale_attempt_changes_nothing_witness:
  "list_all (\<lambda>e. \<not> mutates e) [Eff_ignore Stale_attempt]
   \<and> planSessionTransition (Some sample_running) (Ev_status (Some ''w1'') ''a1'' Completed no_report)
       sample_context = Some [Eff_ignore Stale_attempt]"
proof -
  have p: "planSessionTransition (Some sample_running) (Ev_status (Some ''w1'') ''a1'' Completed no_report)
       sample_context = Some [Eff_ignore Stale_attempt]"
    by (simp add: sample_defs plan_defs attemptMatches_def Let_def)
  have "fenced_out sample_running (Ev_status (Some ''w1'') ''a1'' Completed no_report)"
    by (simp add: fenced_out_def sample_defs attemptMatches_def)
  from stale_attempt_changes_nothing [OF this p] p show ?thesis by blast
qed

theorem terminal_status_is_final_witness:
  "list_all late_effect [Eff_release_worktree]
   \<and> planSessionTransition (Some (sample_running\<lparr>s_status := Cancelled\<rparr>))
       (Ev_status (Some ''w1'') ''a2'' Completed no_report) sample_context = Some [Eff_release_worktree]"
proof -
  let ?s = "sample_running\<lparr>s_status := Cancelled\<rparr>"
  have p: "planSessionTransition (Some ?s) (Ev_status (Some ''w1'') ''a2'' Completed no_report)
      sample_context = Some [Eff_release_worktree]"
    by (simp add: sample_defs plan_defs attemptMatches_def Let_def releaseEffects_def
      truthy_bool_def no_report_def)
  have "isTerminalSessionStatus (s_status ?s)" by simp
  from terminal_status_is_final [OF this p] p show ?thesis by blast
qed

theorem plan_settles_at_most_once_witness:
  "length (filter settles [Eff_cancel True, Eff_notify_cancel]) \<le> 1
   \<and> planSessionTransition (Some sample_running) Ev_cancel sample_context
       = Some [Eff_cancel True, Eff_notify_cancel]"
proof -
  have p: "planSessionTransition (Some sample_running) Ev_cancel sample_context
      = Some [Eff_cancel True, Eff_notify_cancel]"
    by (simp add: sample_defs plan_defs)
  from plan_settles_at_most_once [OF p] p show ?thesis by blast
qed


theorem usage_limit_policy_witness:
  "\<exists>p. planSessionTransition (Some sample_running)
        (Ev_status (Some ''w1'') ''a2'' Failed (no_report\<lparr>rep_errorCode := Some ''usage_limit''\<rparr>)) sample_context = Some p
      \<and> length (filter ends_attempt p) = 1"
proof -
  let ?ev = "Ev_status (Some ''w1'') ''a2'' Failed (no_report\<lparr>rep_errorCode := Some ''usage_limit''\<rparr>)"
  obtain p where p: "planSessionTransition (Some sample_running) ?ev sample_context = Some p"
    and e: "\<exists>e \<in> set p. usage_limit_effect e"
    by (simp add: sample_defs plan_defs attemptMatches_def Let_def no_report_def)
  from usage_limit_policy [OF p e] p show ?thesis by blast
qed

theorem infrastructure_retry_is_safe_and_bounded_witness:
  "opt_or (s_infrastructureRetryCount (sample_running\<lparr>s_primaryCommandStartState := Some Pending\<rparr>)) 0 = 0"
proof -
  let ?s = "sample_running\<lparr>s_primaryCommandStartState := Some Pending\<rparr>"
  let ?r = "no_report\<lparr>rep_errorCode := Some ''host_lost'',
    rep_errorMessage := Some ''host was lost before command launch; retrying once''\<rparr>"
  have p: "planSessionTransition (Some ?s) (Ev_infrastructure_failure Host_lost) sample_context
      = Some [Eff_release_worktree, Eff_requeue Rq_infrastructure ?r, Eff_reschedule Type_prompt]"
    by (simp add: sample_defs plan_defs Let_def MAX_INFRASTRUCTURE_RETRIES_def releaseEffects_def
      truthy_bool_def scheduleKind_def)
  from infrastructure_retry_is_safe_and_bounded [OF p, of ?r] show ?thesis by simp
qed

theorem planner_total_on_valid_clock_witness:
  "\<exists>p. planSessionTransition (Some sample_running) (Ev_disconnect True) sample_context = Some p"
proof -
  have t: "date_parse (ctx_now sample_context) = Some 1767225610000"
    unfolding sample_context_def by code_simp
  show ?thesis
    by (rule planner_total_on_valid_clock [OF t]) (simp_all add: sample_context_def max_time_def)
qed

end
