(* ===== verification/Worktrees.thy ===== *)
theory Worktrees
  imports Placement Planner
begin

text \<open>
  Exclusive resources of a control plane without storage, and what happens to them when hosts come
  and go: worktrees (\<open>control-plane-worktrees.ts\<close>, \<open>control-plane-worktree-release.ts\<close>), main-checkout
  leases (\<open>control-plane-scheduled-lease.ts\<close>), workspace slots
  (\<open>control-plane-workspace-slot-retirement.ts\<close>, \<open>control-plane-agents.ts\<close>), sessions prepared for a
  new attempt (\<open>control-plane-reconnect-session.ts\<close>), heartbeats, drain, resume and disconnect
  (\<open>control-plane-agents.ts\<close>) and the sweep of stale hosts (\<open>control-plane-lifecycle.ts\<close>).

  A \<open>for\<close> loop over \<open>Map.values()\<close> is a fold over the values at its start: every loop here changes
  only the entry it visits. Alerts, metrics and Slack notifications are left out.
\<close>

section \<open>Worktrees\<close>

definition seedWorktree :: "control_plane_state \<Rightarrow> worktree_record \<Rightarrow> control_plane_state" where
  "seedWorktree st w = persistWorktree w st"

definition listWorktrees :: "control_plane_state \<Rightarrow> worktree_record list" where
  "listWorktrees st = js_values (st_worktrees st)"

definition getWorktree :: "control_plane_state \<Rightarrow> string \<Rightarrow> worktree_record option" where
  "getWorktree st wid = js_get (st_worktrees st) wid"

definition put_worktree :: "string \<Rightarrow> worktree_record \<Rightarrow> control_plane_state \<Rightarrow> control_plane_state" where
  "put_worktree k w st = st\<lparr>st_worktrees := js_set k w (st_worktrees st)\<rparr>"

definition tryClaimWorktree ::
    "control_plane_state \<Rightarrow> string \<Rightarrow> string \<Rightarrow> string \<Rightarrow> bool \<times> control_plane_state" where
  "tryClaimWorktree st wid sid now =
    (case js_get (st_worktrees st) wid of
       None \<Rightarrow> (False, st)
     | Some w \<Rightarrow>
         (if wt_status w \<noteq> Idle \<or> \<not> wt_online w then (False, st)
          else (True, persistWorktree
            (w\<lparr>wt_status := Busy, wt_currentSessionId := Some sid, wt_lastAssignedAt := Some now\<rparr>) st)))"

definition host_unavailable :: "control_plane_state \<Rightarrow> string \<Rightarrow> bool" where
  "host_unavailable st h = (List.member (st_drainingHosts st) h \<or> js_has (st_disconnectedHosts st) h)"

definition releaseWorktree :: "control_plane_state \<Rightarrow> string \<Rightarrow> control_plane_state" where
  "releaseWorktree st wid =
    (case js_get (st_worktrees st) wid of
       None \<Rightarrow> st
     | Some w \<Rightarrow> persistWorktree
         (w\<lparr>wt_status := Idle, wt_currentSessionId := None,
            wt_online := (if host_unavailable st (wt_hostId w) then False else wt_online w)\<rparr>) st)"

section \<open>Main-checkout leases\<close>

definition leaseKey :: "string \<Rightarrow> string \<Rightarrow> string" where
  "leaseKey h rid = h @ [CHR 0x00] @ rid"

definition holdsScheduledLeaseLocal :: "control_plane_state \<Rightarrow> session_record \<Rightarrow> bool" where
  "holdsScheduledLeaseLocal st s =
    (if \<not> truthy_nullable (s_hostId s) \<or> \<not> truthy_str (s_assignmentConnectionId s) \<or> \<not> truthy_bool (s_mainCheckoutLease s)
     then False
     else case js_get (st_mainCheckoutLeases st) (leaseKey (the (nullable_opt (s_hostId s))) (s_repositoryId s)) of
       None \<Rightarrow> False
     | Some l \<Rightarrow> cl_sessionId l = s_id s \<and> Some (cl_connectionId l) = s_assignmentConnectionId s)"

definition releaseScheduledLeaseLocal :: "control_plane_state \<Rightarrow> session_record \<Rightarrow> bool \<times> control_plane_state" where
  "releaseScheduledLeaseLocal st s =
    (if \<not> truthy_nullable (s_hostId s) \<or> \<not> holdsScheduledLeaseLocal st s then (False, st)
     else (True, st\<lparr>st_mainCheckoutLeases :=
       js_delete (leaseKey (the (nullable_opt (s_hostId s))) (s_repositoryId s)) (st_mainCheckoutLeases st)\<rparr>))"

section \<open>Workspace slots\<close>

definition put_slot :: "string \<Rightarrow> workspace_slot_record \<Rightarrow> control_plane_state \<Rightarrow> control_plane_state" where
  "put_slot k x st = st\<lparr>st_workspaceSlots := js_set k x (st_workspaceSlots st)\<rparr>"

definition removeReleasedRetiredWorkspaceSlot :: "control_plane_state \<Rightarrow> string \<Rightarrow> bool \<times> control_plane_state" where
  "removeReleasedRetiredWorkspaceSlot st k =
    (case js_get (st_workspaceSlots st) k of
       None \<Rightarrow> (False, st)
     | Some x \<Rightarrow>
         (if \<not> truthy_bool (slot_retired x) \<or> slot_currentSessionId x \<noteq> None then (False, st)
          else (True, st\<lparr>st_workspaceSlots := js_delete k (st_workspaceSlots st)\<rparr>)))"

definition releaseWorkspaceSlotLocal ::
    "control_plane_state \<Rightarrow> session_record \<Rightarrow> string option \<Rightarrow> session_record \<times> control_plane_state" where
  "releaseWorkspaceSlotLocal st s error =
    (if \<not> truthy_nullable (s_workspaceSlotId s) then (s, st)
     else
       (let k = the (nullable_opt (s_workspaceSlotId s));
            st1 = (case js_get (st_workspaceSlots st) k of
                None \<Rightarrow> st
              | Some x \<Rightarrow>
                  (if slot_currentSessionId x \<noteq> Some (s_id s) then st
                   else snd (removeReleasedRetiredWorkspaceSlot
                     (put_slot k (x\<lparr>slot_status := (if error = None then Idle else Wt_error),
                        slot_currentSessionId := None, slot_errorMessage := error\<rparr>) st) k)))
        in (s\<lparr>s_workspaceSlotId := Null, s_workspaceSlotLease := None\<rparr>, st1)))"

section \<open>Sessions prepared for a new attempt\<close>

definition queueReconnectSession :: "session_record \<Rightarrow> string \<Rightarrow> session_record" where
  "queueReconnectSession s reason =
    s\<lparr>s_ackReceivedAt := None, s_reconnectDeadlineAt := None, s_assignmentConnectionId := None,
      s_assignmentSentAt := None, s_startedAt := None, s_mainCheckoutLease := None, s_workspaceSlotLease := None,
      s_providerAccountLease := None, s_activeHostId := None, s_activeHostOrder := None, s_result := None,
      s_primaryCommandStartState := None, s_sessionApiKeyHash := None, s_status := Queued, s_hostId := Null,
      s_worktreeId := Null, s_workspaceSlotId := Null, s_errorMessage := Some reason\<rparr>"

definition drop_pending_ack :: "string \<Rightarrow> control_plane_state \<Rightarrow> control_plane_state" where
  "drop_pending_ack sid st = st\<lparr>st_pendingAcks := js_delete sid (st_pendingAcks st)\<rparr>"

definition reconnect_deadline :: "control_plane_state \<Rightarrow> string option" where
  "reconnect_deadline st =
    (case date_parse (st_now st) of None \<Rightarrow> None | Some t \<Rightarrow> to_iso (t + st_reconnectGraceMs st))"

section \<open>A host goes away\<close>

text \<open>The result is \<open>None\<close> when the clock does not parse or the deadline leaves the range of \<open>Date\<close>, where
  \<open>toISOString\<close> throws.\<close>

definition offline_worktree ::
    "string \<Rightarrow> string \<Rightarrow> string list \<times> control_plane_state \<Rightarrow> worktree_record \<Rightarrow> (string list \<times> control_plane_state) option" where
  "offline_worktree h reason acc w =
    (case acc of (requeued, st) \<Rightarrow>
      (if wt_hostId w \<noteq> h then Some acc
       else
         (let w1 = w\<lparr>wt_online := False\<rparr>; st1 = put_worktree (wt_id w) w1 st
          in if wt_status w \<noteq> Busy \<or> \<not> truthy_str (wt_currentSessionId w) then Some (requeued, st1)
             else
               (let sid = the (wt_currentSessionId w)
                in case js_get (st_sessions st1) sid of
                     None \<Rightarrow> Some (requeued, st1)
                   | Some s \<Rightarrow>
                       (if s_status s = Running \<and> \<not> truthy_str (s_ackReceivedAt s)
                        then
                          (let st2 = releaseWorktree st1 (wt_id w);
                               (s1, st3) = releaseProviderAccountLease st2 s;
                               s2 = s1\<lparr>s_status := Queued, s_worktreeId := Null, s_hostId := Null, s_errorMessage := Some reason\<rparr>
                           in Some (requeued @ [sid], drop_pending_ack sid (put_session s2 st3)))
                        else if s_status s = Running
                        then (case reconnect_deadline st1 of
                            None \<Rightarrow> None
                          | Some d \<Rightarrow> Some (requeued, put_session (s\<lparr>s_reconnectDeadlineAt := Some d\<rparr>) st1))
                        else Some (requeued, st1))))))"

definition offline_scheduled ::
    "string \<Rightarrow> string \<Rightarrow> string list \<times> control_plane_state \<Rightarrow> session_record \<Rightarrow> (string list \<times> control_plane_state) option" where
  "offline_scheduled h reason acc s =
    (case acc of (requeued, st) \<Rightarrow>
      (if s_hostId s \<noteq> Val h \<or> \<not> truthy_bool (s_mainCheckoutLease s) \<or> s_status s \<noteq> Running then Some acc
       else if \<not> truthy_str (s_ackReceivedAt s)
       then
         (let st1 = snd (releaseScheduledLeaseLocal st s);
              (s1, st2) = releaseProviderAccountLease st1 s
          in Some (requeued @ [s_id s], drop_pending_ack (s_id s) (put_session (queueReconnectSession s1 reason) st2)))
       else (case reconnect_deadline st of
           None \<Rightarrow> None
         | Some d \<Rightarrow> Some (requeued, put_session (s\<lparr>s_reconnectDeadlineAt := Some d\<rparr>) st))))"

fun fold_option :: "('a \<Rightarrow> 'b \<Rightarrow> 'a option) \<Rightarrow> 'a \<Rightarrow> 'b list \<Rightarrow> 'a option" where
  "fold_option f a [] = Some a"
| "fold_option f a (x # xs) = (case f a x of None \<Rightarrow> None | Some a' \<Rightarrow> fold_option f a' xs)"

definition offlineHostAndRequeue ::
    "control_plane_state \<Rightarrow> string \<Rightarrow> string \<Rightarrow> (string list \<times> control_plane_state) option" where
  "offlineHostAndRequeue st h reason =
    (case fold_option (offline_worktree h reason) ([], st) (js_values (st_worktrees st)) of
       None \<Rightarrow> None
     | Some (requeued, st1) \<Rightarrow> fold_option (offline_scheduled h reason) (requeued, st1) (js_values (st_sessions st1)))"

definition free_slot_fields :: "session_record \<Rightarrow> session_record" where
  "free_slot_fields s = s\<lparr>s_workspaceSlotId := Null, s_workspaceSlotLease := None, s_assignmentConnectionId := None,
    s_assignmentSentAt := None, s_ackReceivedAt := None, s_reconnectDeadlineAt := None\<rparr>"

definition offline_slot ::
    "string \<Rightarrow> string \<Rightarrow> string list \<times> control_plane_state \<Rightarrow> workspace_slot_record \<Rightarrow> (string list \<times> control_plane_state) option" where
  "offline_slot h reason acc x =
    (case acc of (requeued, st) \<Rightarrow>
      (if slot_hostId x \<noteq> h then Some acc
       else
         (let session = (if truthy_str (slot_currentSessionId x) then js_get (st_sessions st) (the (slot_currentSessionId x)) else None);
              freed = x\<lparr>slot_status := (if slot_status x = Wt_error then Wt_error else Idle), slot_online := False,
                         slot_currentSessionId := None\<rparr>
          in case session of
               None \<Rightarrow> Some (requeued, put_slot (slot_id x) freed st)
             | Some s \<Rightarrow>
                 (if s_status s = Running \<or> s_status s = Cancelled
                  then
                    (if truthy_str (s_ackReceivedAt s)
                     then (case reconnect_deadline st of
                         None \<Rightarrow> None
                       | Some d \<Rightarrow> Some (requeued, put_slot (slot_id x) (x\<lparr>slot_online := False\<rparr>)
                           (persistSession (s\<lparr>s_reconnectDeadlineAt := Some d\<rparr>) st)))
                     else
                       (let (s1, st1) = releaseProviderAccountLease st s;
                            s2 = (if s_status s = Running
                              then s1\<lparr>s_status := Queued, s_errorMessage := Some reason, s_completedAt := None\<rparr> else s1);
                            s3 = free_slot_fields (s2\<lparr>s_hostId := Null\<rparr>)
                        in Some (if s_status s = Running then requeued @ [s_id s] else requeued,
                             put_slot (slot_id x) freed (persistSession s3 st1))))
                  else if s_status s = Timed_out
                  then Some (requeued, put_slot (slot_id x) freed (persistSession (free_slot_fields s) st))
                  else Some (requeued, put_slot (slot_id x) freed st)))))"

definition offlineWorkspaceSlotsLocal ::
    "control_plane_state \<Rightarrow> string \<Rightarrow> string \<Rightarrow> (string list \<times> control_plane_state) option" where
  "offlineWorkspaceSlotsLocal st h reason = fold_option (offline_slot h reason) ([], st) (js_values (st_workspaceSlots st))"

definition release_timed_out_session :: "string \<Rightarrow> control_plane_state \<Rightarrow> session_record \<Rightarrow> control_plane_state" where
  "release_timed_out_session h st s =
    (if s_status s \<noteq> Timed_out \<or> s_timedOutHostId s \<noteq> Some h then st
     else
       (let (s1, st1) = releaseProviderAccountLease st s
        in persistSession (s1\<lparr>s_timedOutHostId := None, s_timedOutAssignmentConnectionId := None\<rparr>) st1))"

definition disconnectHost :: "control_plane_state \<Rightarrow> string \<Rightarrow> (string list \<times> control_plane_state) option" where
  "disconnectHost st connectionId =
    (case js_get (st_connections st) connectionId of
       None \<Rightarrow> Some ([], st)
     | Some conn \<Rightarrow>
         (let h = conn_hostId conn;
              st1 = st\<lparr>st_connections := js_delete connectionId (st_connections st)\<rparr>;
              st2 = (if js_get (st_hostConnection st1) h = Some connectionId
                then st1\<lparr>st_hostConnection := js_delete h (st_hostConnection st1),
                         st_drainingHosts := removeAll h (st_drainingHosts st1)\<rparr>
                else st1);
              st3 = st2\<lparr>st_disconnectedHosts := js_set h (conn_lastHeartbeatAt conn) (st_disconnectedHosts st2)\<rparr>
          in case offlineHostAndRequeue st3 h ''agent disconnected; requeued'' of
               None \<Rightarrow> None
             | Some (requeued, st4) \<Rightarrow>
                 (case offlineWorkspaceSlotsLocal st4 h ''agent disconnected; requeued'' of
                    None \<Rightarrow> None
                  | Some (slots, st5) \<Rightarrow>
                      Some (requeued @ slots, foldl (release_timed_out_session h) st5 (js_values (st_sessions st5))))))"

section \<open>Heartbeat, drain and resume\<close>

definition heartbeat :: "control_plane_state \<Rightarrow> string \<Rightarrow> string option \<Rightarrow> bool \<times> control_plane_state" where
  "heartbeat st h at =
    (if \<not> truthy_connection_id st h then (False, st)
     else
       (let connectionId = the (js_get (st_hostConnection st) h)
        in case js_get (st_connections st) connectionId of
             None \<Rightarrow> (False, st\<lparr>st_hostConnection := js_delete h (st_hostConnection st)\<rparr>)
           | Some conn \<Rightarrow> (True, st\<lparr>st_connections :=
               js_set connectionId (conn\<lparr>conn_lastHeartbeatAt := opt_or at (st_now st)\<rparr>) (st_connections st)\<rparr>)))"

definition set_idle_online :: "string \<Rightarrow> bool \<Rightarrow> control_plane_state \<Rightarrow> control_plane_state" where
  "set_idle_online h online st =
    st\<lparr>st_worktrees := map (\<lambda>(k, w). (k, if wt_hostId w = h \<and> wt_status w = Idle then w\<lparr>wt_online := online\<rparr> else w))
      (st_worktrees st)\<rparr>"

definition drainHost ::
    "control_plane_state \<Rightarrow> string \<Rightarrow> string option \<Rightarrow> string list option \<times> control_plane_state" where
  "drainHost st h connectionId =
    (if truthy_str connectionId \<and> js_get (st_hostConnection st) h \<noteq> connectionId then (None, st)
     else
       (let st1 = st\<lparr>st_drainingHosts := set_add h (st_drainingHosts st)\<rparr>;
            running = map s_id (filter (\<lambda>s. s_hostId s = Val h \<and> s_status s = Running) (js_values (st_sessions st1)))
        in (Some running, set_idle_online h False (send_to_host h Host_drain st1))))"

definition isDraining :: "control_plane_state \<Rightarrow> string \<Rightarrow> bool" where
  "isDraining st h = List.member (st_drainingHosts st) h"

definition resumeHost :: "control_plane_state \<Rightarrow> string \<Rightarrow> string option \<Rightarrow> bool \<times> control_plane_state" where
  "resumeHost st h connectionId =
    (if truthy_str connectionId \<and> js_get (st_hostConnection st) h \<noteq> connectionId then (False, st)
     else if \<not> isDraining st h then (True, st)
     else (True, set_idle_online h True
       (send_to_host h Host_resume (st\<lparr>st_drainingHosts := removeAll h (st_drainingHosts st)\<rparr>))))"

section \<open>Stale hosts\<close>

definition stale_candidates :: "control_plane_state \<Rightarrow> (string, string \<times> string option) jsmap" where
  "stale_candidates st =
    (let live = foldl (\<lambda>m (h, c). case js_get (st_connections st) c of
             None \<Rightarrow> m | Some conn \<Rightarrow> js_set h (conn_lastHeartbeatAt conn, Some c) m) [] (st_hostConnection st)
     in foldl (\<lambda>m (h, at). if js_has m h then m else js_set h (at, None) m) live (st_disconnectedHosts st))"

definition drop_dead_links :: "control_plane_state \<Rightarrow> control_plane_state" where
  "drop_dead_links st = st\<lparr>st_hostConnection := filter (\<lambda>(h, c). js_has (st_connections st) c) (st_hostConnection st)\<rparr>"

definition not_stale :: "control_plane_state \<Rightarrow> int \<Rightarrow> string \<Rightarrow> bool" where
  "not_stale st nowMs at = (case date_parse at of None \<Rightarrow> False | Some t \<Rightarrow> nowMs - t < st_heartbeatStaleMs st)"

definition reclaim_host ::
    "int \<Rightarrow> string list \<times> control_plane_state \<Rightarrow> string \<times> string \<times> string option \<Rightarrow> (string list \<times> control_plane_state) option" where
  "reclaim_host nowMs acc candidate =
    (case acc of (reclaimed, st) \<Rightarrow> (case candidate of (h, at, connectionId) \<Rightarrow>
      (if not_stale st nowMs at then Some acc
       else case offlineHostAndRequeue st h ''agent heartbeat stale; requeued'' of
         None \<Rightarrow> None
       | Some (ids, st1) \<Rightarrow>
           (let st2 = (if truthy_str connectionId
                 then st1\<lparr>st_connections := js_delete (the connectionId) (st_connections st1)\<rparr> else st1)
            in Some (foldl (\<lambda>acc sid. set_add sid acc) reclaimed ids,
                 st2\<lparr>st_hostConnection := js_delete h (st_hostConnection st2),
                     st_disconnectedHosts := js_delete h (st_disconnectedHosts st2)\<rparr>)))))"

definition reclaimStaleHosts :: "control_plane_state \<Rightarrow> int \<Rightarrow> (string list \<times> control_plane_state) option" where
  "reclaimStaleHosts st nowMs =
    fold_option (reclaim_host nowMs) ([], drop_dead_links st) (stale_candidates st)"

end
