(* ===== verification/Assignment.thy ===== *)
theory Assignment
  imports Worktrees
begin

text \<open>
  Placing queued sessions on a control plane without storage: prompt sessions
  (\<open>control-plane-assign.ts\<close>), scheduled runs on main checkouts (\<open>control-plane-scheduled-assign.ts\<close>) and
  workspace sessions (\<open>control-plane-workspace-assign.ts\<close>), with the acknowledgement deadline
  (\<open>enforceAckDeadlines\<close>), cancellation (\<open>control-plane-cancel-local.ts\<close>) and the running timeout
  (\<open>control-plane-running-timeout.ts\<close>).

  \<open>st_logSettings\<close> is the value \<open>assignLogSettings\<close> returns. The public projection of an assigned
  session and Slack notifications are left out. The scheduled and workspace passes are asynchronous
  functions whose storage-less branch runs without interruption from the plan of a session to its
  dispatch; \<open>assign_scheduled_session\<close> is that section, with the hosts and the session as they were
  when the pass read them.
\<close>

section \<open>Shared steps\<close>

definition touchAccount :: "string option \<Rightarrow> string \<Rightarrow> control_plane_state \<Rightarrow> control_plane_state" where
  "touchAccount acct at st =
    (if \<not> truthy_str acct then st
     else case js_get (st_providerAccounts st) (the acct) of
       None \<Rightarrow> st
     | Some a \<Rightarrow> st\<lparr>st_providerAccounts := js_set (the acct)
         (a\<lparr>acct_lastAssignedAt := Some at, acct_updatedAt := at\<rparr>) (st_providerAccounts st)\<rparr>)"

definition clearResumePin :: "session_record \<Rightarrow> session_record" where
  "clearResumePin s = s\<lparr>s_pinnedHostId := Undefined, s_pinnedProviderAccountId := Undefined, s_pinnedTargetIndex := None,
    s_pinnedCommandId := None, s_pinExpiresAt := None, s_cliResumeRef := None, s_resumeSpec := None,
    s_resolvedArgv := None, s_resumeFallback := Some True, s_prompt := appendPriorContextPointer (s_prompt s)\<rparr>"

definition host_advertises :: "control_plane_state \<Rightarrow> string \<Rightarrow> host_capability \<Rightarrow> bool" where
  "host_advertises st h c = hasHostCapability (Option.bind (live_connection st h) conn_capabilities) c"

definition hostAdvertisesPriorContext :: "control_plane_state \<Rightarrow> string \<Rightarrow> bool" where
  "hostAdvertisesPriorContext st h = host_advertises st h Prior_session_context"

definition hostAdvertisesSessionSpawn :: "control_plane_state \<Rightarrow> string \<Rightarrow> bool" where
  "hostAdvertisesSessionSpawn st h = host_advertises st h Session_spawn"

definition hostAdvertisesSessionOutputs :: "control_plane_state \<Rightarrow> string \<Rightarrow> bool" where
  "hostAdvertisesSessionOutputs st h = host_advertises st h Session_outputs"

definition resumeWireFields :: "session_record \<Rightarrow> bool \<Rightarrow> assign_message \<Rightarrow> assign_message" where
  "resumeWireFields s priorContextAvailable msg =
    (if \<not> truthy_str (s_resumedFromSessionId s) then msg
     else if \<not> truthy_bool (s_resumeFallback s)
     then msg\<lparr>am_resumedFromSessionId := s_resumedFromSessionId s, am_resume := True, am_cliResumeRef := s_cliResumeRef s\<rparr>
     else msg\<lparr>am_resumedFromSessionId := s_resumedFromSessionId s,
       am_priorContext := (if priorContextAvailable then s_resumedFromSessionId s else None)\<rparr>)"

definition truthy_opt :: "string option \<Rightarrow> string option" where
  "truthy_opt v = (if truthy_str v then v else None)"

definition mint_api_key :: "bool \<Rightarrow> control_plane_state \<Rightarrow> (string \<times> string) option \<times> control_plane_state" where
  "mint_api_key wanted st = (if wanted then (let (k, st') = createSessionApiKey st in (Some k, st')) else (None, st))"

definition expire_session :: "session_record \<Rightarrow> string \<Rightarrow> string \<Rightarrow> session_record" where
  "expire_session s now reason = s\<lparr>s_status := Failed, s_errorCode := Some ''queue_expired'', s_errorMessage := Some reason,
    s_completedAt := Some now\<rparr>"

definition expireQueuedLocal :: "control_plane_state \<Rightarrow> session_record \<Rightarrow> string \<Rightarrow> control_plane_state" where
  "expireQueuedLocal st s nowIso =
    persistSession (expire_session s nowIso ''queue TTL expired before capacity became available'') st"

definition put_pending_ack :: "string \<Rightarrow> pending_ack \<Rightarrow> control_plane_state \<Rightarrow> control_plane_state" where
  "put_pending_ack sid p st = st\<lparr>st_pendingAcks := js_set sid p (st_pendingAcks st)\<rparr>"

section \<open>Prompt sessions\<close>

definition prompt_assigned ::
    "session_record \<Rightarrow> worktree_record \<Rightarrow> session_route \<Rightarrow> string \<Rightarrow> string \<Rightarrow> string list \<Rightarrow> bool
     \<Rightarrow> (string \<times> string) option \<Rightarrow> account_lease option \<Rightarrow> session_record" where
  "prompt_assigned s w r nowIso attemptId argv outputs apiKey lease =
    s\<lparr>s_status := Running, s_worktreeId := Val (wt_id w), s_hostId := Val (wt_hostId w), s_startedAt := Some nowIso,
      s_resolvedArgv := Some argv, s_sessionOutputsSupported := Some outputs,
      s_resumeSpec := first_some (s_resumeSpec s) (Some (rt_resumeSpec r)),
      s_resolvedRoute := Some \<lparr>rr_targetIndex = rt_targetIndex r, rr_providerId = truthy_opt (rt_providerId r),
        rr_providerAccountId = truthy_opt (rt_providerAccountId r), rr_commandId = rt_commandId r,
        rr_hostId = wt_hostId w, rr_worktreeId = Some (wt_id w), rr_workspacePoolId = None, rr_workspaceSlotId = None,
        rr_attemptId = attemptId\<rparr>,
      s_attemptId := Some attemptId, s_primaryCommandStartState := Some Pending,
      s_sessionApiKeyHash := map_option snd apiKey, s_providerAccountLease := lease, s_ackReceivedAt := None,
      s_errorCode := None, s_errorMessage := None\<rparr>"

definition prompt_message ::
    "control_plane_state \<Rightarrow> session_record \<Rightarrow> worktree_record \<Rightarrow> session_route \<Rightarrow> string \<Rightarrow> string \<Rightarrow> string list \<Rightarrow> bool
     \<Rightarrow> (string \<times> string) option \<Rightarrow> assign_message" where
  "prompt_message st s w r nowIso attemptId argv outputs apiKey =
    resumeWireFields s (hostAdvertisesPriorContext st (wt_hostId w))
    \<lparr>am_sessionId = s_id s, am_sessionType = Type_prompt, am_repositoryId = Some (s_repositoryId s),
     am_worktreeId = Some (wt_id w), am_workspacePoolId = None, am_workspaceSlotId = None, am_setupProfileId = None,
     am_setupScript = None, am_destroyWorkspaceAfter = None, am_prompt = s_prompt s,
     am_sessionApiKey = map_option fst apiKey, am_outputs = outputs, am_resolvedArgv = argv, am_timeout = s_timeout s,
     am_infrastructureRetryCount = Some (opt_or (s_infrastructureRetryCount s) 0), am_assignedAt = nowIso,
     am_attemptId = attemptId, am_ref = s_ref s, am_metadata = s_metadata s,
     am_resumeRefCapture = Option.bind (s_resumeSpec s) rs_resumeRefCapture,
     am_providerAccountId = truthy_opt (rt_providerAccountId r), am_providerId = None,
     am_commandId = Some (rt_commandId r), am_targetIndex = Some (rt_targetIndex r), am_logSettings = st_logSettings st,
     am_resumedFromSessionId = None, am_resume = False, am_cliResumeRef = None, am_priorContext = None\<rparr>"

definition assign_candidate ::
    "control_plane_state \<Rightarrow> session_record \<Rightarrow> string \<Rightarrow> int option \<Rightarrow> worktree_record \<times> session_route
     \<Rightarrow> bool \<times> control_plane_state" where
  "assign_candidate st s nowIso nowMs c =
    (case c of (w, r) \<Rightarrow>
      (if \<not> hostProviderAccountReady st (wt_hostId w) (rt_providerAccountId r)
          \<or> \<not> accountHasLeaseCapacity st (rt_providerAccountId r)
       then (False, st)
       else
         (let (won, st1) = tryClaimWorktree st (wt_id w) (s_id s) nowIso
          in if \<not> won then (False, st1)
             else
               (let (attemptId, st2) = next_attempt st1;
                    outputs = hostAdvertisesSessionOutputs st2 (wt_hostId w);
                    argv = assignmentOutputArgv st2 s (rt_commandId r) (rt_resolvedArgv r) outputs (rt_resumeSpec r);
                    (apiKey, st3) = mint_api_key (hostAdvertisesSessionSpawn st2 (wt_hostId w)) st2;
                    (lease, st4) = tryAcquireProviderAccountLeaseLocal st3 s (rt_providerAccountId r) attemptId (wt_hostId w) [] True
                in if truthy_str (rt_providerAccountId r) \<and> lease = None then (False, releaseWorktree st4 (wt_id w))
                   else
                     (let s1 = prompt_assigned s w r nowIso attemptId argv outputs apiKey lease;
                          st5 = touchAccount (rt_providerAccountId r) nowIso (put_session s1 st4);
                          st6 = put_pending_ack (s_id s) \<lparr>pa_sessionId = s_id s, pa_worktreeId = Some (wt_id w),
                            pa_attemptId = attemptId, pa_assignedAtMs = nowMs\<rparr> st5
                      in (True, send_to_host (wt_hostId w)
                           (Session_assign (prompt_message st6 s1 w r nowIso attemptId argv outputs apiKey)) st6))))))"

fun try_candidates :: "(control_plane_state \<Rightarrow> 'c \<Rightarrow> bool \<times> control_plane_state) \<Rightarrow> control_plane_state \<Rightarrow> 'c list
    \<Rightarrow> bool \<times> control_plane_state" where
  "try_candidates f st [] = (False, st)"
| "try_candidates f st (c # cs) =
    (case f st c of (True, st') \<Rightarrow> (True, st') | (False, st') \<Rightarrow> try_candidates f st' cs)"

definition prepare_prompt ::
    "collation \<Rightarrow> provider_catalog \<Rightarrow> int option \<Rightarrow> control_plane_state \<Rightarrow> session_record
     \<Rightarrow> session_record \<times> control_plane_state \<times> prompt_placement_plan" where
  "prepare_prompt lc cat nowMs st s =
    (let plan = planPromptPlacement lc st cat s nowMs
     in if plan = Prompt_clear_pin
        then (let s1 = clearResumePin s; st1 = put_session s1 st in (s1, st1, planPromptPlacement lc st1 cat s1 nowMs))
        else (s, st, plan))"

definition assign_prompt_session ::
    "collation \<Rightarrow> provider_catalog \<Rightarrow> string \<Rightarrow> string list \<times> control_plane_state \<Rightarrow> session_record
     \<Rightarrow> string list \<times> control_plane_state" where
  "assign_prompt_session lc cat nowIso acc s =
    (case acc of (assigned, st) \<Rightarrow>
      (case prepare_prompt lc cat (date_parse nowIso) st s of (s1, st1, plan) \<Rightarrow>
        (case plan of
           Prompt_expire \<Rightarrow> (assigned, expireQueuedLocal st1 s1 nowIso)
         | Prompt_assign cs \<Rightarrow>
             (case try_candidates (\<lambda>st c. assign_candidate st s1 nowIso (date_parse nowIso) c) st1 cs of
                (won, st2) \<Rightarrow> (if won then assigned @ [s_id s1] else assigned, st2))
         | _ \<Rightarrow> (assigned, st1))))"

definition assignQueued :: "collation \<Rightarrow> control_plane_state \<Rightarrow> string option \<Rightarrow> string list \<times> control_plane_state" where
  "assignQueued lc st only =
    (let cat = buildProviderCatalog st;
         queue = filter (\<lambda>s. only = None \<or> only = Some (s_id s))
           (orderedQueuedSessions lc (js_values (st_sessions st)) (st_shardCount st) Type_prompt)
     in foldl (assign_prompt_session lc cat (st_now st)) ([], st) queue)"

section \<open>Scheduled runs\<close>

definition scheduled_host_ready :: "control_plane_state \<Rightarrow> string \<Rightarrow> connection_record \<Rightarrow> bool" where
  "scheduled_host_ready st rid conn =
    (conn_is_host conn
     \<and> js_get (st_hostConnection st) (conn_hostId conn) = Some (conn_connectionId conn)
     \<and> hasHostCapability (conn_capabilities conn) Scheduled_main_checkout
     \<and> (case conn_runtime conn of None \<Rightarrow> False | Some r \<Rightarrow> hrt_gitReady r)
     \<and> hostAcceptsNewAssignments st (conn_hostId conn)
     \<and> hostHasAssignmentCapacity st (conn_hostId conn)
     \<and> hostEnvironmentReady st (conn_hostId conn) rid
     \<and> (case conn_repositoryIds conn of None \<Rightarrow> False | Some ids \<Rightarrow> List.member ids rid))"

definition last_scheduled_start :: "control_plane_state \<Rightarrow> string \<Rightarrow> string" where
  "last_scheduled_start st h =
    (let starts = js_sort str_compare (map (\<lambda>s. opt_or (s_startedAt s) [])
       (filter (\<lambda>s. s_type s = Some Type_scheduled \<and> s_hostId s = Val h) (js_values (st_sessions st))))
     in if starts = [] then [] else last starts)"

definition eligibleHosts :: "collation \<Rightarrow> control_plane_state \<Rightarrow> string \<Rightarrow> (string \<times> string) list" where
  "eligibleHosts lc st rid =
    (let unique = foldl (\<lambda>m conn. if scheduled_host_ready st rid conn then js_set (conn_hostId conn) (conn_connectionId conn) m else m)
           [] (js_values (st_connections st));
         hosts = filter (\<lambda>(h, c). \<not> List.member (st_drainingHosts st) h \<and> \<not> js_has (st_disconnectedHosts st) h
           \<and> \<not> js_has (st_mainCheckoutLeases st) (leaseKey h rid)) unique
     in js_sort (\<lambda>a b. by_then (lc (last_scheduled_start st (fst a)) (last_scheduled_start st (fst b))) (lc (fst a) (fst b))) hosts)"

definition scheduled_assigned ::
    "control_plane_state \<Rightarrow> session_record \<Rightarrow> string \<Rightarrow> string \<Rightarrow> session_route \<Rightarrow> string \<Rightarrow> string \<Rightarrow> bool
     \<Rightarrow> (string \<times> string) option \<Rightarrow> account_lease option \<Rightarrow> session_record" where
  "scheduled_assigned st s h connectionId r now attemptId outputs apiKey lease =
    s\<lparr>s_status := Running, s_worktreeId := Null, s_hostId := Val h, s_startedAt := Some now, s_assignmentSentAt := Some now,
      s_resolvedArgv := Some (assignmentOutputArgv st s (rt_commandId r) (rt_resolvedArgv r) outputs (rt_resumeSpec r)),
      s_sessionOutputsSupported := Some outputs,
      s_resumeSpec := first_some (s_resumeSpec s) (Some (rt_resumeSpec r)),
      s_resolvedRoute := Some \<lparr>rr_targetIndex = rt_targetIndex r, rr_providerId = truthy_opt (rt_providerId r),
        rr_providerAccountId = truthy_opt (rt_providerAccountId r), rr_commandId = rt_commandId r, rr_hostId = h,
        rr_worktreeId = None, rr_workspacePoolId = None, rr_workspaceSlotId = None, rr_attemptId = attemptId\<rparr>,
      s_assignmentConnectionId := Some connectionId, s_mainCheckoutLease := Some True, s_attemptId := Some attemptId,
      s_primaryCommandStartState := Some Pending, s_sessionApiKeyHash := map_option snd apiKey,
      s_providerAccountLease := first_some lease (s_providerAccountLease s), s_hostAssignmentLease := Some h,
      s_completedAt := None, s_exitCode := Undefined, s_errorCode := None, s_errorMessage := None\<rparr>"

definition scheduled_wire :: "control_plane_state \<Rightarrow> session_record \<Rightarrow> string \<Rightarrow> string option \<Rightarrow> assign_message" where
  "scheduled_wire st s now key =
    \<lparr>am_sessionId = s_id s, am_sessionType = Type_scheduled, am_repositoryId = Some (s_repositoryId s),
     am_worktreeId = None, am_workspacePoolId = None, am_workspaceSlotId = None, am_setupProfileId = None,
     am_setupScript = None, am_destroyWorkspaceAfter = None, am_prompt = s_prompt s, am_sessionApiKey = truthy_opt key,
     am_outputs = truthy_bool (s_sessionOutputsSupported s), am_resolvedArgv = opt_or (s_resolvedArgv s) [],
     am_timeout = s_timeout s, am_infrastructureRetryCount = Some (opt_or (s_infrastructureRetryCount s) 0),
     am_assignedAt = now, am_attemptId = opt_or (s_attemptId s) [], am_ref = truthy_opt (s_ref s),
     am_metadata = s_metadata s, am_resumeRefCapture = None,
     am_providerAccountId = truthy_opt (Option.bind (s_resolvedRoute s) rr_providerAccountId),
     am_providerId = truthy_opt (Option.bind (s_resolvedRoute s) rr_providerId),
     am_commandId = truthy_opt (map_option rr_commandId (s_resolvedRoute s)),
     am_targetIndex = map_option rr_targetIndex (s_resolvedRoute s), am_logSettings = st_logSettings st,
     am_resumedFromSessionId = None, am_resume = False, am_cliResumeRef = None, am_priorContext = None\<rparr>"

definition drop_lease :: "account_lease option \<Rightarrow> control_plane_state \<Rightarrow> control_plane_state" where
  "drop_lease lease st =
    (case lease of None \<Rightarrow> st
     | Some l \<Rightarrow> st\<lparr>st_providerAccountLeases := js_delete (pal_concurrencyId l) (st_providerAccountLeases st)\<rparr>)"

definition touch_scheduled_account :: "string option \<Rightarrow> string \<Rightarrow> control_plane_state \<Rightarrow> control_plane_state" where
  "touch_scheduled_account acct now st =
    (if \<not> truthy_str acct then st
     else case js_get (st_providerAccounts st) (the acct) of
       None \<Rightarrow> st
     | Some a \<Rightarrow> st\<lparr>st_providerAccounts := js_set (acct_id a)
         (a\<lparr>acct_lastAssignedAt := Some now, acct_updatedAt := now\<rparr>) (st_providerAccounts st)\<rparr>)"

definition dispatch_scheduled ::
    "control_plane_state \<Rightarrow> session_record \<Rightarrow> string \<Rightarrow> string \<Rightarrow> session_route \<Rightarrow> string \<Rightarrow> string
     \<Rightarrow> (string \<times> string) option \<Rightarrow> account_lease option \<Rightarrow> control_plane_state" where
  "dispatch_scheduled st s h connectionId r now attemptId apiKey lease =
    (let outputs = hasHostCapability (Option.bind (js_get (st_connections st) connectionId) conn_capabilities) Session_outputs;
         s1 = scheduled_assigned st s h connectionId r now attemptId outputs apiKey lease;
         st1 = touch_scheduled_account (rt_providerAccountId r) now (put_session s1 st);
         st2 = st1\<lparr>st_mainCheckoutLeases := js_set (leaseKey h (s_repositoryId s))
           \<lparr>cl_sessionId = s_id s, cl_connectionId = connectionId\<rparr> (st_mainCheckoutLeases st1)\<rparr>;
         st3 = put_pending_ack (s_id s) \<lparr>pa_sessionId = s_id s, pa_worktreeId = None, pa_attemptId = attemptId,
           pa_assignedAtMs = date_parse now\<rparr> st2
     in send_to_host h (Session_assign (scheduled_wire st3 s1 now (map_option fst apiKey))) st3)"

definition scheduled_candidate ::
    "session_record \<Rightarrow> string \<Rightarrow> control_plane_state \<Rightarrow> (string \<times> string) \<times> session_route \<Rightarrow> bool \<times> control_plane_state" where
  "scheduled_candidate s now st c =
    (case c of ((h, connectionId), r) \<Rightarrow>
      (case js_get (st_connections st) connectionId of
         None \<Rightarrow> (False, st)
       | Some conn \<Rightarrow>
          (if js_get (st_hostConnection st) h \<noteq> Some connectionId
              \<or> \<not> (case conn_runtime conn of None \<Rightarrow> False | Some rt \<Rightarrow> hrt_gitReady rt)
              \<or> \<not> hostProviderAccountReady st h (rt_providerAccountId r)
              \<or> \<not> accountHasLeaseCapacity st (rt_providerAccountId r)
           then (False, st)
           else
             (let (attemptId, st1) = next_attempt st;
                  (apiKey, st2) = mint_api_key (hasHostCapability (conn_capabilities conn) Session_spawn) st1;
                  (lease, st3) = tryAcquireProviderAccountLeaseLocal st2 s (rt_providerAccountId r) attemptId h [] True
              in if truthy_str (rt_providerAccountId r) \<and> lease = None then (False, st3)
                 else if js_has (st_mainCheckoutLeases st3) (leaseKey h (s_repositoryId s)) then (False, drop_lease lease st3)
                 else (True, dispatch_scheduled st3 s h connectionId r now attemptId apiKey lease)))))"

definition cancelSession :: "control_plane_state \<Rightarrow> string \<Rightarrow> (string + session_record) \<times> control_plane_state" where
  "cancelSession st sid =
    (case js_get (st_sessions st) sid of
       None \<Rightarrow> (Inl ''session not found'', st)
     | Some s \<Rightarrow>
        (let plan = planCancel s
         in case transitionEffect plan ''reject'' of
              Some (Eff_reject e) \<Rightarrow> (Inl e, st)
            | _ \<Rightarrow>
               (let st1 = drop_pending_ack sid st;
                    s1 = s\<lparr>s_status := Cancelled, s_errorMessage := Some ''cancelled by operator'', s_completedAt := Some (st_now st)\<rparr>
                in if transitionEffect plan ''cancel'' = Some (Eff_cancel True) \<and> truthy_nullable (s_hostId s)
                   then
                     (let st2 = persistSession s1 (send_to_host (the (nullable_opt (s_hostId s))) (Session_cancel sid (s_attemptId s)) st1)
                      in (Inr (sessionForPersistence s1), st2))
                   else
                     (let st2 = (if transitionEffect plan ''release_worktree'' \<noteq> None \<and> truthy_nullable (s_worktreeId s)
                            then releaseWorktree st1 (the (nullable_opt (s_worktreeId s))) else st1);
                          (s2, st3) = releaseProviderAccountLease st2 s1;
                          s3 = s2\<lparr>s_worktreeId := Null, s_hostId := Null\<rparr>
                      in (Inr (sessionForPersistence s3), persistSession s3 st3)))))"

definition assign_scheduled_session ::
    "collation \<Rightarrow> provider_catalog \<Rightarrow> string \<Rightarrow> (string \<times> string) list \<Rightarrow> string list \<times> control_plane_state \<Rightarrow> session_record
     \<Rightarrow> string list \<times> control_plane_state" where
  "assign_scheduled_session lc cat now hosts acc s =
    (case acc of (assigned, st) \<Rightarrow>
      (case planScheduledPlacement lc st cat s hosts of
         Scheduled_expire \<Rightarrow>
           (assigned, put_session (expire_session s now ''queue TTL expired before capacity became available'') st)
       | Scheduled_cancel \<Rightarrow> (assigned, snd (cancelSession st (s_id s)))
       | Scheduled_skip _ \<Rightarrow> (assigned, st)
       | Scheduled_assign cs \<Rightarrow>
           (case try_candidates (scheduled_candidate s now) st cs of
              (won, st1) \<Rightarrow> (if won then assigned @ [s_id s] else assigned, st1))))"

definition assignScheduledQueued :: "collation \<Rightarrow> control_plane_state \<Rightarrow> string option \<Rightarrow> string list \<times> control_plane_state" where
  "assignScheduledQueued lc st only =
    (let cat = buildProviderCatalog st;
         queue = filter (\<lambda>s. only = None \<or> only = Some (s_id s))
           (orderedQueuedSessions lc (js_values (st_sessions st)) (st_shardCount st) Type_scheduled)
     in foldl (\<lambda>acc s. assign_scheduled_session lc cat (st_now st) (eligibleHosts lc (snd acc) (s_repositoryId s)) acc s)
          ([], st) queue)"

section \<open>Workspace sessions\<close>

definition MAX_WORKSPACE_ASSIGN_BYTES :: nat where
  "MAX_WORKSPACE_ASSIGN_BYTES = 122880"

definition setupScriptFor :: "control_plane_state \<Rightarrow> session_record \<Rightarrow> string option" where
  "setupScriptFor st s =
    (let pool = (if truthy_str (s_workspacePoolId s) then js_get (st_workspacePools st) (the (s_workspacePoolId s)) else None);
         profileId = first_some (s_setupProfileId s) (Option.bind pool pool_defaultSetupProfileId)
     in if truthy_str profileId
        then Option.bind pool (\<lambda>p. map_option sp_script (List.find (\<lambda>x. Some (sp_id x) = profileId) (pool_setupProfiles p)))
        else None)"

definition workspace_message ::
    "session_record \<Rightarrow> workspace_slot_record \<Rightarrow> session_route \<Rightarrow> string list \<Rightarrow> string \<Rightarrow> string \<Rightarrow> string option \<Rightarrow> json \<Rightarrow> bool
     \<Rightarrow> assign_message" where
  "workspace_message s x r argv attemptId assignedAt setupScript logSettings outputs =
    \<lparr>am_sessionId = s_id s, am_sessionType = Type_workspace, am_repositoryId = None, am_worktreeId = None,
     am_workspacePoolId = s_workspacePoolId s, am_workspaceSlotId = Some (slot_id x),
     am_setupProfileId = truthy_opt (s_setupProfileId s), am_setupScript = truthy_opt setupScript,
     am_destroyWorkspaceAfter = s_destroyWorkspaceAfter s, am_prompt = [], am_sessionApiKey = None, am_outputs = outputs,
     am_resolvedArgv = argv, am_timeout = s_timeout s, am_infrastructureRetryCount = None, am_assignedAt = assignedAt,
     am_attemptId = attemptId, am_ref = None, am_metadata = s_metadata s, am_resumeRefCapture = None,
     am_providerAccountId = truthy_opt (rt_providerAccountId r), am_providerId = None, am_commandId = Some (rt_commandId r),
     am_targetIndex = Some (rt_targetIndex r), am_logSettings = logSettings, am_resumedFromSessionId = None,
     am_resume = False, am_cliResumeRef = None, am_priorContext = None\<rparr>"

definition str_member :: "string \<Rightarrow> string option \<Rightarrow> (string \<times> json) list" where
  "str_member k v = (case v of None \<Rightarrow> [] | Some s \<Rightarrow> [(k, JStr s)])"

definition workspace_message_json :: "assign_message \<Rightarrow> json" where
  "workspace_message_json m = JObj
    ([(''type'', JStr ''session:assign''), (''sessionId'', JStr (am_sessionId m)), (''sessionType'', JStr ''workspace''),
      (''repositoryId'', JNull), (''worktreeId'', JNull)]
     @ str_member ''workspacePoolId'' (am_workspacePoolId m) @ str_member ''workspaceSlotId'' (am_workspaceSlotId m)
     @ str_member ''setupProfileId'' (am_setupProfileId m) @ str_member ''setupScript'' (am_setupScript m)
     @ (case am_destroyWorkspaceAfter m of None \<Rightarrow> [] | Some b \<Rightarrow> [(''destroyWorkspaceAfter'', JBool b)])
     @ [(''prompt'', JStr (am_prompt m))] @ (if am_outputs m then [(''outputs'', JBool True)] else [])
     @ [(''resolvedArgv'', JArr (map JStr (am_resolvedArgv m))), (''timeout'', JNum (am_timeout m)),
        (''assignedAt'', JStr (am_assignedAt m)), (''attemptId'', JStr (am_attemptId m))]
     @ (case am_metadata m of None \<Rightarrow> [] | Some v \<Rightarrow> [(''metadata'', v)])
     @ str_member ''providerAccountId'' (am_providerAccountId m) @ str_member ''commandId'' (am_commandId m)
     @ (case am_targetIndex m of None \<Rightarrow> [] | Some n \<Rightarrow> [(''targetIndex'', JNum (int n))])
     @ [(''logSettings'', am_logSettings m)])"

definition fitsWorkspaceAssignFrame :: "assign_message \<Rightarrow> bool" where
  "fitsWorkspaceAssignFrame m = (utf8_length (json_stringify (workspace_message_json m)) \<le> MAX_WORKSPACE_ASSIGN_BYTES)"

definition workspace_assigned ::
    "session_record \<Rightarrow> workspace_slot_record \<Rightarrow> session_route \<Rightarrow> string list \<Rightarrow> string \<Rightarrow> string \<Rightarrow> bool \<Rightarrow> account_lease option
     \<Rightarrow> session_record" where
  "workspace_assigned s x r argv attemptId now outputs lease =
    s\<lparr>s_status := Running, s_repositoryId := [], s_worktreeId := Null, s_workspaceSlotId := Val (slot_id x),
      s_workspaceSlotLease := Some True, s_hostId := Val (slot_hostId x), s_startedAt := Some now, s_attemptId := Some attemptId,
      s_resolvedArgv := Some argv,
      s_resolvedRoute := Some \<lparr>rr_targetIndex = rt_targetIndex r, rr_providerId = truthy_opt (rt_providerId r),
        rr_providerAccountId = truthy_opt (rt_providerAccountId r), rr_commandId = rt_commandId r, rr_hostId = slot_hostId x,
        rr_worktreeId = None, rr_workspacePoolId = s_workspacePoolId s, rr_workspaceSlotId = Some (slot_id x),
        rr_attemptId = attemptId\<rparr>,
      s_primaryCommandStartState := Some Pending, s_providerAccountLease := first_some lease (s_providerAccountLease s),
      s_hostAssignmentLease := Some (slot_hostId x), s_errorCode := None, s_errorMessage := None,
      s_sessionOutputsSupported := Some outputs\<rparr>"

definition workspace_candidate ::
    "session_record \<Rightarrow> string \<Rightarrow> control_plane_state \<Rightarrow> workspace_slot_record \<times> session_route \<Rightarrow> bool \<times> control_plane_state" where
  "workspace_candidate s now st c =
    (case c of (x, r) \<Rightarrow>
      (if \<not> truthy_connection_id st (slot_hostId x) \<or> \<not> hostProviderAccountReady st (slot_hostId x) (rt_providerAccountId r)
          \<or> \<not> accountHasLeaseCapacity st (rt_providerAccountId r)
       then (False, st)
       else
         (let connectionId = the (js_get (st_hostConnection st) (slot_hostId x));
              (attemptId, st1) = next_attempt st;
              outputs = hasHostCapability (Option.bind (js_get (st_connections st1) connectionId) conn_capabilities) Session_outputs;
              argv = assignmentOutputArgv st1 s (rt_commandId r) (rt_resolvedArgv r) outputs (rt_resumeSpec r);
              msg = workspace_message s x r argv attemptId now (first_some (s_workspaceSetupScript s) (setupScriptFor st1 s))
                (st_logSettings st1) outputs
          in if \<not> fitsWorkspaceAssignFrame msg then (False, st1)
             else
               (let (lease, st2) = tryAcquireProviderAccountLeaseLocal st1 s (rt_providerAccountId r) attemptId (slot_hostId x) [] True
                in if truthy_str (rt_providerAccountId r) \<and> lease = None then (False, st2)
                   else if \<not> (slot_status x = Idle \<and> slot_online x) then (False, drop_lease lease st2)
                   else
                     (let s1 = workspace_assigned s x r argv attemptId now outputs lease;
                          x1 = x\<lparr>slot_status := Busy, slot_currentSessionId := Some (s_id s),
                                 slot_connectionId := Some connectionId, slot_lastAssignedAt := Some now\<rparr>;
                          st3 = touchAccount (rt_providerAccountId r) now (put_slot (slot_id x) x1 (put_session s1 st2));
                          st4 = put_pending_ack (s_id s) \<lparr>pa_sessionId = s_id s, pa_worktreeId = None, pa_attemptId = attemptId,
                            pa_assignedAtMs = date_parse now\<rparr> st3
                      in (True, send_to_host (slot_hostId x) (Session_assign msg) st4))))))"

definition assign_workspace_session ::
    "collation \<Rightarrow> provider_catalog \<Rightarrow> string \<Rightarrow> string list \<times> control_plane_state \<Rightarrow> session_record
     \<Rightarrow> string list \<times> control_plane_state" where
  "assign_workspace_session lc cat now acc s =
    (case acc of (assigned, st) \<Rightarrow>
      (case planWorkspacePlacement lc st cat s (date_parse now) of
         Workspace_expire \<Rightarrow>
           (assigned, put_session (expire_session s now ''queue TTL expired before workspace capacity became available'') st)
       | Workspace_skip _ \<Rightarrow> (assigned, st)
       | Workspace_assign cs \<Rightarrow>
           (case try_candidates (workspace_candidate s now) st cs of
              (won, st1) \<Rightarrow> (if won then assigned @ [s_id s] else assigned, st1))))"

definition assignWorkspaceQueued :: "collation \<Rightarrow> control_plane_state \<Rightarrow> string option \<Rightarrow> string list \<times> control_plane_state" where
  "assignWorkspaceQueued lc st only =
    (let cat = buildProviderCatalog st;
         queue = filter (\<lambda>s. \<not> truthy_str only \<or> only = Some (s_id s))
           (orderedQueuedSessions lc (js_values (st_sessions st)) (st_shardCount st) Type_workspace)
     in foldl (assign_workspace_session lc cat (st_now st)) ([], st) queue)"

section \<open>Acknowledgement deadline\<close>

definition ack_overdue :: "control_plane_state \<Rightarrow> int \<Rightarrow> pending_ack \<Rightarrow> bool" where
  "ack_overdue st nowMs p =
    (case pa_assignedAtMs p of None \<Rightarrow> True | Some t \<Rightarrow> \<not> nowMs - t < st_ackDeadlineMs st)"

definition matches_pending :: "session_record \<Rightarrow> pending_ack \<Rightarrow> bool" where
  "matches_pending s p =
    (\<not> truthy_str (s_ackReceivedAt s)
     \<and> (case s_worktreeId s of Undefined \<Rightarrow> False | Null \<Rightarrow> pa_worktreeId p = None | Val w \<Rightarrow> pa_worktreeId p = Some w)
     \<and> s_attemptId s = Some (pa_attemptId p))"

definition enforce_ack ::
    "int \<Rightarrow> string list \<times> control_plane_state \<Rightarrow> string \<times> pending_ack \<Rightarrow> string list \<times> control_plane_state" where
  "enforce_ack nowMs acc e =
    (case acc of (requeued, st) \<Rightarrow> (case e of (sid, p) \<Rightarrow>
      (if \<not> ack_overdue st nowMs p then acc
       else case js_get (st_sessions st) sid of
         None \<Rightarrow> (requeued, drop_pending_ack sid st)
       | Some s \<Rightarrow>
          (if \<not> matches_pending s p then (requeued, drop_pending_ack sid st)
           else
             (let st1 = (if truthy_str (pa_worktreeId p) then releaseWorktree st (the (pa_worktreeId p))
                         else snd (releaseScheduledLeaseLocal st s));
                  (s1, st2) = releaseProviderAccountLease st1 s;
                  s2 = (if truthy_str (pa_worktreeId p)
                    then s1\<lparr>s_status := Queued, s_worktreeId := Null, s_hostId := Null, s_startedAt := None,
                            s_sessionApiKeyHash := None\<rparr>
                    else queueReconnectSession s1 ''agent did not acknowledge assignment; requeued'')
              in (requeued @ [sid],
                  drop_pending_ack sid (st2\<lparr>st_sessions := js_set sid s2 (st_sessions st2)\<rparr>)))))))"

definition enforceAckDeadlines :: "control_plane_state \<Rightarrow> int \<Rightarrow> string list \<times> control_plane_state" where
  "enforceAckDeadlines st nowMs = foldl (enforce_ack nowMs) ([], st) (st_pendingAcks st)"

section \<open>Running timeout\<close>

definition TIMEOUT_ERROR :: string where
  "TIMEOUT_ERROR = ''session exceeded timeout without a host terminal report''"

definition isAcknowledgedRunningDue :: "session_record \<Rightarrow> int \<Rightarrow> bool" where
  "isAcknowledgedRunningDue s nowMs =
    (if s_status s \<noteq> Running \<or> \<not> truthy_str (s_ackReceivedAt s) then False
     else case date_parse (the (s_ackReceivedAt s)) of None \<Rightarrow> False | Some t \<Rightarrow> nowMs \<ge> t + s_timeout s * 1000)"

definition timeout_release_slot :: "control_plane_state \<Rightarrow> session_record \<Rightarrow> session_record \<times> control_plane_state" where
  "timeout_release_slot st s =
    (if \<not> truthy_nullable (s_workspaceSlotId s) then (s, st)
     else
       (let k = the (nullable_opt (s_workspaceSlotId s));
            st1 = (case js_get (st_workspaceSlots st) k of
                None \<Rightarrow> st
              | Some x \<Rightarrow>
                  (if slot_currentSessionId x \<noteq> Some (s_id s) then st
                   else put_slot k (x\<lparr>slot_status := Idle, slot_currentSessionId := None, slot_errorMessage := None\<rparr>) st))
        in (s\<lparr>s_workspaceSlotId := Null, s_workspaceSlotLease := None\<rparr>, st1)))"

definition clear_checkout_fields :: "session_record \<Rightarrow> session_record" where
  "clear_checkout_fields s = s\<lparr>s_mainCheckoutLease := None, s_assignmentConnectionId := None, s_assignmentSentAt := None,
    s_ackReceivedAt := None, s_reconnectDeadlineAt := None\<rparr>"

definition release_owned_worktree :: "control_plane_state \<Rightarrow> string \<Rightarrow> string \<Rightarrow> control_plane_state" where
  "release_owned_worktree st wid sid =
    (if Option.bind (js_get (st_worktrees st) wid) wt_currentSessionId = Some sid then releaseWorktree st wid else st)"

definition timeOutAcknowledgedSession :: "control_plane_state \<Rightarrow> session_record \<Rightarrow> control_plane_state" where
  "timeOutAcknowledgedSession st s =
    (let held = (s_providerAccountLease s \<noteq> None \<or> s_hostAssignmentLease s \<noteq> None \<or> truthy_str (s_assignmentConnectionId s));
         timedOutHost = (if held \<and> truthy_nullable (s_hostId s) then nullable_opt (s_hostId s) else None);
         timedOutConnection = (if timedOutHost \<noteq> None then truthy_opt (s_assignmentConnectionId s) else None);
         s1 = s\<lparr>s_status := Timed_out, s_errorMessage := Some TIMEOUT_ERROR, s_completedAt := Some (st_now st)\<rparr>;
         st1 = drop_pending_ack (s_id s) st;
         st2 = (if truthy_nullable (s_hostId s)
           then send_to_host (the (nullable_opt (s_hostId s))) (Session_cancel (s_id s) (s_attemptId s)) st1 else st1);
         (s2, st3) =
           (if truthy_bool (s_mainCheckoutLease s)
            then (clear_checkout_fields s1, snd (releaseScheduledLeaseLocal st2 s1))
            else if truthy_nullable (s_worktreeId s)
            then (s1, release_owned_worktree st2 (the (nullable_opt (s_worktreeId s))) (s_id s))
            else timeout_release_slot st2 s1);
         s3 = s2\<lparr>s_worktreeId := Null, s_hostId := Null, s_timedOutHostId := first_some timedOutHost (s_timedOutHostId s2),
                  s_timedOutAssignmentConnectionId := first_some timedOutConnection (s_timedOutAssignmentConnectionId s2)\<rparr>
     in persistSession s3 st3)"

definition enforceRunningTimeouts :: "control_plane_state \<Rightarrow> int \<Rightarrow> string list \<times> control_plane_state" where
  "enforceRunningTimeouts st nowMs =
    foldl (\<lambda>(ids, st) s. if isAcknowledgedRunningDue s nowMs then (ids @ [s_id s], timeOutAcknowledgedSession st s) else (ids, st))
      ([], st) (js_values (st_sessions st))"

end
