(* ===== verification/HostMessages.thy ===== *)
theory HostMessages
  imports Assignment
begin

text \<open>
  The messages of a host on a control plane without storage (\<open>handleHostMessage\<close> and
  \<open>applySessionStatus\<close> of \<open>control-plane-messages.ts\<close>), with the replay cache of session logs, usage
  ingestion (\<open>control-plane-usage.ts\<close>) and the hand-over of terminal hooks
  (\<open>control-plane-terminal-hook-handoff.ts\<close>). Registration (\<open>host:register\<close>) is not modelled.

  A handler returns its result, \<open>None\<close> where the code throws, and the state it leaves. A status report
  of a prompt session that requeues it runs \<open>assignQueued\<close> at once, as the code does; the scheduled and
  the workspace pass it starts are asynchronous and run after the handler, as steps of their own.
  Metrics, log archives, Slack and the viewers of a log are left out; \<open>retainedByteTotals\<close> is a memo of
  \<open>measure_logs\<close>.
\<close>

section \<open>Messages and results\<close>

record status_message =
  sm_sessionId :: string
  sm_worktreeId :: "string option"
  sm_attemptId :: string
  sm_status :: session_status
  sm_exitCode :: "int nullable"
  sm_errorCode :: "string option"
  sm_errorMessage :: "string option"
  sm_cliResumeRef :: "string option"
  sm_result :: "json option"
  sm_usage :: "session_usage option"
  sm_deferTerminalHookResult :: "bool option"
  sm_workspaceSlotError :: "string option"

record log_message =
  lm_sessionId :: string
  lm_attemptId :: "string option"
  lm_stream :: string
  lm_content :: string
  lm_timestamp :: string
  lm_seq :: int
  lm_dropped :: "int option"

datatype host_message =
    Msg_ack string "string option" string
  | Msg_command_start string "string option" string
  | Msg_status status_message
  | Msg_usage string "string option" string session_usage
  | Msg_terminal_hook_complete string string "json option"
  | Msg_log log_message
  | Msg_keepalive string "string option"
  | Msg_host_status string

record message_result =
  mr_ok :: bool
  mr_error :: "string option"
  mr_retryAccepted :: "bool option"
  mr_terminalHookHandoffId :: "string option"
  mr_terminalHookHandoffExpiresAt :: "string option"

definition ok_result :: message_result where
  "ok_result = \<lparr>mr_ok = True, mr_error = None, mr_retryAccepted = None, mr_terminalHookHandoffId = None,
    mr_terminalHookHandoffExpiresAt = None\<rparr>"

definition error_result :: "string \<Rightarrow> message_result" where
  "error_result e = ok_result\<lparr>mr_ok := False, mr_error := Some e\<rparr>"

type_synonym handled = "message_result option \<times> control_plane_state"

section \<open>Session logs\<close>

definition MAX_LOG_CHUNK_BYTES :: nat where
  "MAX_LOG_CHUNK_BYTES = 32768"

definition MAX_RETAINED_LOG_CHUNKS :: nat where
  "MAX_RETAINED_LOG_CHUNKS = 10000"

definition MAX_RETAINED_LOG_BYTES :: nat where
  "MAX_RETAINED_LOG_BYTES = 10485760"

definition pad_start :: "nat \<Rightarrow> char \<Rightarrow> string \<Rightarrow> string" where
  "pad_start n c x = replicate (n - length x) c @ x"

definition formatLogSortKey :: "string \<Rightarrow> int \<Rightarrow> string option" where
  "formatLogSortKey timestampIso seq =
    (if timestampIso = [] \<or> seq < 0 then None
     else
       (case (case date_parse timestampIso of None \<Rightarrow> Some timestampIso | Some ms \<Rightarrow> to_iso ms) of
          None \<Rightarrow> None
        | Some canonical \<Rightarrow> Some (canonical @ ''#'' @ pad_start 10 (CHR ''0'') (show_int seq))))"

definition logRecord :: "log_message \<Rightarrow> log_record option" where
  "logRecord m =
    map_option (\<lambda>key. \<lparr>lr_sessionId = lm_sessionId m, lr_timestampSeq = key, lr_stream = lm_stream m,
        lr_content = lm_content m, lr_timestamp = lm_timestamp m, lr_seq = lm_seq m, lr_dropped = lm_dropped m\<rparr>)
      (formatLogSortKey (lm_timestamp m) (lm_seq m))"

definition measure_logs :: "log_record list \<Rightarrow> nat" where
  "measure_logs records = sum_list (map (\<lambda>r. utf8_length (lr_content r)) records)"

fun insert_back :: "collation \<Rightarrow> log_record \<Rightarrow> log_record list \<Rightarrow> log_record list" where
  "insert_back lc x [] = [x]"
| "insert_back lc x (y # ys) = (if lc (lr_timestampSeq y) (lr_timestampSeq x) > 0 then y # insert_back lc x ys else x # y # ys)"

fun evict_logs :: "nat \<Rightarrow> log_record list \<Rightarrow> log_record list" where
  "evict_logs bytes [] = []"
| "evict_logs bytes (x # xs) =
    (if length (x # xs) > MAX_RETAINED_LOG_CHUNKS \<or> bytes > MAX_RETAINED_LOG_BYTES
     then evict_logs (bytes - utf8_length (lr_content x)) xs else x # xs)"

definition retainLogs :: "collation \<Rightarrow> control_plane_state \<Rightarrow> log_record \<Rightarrow> log_record list" where
  "retainLogs lc st x =
    (let retained = opt_or (js_get (st_logs st) (lr_sessionId x)) []
     in evict_logs (measure_logs retained + utf8_length (lr_content x)) (rev (insert_back lc x (rev retained))))"

fun maxKnownSeq :: "log_record list \<Rightarrow> int option" where
  "maxKnownSeq [] = None"
| "maxKnownSeq (x # xs) = Some (foldl (\<lambda>m r. if lr_seq r > m then lr_seq r else m) (lr_seq x) xs)"

definition detectLogSeqGap :: "control_plane_state \<Rightarrow> log_record \<Rightarrow> int option" where
  "detectLogSeqGap st x =
    (if lr_seq x \<le> 0 then None
     else case maxKnownSeq (opt_or (js_get (st_logs st) (lr_sessionId x)) []) of
       None \<Rightarrow> None
     | Some lastSeq \<Rightarrow> if lr_seq x \<le> lastSeq then None else Some (lr_seq x - lastSeq - 1))"

definition commitLogRecord :: "collation \<Rightarrow> control_plane_state \<Rightarrow> log_record \<Rightarrow> int option \<times> log_record list" where
  "commitLogRecord lc st x = (detectLogSeqGap st x, retainLogs lc st x)"

definition appendLog :: "collation \<Rightarrow> control_plane_state \<Rightarrow> log_message \<Rightarrow> log_record option \<times> control_plane_state" where
  "appendLog lc st m =
    (case logRecord m of
       None \<Rightarrow> (None, st)
     | Some x \<Rightarrow> (Some x, st\<lparr>st_logs := js_set (lm_sessionId m) (snd (commitLogRecord lc st x)) (st_logs st)\<rparr>))"

definition getLogs :: "control_plane_state \<Rightarrow> string \<Rightarrow> log_record list" where
  "getLogs st sid = opt_or (js_get (st_logs st) sid) []"

section \<open>Usage\<close>

definition mapKey :: "usage_record \<Rightarrow> string" where
  "mapKey r = urec_sessionId r @ [CHR 0x00] @ urec_attemptId r @ [CHR 0x00] @ show_int (us_sequence (urec_usage r))"

definition usageRecords :: "control_plane_state \<Rightarrow> string option \<Rightarrow> usage_record list" where
  "usageRecords st sid =
    filter (\<lambda>r. \<not> truthy_str sid \<or> Some (urec_sessionId r) = sid) (js_values (st_usageRecords st))"

definition usageAggregate :: "control_plane_state \<Rightarrow> string option \<Rightarrow> usage_aggregate" where
  "usageAggregate st sid = aggregateUsage (usageRecords st sid)"

definition buildRecord ::
    "control_plane_state \<Rightarrow> session_record \<Rightarrow> string option \<Rightarrow> string \<Rightarrow> session_usage \<Rightarrow> usage_record" where
  "buildRecord st s worktreeId attemptId u =
    (let accountId = Option.bind (s_resolvedRoute s) rr_providerAccountId;
         account = (if truthy_str accountId then js_get (st_providerAccounts st) (the accountId) else None);
         providerId = truthy_opt (map_option acct_providerId account);
         rates = Option.bind (Option.bind providerId (js_get (st_providers st))) prov_usageRates
     in \<lparr>urec_usage = u\<lparr>us_costMicros := first_some (us_costMicros u) (Option.bind rates (costFromRates u)),
           us_currency := first_some (us_currency u) (map_option ur_currency rates)\<rparr>,
         urec_sessionId = s_id s, urec_repositoryId = s_repositoryId s, urec_providerId = providerId,
         urec_providerAccountId = truthy_opt accountId,
         urec_commandId = truthy_opt (map_option rr_commandId (s_resolvedRoute s)),
         urec_attemptId = attemptId, urec_worktreeId = worktreeId, urec_receivedAt = st_now st\<rparr>)"

definition ingestUsage ::
    "control_plane_state \<Rightarrow> string \<Rightarrow> string option \<Rightarrow> string \<Rightarrow> session_usage \<Rightarrow> message_result \<times> control_plane_state" where
  "ingestUsage st sid worktreeId attemptId u =
    (case js_get (st_sessions st) sid of
       None \<Rightarrow> (error_result ''session not found'', st)
     | Some s \<Rightarrow>
        (if \<not> validateUsage (usage_json u) then (error_result ''invalid usage report'', st)
         else if \<not> attemptMatches s worktreeId attemptId then (ok_result, st)
         else
           (let r = buildRecord st s worktreeId attemptId u;
                existing = filter (\<lambda>x. urec_attemptId x = attemptId) (usageRecords st (Some (s_id s)))
            in if usageKindConflicts existing (us_kind u)
               then (error_result ''usage report kind conflicts with this attempt'', st)
               else (ok_result, st\<lparr>st_usageRecords := js_set (mapKey r) r (st_usageRecords st)\<rparr>))))"

section \<open>Terminal hooks handed over to a host\<close>

definition releaseReservedWorktree :: "control_plane_state \<Rightarrow> string \<Rightarrow> string option \<Rightarrow> control_plane_state" where
  "releaseReservedWorktree st sid wid =
    (if truthy_str wid then release_owned_worktree st (the wid) sid else st)"

definition releaseReservedMainCheckout ::
    "control_plane_state \<Rightarrow> string \<Rightarrow> terminal_hook_handoff \<Rightarrow> control_plane_state" where
  "releaseReservedMainCheckout st sid handoff =
    (let key = leaseKey (thh_hostId handoff) (thh_repositoryId handoff)
     in if \<not> thh_mainCheckoutLease handoff then st
        else if map_option cl_sessionId (js_get (st_mainCheckoutLeases st) key) = Some sid
        then st\<lparr>st_mainCheckoutLeases := js_delete key (st_mainCheckoutLeases st)\<rparr> else st)"

definition close_handoff :: "terminal_hook_handoff \<Rightarrow> session_record \<Rightarrow> session_record" where
  "close_handoff handoff s =
    (let s1 = s\<lparr>s_terminalHookHandoff := None, s_activeHostId := None, s_activeHostOrder := None\<rparr>
     in if thh_mainCheckoutLease handoff then clear_checkout_fields s1 else s1)"

definition resolveTerminalHookCompletionResult :: "session_status \<Rightarrow> session_result option \<Rightarrow> session_result" where
  "resolveTerminalHookCompletionResult status result = opt_or result (harnessSessionResult (status_name status))"

definition settleTerminalHookHandoff ::
    "control_plane_state \<Rightarrow> string \<Rightarrow> string \<Rightarrow> string \<Rightarrow> string option \<Rightarrow> session_result option
     \<Rightarrow> bool \<times> control_plane_state" where
  "settleTerminalHookHandoff st sid handoffId h connectionId result =
    (case js_get (st_sessions st) sid of
       None \<Rightarrow> (False, st)
     | Some s \<Rightarrow>
        (case s_terminalHookHandoff s of
           Some handoff \<Rightarrow>
            (if thh_handoffId handoff \<noteq> handoffId \<or> thh_hostId handoff \<noteq> h
             then (s_terminalHookHandoffSettled s = Some (handoffId, h), st)
             else if connectionId = None \<or> js_get (st_hostConnection st) h \<noteq> connectionId then (False, st)
             else
               (let st1 = releaseReservedMainCheckout (releaseReservedWorktree st (s_id s) (thh_worktreeId handoff)) (s_id s) handoff;
                    settled = first_some (s_result s)
                      (Some (session_result_json (resolveTerminalHookCompletionResult (thh_status handoff) result)));
                    s1 = (close_handoff handoff (s\<lparr>s_result := settled\<rparr>))\<lparr>s_terminalHookHandoffSettled := Some (handoffId, h)\<rparr>
                in (True, put_session s1 st1)))
         | None \<Rightarrow> (s_terminalHookHandoffSettled s = Some (handoffId, h), st)))"

definition expireTerminalHookHandoffIfNeeded ::
    "control_plane_state \<Rightarrow> session_record \<Rightarrow> int \<Rightarrow> bool \<times> control_plane_state" where
  "expireTerminalHookHandoffIfNeeded st s nowMs =
    (case s_terminalHookHandoff s of
       None \<Rightarrow> (False, st)
     | Some handoff \<Rightarrow>
        (if nan_greater (date_parse (thh_expiresAt handoff)) (Some nowMs) then (False, st)
         else
           (let st1 = releaseReservedMainCheckout (releaseReservedWorktree st (s_id s) (thh_worktreeId handoff)) (s_id s) handoff;
                s1 = close_handoff handoff (s\<lparr>s_terminalHookHandoffExpiredAt := Some (thh_expiresAt handoff)\<rparr>)
            in (True, put_session s1 st1))))"

section \<open>Status reports: what the report says\<close>

definition hostMessageOwner :: "control_plane_state \<Rightarrow> session_record option \<Rightarrow> string option \<Rightarrow> string option" where
  "hostMessageOwner st session source =
    (case session of
       Some s \<Rightarrow>
         (if truthy_nullable (s_hostId s) then nullable_opt (s_hostId s)
          else if truthy_str (s_timedOutHostId s) then s_timedOutHostId s
          else if truthy_str source then map_option conn_hostId (js_get (st_connections st) (the source)) else None)
     | None \<Rightarrow> if truthy_str source then map_option conn_hostId (js_get (st_connections st) (the source)) else None)"

definition hostMessageProtocolVersion :: "control_plane_state \<Rightarrow> session_record \<Rightarrow> string option \<Rightarrow> nat option" where
  "hostMessageProtocolVersion st s source =
    (let owner = first_some (nullable_opt (s_hostId s)) (s_timedOutHostId s);
         connectionId = first_some source (if truthy_str owner then js_get (st_hostConnection st) (the owner) else None)
     in connectionProtocolVersion (if truthy_str connectionId then js_get (st_connections st) (the connectionId) else None))"

definition reported_result :: "control_plane_state \<Rightarrow> status_message \<Rightarrow> json option" where
  "reported_result st m =
    map_option session_result_json (Option.bind (sm_result m) (normalizeSessionResult (st_urlProtocol st)))"

definition hostStatusEvent :: "control_plane_state \<Rightarrow> status_message \<Rightarrow> transition_event" where
  "hostStatusEvent st m = Ev_status (sm_worktreeId m) (sm_attemptId m) (sm_status m)
    \<lparr>rep_exitCode = sm_exitCode m, rep_errorCode = sm_errorCode m, rep_errorMessage = sm_errorMessage m,
     rep_cliResumeRef = sm_cliResumeRef m, rep_result = reported_result st m\<rparr>"

definition isFirstCheckoutFetchFailure :: "status_message \<Rightarrow> session_record \<Rightarrow> bool" where
  "isFirstCheckoutFetchFailure m s =
    (sm_status m = Failed \<and> sm_errorCode m = Some ''checkout_fetch_failed'' \<and> opt_or (s_infrastructureRetryCount s) 0 = 0)"

definition settledCheckoutFetchRetryDisposition :: "status_message \<Rightarrow> session_record \<Rightarrow> bool option" where
  "settledCheckoutFetchRetryDisposition m s =
    (if sm_status m \<noteq> Failed \<or> sm_errorCode m \<noteq> Some ''checkout_fetch_failed'' then None
     else Some (s_infrastructureRetryAttemptId s = Some (sm_attemptId m)))"

definition handoff_expiry :: "control_plane_state \<Rightarrow> string option" where
  "handoff_expiry st = Option.bind (date_parse (st_now st)) (\<lambda>t. to_iso (t + 86400000))"

definition deferredTerminalHookHandoff ::
    "control_plane_state \<Rightarrow> session_record \<Rightarrow> status_message \<Rightarrow> string option
     \<Rightarrow> terminal_hook_handoff option option \<times> control_plane_state" where
  "deferredTerminalHookHandoff st s m fallbackHostId =
    (let h = first_some (nullable_opt (s_hostId s)) (first_some (s_timedOutHostId s) fallbackHostId)
     in if \<not> truthy_str h then (Some None, st)
        else
          (let (handoffId, st1) = next_id st
           in (map_option (\<lambda>expiresAt. Some
                 \<lparr>thh_handoffId = handoffId, thh_attemptId = Some (sm_attemptId m), thh_hostId = the h,
                  thh_repositoryId = s_repositoryId s, thh_worktreeId = nullable_opt (s_worktreeId s),
                  thh_mainCheckoutLease = truthy_bool (s_mainCheckoutLease s), thh_status = sm_status m,
                  thh_errorCode = sm_errorCode m, thh_expiresAt = expiresAt, thh_ref = s_ref s, thh_metadata = s_metadata s\<rparr>)
                 (handoff_expiry st1), st1)))"

definition localDeferredHandoffAck ::
    "status_message \<Rightarrow> session_record \<Rightarrow> string option \<Rightarrow> message_result option" where
  "localDeferredHandoffAck m s reportingHostId =
    (if sm_deferTerminalHookResult m \<noteq> Some True then None
     else case s_terminalHookHandoff s of
       None \<Rightarrow> None
     | Some handoff \<Rightarrow>
        (if thh_attemptId handoff \<noteq> Some (sm_attemptId m) then None
         else
           (let owned = (thh_status handoff = sm_status m
                  \<and> (\<not> truthy_str reportingHostId \<or> Some (thh_hostId handoff) = reportingHostId))
            in Some (ok_result\<lparr>mr_retryAccepted := settledCheckoutFetchRetryDisposition m s,
                 mr_terminalHookHandoffId := (if owned then Some (thh_handoffId handoff) else None),
                 mr_terminalHookHandoffExpiresAt := (if owned then Some (thh_expiresAt handoff) else None)\<rparr>))))"

definition cachedProviderAccount :: "control_plane_state \<Rightarrow> session_record \<Rightarrow> provider_account option" where
  "cachedProviderAccount st s =
    (let accountId = Option.bind (s_resolvedRoute s) rr_providerAccountId
     in if truthy_str accountId then js_get (st_providerAccounts st) (the accountId) else None)"

definition plannerContext ::
    "control_plane_state \<Rightarrow> provider_account option \<Rightarrow> nat option \<Rightarrow> bool option \<Rightarrow> transition_context" where
  "plannerContext st account protocolVersion defer =
    \<lparr>ctx_now = st_now st, ctx_source = Local, ctx_protocolVersion = protocolVersion,
     ctx_deferTerminalHookResult = (if defer = Some True then Some True else None),
     ctx_providerAccount = map_option acct_usageLimitCooldownSeconds account, ctx_reconnectGraceMs = None\<rparr>"

section \<open>Status reports: what they release\<close>

definition clear_timed_out_claim :: "session_record \<Rightarrow> session_record" where
  "clear_timed_out_claim s = s\<lparr>s_timedOutHostId := None, s_timedOutAssignmentConnectionId := None,
    s_hostAssignmentLease := None, s_activeHostId := None, s_activeHostOrder := None\<rparr>"

definition release_late_checkout :: "control_plane_state \<Rightarrow> session_record \<Rightarrow> session_record \<times> control_plane_state" where
  "release_late_checkout st s =
    ((clear_checkout_fields s)\<lparr>s_worktreeId := Null\<rparr>, snd (releaseScheduledLeaseLocal st s))"

definition release_late_worktree :: "control_plane_state \<Rightarrow> session_record \<Rightarrow> session_record \<times> control_plane_state" where
  "release_late_worktree st s =
    (if truthy_nullable (s_worktreeId s)
     then (s\<lparr>s_worktreeId := Null\<rparr>, release_owned_worktree st (the (nullable_opt (s_worktreeId s))) (s_id s))
     else (s, st))"

definition release_late ::
    "bool \<Rightarrow> bool \<Rightarrow> bool \<Rightarrow> string option \<Rightarrow> control_plane_state \<Rightarrow> session_record \<Rightarrow> session_record \<times> control_plane_state" where
  "release_late lease worktree workspace slotError st s =
    (let (s1, st1) = (if lease \<or> worktree \<or> workspace then releaseProviderAccountLease st s else (s, st));
         (s2, st2) = (if lease \<and> truthy_bool (s_mainCheckoutLease s1) then release_late_checkout st1 s1 else (s1, st1));
         (s3, st3) = (if worktree then release_late_worktree st2 s2 else (s2, st2))
     in if workspace then releaseWorkspaceSlotLocal st3 s3 slotError else (s3, st3))"

definition releaseLocalLateTerminalAssignment ::
    "control_plane_state \<Rightarrow> session_record \<Rightarrow> string option \<Rightarrow> session_record \<times> control_plane_state" where
  "releaseLocalLateTerminalAssignment st s slotError =
    release_late (truthy_bool (s_mainCheckoutLease s)) (truthy_nullable (s_worktreeId s)) (truthy_nullable (s_workspaceSlotId s))
      slotError st s"

section \<open>Status reports: the branches\<close>

definition late_handoff ::
    "control_plane_state \<Rightarrow> session_record \<Rightarrow> status_message \<Rightarrow> string option \<Rightarrow> handled option" where
  "late_handoff st s m reportingHostId =
    (if sm_deferTerminalHookResult m = Some True \<and> (s_status s = Cancelled \<or> s_status s = Timed_out)
        \<and> isTerminalSessionStatus (sm_status m) \<and> s_attemptId s = Some (sm_attemptId m)
     then
       (if settledCheckoutFetchRetryDisposition m s = Some True
        then Some (Some (ok_result\<lparr>mr_retryAccepted := Some True\<rparr>), st)
        else if s_terminalHookHandoffSettled s = None \<and> \<not> truthy_str (s_terminalHookHandoffExpiredAt s)
        then
          (case deferredTerminalHookHandoff st s m reportingHostId of
             (None, st1) \<Rightarrow> Some (None, st1)
           | (Some None, _) \<Rightarrow> None
           | (Some (Some handoff), st1) \<Rightarrow>
               (let s1 = s\<lparr>s_terminalHookHandoff := Some handoff\<rparr>;
                    (s2, st2) = (if s_status s = Timed_out
                      then (let (x, y) = releaseProviderAccountLease st1 s1 in (clear_timed_out_claim x, y))
                      else releaseLocalLateTerminalAssignment st1 s1 (sm_workspaceSlotError m));
                    st3 = persistSession s2 st2
                in Some (Some (ok_result\<lparr>mr_retryAccepted := (if isFirstCheckoutFetchFailure m s then Some False else None),
                      mr_terminalHookHandoffId := Some (thh_handoffId handoff),
                      mr_terminalHookHandoffExpiresAt := Some (thh_expiresAt handoff)\<rparr>), st3)))
        else None)
     else None)"

definition timed_out_report :: "session_record \<Rightarrow> status_message \<Rightarrow> bool" where
  "timed_out_report s m =
    (s_status s = Timed_out \<and> isTerminalSessionStatus (sm_status m)
     \<and> (case s_providerAccountLease s of
          Some l \<Rightarrow> pal_attemptId l = sm_attemptId m
        | None \<Rightarrow> s_timedOutHostId s \<noteq> None \<and> s_attemptId s = Some (sm_attemptId m)))"

definition settle_timed_out :: "control_plane_state \<Rightarrow> session_record \<Rightarrow> status_message \<Rightarrow> handled" where
  "settle_timed_out st s m =
    (let (s1, st1) = releaseProviderAccountLease st s;
         s2 = clear_timed_out_claim (s1\<lparr>s_result := first_some (s_result s1) (reported_result st m)\<rparr>)
     in (Some ok_result, persistSession s2 st1))"

definition rescheduled :: "collation \<Rightarrow> plan \<Rightarrow> bool \<Rightarrow> control_plane_state \<Rightarrow> control_plane_state" where
  "rescheduled lc plan workspaceWaits st =
    (case transitionEffect plan ''reschedule'' of
       Some (Eff_reschedule kind) \<Rightarrow>
         (if kind = Type_scheduled \<or> kind = Type_workspace \<and> workspaceWaits then st else snd (assignQueued lc st None))
     | _ \<Rightarrow> st)"

definition retry_infrastructure ::
    "collation \<Rightarrow> control_plane_state \<Rightarrow> session_record \<Rightarrow> status_message \<Rightarrow> plan \<Rightarrow> session_report \<Rightarrow> handled" where
  "retry_infrastructure lc st s m plan rep =
    (let code = (if rep_errorCode rep = Some ''checkout_fetch_failed'' then Checkout_fetch_failed else Host_lost);
         (released, st1) = (if truthy_bool (s_mainCheckoutLease s) then releaseScheduledLeaseLocal st s
           else if truthy_nullable (s_worktreeId s) then (True, releaseWorktree st (the (nullable_opt (s_worktreeId s))))
           else (False, st))
     in if \<not> released then (Some ok_result, st1)
        else
          (let (s1, st2) = releaseProviderAccountLease st1 s;
               s2 = (queueReconnectSession s1 (opt_or (rep_errorMessage rep) ''infrastructure retry''))
                 \<lparr>s_infrastructureRetryCount := Some (opt_or (s_infrastructureRetryCount s) 0 + 1),
                  s_lastInfrastructureErrorCode := Some code, s_infrastructureRetryAttemptId := Some (sm_attemptId m)\<rparr>;
               st3 = drop_pending_ack (s_id s) (put_session s2 st2)
           in (Some (ok_result\<lparr>mr_retryAccepted :=
                 (if code = Checkout_fetch_failed \<and> isFirstCheckoutFetchFailure m s then Some True else None)\<rparr>),
               rescheduled lc plan False st3)))"

definition has_effect :: "plan \<Rightarrow> string \<Rightarrow> bool" where
  "has_effect plan ty = (transitionEffect plan ty \<noteq> None)"

definition patch_of :: "plan \<Rightarrow> (session_status option \<times> session_report) option" where
  "patch_of plan = (case transitionEffect plan ''patch_report'' of Some (Eff_patch_report st rep) \<Rightarrow> Some (st, rep) | _ \<Rightarrow> None)"

definition late_report :: "control_plane_state \<Rightarrow> session_record \<Rightarrow> status_message \<Rightarrow> plan \<Rightarrow> handled" where
  "late_report st s m plan =
    (let (s1, st1) = release_late (has_effect plan ''release_lease'') (has_effect plan ''release_worktree'')
           (has_effect plan ''release_workspace'') (sm_workspaceSlotError m) st s;
         s2 = (case patch_of plan of
             None \<Rightarrow> s1
           | Some (_, rep) \<Rightarrow> s1\<lparr>s_cliResumeRef := first_some (rep_cliResumeRef rep) (s_cliResumeRef s1),
               s_result := first_some (s_result s1) (rep_result rep)\<rparr>)
     in (Some ok_result, persistSession s2 st1))"

definition with_report :: "control_plane_state \<Rightarrow> status_message \<Rightarrow> plan \<Rightarrow> session_record \<Rightarrow> session_record" where
  "with_report st m plan s =
    s\<lparr>s_status := opt_or (Option.bind (patch_of plan) fst) (sm_status m),
      s_exitCode := (if sm_exitCode m = Undefined then s_exitCode s else sm_exitCode m),
      s_errorCode := first_some (sm_errorCode m) (s_errorCode s),
      s_errorMessage := first_some (sm_errorMessage m) (s_errorMessage s),
      s_cliResumeRef := first_some (sm_cliResumeRef m) (s_cliResumeRef s),
      s_result := first_some (s_result s) (reported_result st m)\<rparr>"

definition release_reported ::
    "control_plane_state \<Rightarrow> session_record \<Rightarrow> status_message \<Rightarrow> plan \<Rightarrow> terminal_hook_handoff option
     \<Rightarrow> session_record \<times> control_plane_state" where
  "release_reported st s m plan handoff =
    (if truthy_bool (s_mainCheckoutLease s)
     then (if map_option thh_mainCheckoutLease handoff = Some True then s else clear_checkout_fields s, st)
     else if has_effect plan ''release_worktree'' \<and> truthy_nullable (s_worktreeId s)
       \<and> (case handoff of None \<Rightarrow> True | Some x \<Rightarrow> thh_worktreeId x \<noteq> nullable_opt (s_worktreeId s))
     then (s, releaseWorktree st (the (nullable_opt (s_worktreeId s))))
     else if has_effect plan ''release_workspace'' then releaseWorkspaceSlotLocal st s (sm_workspaceSlotError m)
     else (s, st))"

definition apply_cooldown :: "plan \<Rightarrow> control_plane_state \<Rightarrow> control_plane_state" where
  "apply_cooldown plan st =
    (case transitionEffect plan ''cooldown'' of
       Some (Eff_cooldown acct until) \<Rightarrow>
         (case js_get (st_providerAccounts st) acct of
            None \<Rightarrow> st
          | Some a \<Rightarrow> st\<lparr>st_providerAccounts := js_set acct
              (a\<lparr>acct_usageLimitedUntil := Some until, acct_lastUsageLimitedAt := Some (st_now st), acct_updatedAt := st_now st\<rparr>)
              (st_providerAccounts st)\<rparr>)
     | _ \<Rightarrow> st)"

definition apply_suppression :: "plan \<Rightarrow> session_record \<Rightarrow> session_record" where
  "apply_suppression plan s =
    (case transitionEffect plan ''suppress_target'' of
       Some (Eff_suppress_target i) \<Rightarrow>
         s\<lparr>s_suppressedTargetIndexes := Some (opt_or (s_suppressedTargetIndexes s) [] @ [i])\<rparr>
     | _ \<Rightarrow> s)"

definition finish_session ::
    "session_record \<Rightarrow> bool \<Rightarrow> session_report \<Rightarrow> terminal_hook_handoff option \<Rightarrow> session_record" where
  "finish_session s clearResumeRef rep handoff =
    (let s1 = s\<lparr>s_errorCode := first_some (rep_errorCode rep) (s_errorCode s),
           s_errorMessage := first_some (rep_errorMessage rep) (s_errorMessage s),
           s_terminalHookHandoff := first_some handoff (s_terminalHookHandoff s),
           s_worktreeId := Null, s_workspaceSlotId := Null\<rparr>
     in if clearResumeRef then s1\<lparr>s_cliResumeRef := None\<rparr> else s1)"

definition requeue_reported :: "collation \<Rightarrow> plan \<Rightarrow> control_plane_state \<Rightarrow> session_record \<Rightarrow> control_plane_state" where
  "requeue_reported lc plan st s =
    (let s1 = s\<lparr>s_status := Queued, s_worktreeId := Null, s_hostId := Null, s_completedAt := None, s_result := None\<rparr>;
         st1 = rescheduled lc plan True (put_session s1 st)
     in persistSession (opt_or (js_get (st_sessions st1) (s_id s)) s1) st1)"

definition first_failure_result :: "status_message \<Rightarrow> session_record \<Rightarrow> message_result" where
  "first_failure_result m s = ok_result\<lparr>mr_retryAccepted := (if isFirstCheckoutFetchFailure m s then Some False else None)\<rparr>"

definition terminal_report ::
    "collation \<Rightarrow> control_plane_state \<Rightarrow> session_record \<Rightarrow> session_record \<Rightarrow> status_message \<Rightarrow> plan \<Rightarrow> terminal_hook_handoff option
     \<Rightarrow> handled" where
  "terminal_report lc st s0 s m plan handoff =
    (let st1 = drop_pending_ack (sm_sessionId m) st;
         (s1, st2) = releaseProviderAccountLease st1 (s\<lparr>s_completedAt := Some (st_now st)\<rparr>);
         (s2, st3) = release_reported st2 s1 m plan handoff;
         st4 = apply_cooldown plan st3;
         s3 = apply_suppression plan s2
     in if has_effect plan ''requeue'' then (Some (first_failure_result m s0), requeue_reported lc plan st4 s3)
        else case transitionEffect plan ''finish'' of
          Some (Eff_finish _ _ clearResumeRef rep) \<Rightarrow>
            (Some (ok_result\<lparr>mr_retryAccepted := (if isFirstCheckoutFetchFailure m s0 \<or> handoff \<noteq> None then Some False else None),
               mr_terminalHookHandoffId := map_option thh_handoffId handoff,
               mr_terminalHookHandoffExpiresAt := map_option thh_expiresAt handoff\<rparr>),
             persistSession (finish_session s3 clearResumeRef rep handoff) st4)
        | _ \<Rightarrow> (Some (first_failure_result m s0), persistSession s3 st4))"

definition running_report ::
    "collation \<Rightarrow> control_plane_state \<Rightarrow> session_record \<Rightarrow> status_message \<Rightarrow> plan \<Rightarrow> string option \<Rightarrow> handled" where
  "running_report lc st s m plan reportingHostId =
    (case (if has_effect plan ''finish'' \<and> sm_deferTerminalHookResult m = Some True
           then deferredTerminalHookHandoff st s m reportingHostId else (Some None, st)) of
       (None, st1) \<Rightarrow> (None, st1)
     | (Some handoff, st1) \<Rightarrow>
         (let (released, st2) = (if has_effect plan ''release_lease''
                then (if map_option thh_mainCheckoutLease handoff = Some True
                      then (holdsScheduledLeaseLocal st1 s, st1) else releaseScheduledLeaseLocal st1 s)
                else (False, st1))
          in if has_effect plan ''release_lease'' \<and> truthy_bool (s_mainCheckoutLease s) \<and> \<not> released then (Some ok_result, st2)
             else
               (let s1 = with_report st2 m plan s
                in if isTerminalSessionStatus (sm_status m) then terminal_report lc st2 s s1 m plan handoff
                   else (Some (first_failure_result m s), persistSession s1 st2))))"

definition apply_plan ::
    "collation \<Rightarrow> control_plane_state \<Rightarrow> session_record \<Rightarrow> status_message \<Rightarrow> plan \<Rightarrow> string option \<Rightarrow> handled" where
  "apply_plan lc st s m plan reportingHostId =
    (if has_effect plan ''ignore'' then (Some ok_result, st)
     else case transitionEffect plan ''requeue'' of
       Some (Eff_requeue Rq_infrastructure rep) \<Rightarrow> retry_infrastructure lc st s m plan rep
     | _ \<Rightarrow> (if s_status s \<noteq> Running then late_report st s m plan else running_report lc st s m plan reportingHostId))"

definition report_on_session ::
    "collation \<Rightarrow> control_plane_state \<Rightarrow> session_record \<Rightarrow> status_message \<Rightarrow> string option \<Rightarrow> handled" where
  "report_on_session lc st s m source =
    (let reportingHostId = hostMessageOwner st (Some s) source
     in case localDeferredHandoffAck m s reportingHostId of
          Some r \<Rightarrow> (Some r, st)
        | None \<Rightarrow>
            (case late_handoff st s m reportingHostId of
               Some handled \<Rightarrow> handled
             | None \<Rightarrow>
                 (if timed_out_report s m then settle_timed_out st s m
                  else case planSessionTransition (Some s) (hostStatusEvent st m)
                      (plannerContext st (cachedProviderAccount st s) (hostMessageProtocolVersion st s source)
                        (sm_deferTerminalHookResult m)) of
                    None \<Rightarrow> (None, st)
                  | Some plan \<Rightarrow> apply_plan lc st s m plan reportingHostId)))"

definition applySessionStatus ::
    "collation \<Rightarrow> control_plane_state \<Rightarrow> status_message \<Rightarrow> string option \<Rightarrow> handled" where
  "applySessionStatus lc st m source =
    (let (usage, st1) = (case sm_usage m of
           None \<Rightarrow> (ok_result, st)
         | Some u \<Rightarrow> ingestUsage st (sm_sessionId m) (sm_worktreeId m) (sm_attemptId m) u)
     in if \<not> mr_ok usage then (Some usage, st1)
        else case js_get (st_sessions st1) (sm_sessionId m) of
          None \<Rightarrow> (Some (error_result ''session not found''), st1)
        | Some s \<Rightarrow> report_on_session lc st1 s m source)"

section \<open>The handler\<close>

definition handle_ack :: "control_plane_state \<Rightarrow> string \<Rightarrow> string option \<Rightarrow> string \<Rightarrow> handled" where
  "handle_ack st sid worktreeId attemptId =
    (case js_get (st_sessions st) sid of
       None \<Rightarrow> (Some (error_result ''session not found''), st)
     | Some s \<Rightarrow>
        (if \<not> has_effect (planAck s worktreeId attemptId) ''ack'' then (Some ok_result, st)
         else
           (let st1 = drop_pending_ack sid (st\<lparr>st_sessions := js_set sid (s\<lparr>s_ackReceivedAt := Some (st_now st)\<rparr>) (st_sessions st)\<rparr>)
            in (Some ok_result,
                if truthy_nullable (s_hostId s)
                then send_to_host (the (nullable_opt (s_hostId s))) (Session_acknowledged (s_id s) attemptId) st1 else st1))))"

definition handle_command_start :: "control_plane_state \<Rightarrow> string \<Rightarrow> string option \<Rightarrow> string \<Rightarrow> handled" where
  "handle_command_start st sid worktreeId attemptId =
    (case js_get (st_sessions st) sid of
       None \<Rightarrow> (Some (error_result ''session not found''), st)
     | Some s \<Rightarrow>
        (let plan = planCommandStart s worktreeId attemptId;
             accepted = (\<not> has_effect plan ''ignore'' \<and> \<not> has_effect plan ''reject'');
             s1 = (if accepted \<and> has_effect plan ''authorize_command_start''
               then s\<lparr>s_primaryCommandStartState := Some Authorized\<rparr> else s);
             st1 = st\<lparr>st_sessions := js_set sid s1 (st_sessions st)\<rparr>
         in (Some ok_result,
             if accepted \<and> truthy_nullable (s_hostId s1) \<and> s_primaryCommandStartState s1 = Some Authorized
             then send_to_host (the (nullable_opt (s_hostId s1))) (Command_start_acknowledged (s_id s1) attemptId) st1 else st1)))"

definition handle_status :: "collation \<Rightarrow> control_plane_state \<Rightarrow> status_message \<Rightarrow> string option \<Rightarrow> handled" where
  "handle_status lc st m source =
    (let owner = hostMessageOwner st (js_get (st_sessions st) (sm_sessionId m)) source
     in case applySessionStatus lc st m source of
          (None, st1) \<Rightarrow> (None, st1)
        | (Some r, st1) \<Rightarrow>
            (Some (ok_result\<lparr>mr_ok := mr_ok r, mr_error := mr_error r\<rparr>),
             if mr_ok r \<and> truthy_str owner
             then send_to_host (the owner) (Status_acknowledged (sm_sessionId m) (sm_attemptId m) (mr_retryAccepted r)
               (mr_terminalHookHandoffId r) (mr_terminalHookHandoffExpiresAt r)) st1
             else st1))"

definition handle_terminal_hook_complete ::
    "control_plane_state \<Rightarrow> string \<Rightarrow> string \<Rightarrow> json option \<Rightarrow> string option \<Rightarrow> handled" where
  "handle_terminal_hook_complete st sid handoffId result source =
    (let session = js_get (st_sessions st) sid
     in case Option.bind session s_terminalHookHandoff of
          None \<Rightarrow>
            (case Option.bind session s_terminalHookHandoffSettled of
               Some (settledId, h) \<Rightarrow>
                 (if settledId \<noteq> handoffId \<or> source = None \<or> js_get (st_hostConnection st) h \<noteq> source
                  then (Some (error_result ''terminal hook handoff not found''), st)
                  else (Some ok_result, send_to_host h (Terminal_hook_acknowledged sid handoffId) st))
             | None \<Rightarrow> (Some (error_result ''terminal hook handoff not found''), st))
        | Some handoff \<Rightarrow>
            (let completed = Option.bind result (normalizeSessionResult (st_urlProtocol st))
             in if result \<noteq> None \<and> completed = None then (Some (error_result ''invalid session result''), st)
                else
                  (let (settled, st1) = settleTerminalHookHandoff st sid handoffId (thh_hostId handoff) (truthy_opt source) completed
                   in (Some ok_result,
                       if settled then send_to_host (thh_hostId handoff) (Terminal_hook_acknowledged sid handoffId) st1 else st1))))"

definition handle_log :: "collation \<Rightarrow> control_plane_state \<Rightarrow> log_message \<Rightarrow> handled" where
  "handle_log lc st m =
    (if utf8_length (lm_content m) > MAX_LOG_CHUNK_BYTES then (Some (error_result ''log chunk exceeds 32 KiB''), st)
     else
       (let session = js_get (st_sessions st) (lm_sessionId m);
            attemptId = first_some (lm_attemptId m) (Option.bind session s_attemptId);
            stale = (case (session, attemptId) of
                (Some s, Some a) \<Rightarrow> has_effect (planAttemptId s a False) ''ignore'' | _ \<Rightarrow> False)
        in if stale then (Some ok_result, st)
           else case appendLog lc st m of
             (None, st1) \<Rightarrow> (None, st1)
           | (Some _, st1) \<Rightarrow> (Some ok_result, st1)))"

fun handleHostMessage :: "collation \<Rightarrow> control_plane_state \<Rightarrow> host_message \<Rightarrow> string option \<Rightarrow> handled" where
  "handleHostMessage lc st (Msg_ack sid wt a) source = handle_ack st sid wt a"
| "handleHostMessage lc st (Msg_command_start sid wt a) source = handle_command_start st sid wt a"
| "handleHostMessage lc st (Msg_status m) source = handle_status lc st m source"
| "handleHostMessage lc st (Msg_usage sid wt a u) source = (let (r, st1) = ingestUsage st sid wt a u in (Some r, st1))"
| "handleHostMessage lc st (Msg_terminal_hook_complete sid hid r) source = handle_terminal_hook_complete st sid hid r source"
| "handleHostMessage lc st (Msg_log m) source = handle_log lc st m"
| "handleHostMessage lc st (Msg_keepalive h at) source =
    (let (alive, st1) = heartbeat st h at
     in (Some (if alive then ok_result else error_result ''agent not connected''), st1))"
| "handleHostMessage lc st (Msg_host_status h) source =
    (let (drained, st1) = drainHost st h source
     in (Some (if drained \<noteq> None then ok_result else error_result ''stale host connection''), st1))"

end
