(* ===== verification/LogCache.thy ===== *)
theory LogCache
  imports HostMessages "HOL-Library.Multiset"
begin

text \<open>
  The log cache of the control plane (\<open>retainLogs\<close>, \<open>detectLogSeqGap\<close> in \<open>control-plane-messages.ts\<close>). A
  chunk is inserted by walking back from the end of the retained list, and the list is then cut from the front
  to its limits. The result is compared with its specification: the chunks in the order of their sort keys, of which the
  longest suffix within the limits is kept.
\<close>

section \<open>Insertion\<close>

definition in_key_order :: "collation \<Rightarrow> log_record list \<Rightarrow> bool" where
  "in_key_order lc xs = sorted_wrt (\<lambda>a b. lc (lr_timestampSeq a) (lr_timestampSeq b) \<le> 0) xs"

definition inserted :: "collation \<Rightarrow> log_record \<Rightarrow> log_record list \<Rightarrow> log_record list" where
  "inserted lc x xs = rev (insert_back lc x (rev xs))"

lemma insert_back_mset: "mset (insert_back lc x xs) = add_mset x (mset xs)"
  by (induction xs) simp_all

lemma insert_back_order:
  assumes lc: "js_comparator lc"
    and "sorted_wrt (\<lambda>a b. lc (lr_timestampSeq b) (lr_timestampSeq a) \<le> 0) xs"
  shows "sorted_wrt (\<lambda>a b. lc (lr_timestampSeq b) (lr_timestampSeq a) \<le> 0) (insert_back lc x xs)"
  using assms(2)
proof (induction xs)
  case (Cons y ys)
  let ?le = "\<lambda>a b. lc (lr_timestampSeq a) (lr_timestampSeq b) \<le> 0"
  have set: "set (insert_back lc x ys) = insert x (set ys)"
    using insert_back_mset [of lc x ys] by (metis set_mset_add_mset_insert set_mset_mset)
  show ?case
  proof (cases "?le y x")
    case True
    with Cons.prems js_comparator.le_trans [OF lc] show ?thesis by fastforce
  next
    case False
    then have "?le x y" using js_comparator.lt_le [OF lc] by blast
    with False Cons set show ?thesis by (auto simp: not_le)
  qed
qed simp

lemma inserted_order: "js_comparator lc \<Longrightarrow> in_key_order lc xs \<Longrightarrow> in_key_order lc (inserted lc x xs)"
  using insert_back_order [of lc "rev xs" x] by (simp add: in_key_order_def inserted_def sorted_wrt_rev)

lemma inserted_mset: "mset (inserted lc x xs) = add_mset x (mset xs)"
  by (simp add: inserted_def insert_back_mset)

section \<open>Eviction\<close>

definition within_limits :: "log_record list \<Rightarrow> bool" where
  "within_limits xs \<longleftrightarrow> length xs \<le> MAX_RETAINED_LOG_CHUNKS \<and> measure_logs xs \<le> MAX_RETAINED_LOG_BYTES"

fun longest_suffix :: "(log_record list \<Rightarrow> bool) \<Rightarrow> log_record list \<Rightarrow> log_record list" where
  "longest_suffix P [] = []"
| "longest_suffix P (x # xs) = (if P (x # xs) then x # xs else longest_suffix P xs)"

lemma measure_Cons [simp]: "measure_logs (x # xs) = utf8_length (lr_content x) + measure_logs xs" "measure_logs [] = 0"
  by (simp_all add: measure_logs_def)

lemma measure_sum: "measure_logs xs = sum_mset (image_mset (\<lambda>r. utf8_length (lr_content r)) (mset xs))"
  by (induction xs) simp_all

lemma measure_mset: "mset xs = mset ys \<Longrightarrow> measure_logs xs = measure_logs ys"
  by (simp add: measure_sum)

lemma evict_longest: "evict_logs (measure_logs xs) xs = longest_suffix within_limits xs"
  by (induction xs) (auto simp: within_limits_def simp del: length_Cons)

lemma longest_suffix_spec:
  assumes "P []"
  shows "P (longest_suffix P xs)" "\<exists>ys. xs = ys @ longest_suffix P xs"
    "xs = ys @ zs \<Longrightarrow> P zs \<Longrightarrow> length zs \<le> length (longest_suffix P xs)"
proof -
  show "P (longest_suffix P xs)" using assms by (induction xs) auto
  show "\<exists>ys. xs = ys @ longest_suffix P xs" by (induction xs) (auto, metis append_Cons)
  show "xs = ys @ zs \<Longrightarrow> P zs \<Longrightarrow> length zs \<le> length (longest_suffix P xs)"
  proof (induction xs arbitrary: ys)
    case (Cons x xs)
    then show ?case by (cases ys) auto
  qed simp
qed

lemma retain_longest:
  "retainLogs lc st x = longest_suffix within_limits (inserted lc x (opt_or (js_get (st_logs st) (lr_sessionId x)) []))"
proof -
  define xs where "xs = opt_or (js_get (st_logs st) (lr_sessionId x)) []"
  have "measure_logs (inserted lc x xs) = measure_logs (x # xs)"
    by (rule measure_mset) (simp add: inserted_mset)
  with evict_longest [of "inserted lc x xs"] show ?thesis
    by (simp add: retainLogs_def xs_def [symmetric] inserted_def [symmetric] add.commute)
qed

section \<open>Sequence gaps\<close>

lemma maxKnownSeq_spec:
  "maxKnownSeq xs = (if xs = [] then None else Some (Max (lr_seq ` set xs)))"
proof (cases xs)
  case (Cons x ys)
  have "foldl (\<lambda>m r. if lr_seq r > m then lr_seq r else m) a ys = Max (insert a (lr_seq ` set ys))" for a
  proof (induction ys arbitrary: a)
    case (Cons y ys)
    have "(if lr_seq y > a then lr_seq y else a) = max a (lr_seq y)" by simp
    moreover have "Max (insert (max a b) S) = Max (insert a (insert b S))" if "finite S" for b :: int and S
      using that by (cases "S = {}") (simp_all add: max.assoc)
    ultimately show ?case using Cons.IH by (simp add: image_iff)
  qed simp
  then show ?thesis using Cons by simp
qed simp

definition cache_ok :: "collation \<Rightarrow> control_plane_state \<Rightarrow> bool" where
  "cache_ok lc st \<longleftrightarrow> (\<forall>sid xs. js_get (st_logs st) sid = Some xs \<longrightarrow> in_key_order lc xs \<and> within_limits xs)"

lemma detected_gap:
  "detectLogSeqGap st x = Some g \<longleftrightarrow>
    (let known = getLogs st (lr_sessionId x)
     in known \<noteq> [] \<and> 0 < lr_seq x \<and> Max (lr_seq ` set known) < lr_seq x \<and> g = lr_seq x - Max (lr_seq ` set known) - 1)"
  by (auto simp: detectLogSeqGap_def maxKnownSeq_spec getLogs_def Let_def simp del: Max_less_iff)

section \<open>The cache\<close>

text \<open>C22: appending a log chunk keeps every cached list ordered by sort key and within 10000 chunks and 10 MiB. The
  list of the session afterwards is the longest suffix within those limits of the old list with the chunk put in its
  place; the lists of other sessions stay as they are.\<close>

theorem log_cache_keeps_longest_ordered_suffix:
  assumes lc: "js_comparator lc" and ok: "cache_ok lc st" and app: "appendLog lc st m = (Some x, st')"
  shows "cache_ok lc st' \<and> (\<forall>sid. sid \<noteq> lm_sessionId m \<longrightarrow> getLogs st' sid = getLogs st sid)
    \<and> (\<exists>ys front. in_key_order lc ys \<and> mset ys = add_mset x (mset (getLogs st (lm_sessionId m)))
        \<and> ys = front @ getLogs st' (lm_sessionId m)
        \<and> (\<forall>longer. longer \<noteq> [] \<and> (\<exists>rest. front = rest @ longer) \<longrightarrow> \<not> within_limits (longer @ getLogs st' (lm_sessionId m))))"
proof -
  define xs where "xs = getLogs st (lm_sessionId m)"
  define ys where "ys = inserted lc x xs"
  define zs where "zs = longest_suffix within_limits ys"
  have x: "lr_sessionId x = lm_sessionId m" and st': "st' = st\<lparr>st_logs := js_set (lm_sessionId m) zs (st_logs st)\<rparr>"
    using app by (auto simp: appendLog_def logRecord_def commitLogRecord_def retain_longest zs_def ys_def xs_def getLogs_def
        split: option.splits)
  have order: "in_key_order lc ys"
    using ok inserted_order [OF lc] by (cases "js_get (st_logs st) (lm_sessionId m)")
      (auto simp: cache_ok_def xs_def getLogs_def ys_def in_key_order_def inserted_def)
  note spec = longest_suffix_spec [of within_limits ys, folded zs_def]
  have nil: "within_limits []" by (simp add: within_limits_def)
  obtain front where front: "ys = front @ zs" using spec(2) nil by blast
  have "in_key_order lc zs" using order front by (simp add: in_key_order_def sorted_wrt_append)
  then have "cache_ok lc st'" using ok spec(1) [OF nil] by (simp add: cache_ok_def st' js_map_simps)
  moreover have "\<forall>sid. sid \<noteq> lm_sessionId m \<longrightarrow> getLogs st' sid = getLogs st sid" by (simp add: st' getLogs_def js_map_simps)
  moreover have zs: "getLogs st' (lm_sessionId m) = zs" by (simp add: st' getLogs_def js_map_simps)
  moreover have "\<not> within_limits (longer @ zs)" if "longer \<noteq> []" "front = rest @ longer" for longer rest
    using spec(3) [OF nil, of rest "longer @ zs"] front that by auto
  moreover have "mset ys = add_mset x (mset (getLogs st (lm_sessionId m)))" using inserted_mset [of lc x xs] by (simp add: ys_def xs_def)
  ultimately show ?thesis using order front by blast
qed

text \<open>The cache of a session with one chunk, and the chunk after it.\<close>

definition sample_log :: log_message where
  "sample_log = \<lparr>lm_sessionId = ''s1'', lm_attemptId = None, lm_stream = ''stdout'', lm_content = ''hello'',
    lm_timestamp = ''2026-01-05T10:00:01.000Z'', lm_seq = 1, lm_dropped = None\<rparr>"

theorem log_cache_keeps_longest_ordered_suffix_witness:
  "cache_ok str_compare (snd (appendLog str_compare (createControlPlaneState sample_options) sample_log))"
proof -
  let ?st = "createControlPlaneState sample_options"
  have "logRecord sample_log \<noteq> None" by code_simp
  then obtain x st' where a: "appendLog str_compare ?st sample_log = (Some x, st')"
    by (auto simp: appendLog_def)
  have "cache_ok str_compare ?st" by (simp add: cache_ok_def createControlPlaneState_def js_get_def)
  from log_cache_keeps_longest_ordered_suffix [OF str_order.js_comparator_axioms this a] a show ?thesis by simp
qed

end
