(* ===== verification/Ownership.thy ===== *)
theory Ownership
  imports HostMessages
begin

text \<open>
  Who holds a worktree. A worktree is held by the session its record names while it is busy; the
  invariant \<open>ownership\<close> ties that to the session records: a session that carries a worktree id holds exactly
  that worktree, and a held worktree belongs to a session that carries its id or keeps it reserved for a
  terminal hook.

  The proofs follow one pattern. An operation on one session touches only that session
  (\<open>touches\<close>: other sessions, their worktrees and pending acknowledgements are as before), so the
  invariant has to be shown again for that session only (\<open>ownership_touch\<close>).
\<close>

section \<open>Ownership\<close>

definition holder_of :: "control_plane_state \<Rightarrow> string \<Rightarrow> string option" where
  "holder_of st w =
    (case js_get (st_worktrees st) w of
       None \<Rightarrow> None
     | Some x \<Rightarrow> if wt_status x = Busy then wt_currentSessionId x else None)"

definition holds :: "control_plane_state \<Rightarrow> string \<Rightarrow> string set" where
  "holds st sid = {w. holder_of st w = Some sid}"

definition truthy_set :: "string nullable \<Rightarrow> string set" where
  "truthy_set v = (if truthy_nullable v then set_option (nullable_opt v) else {})"

definition worktree_of :: "session_record \<Rightarrow> string set" where
  "worktree_of s = truthy_set (s_worktreeId s)"

definition kind_of :: "session_type option \<Rightarrow> session_type" where
  "kind_of t = (if t = Some Type_scheduled then Type_scheduled
    else if t = Some Type_workspace then Type_workspace else Type_prompt)"

lemma queue_type_kind: "queue_type s = kind_of (s_type s)"
  by (simp add: queue_type_def kind_of_def)

lemma truthy_set_simps [simp]:
  "truthy_set Null = {}" "truthy_set Undefined = {}" "w \<noteq> [] \<Longrightarrow> truthy_set (Val w) = {w}"
  "truthy_set v = {} \<longleftrightarrow> \<not> truthy_nullable v"
  by (simp_all add: truthy_set_def) (cases v, simp_all)

lemma truthy_set_the: "truthy_nullable v \<Longrightarrow> truthy_set v = {the (nullable_opt v)} \<and> v = Val (the (nullable_opt v))"
  by (cases v) simp_all

definition reserved_for_hook :: "session_record \<Rightarrow> string set" where
  "reserved_for_hook s = set_option (Option.bind (s_terminalHookHandoff s) thh_worktreeId)"

definition awaits_ack :: "control_plane_state \<Rightarrow> string \<Rightarrow> bool" where
  "awaits_ack st sid = js_has (st_pendingAcks st) sid"

definition session_owns :: "string set \<Rightarrow> bool \<Rightarrow> session_record \<Rightarrow> bool" where
  "session_owns held awaiting s \<longleftrightarrow>
    worktree_of s \<subseteq> held \<and> held \<subseteq> worktree_of s \<union> reserved_for_hook s
    \<and> (worktree_of s \<noteq> {} \<longrightarrow> (s_status s = Running \<or> s_status s = Cancelled) \<and> queue_type s = Type_prompt)
    \<and> (truthy_bool (s_mainCheckoutLease s) \<longrightarrow> queue_type s = Type_scheduled)
    \<and> (truthy_nullable (s_workspaceSlotId s) \<longrightarrow> queue_type s = Type_workspace)
    \<and> (isActiveSessionStatus (s_status s) \<longrightarrow> s_terminalHookHandoff s = None)
    \<and> (\<forall>h. s_terminalHookHandoff s = Some h \<longrightarrow> worktree_of s = {} \<and> \<not> awaiting \<and> thh_attemptId h = s_attemptId s)
    \<and> (s_status s = Cancelled \<or> s_status s = Timed_out \<longrightarrow> \<not> awaiting)"

definition entry_owns :: "control_plane_state \<Rightarrow> string \<Rightarrow> bool" where
  "entry_owns st sid \<longleftrightarrow>
    (js_get (st_sessions st) sid = None \<longrightarrow> holds st sid = {})
    \<and> (\<forall>s. js_get (st_sessions st) sid = Some s \<longrightarrow>
      s_id s = sid \<and> sid \<noteq> [] \<and> session_owns (holds st sid) (awaits_ack st sid) s)"

definition worktree_entry_ok :: "string \<Rightarrow> worktree_record \<Rightarrow> bool" where
  "worktree_entry_ok k w \<longleftrightarrow> wt_id w = k \<and> k \<noteq> [] \<and> (wt_status w = Busy \<longleftrightarrow> wt_currentSessionId w \<noteq> None)"

definition maps_ok :: "control_plane_state \<Rightarrow> bool" where
  "maps_ok st \<longleftrightarrow> js_wf (st_sessions st) \<and> js_wf (st_worktrees st) \<and> js_wf (st_pendingAcks st)
    \<and> js_wf (st_workspaceSlots st)
    \<and> (\<forall>k w. js_get (st_worktrees st) k = Some w \<longrightarrow> worktree_entry_ok k w)"

definition is_workspace_session :: "control_plane_state \<Rightarrow> string \<Rightarrow> bool" where
  "is_workspace_session st sid \<longleftrightarrow>
    (case js_get (st_sessions st) sid of None \<Rightarrow> False | Some s \<Rightarrow> queue_type s = Type_workspace)"

definition slots_typed :: "control_plane_state \<Rightarrow> bool" where
  "slots_typed st \<longleftrightarrow> (\<forall>k x sid. js_get (st_workspaceSlots st) k = Some x \<and> slot_currentSessionId x = Some sid
    \<longrightarrow> is_workspace_session st sid)"

definition ownership :: "control_plane_state \<Rightarrow> bool" where
  "ownership st \<longleftrightarrow> maps_ok st \<and> slots_typed st \<and> (\<forall>sid. entry_owns st sid)"

section \<open>Operations touch one session\<close>

definition touches :: "string \<Rightarrow> control_plane_state \<Rightarrow> control_plane_state \<Rightarrow> bool" where
  "touches sid st st' \<longleftrightarrow>
    (maps_ok st \<longrightarrow> maps_ok st')
    \<and> (\<forall>t. t \<noteq> sid \<longrightarrow> js_get (st_sessions st') t = js_get (st_sessions st) t
        \<and> awaits_ack st' t = awaits_ack st t \<and> holds st' t = holds st t)
    \<and> is_workspace_session st' sid = is_workspace_session st sid
    \<and> (\<forall>k x t. js_get (st_workspaceSlots st') k = Some x \<and> slot_currentSessionId x = Some t \<longrightarrow>
        t = sid \<and> is_workspace_session st sid
        \<or> (\<exists>x0. js_get (st_workspaceSlots st) k = Some x0 \<and> slot_currentSessionId x0 = Some t))"

lemma touches_refl [simp]: "touches sid st st"
  by (auto simp: touches_def)

lemma touches_trans: "touches sid st st1 \<Longrightarrow> touches sid st1 st2 \<Longrightarrow> touches sid st st2"
  unfolding touches_def by (intro conjI) (simp, simp, simp, blast)

lemma is_workspace_other: "touches sid st st' \<Longrightarrow> is_workspace_session st' t = is_workspace_session st t"
  by (cases "t = sid") (auto simp: touches_def is_workspace_session_def)

lemma entry_owns_other: "touches sid st st' \<Longrightarrow> t \<noteq> sid \<Longrightarrow> entry_owns st' t = entry_owns st t"
  by (simp add: touches_def entry_owns_def)

lemma slots_typed_touch: "touches sid st st' \<Longrightarrow> slots_typed st \<Longrightarrow> slots_typed st'"
  using is_workspace_other [of sid st st'] by (simp add: slots_typed_def touches_def) blast

lemma ownership_touch:
  assumes "ownership st" and "touches sid st st'" and "entry_owns st' sid"
  shows "ownership st'"
  unfolding ownership_def
proof (intro conjI allI)
  show "maps_ok st'" using assms by (simp add: ownership_def touches_def)
  show "slots_typed st'" using assms(1) slots_typed_touch [OF assms(2)] by (simp add: ownership_def)
  show "entry_owns st' t" for t
  proof (cases "t = sid")
    case False
    have "entry_owns st t" using assms(1) by (simp add: ownership_def)
    with entry_owns_other [OF assms(2) False] show ?thesis by simp
  qed (use assms(3) in simp)
qed

section \<open>The primitive operations\<close>

definition same_claims :: "control_plane_state \<Rightarrow> control_plane_state \<Rightarrow> bool" where
  "same_claims st st' \<longleftrightarrow> st_sessions st' = st_sessions st \<and> st_worktrees st' = st_worktrees st
    \<and> st_pendingAcks st' = st_pendingAcks st \<and> st_workspaceSlots st' = st_workspaceSlots st"

lemma same_claims_views:
  assumes "same_claims st st'"
  shows "holds st' = holds st" "awaits_ack st' = awaits_ack st" "maps_ok st' = maps_ok st"
    "is_workspace_session st' = is_workspace_session st"
  using assms by (auto simp: same_claims_def fun_eq_iff holds_def holder_of_def awaits_ack_def maps_ok_def is_workspace_session_def)

lemma touches_same: "same_claims st st' \<Longrightarrow> touches sid st st'"
  using same_claims_views [of st st'] by (auto simp: touches_def same_claims_def)

lemma touches_sessions:
  assumes "s_type s = s_type s0" and "js_get (st_sessions st) sid = Some s0"
  shows "touches sid st (st\<lparr>st_sessions := js_set sid s (st_sessions st)\<rparr>)"
  using assms
  by (auto simp: touches_def maps_ok_def js_map_simps awaits_ack_def holds_def holder_of_def is_workspace_session_def queue_type_def)

lemma touches_drop_ack: "touches sid st (drop_pending_ack sid st)"
  by (auto simp: drop_pending_ack_def touches_def maps_ok_def js_map_simps awaits_ack_def holds_def holder_of_def
      is_workspace_session_def)

lemma touches_put_ack: "touches sid st (put_pending_ack sid p st)"
  by (auto simp: put_pending_ack_def touches_def maps_ok_def js_map_simps awaits_ack_def holds_def holder_of_def
      is_workspace_session_def)

lemma holder_of_set:
  "holder_of (st\<lparr>st_worktrees := js_set k w (st_worktrees st)\<rparr>) v =
    (if v = k then (if wt_status w = Busy then wt_currentSessionId w else None) else holder_of st v)"
  by (simp add: holder_of_def js_map_simps)

lemma touches_worktree:
  assumes "holder_of st k = None \<or> holder_of st k = Some sid"
    and "wt_currentSessionId w = None \<or> wt_currentSessionId w = Some sid"
    and "wt_status w = Busy \<longleftrightarrow> wt_currentSessionId w \<noteq> None" and "wt_id w = k" and "k \<noteq> []"
  shows "touches sid st (st\<lparr>st_worktrees := js_set k w (st_worktrees st)\<rparr>)" (is "touches sid st ?st'")
proof -
  have "maps_ok st \<longrightarrow> maps_ok ?st'"
    using assms by (simp add: maps_ok_def js_map_simps worktree_entry_ok_def)
  moreover have "holds ?st' t = holds st t" if "t \<noteq> sid" for t
    unfolding holds_def holder_of_set using assms that by auto
  ultimately show ?thesis
    by (simp add: touches_def awaits_ack_def is_workspace_session_def)
qed

lemma touches_slot:
  assumes "slot_currentSessionId x = Some sid \<longrightarrow> is_workspace_session st sid"
    and "slot_currentSessionId x = None \<or> slot_currentSessionId x = Some sid"
  shows "touches sid st (put_slot k x st)"
  using assms
  by (auto simp: put_slot_def touches_def maps_ok_def js_map_simps awaits_ack_def holds_def holder_of_def
      is_workspace_session_def split: if_splits)

named_theorems claim_simps \<open>what the operations leave of sessions, worktrees, slots and pending acknowledgements\<close>

lemma release_account_session [claim_simps]:
  "fst (releaseProviderAccountLease st s) = s\<lparr>s_providerAccountLease := None, s_hostAssignmentLease := None\<rparr>"
  by (simp add: releaseProviderAccountLease_def split: option.splits)

lemma same_release_account [intro, simp]: "same_claims st (snd (releaseProviderAccountLease st s))"
  by (simp add: releaseProviderAccountLease_def releaseProviderAccountLeaseLocal_def same_claims_def split: option.splits)

lemma same_release_checkout [intro, simp]: "same_claims st (snd (releaseScheduledLeaseLocal st s))"
  by (simp add: releaseScheduledLeaseLocal_def same_claims_def)

lemma same_send [intro, simp]: "same_claims st (send_to_host h m st)"
  by (simp add: send_to_host_def same_claims_def)

lemma same_touch_account [intro, simp]: "same_claims st (touchAccount a t st)"
  by (simp add: touchAccount_def same_claims_def split: option.splits)

lemma same_touch_scheduled [intro, simp]: "same_claims st (touch_scheduled_account a t st)"
  by (simp add: touch_scheduled_account_def same_claims_def split: option.splits)

lemma same_next_attempt [intro, simp]: "same_claims st (snd (next_attempt st))"
  by (simp add: next_attempt_def same_claims_def)

lemma same_mint [intro, simp]: "same_claims st (snd (mint_api_key b st))"
  by (simp add: mint_api_key_def createSessionApiKey_def same_claims_def)

lemma same_acquire [intro, simp]: "same_claims st (snd (tryAcquireProviderAccountLeaseLocal st s a t h occ b))"
  by (simp add: tryAcquireProviderAccountLeaseLocal_def same_claims_def Let_def split: option.splits)

lemma same_drop_lease [intro, simp]: "same_claims st (drop_lease l st)"
  by (simp add: drop_lease_def same_claims_def split: option.splits)

lemma same_next_id [intro, simp]: "same_claims st (snd (next_id st))"
  by (simp add: next_id_def same_claims_def)

lemma same_apply_cooldown [intro, simp]: "same_claims st (apply_cooldown plan st)"
  by (simp add: apply_cooldown_def same_claims_def split: option.splits transition_effect.splits)

lemma same_refl [simp]: "same_claims st st"
  by (simp add: same_claims_def)

lemma same_trans: "same_claims st st1 \<Longrightarrow> same_claims st1 st2 \<Longrightarrow> same_claims st st2"
  by (simp add: same_claims_def)

lemma sameD:
  assumes "same_claims st st'"
  shows "st_sessions st' = st_sessions st" "st_worktrees st' = st_worktrees st"
    "st_pendingAcks st' = st_pendingAcks st" "st_workspaceSlots st' = st_workspaceSlots st"
  using assms by (simp_all add: same_claims_def)

lemma ownership_same: "same_claims st st' \<Longrightarrow> ownership st' = ownership st"
  using same_claims_views [of st st'] by (simp add: ownership_def entry_owns_def slots_typed_def same_claims_def)

lemmas [claim_simps] = sameD [OF same_release_account] sameD [OF same_release_checkout] sameD [OF same_send]
  sameD [OF same_touch_account] sameD [OF same_touch_scheduled] sameD [OF same_next_attempt] sameD [OF same_mint]
  sameD [OF same_acquire] sameD [OF same_drop_lease] sameD [OF same_next_id] sameD [OF same_apply_cooldown]

lemmas [claim_simps] = same_claims_views [OF same_release_account] same_claims_views [OF same_release_checkout]
  same_claims_views [OF same_send] same_claims_views [OF same_touch_account] same_claims_views [OF same_touch_scheduled]
  same_claims_views [OF same_next_attempt] same_claims_views [OF same_mint] same_claims_views [OF same_acquire]
  same_claims_views [OF same_drop_lease] same_claims_views [OF same_next_id] same_claims_views [OF same_apply_cooldown]

lemma session_fields_persist [simp]:
  "s_id (sessionForPersistence s) = s_id s" "s_type (sessionForPersistence s) = s_type s"
  "s_status (sessionForPersistence s) = s_status s" "s_worktreeId (sessionForPersistence s) = s_worktreeId s"
  "s_terminalHookHandoff (sessionForPersistence s) = s_terminalHookHandoff s"
  "s_mainCheckoutLease (sessionForPersistence s) = s_mainCheckoutLease s"
  "s_workspaceSlotId (sessionForPersistence s) = s_workspaceSlotId s"
  "s_attemptId (sessionForPersistence s) = s_attemptId s"
  by (simp_all add: sessionForPersistence_def Let_def)

lemma session_owns_cong:
  assumes "s_worktreeId s' = s_worktreeId s" "s_status s' = s_status s" "s_type s' = s_type s"
    "s_terminalHookHandoff s' = s_terminalHookHandoff s" "s_mainCheckoutLease s' = s_mainCheckoutLease s"
    "s_workspaceSlotId s' = s_workspaceSlotId s" "s_attemptId s' = s_attemptId s"
  shows "session_owns held awaiting s' = session_owns held awaiting s"
  using assms by (simp add: session_owns_def worktree_of_def reserved_for_hook_def queue_type_kind)

lemma session_owns_persist [simp]: "session_owns held awaiting (sessionForPersistence s) = session_owns held awaiting s"
  by (rule session_owns_cong) simp_all

lemmas owns_simps = session_owns_def worktree_of_def reserved_for_hook_def queue_type_kind

section \<open>Releasing and claiming a worktree\<close>

lemma holder_release:
  assumes "maps_ok st"
  shows "holder_of (releaseWorktree st w) = (holder_of st)(w := None)"
proof (cases "js_get (st_worktrees st) w")
  case None
  then show ?thesis by (simp add: releaseWorktree_def holder_of_def fun_eq_iff)
next
  case (Some x)
  then have "wt_id x = w" using assms by (simp add: maps_ok_def worktree_entry_ok_def)
  with Some show ?thesis
    by (intro ext) (simp add: releaseWorktree_def persistWorktree_def holder_of_set)
qed

lemma maps_release: "maps_ok st \<Longrightarrow> maps_ok (releaseWorktree st w)"
  by (simp add: releaseWorktree_def persistWorktree_def maps_ok_def js_map_simps worktree_entry_ok_def split: option.splits)

lemma release_fields [claim_simps]:
  "st_sessions (releaseWorktree st w) = st_sessions st" "st_pendingAcks (releaseWorktree st w) = st_pendingAcks st"
  "st_workspaceSlots (releaseWorktree st w) = st_workspaceSlots st"
  "awaits_ack (releaseWorktree st w) = awaits_ack st"
  by (simp_all add: releaseWorktree_def persistWorktree_def fun_eq_iff awaits_ack_def split: option.splits)

lemma holds_release: "maps_ok st \<Longrightarrow> holds (releaseWorktree st w) sid = holds st sid - {w}"
  by (auto simp: holds_def holder_release)

lemma touches_release:
  assumes "maps_ok st" and "holder_of st w = None \<or> holder_of st w = Some sid"
  shows "touches sid st (releaseWorktree st w)"
proof (cases "js_get (st_worktrees st) w")
  case (Some x)
  then have "wt_id x = w \<and> w \<noteq> []" using assms(1) by (simp add: maps_ok_def worktree_entry_ok_def)
  with Some show ?thesis
    unfolding releaseWorktree_def persistWorktree_def using assms(2) by (simp add: touches_worktree)
qed (simp add: releaseWorktree_def)

lemma claim_worktree:
  assumes "maps_ok st" and "tryClaimWorktree st w sid now = (True, st')"
  shows "holder_of st w = None \<and> holder_of st' = (holder_of st)(w \<mapsto> sid) \<and> touches sid st st' \<and> w \<noteq> []
    \<and> st_sessions st' = st_sessions st \<and> awaits_ack st' = awaits_ack st"
proof -
  obtain x where x: "js_get (st_worktrees st) w = Some x" "wt_status x = Idle"
    and st': "st' = persistWorktree (x\<lparr>wt_status := Busy, wt_currentSessionId := Some sid, wt_lastAssignedAt := Some now\<rparr>) st"
    using assms(2) by (auto simp: tryClaimWorktree_def split: option.splits if_splits)
  from x assms(1) have id: "wt_id x = w" "w \<noteq> []" by (auto simp: maps_ok_def worktree_entry_ok_def)
  have free: "holder_of st w = None" using x by (simp add: holder_of_def)
  have "holder_of st' = (holder_of st)(w \<mapsto> sid)"
    by (rule ext) (simp add: st' persistWorktree_def id(1) holder_of_set)
  moreover have "touches sid st st'"
    unfolding st' persistWorktree_def using id free by (simp add: touches_worktree)
  moreover have "st_sessions st' = st_sessions st \<and> awaits_ack st' = awaits_ack st"
    by (simp add: st' persistWorktree_def awaits_ack_def fun_eq_iff)
  ultimately show ?thesis using free id(2) by blast
qed

lemma claim_worktree_fails: "tryClaimWorktree st w sid now = (False, st') \<Longrightarrow> st' = st"
  by (auto simp: tryClaimWorktree_def split: option.splits if_splits)

section \<open>One session at a time\<close>

definition keeps :: "string \<Rightarrow> control_plane_state \<Rightarrow> control_plane_state \<Rightarrow> bool" where
  "keeps sid st st' \<longleftrightarrow> ownership st' \<and> touches sid st st'"

lemma keepsI:
  assumes "ownership st" and "touches sid st st'" and "js_get (st_sessions st') sid = Some s" and "s_id s = sid"
    and "sid \<noteq> []" and "session_owns (holds st' sid) (awaits_ack st' sid) s"
  shows "keeps sid st st'"
  using assms ownership_touch [of st sid st'] by (simp add: keeps_def entry_owns_def)

lemma keeps_refl [simp]: "keeps sid st st = ownership st"
  by (simp add: keeps_def)

lemma keeps_trans: "keeps sid st st1 \<Longrightarrow> keeps sid st1 st2 \<Longrightarrow> keeps sid st st2"
  unfolding keeps_def using touches_trans by blast

lemma keeps_then_same: "keeps sid st st1 \<Longrightarrow> same_claims st1 st2 \<Longrightarrow> keeps sid st st2"
  unfolding keeps_def using ownership_same touches_same touches_trans by blast

lemma keeps_same: "ownership st \<Longrightarrow> same_claims st st' \<Longrightarrow> keeps sid st st'"
  by (simp add: keeps_def ownership_same touches_same)

lemma touches_then_same: "touches sid st st1 \<Longrightarrow> same_claims st1 st2 \<Longrightarrow> touches sid st st2"
  using touches_same touches_trans by blast

lemma touches_then_set:
  assumes "touches sid st st1" and "js_get (st_sessions st1) sid = Some s0" and "s_type s = s_type s0"
  shows "touches sid st (st1\<lparr>st_sessions := js_set sid s (st_sessions st1)\<rparr>)"
  using touches_trans [OF assms(1) touches_sessions [OF assms(3,2)]] .

lemma touches_then_put:
  assumes "touches sid st st1" and "js_get (st_sessions st1) sid = Some s0" and "s_type s = s_type s0" and "s_id s = sid"
  shows "touches sid st (put_session s st1)" "touches sid st (persistSession s st1)"
  using touches_then_set [OF assms(1,2), of s] touches_then_set [OF assms(1,2), of "sessionForPersistence s"] assms(3,4)
  by (simp_all add: put_session_def persistSession_def)

lemma touches_then_drop: "touches sid st st1 \<Longrightarrow> touches sid st (drop_pending_ack sid st1)"
  using touches_drop_ack touches_trans by blast

lemma touches_then_ack: "touches sid st st1 \<Longrightarrow> touches sid st (put_pending_ack sid p st1)"
  using touches_put_ack touches_trans by blast

lemma touches_then_release:
  "touches sid st st1 \<Longrightarrow> maps_ok st1 \<Longrightarrow> holder_of st1 w = None \<or> holder_of st1 w = Some sid
   \<Longrightarrow> touches sid st (releaseWorktree st1 w)"
  using touches_release touches_trans by blast

lemma put_fields [claim_simps]:
  "st_sessions (put_session s st) = js_set (s_id s) s (st_sessions st)"
  "st_sessions (persistSession s st) = js_set (s_id s) (sessionForPersistence s) (st_sessions st)"
  "holds (put_session s st) = holds st" "holds (persistSession s st) = holds st"
  "awaits_ack (put_session s st) = awaits_ack st" "awaits_ack (persistSession s st) = awaits_ack st"
  "st_workspaceSlots (put_session s st) = st_workspaceSlots st"
  "st_workspaceSlots (persistSession s st) = st_workspaceSlots st"
  "st_worktrees (put_session s st) = st_worktrees st" "st_worktrees (persistSession s st) = st_worktrees st"
  by (simp_all add: put_session_def persistSession_def fun_eq_iff holds_def holder_of_def awaits_ack_def)

lemma ack_fields [claim_simps]:
  "st_sessions (drop_pending_ack sid st) = st_sessions st" "st_sessions (put_pending_ack sid p st) = st_sessions st"
  "holds (drop_pending_ack sid st) = holds st" "holds (put_pending_ack sid p st) = holds st"
  "awaits_ack (drop_pending_ack sid st) t = (awaits_ack st t \<and> t \<noteq> sid)"
  "awaits_ack (put_pending_ack sid p st) t = (awaits_ack st t \<or> t = sid)"
  "st_workspaceSlots (drop_pending_ack sid st) = st_workspaceSlots st"
  "st_worktrees (drop_pending_ack sid st) = st_worktrees st"
  by (auto simp: drop_pending_ack_def put_pending_ack_def fun_eq_iff holds_def holder_of_def awaits_ack_def js_map_simps)

lemma slot_fields [claim_simps]:
  "st_sessions (put_slot k x st) = st_sessions st" "holds (put_slot k x st) = holds st"
  "awaits_ack (put_slot k x st) = awaits_ack st"
  by (simp_all add: put_slot_def fun_eq_iff holds_def holder_of_def awaits_ack_def)

lemma ownershipD:
  assumes "ownership st" and "js_get (st_sessions st) sid = Some s"
  shows "maps_ok st" "s_id s = sid" "sid \<noteq> []" "session_owns (holds st sid) (awaits_ack st sid) s"
  using assms by (simp_all add: ownership_def entry_owns_def)

lemma ownership_maps: "ownership st \<Longrightarrow> maps_ok st"
  by (simp add: ownership_def)

lemma touches_maps: "touches sid st st' \<Longrightarrow> maps_ok st \<Longrightarrow> maps_ok st'"
  by (simp add: touches_def)

lemma keeps_put:
  assumes own: "ownership st" and "touches sid st st1" and same: "st_sessions st1 = st_sessions st"
    and s0: "js_get (st_sessions st) sid = Some s0" and "s_id s = sid" and "s_type s = s_type s0"
    and "session_owns (holds st1 sid) (awaits_ack st1 sid) s"
  shows "keeps sid st (put_session s st1)" "keeps sid st (persistSession s st1)"
  using touches_then_put [OF assms(2), of s0 s] assms ownershipD [OF own s0]
  by (auto intro!: keepsI [OF own] simp: claim_simps js_map_simps)

lemma queued_holds_nothing:
  assumes "session_owns held awaiting s" and "isActiveSessionStatus (s_status s)" and "s_status s \<noteq> Running"
  shows "held = {}" "s_terminalHookHandoff s = None" "worktree_of s = {}"
  using assms by (auto simp: session_owns_def reserved_for_hook_def)

lemma session_owns_running:
  assumes "session_owns held awaiting s" and "s_status s = Running"
  shows "held = worktree_of s" "s_terminalHookHandoff s = None"
  using assms by (auto simp: session_owns_def reserved_for_hook_def)

end
