(* ===== verification/AssignmentOwnership.thy ===== *)
theory AssignmentOwnership
  imports Ownership
begin

text \<open>
  Assignment, cancellation, the acknowledgement deadline and the running timeout keep the invariant of
  \<open>Ownership\<close>: each pass is a fold over sessions, and each step keeps the invariant and touches its own session.
\<close>

section \<open>Assigning prompt sessions\<close>

definition queued_entry :: "control_plane_state \<Rightarrow> session_type \<Rightarrow> session_record \<Rightarrow> bool" where
  "queued_entry st ty s \<longleftrightarrow> js_get (st_sessions st) (s_id s) = Some s \<and> s_status s = Queued \<and> queue_type s = ty"

lemma queued_entryD:
  assumes "ownership st" and "queued_entry st ty s"
  shows "maps_ok st" "s_id s \<noteq> []" "holds st (s_id s) = {}" "s_terminalHookHandoff s = None" "worktree_of s = {}"
    "truthy_bool (s_mainCheckoutLease s) \<Longrightarrow> ty = Type_scheduled"
    "truthy_nullable (s_workspaceSlotId s) \<Longrightarrow> ty = Type_workspace"
proof -
  have s: "js_get (st_sessions st) (s_id s) = Some s" "s_status s = Queued" "queue_type s = ty"
    using assms(2) by (simp_all add: queued_entry_def)
  note o = ownershipD [OF assms(1) s(1)]
  show "maps_ok st" "s_id s \<noteq> []" using o by simp_all
  show "holds st (s_id s) = {}" "s_terminalHookHandoff s = None" "worktree_of s = {}"
    using queued_holds_nothing [OF o(4)] s(2) by simp_all
  show "truthy_bool (s_mainCheckoutLease s) \<Longrightarrow> ty = Type_scheduled"
    "truthy_nullable (s_workspaceSlotId s) \<Longrightarrow> ty = Type_workspace"
    using o(4) s(3) by (simp_all add: session_owns_def)
qed

lemma prompt_assigned_owns:
  assumes "s_terminalHookHandoff s = None" and "queue_type s = Type_prompt" and "wt_id w \<noteq> []"
    and "\<not> truthy_bool (s_mainCheckoutLease s)" and "\<not> truthy_nullable (s_workspaceSlotId s)"
  shows "session_owns {wt_id w} awaiting (prompt_assigned s w r now attemptId argv outputs apiKey lease)"
  using assms by (simp add: owns_simps prompt_assigned_def)

lemma holds_claim:
  assumes "holder_of st' = (holder_of st)(w \<mapsto> sid)" and "holds st sid = {}"
  shows "holds st' sid = {w}"
  using assms by (auto simp: holds_def)

lemma assign_candidate_cases:
  assumes "assign_candidate st s now ms (w, r) = (won, st')"
  obtains "st' = st" "\<not> won"
  | st1 st2 where "tryClaimWorktree st (wt_id w) (s_id s) now = (True, st1)" "same_claims st1 st2"
      "st' = releaseWorktree st2 (wt_id w)" "\<not> won"
  | st1 st2 a v o' k l p m where "tryClaimWorktree st (wt_id w) (s_id s) now = (True, st1)" "same_claims st1 st2"
      "st' = send_to_host (wt_hostId w) m (put_pending_ack (s_id s) p
        (touchAccount (rt_providerAccountId r) now (put_session (prompt_assigned s w r now a v o' k l) st2)))" "won"
proof (cases "\<not> hostProviderAccountReady st (wt_hostId w) (rt_providerAccountId r)
    \<or> \<not> accountHasLeaseCapacity st (rt_providerAccountId r) \<or> \<not> fst (tryClaimWorktree st (wt_id w) (s_id s) now)")
  case True
  have "\<not> fst (tryClaimWorktree st (wt_id w) (s_id s) now) \<longrightarrow> snd (tryClaimWorktree st (wt_id w) (s_id s) now) = st"
    using claim_worktree_fails [of st "wt_id w" "s_id s" now] by (cases "tryClaimWorktree st (wt_id w) (s_id s) now") auto
  with True assms have "st' = st \<and> \<not> won"
    by (simp add: assign_candidate_def Let_def case_prod_beta split: if_splits)
  then show ?thesis using that(1) by blast
next
  case False
  obtain st1 where claimed: "tryClaimWorktree st (wt_id w) (s_id s) now = (True, st1)"
    using False by (cases "tryClaimWorktree st (wt_id w) (s_id s) now") auto
  define st2 where "st2 = snd (next_attempt st1)"
  define st3 where "st3 = snd (mint_api_key (hostAdvertisesSessionSpawn st2 (wt_hostId w)) st2)"
  define a where "a = tryAcquireProviderAccountLeaseLocal st3 s (rt_providerAccountId r) (fst (next_attempt st1)) (wt_hostId w) [] True"
  have same: "same_claims st1 (snd a)"
    unfolding a_def st3_def st2_def by (meson same_acquire same_mint same_next_attempt same_trans)
  have ready: "\<not> (\<not> hostProviderAccountReady st (wt_hostId w) (rt_providerAccountId r)
      \<or> \<not> accountHasLeaseCapacity st (rt_providerAccountId r))" using False by blast
  have "\<exists>m p v o' k. (won, st') = (if truthy_str (rt_providerAccountId r) \<and> fst a = None
      then (False, releaseWorktree (snd a) (wt_id w))
      else (True, send_to_host (wt_hostId w) m (put_pending_ack (s_id s) p (touchAccount (rt_providerAccountId r) now
        (put_session (prompt_assigned s w r now (fst (next_attempt st1)) v o' k (fst a)) (snd a))))))"
    unfolding assms [symmetric]
    by (intro exI) (simp only: assign_candidate_def Let_def case_prod_beta fst_conv snd_conv prod.case claimed ready
        if_False if_True simp_thms a_def st3_def st2_def)
  with that(2,3) [OF claimed same] show ?thesis by (force split: if_splits)
qed

lemma undone_claim_keeps:
  assumes own: "ownership st" and q: "queued_entry st ty s"
    and claimed: "tryClaimWorktree st w (s_id s) now = (True, st1)" and same: "same_claims st1 st2"
  shows "keeps (s_id s) st (releaseWorktree st2 w) \<and> queued_entry (releaseWorktree st2 w) ty s"
proof -
  note d = queued_entryD [OF own q] and cl = claim_worktree [OF queued_entryD(1) [OF own q] claimed]
  have touch: "touches (s_id s) st st2" using cl same touches_then_same by blast
  have maps: "maps_ok st2" using touches_maps [OF touch d(1)] .
  have held: "holds st2 (s_id s) = {w}" using same_claims_views(1) [OF same] holds_claim cl d(3) by simp
  then have "holder_of st2 w = Some (s_id s)" by (auto simp: holds_def)
  then have t: "touches (s_id s) st (releaseWorktree st2 w)" using touches_then_release [OF touch maps] by blast
  have s': "js_get (st_sessions (releaseWorktree st2 w)) (s_id s) = Some s"
    using q cl by (simp add: claim_simps sameD(1) [OF same] queued_entry_def)
  have "session_owns (holds (releaseWorktree st2 w) (s_id s)) (awaits_ack (releaseWorktree st2 w) (s_id s)) s"
    using ownershipD(4) [OF own, of "s_id s" s] q held d(3) cl
    by (simp add: queued_entry_def holds_release [OF maps] claim_simps same_claims_views(2) [OF same])
  with keepsI [OF own t s' refl d(2)] s' q show ?thesis by (simp add: queued_entry_def)
qed

lemma kept_claim_keeps:
  assumes own: "ownership st" and q: "queued_entry st Type_prompt s"
    and claimed: "tryClaimWorktree st (wt_id w) (s_id s) now = (True, st1)" and same: "same_claims st1 st2"
    and s1: "s1 = prompt_assigned s w r now a v o' k l"
  shows "keeps (s_id s) st (send_to_host h m (put_pending_ack (s_id s) p (touchAccount acct now (put_session s1 st2))))"
    (is "keeps _ _ ?st'")
proof -
  note d = queued_entryD [OF own q] and cl = claim_worktree [OF queued_entryD(1) [OF own q] claimed]
  have touch: "touches (s_id s) st st2" using cl same touches_then_same by blast
  have held: "holds st2 (s_id s) = {wt_id w}" using same_claims_views(1) [OF same] holds_claim cl d(3) by simp
  have id: "s_id s1 = s_id s" "s_type s1 = s_type s" by (simp_all add: s1 prompt_assigned_def)
  have "touches (s_id s) st (put_session s1 st2)"
    using touches_then_put(1) [OF touch, of s s1] id q cl by (simp add: sameD(1) [OF same] queued_entry_def)
  then have "touches (s_id s) st ?st'"
    by (intro touches_then_same [OF _ same_send] touches_then_ack touches_then_same [OF _ same_touch_account])
  moreover have "js_get (st_sessions ?st') (s_id s) = Some s1" by (simp add: claim_simps js_map_simps id)
  moreover have "session_owns (holds ?st' (s_id s)) (awaits_ack ?st' (s_id s)) s1"
    using d cl q prompt_assigned_owns [of s w True r now a v o' k l]
    by (auto simp: claim_simps held s1 queued_entry_def)
  ultimately show ?thesis using keepsI [OF own] id(1) d(2) by blast
qed

lemma assign_candidate_keeps:
  assumes own: "ownership st" and q: "queued_entry st Type_prompt s" and res: "assign_candidate st s now ms c = (won, st')"
  shows "keeps (s_id s) st st' \<and> (\<not> won \<longrightarrow> queued_entry st' Type_prompt s)"
proof (cases c)
  case (Pair w r)
  from res [unfolded Pair] show ?thesis
  proof (cases rule: assign_candidate_cases)
    case 1
    with own q show ?thesis by simp
  next
    case (2 st1 st2)
    with undone_claim_keeps [OF own q 2(1,2)] show ?thesis by simp
  next
    case (3 st1 st2 a v o' k l p m)
    with kept_claim_keeps [OF own q 3(1,2) refl] show ?thesis by simp
  qed
qed

lemma try_candidates_keeps:
  assumes step: "\<And>st c won st'. ownership st \<Longrightarrow> queued_entry st ty s \<Longrightarrow> f st c = (won, st') \<Longrightarrow>
      keeps (s_id s) st st' \<and> (\<not> won \<longrightarrow> queued_entry st' ty s)"
    and "ownership st" and "queued_entry st ty s"
  shows "keeps (s_id s) st (snd (try_candidates f st cs))"
  using assms(2,3)
proof (induction cs arbitrary: st)
  case (Cons c cs)
  obtain won st1 where r: "f st c = (won, st1)" by force
  note k = step [OF Cons.prems r]
  show ?case
  proof (cases won)
    case False
    then have "keeps (s_id s) st1 (snd (try_candidates f st1 cs))" using Cons.IH k by (simp add: keeps_def)
    with False r k keeps_trans show ?thesis by auto
  qed (use r k in simp)
qed simp

lemma keeps_unowned:
  assumes own: "ownership st" and q: "queued_entry st ty s" and touch: "touches (s_id s) st st1"
    and same: "st_sessions st1 = st_sessions st" "holds st1 (s_id s) = {}"
    and s': "s_id s' = s_id s" "s_type s' = s_type s" "session_owns {} (awaits_ack st1 (s_id s)) s'"
  shows "keeps (s_id s) st (put_session s' st1)" "keeps (s_id s) st (persistSession s' st1)"
  using keeps_put [OF own touch same(1) _ s'(1,2)] q same(2) s'(3) by (simp_all add: queued_entry_def)

lemma prepare_prompt_keeps:
  assumes own: "ownership st" and q: "queued_entry st Type_prompt s"
    and res: "prepare_prompt lc cat ms st s = (s1, st1, plan)"
  shows "keeps (s_id s) st st1 \<and> queued_entry st1 Type_prompt s1 \<and> s_id s1 = s_id s"
proof (cases "planPromptPlacement lc st cat s ms = Prompt_clear_pin")
  case True
  with res have r: "s1 = clearResumePin s" "st1 = put_session (clearResumePin s) st"
    by (auto simp: prepare_prompt_def Let_def)
  have "session_owns {} (awaits_ack st (s_id s)) (clearResumePin s)"
    using ownershipD(4) [OF own, of "s_id s" s] queued_entryD(3) [OF own q] q
    by (simp add: queued_entry_def owns_simps clearResumePin_def)
  with keeps_unowned(1) [OF own q touches_refl refl queued_entryD(3) [OF own q], of "clearResumePin s"] q show ?thesis
    by (simp add: r clearResumePin_def queued_entry_def claim_simps js_map_simps queue_type_kind)
qed (use assms in \<open>auto simp: prepare_prompt_def Let_def\<close>)

lemma expired_owns:
  assumes "ownership st" and "queued_entry st ty s"
  shows "session_owns {} (awaits_ack st (s_id s)) (expire_session s now reason)"
  using queued_entryD [OF assms] ownershipD(4) [OF assms(1), of "s_id s" s] assms(2)
  by (auto simp: queued_entry_def owns_simps expire_session_def)

lemma expire_keeps:
  assumes own: "ownership st" and q: "queued_entry st ty s"
  shows "keeps (s_id s) st (put_session (expire_session s now reason) st)"
    "keeps (s_id s) st (persistSession (expire_session s now reason) st)"
  using keeps_unowned [OF own q touches_refl refl queued_entryD(3) [OF own q], of "expire_session s now reason"]
    expired_owns [OF own q] by (simp_all add: expire_session_def)

lemma assign_prompt_session_keeps:
  assumes own: "ownership st" and q: "queued_entry st Type_prompt s"
  shows "keeps (s_id s) st (snd (assign_prompt_session lc cat now (assigned, st) s))"
proof -
  obtain s1 st1 plan where p: "prepare_prompt lc cat (date_parse now) st s = (s1, st1, plan)" by (metis prod_cases3)
  note k = prepare_prompt_keeps [OF own q p]
  then have own1: "ownership st1" by (simp add: keeps_def)
  have "keeps (s_id s1) st1 (snd (assign_prompt_session lc cat now (assigned, st) s))"
  proof (cases plan)
    case (Prompt_assign cs)
    have "keeps (s_id s1) st1 (snd (try_candidates (\<lambda>st c. assign_candidate st s1 now (date_parse now) c) st1 cs))"
      by (rule try_candidates_keeps [OF _ own1]) (use assign_candidate_keeps k in blast)+
    then show ?thesis by (simp add: assign_prompt_session_def p Prompt_assign case_prod_beta)
  qed (use k own1 expire_keeps(2) [OF own1, of Type_prompt s1] in \<open>simp_all add: assign_prompt_session_def p expireQueuedLocal_def\<close>)
  then show ?thesis using k keeps_trans by force
qed

section \<open>A pass over the queue\<close>

lemma fold_entries_keeps:
  assumes step: "\<And>acc s. ownership (snd acc) \<Longrightarrow> js_get (st_sessions (snd acc)) (s_id s) = Some s \<Longrightarrow> P s \<Longrightarrow>
      keeps (s_id s) (snd acc) (snd (f acc s))"
    and "ownership (snd acc)" and "distinct (map s_id xs)"
    and "\<forall>s\<in>set xs. js_get (st_sessions (snd acc)) (s_id s) = Some s \<and> P s"
  shows "ownership (snd (foldl f acc xs))"
  using assms(2-4)
proof (induction xs arbitrary: acc)
  case (Cons s xs)
  have k: "keeps (s_id s) (snd acc) (snd (f acc s))" using step Cons.prems by simp
  have "js_get (st_sessions (snd (f acc s))) (s_id x) = Some x" if "x \<in> set xs" for x
  proof -
    have "s_id x \<noteq> s_id s" using that Cons.prems(2) by (metis distinct.simps(2) image_eqI list.simps(9) set_map)
    with k Cons.prems(3) that show ?thesis by (simp add: keeps_def touches_def)
  qed
  with Cons.IH [of "f acc s"] k Cons.prems show ?case by (simp add: keeps_def)
qed simp

lemma fold_queue_keeps:
  assumes "\<And>acc s. ownership (snd acc) \<Longrightarrow> queued_entry (snd acc) ty s \<Longrightarrow> keeps (s_id s) (snd acc) (snd (f acc s))"
    and "ownership (snd acc)" and "distinct (map s_id xs)" and "\<forall>s\<in>set xs. queued_entry (snd acc) ty s"
  shows "ownership (snd (foldl f acc xs))"
  by (rule fold_entries_keeps [where P = "\<lambda>s. s_status s = Queued \<and> queue_type s = ty"])
    (use assms in \<open>simp_all add: queued_entry_def\<close>)

lemma session_ids:
  assumes "ownership st"
  shows "distinct (map s_id (js_values (st_sessions st)))"
    "s \<in> set (js_values (st_sessions st)) \<Longrightarrow> js_get (st_sessions st) (s_id s) = Some s"
proof -
  have wf: "js_wf (st_sessions st)" using assms by (simp add: ownership_def maps_ok_def)
  have id: "s_id s = k" if "(k, s) \<in> set (st_sessions st)" for k s
    using js_in_get [OF wf that] ownershipD(2) [OF assms] by blast
  then have "map s_id (js_values (st_sessions st)) = map fst (st_sessions st)" by (auto simp: js_values_def)
  with wf show "distinct (map s_id (js_values (st_sessions st)))" by (simp add: js_wf_def)
  show "s \<in> set (js_values (st_sessions st)) \<Longrightarrow> js_get (st_sessions st) (s_id s) = Some s"
    using js_values_iff [OF wf] ownershipD(2) [OF assms] by blast
qed

lemma queue_entries:
  assumes lc: "js_comparator lc" and own: "ownership st"
  shows "distinct (map s_id (filter P (orderedQueuedSessions lc (js_values (st_sessions st)) n ty)))"
    "\<forall>s\<in>set (filter P (orderedQueuedSessions lc (js_values (st_sessions st)) n ty)). queued_entry st ty s"
  using distinct_map_filter [OF queue_distinct [OF lc session_ids(1) [OF own]]] session_ids(2) [OF own]
    queue_element [OF lc, of _ "js_values (st_sessions st)"]
  by (simp, auto simp: queued_entry_def)

lemma assignQueued_ownership:
  assumes lc: "js_comparator lc" and own: "ownership st"
  shows "ownership (snd (assignQueued lc st only))"
  unfolding assignQueued_def Let_def
  by (rule fold_queue_keeps [where ty = Type_prompt])
    (use own queue_entries [OF lc own] assign_prompt_session_keeps in \<open>auto simp: split_paired_all\<close>)

section \<open>Cancellation\<close>

lemma release_own_worktree:
  assumes maps: "maps_ok st" and own: "session_owns (holds st sid) awaiting s" and w: "truthy_nullable (s_worktreeId s)"
  shows "touches sid st (releaseWorktree st (the (nullable_opt (s_worktreeId s))))"
    "holds (releaseWorktree st (the (nullable_opt (s_worktreeId s)))) sid = holds st sid - worktree_of s"
    "release_owned_worktree st (the (nullable_opt (s_worktreeId s))) sid = releaseWorktree st (the (nullable_opt (s_worktreeId s)))"
proof -
  have "the (nullable_opt (s_worktreeId s)) \<in> holds st sid"
    using own truthy_set_the [OF w] by (simp add: session_owns_def worktree_of_def)
  then have h: "holder_of st (the (nullable_opt (s_worktreeId s))) = Some sid" by (simp add: holds_def)
  with maps show "touches sid st (releaseWorktree st (the (nullable_opt (s_worktreeId s))))" by (simp add: touches_release)
  show "holds (releaseWorktree st (the (nullable_opt (s_worktreeId s)))) sid = holds st sid - worktree_of s"
    using truthy_set_the [OF w] by (simp add: holds_release [OF maps] worktree_of_def)
  show "release_owned_worktree st (the (nullable_opt (s_worktreeId s))) sid
      = releaseWorktree st (the (nullable_opt (s_worktreeId s)))"
    using h by (auto simp: release_owned_worktree_def holder_of_def split: option.splits if_splits)
qed

lemma prompt_release:
  assumes "session_owns held awaiting s" and "worktree_of s \<noteq> {}"
  shows "releaseEffects s = [Eff_release_worktree]" "truthy_nullable (s_worktreeId s)" "\<not> truthy_bool (s_mainCheckoutLease s)"
    "\<not> truthy_nullable (s_workspaceSlotId s)" "s_terminalHookHandoff s = None" "held = worktree_of s"
  using assms by (auto simp: releaseEffects_def session_owns_def worktree_of_def reserved_for_hook_def)

lemma cancel_plan_active:
  assumes "transitionEffect (planCancel s) ''reject'' = None"
  shows "s_status s = Queued \<or> s_status s = Running"
    "\<not> (s_status s = Running \<and> truthy_nullable (s_hostId s)) \<Longrightarrow> planCancel s = Eff_cancel False # releaseEffects s"
  using assms by (cases "s_status s"; simp add: planCancel_def transitionEffect_def)+

definition released_prompt :: "control_plane_state \<Rightarrow> session_record \<Rightarrow> control_plane_state" where
  "released_prompt st s = (if truthy_nullable (s_worktreeId s) then releaseWorktree st (the (nullable_opt (s_worktreeId s))) else st)"

lemma released_prompt_fields [claim_simps]:
  "st_sessions (released_prompt st s) = st_sessions st" "awaits_ack (released_prompt st s) = awaits_ack st"
  by (simp_all add: released_prompt_def claim_simps)

lemma released_prompt_touches:
  assumes "maps_ok st" and "session_owns (holds st sid) awaiting s"
  shows "touches sid st (released_prompt st s)" "holds (released_prompt st s) sid = holds st sid - worktree_of s"
  using release_own_worktree [OF assms] by (auto simp: released_prompt_def worktree_of_def truthy_set_def)

lemma cancelled_owns:
  assumes "session_owns held awaiting s" and "isActiveSessionStatus (s_status s)" and "held = {} \<or> s_status s = Running"
    and "s_status s' = Cancelled" "s_type s' = s_type s" "s_worktreeId s' = s_worktreeId s"
    "s_terminalHookHandoff s' = s_terminalHookHandoff s" "s_mainCheckoutLease s' = s_mainCheckoutLease s"
    "s_workspaceSlotId s' = s_workspaceSlotId s"
  shows "session_owns held False s'"
  using assms by (auto simp: owns_simps)

lemma detached_owns:
  assumes "session_owns held awaiting s" and "s_status s' = Cancelled" "s_type s' = s_type s" "s_worktreeId s' = Null"
    "s_terminalHookHandoff s' = None" "s_mainCheckoutLease s' = s_mainCheckoutLease s"
    "s_workspaceSlotId s' = s_workspaceSlotId s"
  shows "session_owns {} False s'"
  using assms by (auto simp: owns_simps)

definition cancelled_record :: "control_plane_state \<Rightarrow> session_record \<Rightarrow> session_record" where
  "cancelled_record st s =
    s\<lparr>s_status := Cancelled, s_errorMessage := Some ''cancelled by operator'', s_completedAt := Some (st_now st)\<rparr>"

lemma cancelSession_result:
  assumes s: "js_get (st_sessions st) sid = Some s" and own: "session_owns held awaiting s"
    and ok: "transitionEffect (planCancel s) ''reject'' = None"
  shows "s_status s = Running \<and> truthy_nullable (s_hostId s) \<Longrightarrow>
      snd (cancelSession st sid) = persistSession (cancelled_record st s)
        (send_to_host (the (nullable_opt (s_hostId s))) (Session_cancel sid (s_attemptId s)) (drop_pending_ack sid st))"
    "\<not> (s_status s = Running \<and> truthy_nullable (s_hostId s)) \<Longrightarrow>
      snd (cancelSession st sid) = persistSession
        (cancelled_record st s\<lparr>s_providerAccountLease := None, s_hostAssignmentLease := None, s_worktreeId := Null, s_hostId := Null\<rparr>)
        (snd (releaseProviderAccountLease (released_prompt (drop_pending_ack sid st) s) (cancelled_record st s)))"
proof -
  assume "s_status s = Running \<and> truthy_nullable (s_hostId s)"
  then show "snd (cancelSession st sid) = persistSession (cancelled_record st s)
        (send_to_host (the (nullable_opt (s_hostId s))) (Session_cancel sid (s_attemptId s)) (drop_pending_ack sid st))"
    by (simp add: cancelSession_def s ok Let_def cancelled_record_def planCancel_def transitionEffect_def)
next
  assume "\<not> (s_status s = Running \<and> truthy_nullable (s_hostId s))"
  note plan = cancel_plan_active(2) [OF ok this]
  have "transitionEffect (planCancel s) ''cancel'' = Some (Eff_cancel False)" by (simp add: plan transitionEffect_def)
  moreover have "transitionEffect (planCancel s) ''release_worktree'' \<noteq> None" if "truthy_nullable (s_worktreeId s)"
    using prompt_release(1) [OF own] that by (simp add: plan transitionEffect_def worktree_of_def)
  ultimately show "snd (cancelSession st sid) = persistSession
        (cancelled_record st s\<lparr>s_providerAccountLease := None, s_hostAssignmentLease := None, s_worktreeId := Null, s_hostId := Null\<rparr>)
        (snd (releaseProviderAccountLease (released_prompt (drop_pending_ack sid st) s) (cancelled_record st s)))"
    using ok
    by (auto simp: cancelSession_def s Let_def case_prod_beta released_prompt_def cancelled_record_def release_account_session)
qed

lemma cancelSession_rejected:
  assumes "js_get (st_sessions st) sid = Some s" and "transitionEffect (planCancel s) ''reject'' \<noteq> None"
  shows "snd (cancelSession st sid) = st"
proof -
  obtain e where "transitionEffect (planCancel s) ''reject'' = Some (Eff_reject e)"
    using assms(2) by (auto simp: planCancel_def transitionEffect_def releaseEffects_def split: if_splits)
  with assms(1) show ?thesis by (simp add: cancelSession_def)
qed

lemma cancelSession_keeps:
  assumes own: "ownership st" and s: "js_get (st_sessions st) sid = Some s"
  shows "keeps sid st (snd (cancelSession st sid))"
proof (cases "transitionEffect (planCancel s) ''reject''")
  case None
  note o = ownershipD [OF own s] and active = cancel_plan_active(1) [OF None]
  note res = cancelSession_result [OF s o(4) None]
  show ?thesis
  proof (cases "s_status s = Running \<and> truthy_nullable (s_hostId s)")
    case True
    have "session_owns (holds st sid) False (cancelled_record st s)"
      using cancelled_owns [OF o(4)] True by (simp add: cancelled_record_def)
    then show ?thesis
      unfolding res(1) [OF True]
      using keeps_put(2) [OF own touches_then_same [OF touches_drop_ack same_send] _ s, where s = "cancelled_record st s"] o(2)
      by (simp add: claim_simps cancelled_record_def)
  next
    case False
    let ?st1 = "released_prompt (drop_pending_ack sid st) s"
    let ?s2 = "cancelled_record st s\<lparr>s_providerAccountLease := None, s_hostAssignmentLease := None, s_worktreeId := Null, s_hostId := Null\<rparr>"
    have "maps_ok (drop_pending_ack sid st)" using touches_maps [OF touches_drop_ack o(1)] .
    from released_prompt_touches [OF this, of sid "awaits_ack st sid" s] o(4)
    have rel: "touches sid (drop_pending_ack sid st) ?st1" "holds ?st1 sid = holds st sid - worktree_of s"
      by (simp_all add: claim_simps)
    have "s_terminalHookHandoff s = None" using o(4) active by (auto simp: session_owns_def)
    moreover from this have "holds ?st1 sid = {}" using rel(2) o(4) by (auto simp: session_owns_def reserved_for_hook_def)
    moreover have "session_owns {} False ?s2"
      using o(4) calculation(1) by (auto intro!: detached_owns simp: cancelled_record_def)
    moreover have "touches sid st (snd (releaseProviderAccountLease ?st1 (cancelled_record st s)))"
      using touches_trans [OF touches_drop_ack rel(1)] touches_then_same same_release_account by blast
    ultimately show ?thesis
      unfolding res(2) [OF False] using keeps_put(2) [OF own _ _ s, where s = ?s2] o(2)
      by (simp add: claim_simps cancelled_record_def)
  qed
qed (use own cancelSession_rejected [OF s] in simp)

section \<open>Scheduled runs\<close>

lemma queued_entry_same: "same_claims st st' \<Longrightarrow> queued_entry st' ty s = queued_entry st ty s"
  by (simp add: same_claims_def queued_entry_def)

lemma keeps_queued_same:
  "ownership st \<Longrightarrow> queued_entry st ty s \<Longrightarrow> same_claims st st' \<Longrightarrow> keeps (s_id s) st st' \<and> queued_entry st' ty s"
  using keeps_same queued_entry_same by blast

lemma keeps_assigned:
  assumes own: "ownership st" and q: "queued_entry st ty s" and touch: "touches (s_id s) st st1"
    and same: "st_sessions st1 = st_sessions st" "holds st1 = holds st"
    and s': "s_id s' = s_id s" "s_type s' = s_type s" "session_owns {} True s'" and st2: "same_claims (put_session s' st1) st2"
  shows "keeps (s_id s) st (put_pending_ack (s_id s) p st2)"
proof (rule keepsI [OF own _ _ s'(1) queued_entryD(2) [OF own q]])
  have "touches (s_id s) st (put_session s' st1)"
    using touches_then_put(1) [OF touch, of s s'] q same(1) s' by (simp add: queued_entry_def)
  then show "touches (s_id s) st (put_pending_ack (s_id s) p st2)"
    using st2 touches_then_same touches_then_ack by blast
  show "js_get (st_sessions (put_pending_ack (s_id s) p st2)) (s_id s) = Some s'"
    by (simp add: claim_simps sameD(1) [OF st2] js_map_simps s'(1))
  show "session_owns (holds (put_pending_ack (s_id s) p st2) (s_id s)) (awaits_ack (put_pending_ack (s_id s) p st2) (s_id s)) s'"
    using s'(3) queued_entryD(3) [OF own q] same(2) by (simp add: claim_simps same_claims_views(1) [OF st2])
qed

lemma scheduled_assigned_owns:
  assumes "ownership st" and "queued_entry st Type_scheduled s"
  shows "session_owns {} True (scheduled_assigned st' s h c r now a o' k l)"
  using queued_entryD [OF assms] assms(2) by (auto simp: owns_simps scheduled_assigned_def queued_entry_def)

lemma dispatch_scheduled_keeps:
  assumes own: "ownership st" and q: "queued_entry st Type_scheduled s" and same: "same_claims st st1"
  shows "keeps (s_id s) st (dispatch_scheduled st1 s h c r now a k l)"
proof -
  define o' where "o' = hasHostCapability (Option.bind (js_get (st_connections st1) c) conn_capabilities) Session_outputs"
  define s1 where "s1 = scheduled_assigned st1 s h c r now a o' k l"
  define st2 where "st2 = touch_scheduled_account (rt_providerAccountId r) now (put_session s1 st1)"
  define st3 where "st3 = st2\<lparr>st_mainCheckoutLeases := js_set (leaseKey h (s_repositoryId s))
    \<lparr>cl_sessionId = s_id s, cl_connectionId = c\<rparr> (st_mainCheckoutLeases st2)\<rparr>"
  have "same_claims (put_session s1 st1) st3"
    using same_touch_scheduled [of "put_session s1 st1"] by (simp add: st3_def st2_def same_claims_def)
  then have "keeps (s_id s) st (put_pending_ack (s_id s) p st3)" for p
    using own q same scheduled_assigned_owns [OF own q]
    by (intro keeps_assigned [OF own q touches_same [OF same] sameD(1) [OF same] same_claims_views(1) [OF same], of s1])
      (auto simp: s1_def scheduled_assigned_def)
  then show ?thesis
    using keeps_then_same same_send
    unfolding dispatch_scheduled_def Let_def o'_def [symmetric] s1_def [symmetric] st2_def [symmetric] st3_def [symmetric]
    by blast
qed

lemma scheduled_candidate_keeps:
  assumes own: "ownership st" and q: "queued_entry st Type_scheduled s"
    and res: "scheduled_candidate s now st x = (won, st')"
  shows "keeps (s_id s) st st' \<and> (\<not> won \<longrightarrow> queued_entry st' Type_scheduled s)"
proof -
  obtain h c r where x: "x = ((h, c), r)" by (metis prod.collapse)
  consider "won = False" "same_claims st st'"
    | st1 a k l where "won" "same_claims st st1" "st' = dispatch_scheduled st1 s h c r now a k l"
  proof (cases "js_get (st_connections st) c")
    case None
    then show ?thesis using that(1) res by (simp add: scheduled_candidate_def x)
  next
    case (Some conn)
    define st2 where "st2 = snd (mint_api_key (hasHostCapability (conn_capabilities conn) Session_spawn) (snd (next_attempt st)))"
    define a where "a = tryAcquireProviderAccountLeaseLocal st2 s (rt_providerAccountId r) (fst (next_attempt st)) h [] True"
    have same: "same_claims st (snd a)" "same_claims st (drop_lease (fst a) (snd a))"
      unfolding a_def st2_def by (meson same_drop_lease same_acquire same_mint same_next_attempt same_trans)+
    have "(won, st') = (False, st) \<or> (won, st') = (False, snd a) \<or> (won, st') = (False, drop_lease (fst a) (snd a))
        \<or> (\<exists>k. (won, st') = (True, dispatch_scheduled (snd a) s h c r now (fst (next_attempt st)) k (fst a)))"
      unfolding res [symmetric]
      by (auto simp: scheduled_candidate_def x Some Let_def case_prod_beta a_def st2_def)
    then show ?thesis using that same same_refl by fast
  qed
  then show ?thesis
    by cases (use own q keeps_queued_same dispatch_scheduled_keeps [OF own q] in auto)
qed

lemma assign_scheduled_session_keeps:
  assumes own: "ownership st" and q: "queued_entry st Type_scheduled s"
  shows "keeps (s_id s) st (snd (assign_scheduled_session lc cat now hosts (assigned, st) s))"
proof (cases "planScheduledPlacement lc st cat s hosts")
  case (Scheduled_assign cs)
  have "keeps (s_id s) st (snd (try_candidates (scheduled_candidate s now) st cs))"
    by (rule try_candidates_keeps [OF _ own q]) (use scheduled_candidate_keeps in blast)
  then show ?thesis by (simp add: assign_scheduled_session_def Scheduled_assign case_prod_beta)
next
  case Scheduled_cancel
  then show ?thesis
    using cancelSession_keeps [OF own] q by (simp add: assign_scheduled_session_def queued_entry_def)
qed (use own expire_keeps(1) [OF own q] in \<open>simp_all add: assign_scheduled_session_def\<close>)

lemma assignScheduledQueued_ownership:
  assumes lc: "js_comparator lc" and own: "ownership st"
  shows "ownership (snd (assignScheduledQueued lc st only))"
  unfolding assignScheduledQueued_def Let_def
  by (rule fold_queue_keeps [where ty = Type_scheduled])
    (use own queue_entries [OF lc own] assign_scheduled_session_keeps in \<open>auto simp: split_paired_all\<close>)

section \<open>Workspace sessions\<close>

lemma workspace_assigned_owns:
  assumes "ownership st" and "queued_entry st Type_workspace s"
  shows "session_owns {} True (workspace_assigned s x r argv a now o' l)"
  using queued_entryD [OF assms] assms(2) by (auto simp: owns_simps workspace_assigned_def queued_entry_def)

lemma same_put_slot: "same_claims st st' \<Longrightarrow> same_claims (put_slot k x st) (put_slot k x st')"
  by (simp add: same_claims_def put_slot_def)

lemma put_slot_session: "put_slot k x (put_session s st) = put_session s (put_slot k x st)"
  by (simp add: put_slot_def put_session_def)

lemma workspace_candidate_cases:
  assumes res: "workspace_candidate s now st (x, r) = (won, st')"
  obtains "\<not> won" "same_claims st st'"
  | st1 argv a o' l p m x1 where "won" "same_claims st st1" "slot_currentSessionId x1 = Some (s_id s)"
      "st' = send_to_host (slot_hostId x) m (put_pending_ack (s_id s) p (touchAccount (rt_providerAccountId r) now
        (put_slot (slot_id x) x1 (put_session (workspace_assigned s x r argv a now o' l) st1))))"
proof -
  define st1 where "st1 = snd (next_attempt st)"
  define a where "a = tryAcquireProviderAccountLeaseLocal st1 s (rt_providerAccountId r) (fst (next_attempt st)) (slot_hostId x) [] True"
  have same: "same_claims st st1" "same_claims st (snd a)" "same_claims st (drop_lease (fst a) (snd a))"
    unfolding a_def st1_def by (meson same_drop_lease same_acquire same_next_attempt same_trans)+
  have "(won, st') = (False, st) \<or> (won, st') = (False, st1) \<or> (won, st') = (False, snd a)
      \<or> (won, st') = (False, drop_lease (fst a) (snd a))
      \<or> (\<exists>argv o' p m x1. (won, st') = (True, send_to_host (slot_hostId x) m
        (put_pending_ack (s_id s) p (touchAccount (rt_providerAccountId r) now
        (put_slot (slot_id x) x1 (put_session (workspace_assigned s x r argv (fst (next_attempt st)) now o' (fst a)) (snd a))))))
        \<and> slot_currentSessionId x1 = Some (s_id s))"
    unfolding res [symmetric] workspace_candidate_def prod.case Let_def case_prod_beta a_def st1_def
    by auto (intro exI conjI, rule refl, simp)+
  with that same show thesis by (auto simp: fun_eq_iff)
qed

lemma workspace_candidate_keeps:
  assumes own: "ownership st" and q: "queued_entry st Type_workspace s"
    and res: "workspace_candidate s now st c = (won, st')"
  shows "keeps (s_id s) st st' \<and> (\<not> won \<longrightarrow> queued_entry st' Type_workspace s)"
proof (cases c)
  case (Pair x r)
  from res [unfolded Pair] show ?thesis
  proof (cases rule: workspace_candidate_cases)
    case 1
    with keeps_queued_same [OF own q] show ?thesis by blast
  next
    case (2 st1 argv a o' l p m x1)
    define s1 where "s1 = workspace_assigned s x r argv a now o' l"
    define st2 where "st2 = put_slot (slot_id x) x1 st1"
    have ws: "is_workspace_session st1 (s_id s)"
      using q by (simp add: is_workspace_session_def sameD(1) [OF 2(2)] queued_entry_def)
    have "touches (s_id s) st st2"
      unfolding st2_def using touches_trans [OF touches_same [OF 2(2)] touches_slot] ws 2(3) by blast
    moreover have "st_sessions st2 = st_sessions st" "holds st2 = holds st"
      by (simp_all add: st2_def claim_simps sameD(1) [OF 2(2)] same_claims_views(1) [OF 2(2)])
    ultimately have "keeps (s_id s) st (put_pending_ack (s_id s) p (touchAccount (rt_providerAccountId r) now (put_session s1 st2)))"
      using workspace_assigned_owns [OF own q]
      by (intro keeps_assigned [OF own q _ _ _ _ _ _ same_touch_account]) (auto simp: s1_def workspace_assigned_def)
    then show ?thesis
      using 2 keeps_then_same [OF _ same_send] by (simp add: s1_def st2_def put_slot_session)
  qed
qed

lemma assign_workspace_session_keeps:
  assumes own: "ownership st" and q: "queued_entry st Type_workspace s"
  shows "keeps (s_id s) st (snd (assign_workspace_session lc cat now (assigned, st) s))"
proof (cases "planWorkspacePlacement lc st cat s (date_parse now)")
  case (Workspace_assign cs)
  have "keeps (s_id s) st (snd (try_candidates (workspace_candidate s now) st cs))"
    by (rule try_candidates_keeps [OF _ own q]) (use workspace_candidate_keeps in blast)
  then show ?thesis by (simp add: assign_workspace_session_def Workspace_assign case_prod_beta)
qed (use own expire_keeps(1) [OF own q] in \<open>simp_all add: assign_workspace_session_def\<close>)

lemma assignWorkspaceQueued_ownership:
  assumes lc: "js_comparator lc" and own: "ownership st"
  shows "ownership (snd (assignWorkspaceQueued lc st only))"
  unfolding assignWorkspaceQueued_def Let_def
  by (rule fold_queue_keeps [where ty = Type_workspace])
    (use own queue_entries [OF lc own] assign_workspace_session_keeps in \<open>auto simp: split_paired_all\<close>)

section \<open>Acknowledgement deadline and running timeout\<close>

lemma freed_owns:
  assumes "session_owns held awaiting s" and "s_status s' = Queued" "s_type s' = s_type s" "s_worktreeId s' = Null"
    "s_terminalHookHandoff s' = None" "truthy_bool (s_mainCheckoutLease s') \<longrightarrow> truthy_bool (s_mainCheckoutLease s)"
    "truthy_nullable (s_workspaceSlotId s') \<longrightarrow> truthy_nullable (s_workspaceSlotId s)"
  shows "session_owns {} awaiting' s'"
  using assms by (auto simp: owns_simps)

lemma ended_owns:
  assumes "session_owns held awaiting s" and "isTerminalSessionStatus (s_status s')" "s_type s' = s_type s"
    "s_worktreeId s' = Null" "s_terminalHookHandoff s' = None"
    "truthy_bool (s_mainCheckoutLease s') \<longrightarrow> truthy_bool (s_mainCheckoutLease s)"
    "truthy_nullable (s_workspaceSlotId s') \<longrightarrow> truthy_nullable (s_workspaceSlotId s)"
  shows "session_owns {} False s'"
  using assms by (auto simp: owns_simps simp flip: active_not_terminal)

lemma session_owns_drop: "session_owns held awaiting s \<Longrightarrow> session_owns held False s"
  by (auto simp: session_owns_def)

lemma drop_ack_ownership:
  assumes own: "ownership st"
  shows "ownership (drop_pending_ack sid st)"
proof (rule ownership_touch [OF own touches_drop_ack])
  show "entry_owns (drop_pending_ack sid st) sid"
    using own session_owns_drop [of "holds st sid" "awaits_ack st sid"] by (simp add: ownership_def entry_owns_def claim_simps)
qed

lemma keeps_set:
  assumes own: "ownership st" and "touches sid st st1" and same: "st_sessions st1 = st_sessions st"
    and s0: "js_get (st_sessions st) sid = Some s0" and "s_id s = sid" and "s_type s = s_type s0"
    and "session_owns (holds st1 sid) False s"
  shows "keeps sid st (drop_pending_ack sid (st1\<lparr>st_sessions := js_set sid s (st_sessions st1)\<rparr>))"
proof (rule keepsI [OF own _ _ assms(5) ownershipD(3) [OF own s0]])
  show "touches sid st (drop_pending_ack sid (st1\<lparr>st_sessions := js_set sid s (st_sessions st1)\<rparr>))"
    using touches_then_drop [OF touches_then_set [OF assms(2), of s0 s]] assms by simp
qed (use assms(7) in \<open>simp_all add: claim_simps js_map_simps holds_def holder_of_def\<close>)

definition missed_ack :: "pending_ack \<Rightarrow> session_record \<Rightarrow> session_record" where
  "missed_ack p s =
    (if truthy_str (pa_worktreeId p)
     then s\<lparr>s_providerAccountLease := None, s_hostAssignmentLease := None, s_status := Queued, s_worktreeId := Null,
            s_hostId := Null, s_startedAt := None, s_sessionApiKeyHash := None\<rparr>
     else queueReconnectSession (s\<lparr>s_providerAccountLease := None, s_hostAssignmentLease := None\<rparr>)
       ''agent did not acknowledge assignment; requeued'')"

lemma missed_ack_keeps:
  assumes own: "ownership st" and s: "js_get (st_sessions st) sid = Some s" and await: "awaits_ack st sid"
    and m: "matches_pending s p"
    and st1: "st1 = (if truthy_str (pa_worktreeId p) then releaseWorktree st (the (pa_worktreeId p))
      else snd (releaseScheduledLeaseLocal st s))"
    and st2: "st2 = snd (releaseProviderAccountLease st1 s)"
  shows "keeps sid st (drop_pending_ack sid (st2\<lparr>st_sessions := js_set sid (missed_ack p s) (st_sessions st2)\<rparr>))"
proof -
  note o = ownershipD [OF own s]
  have handoff: "s_terminalHookHandoff s = None"
    using o(4) await by (auto simp: session_owns_def)
  then have held: "holds st sid = worktree_of s" using o(4) by (auto simp: session_owns_def reserved_for_hook_def)
  have st1': "touches sid st st1 \<and> holds st1 sid = {} \<and> st_sessions st1 = st_sessions st"
  proof (cases "truthy_str (pa_worktreeId p)")
    case True
    then have w: "s_worktreeId s = Val (the (pa_worktreeId p))" "the (pa_worktreeId p) \<noteq> []"
      using m by (cases "pa_worktreeId p"; auto simp: matches_pending_def split: nullable.splits)+
    then have "truthy_nullable (s_worktreeId s)" by simp
    from release_own_worktree(1,2) [OF o(1,4) this] show ?thesis using w True held by (simp add: st1 claim_simps)
  next
    case False
    then have "worktree_of s = {}"
      using m by (cases "pa_worktreeId p") (auto simp: matches_pending_def worktree_of_def split: nullable.splits)
    with False held show ?thesis by (simp add: st1 claim_simps touches_same)
  qed
  have "session_owns {} False (missed_ack p s)"
    using o(4) handoff by (auto intro!: freed_owns simp: missed_ack_def queueReconnectSession_def truthy_bool_def)
  then show ?thesis
    using st1' touches_then_same [of sid st st1 st2] o(2)
    by (intro keeps_set [OF own _ _ s]) (auto simp: st2 claim_simps missed_ack_def queueReconnectSession_def)
qed

lemma enforce_ack_ownership:
  assumes own: "ownership st" and await: "awaits_ack st sid"
  shows "ownership (snd (enforce_ack nowMs (ids, st) (sid, p)))"
    "t \<noteq> sid \<Longrightarrow> awaits_ack (snd (enforce_ack nowMs (ids, st) (sid, p))) t = awaits_ack st t"
proof -
  let ?r = "snd (enforce_ack nowMs (ids, st) (sid, p))"
  consider "?r = st" | "?r = drop_pending_ack sid st"
    | s st1 st2 where "js_get (st_sessions st) sid = Some s" "matches_pending s p"
        "st1 = (if truthy_str (pa_worktreeId p) then releaseWorktree st (the (pa_worktreeId p))
          else snd (releaseScheduledLeaseLocal st s))" "st2 = snd (releaseProviderAccountLease st1 s)"
        "?r = drop_pending_ack sid (st2\<lparr>st_sessions := js_set sid (missed_ack p s) (st_sessions st2)\<rparr>)"
  proof -
    consider "\<not> ack_overdue st nowMs p" | "ack_overdue st nowMs p" "js_get (st_sessions st) sid = None"
      | s where "ack_overdue st nowMs p" "js_get (st_sessions st) sid = Some s" "\<not> matches_pending s p"
      | s where "ack_overdue st nowMs p" "js_get (st_sessions st) sid = Some s" "matches_pending s p"
      by (cases "js_get (st_sessions st) sid") auto
    then show thesis
    proof cases
      case (4 s)
      then show thesis
        by (intro that(3) [OF 4(2,3) refl refl])
          (simp add: enforce_ack_def Let_def case_prod_beta missed_ack_def release_account_session)
    qed (use that in \<open>simp_all add: enforce_ack_def\<close>)
  qed
  note c = this
  show "ownership (snd (enforce_ack nowMs (ids, st) (sid, p)))"
    using c by cases (use own drop_ack_ownership missed_ack_keeps [OF own _ await] in \<open>auto simp: keeps_def\<close>)
  show "t \<noteq> sid \<Longrightarrow> awaits_ack (snd (enforce_ack nowMs (ids, st) (sid, p))) t = awaits_ack st t"
    using c by cases (use missed_ack_keeps [OF own _ await] in \<open>auto simp: keeps_def touches_def claim_simps\<close>)
qed

lemma fold_acks_ownership:
  assumes "ownership (snd acc)" and "distinct (map fst ps)" and "\<forall>(sid, p)\<in>set ps. awaits_ack (snd acc) sid"
  shows "ownership (snd (foldl (enforce_ack nowMs) acc ps))"
  using assms
proof (induction ps arbitrary: acc)
  case (Cons e ps)
  obtain sid p ids st where e: "e = (sid, p)" "acc = (ids, st)" by force
  note k = enforce_ack_ownership [where st = st and sid = sid and nowMs = nowMs and ids = ids and p = p]
  have "awaits_ack (snd (enforce_ack nowMs acc e)) t" if "(t, q) \<in> set ps" for t q
  proof -
    have "t \<noteq> sid" using Cons.prems(2) that by (force simp: e)
    with k(2) Cons.prems that show ?thesis by (force simp: e)
  qed
  with k(1) Cons.prems show ?case by (simp, intro Cons.IH) (auto simp: e)
qed simp

lemma enforceAckDeadlines_ownership:
  assumes "ownership st"
  shows "ownership (snd (enforceAckDeadlines st nowMs))"
  unfolding enforceAckDeadlines_def
proof (rule fold_acks_ownership)
  have wf: "js_wf (st_pendingAcks st)" using assms by (simp add: ownership_def maps_ok_def)
  then show "distinct (map fst (st_pendingAcks st))" by (simp add: js_wf_def)
  show "\<forall>(sid, p)\<in>set (st_pendingAcks st). awaits_ack (snd ([], st)) sid"
    using js_in_get [OF wf] by (auto simp: awaits_ack_def js_map_simps)
qed (simp add: assms)

lemma touches_slots:
  assumes "js_wf (st_workspaceSlots st) \<Longrightarrow> js_wf m"
    and "\<And>k x t. js_get m k = Some x \<Longrightarrow> slot_currentSessionId x = Some t \<Longrightarrow>
      \<exists>x0. js_get (st_workspaceSlots st) k = Some x0 \<and> slot_currentSessionId x0 = Some t"
  shows "touches sid st (st\<lparr>st_workspaceSlots := m\<rparr>)"
proof -
  have "maps_ok st \<longrightarrow> maps_ok (st\<lparr>st_workspaceSlots := m\<rparr>)" using assms(1) by (simp add: maps_ok_def)
  then show ?thesis
    using assms(2) by (simp add: touches_def awaits_ack_def holds_def holder_of_def is_workspace_session_def)
qed

lemma touches_free_slot: "slot_currentSessionId x = None \<Longrightarrow> touches sid st (put_slot k x st)"
  by (rule touches_slot) simp_all

definition frees_slot :: "session_record \<Rightarrow> control_plane_state \<Rightarrow> session_record \<times> control_plane_state \<Rightarrow> bool" where
  "frees_slot s st r \<longleftrightarrow> touches (s_id s) st (snd r) \<and> st_sessions (snd r) = st_sessions st \<and> holds (snd r) = holds st
    \<and> awaits_ack (snd r) = awaits_ack st \<and> st_worktrees (snd r) = st_worktrees st
    \<and> (fst r = s \<and> \<not> truthy_nullable (s_workspaceSlotId s) \<or> fst r = s\<lparr>s_workspaceSlotId := Null, s_workspaceSlotLease := None\<rparr>)"

lemma timeout_release_slot_frees: "frees_slot s st (timeout_release_slot st s)"
  by (auto simp: frees_slot_def timeout_release_slot_def Let_def claim_simps intro: touches_free_slot split: option.splits)
    (simp_all add: put_slot_def)

lemma remove_retired_slot:
  "touches sid st (snd (removeReleasedRetiredWorkspaceSlot st k))"
  "st_sessions (snd (removeReleasedRetiredWorkspaceSlot st k)) = st_sessions st"
  "st_worktrees (snd (removeReleasedRetiredWorkspaceSlot st k)) = st_worktrees st"
  "st_pendingAcks (snd (removeReleasedRetiredWorkspaceSlot st k)) = st_pendingAcks st"
  by (auto simp: removeReleasedRetiredWorkspaceSlot_def js_map_simps intro!: touches_slots split: option.splits if_splits)

lemma release_slot_frees: "frees_slot s st (releaseWorkspaceSlotLocal st s error)"
proof -
  have "touches (s_id s) st (snd (removeReleasedRetiredWorkspaceSlot (put_slot k x st) k))"
    if "slot_currentSessionId x = None" for k x
    using touches_trans [OF touches_free_slot [OF that] remove_retired_slot(1)] .
  then show ?thesis
    by (auto simp: frees_slot_def releaseWorkspaceSlotLocal_def Let_def remove_retired_slot put_slot_def holds_def
        holder_of_def awaits_ack_def fun_eq_iff split: option.splits)
qed

lemma timed_out_release:
  assumes own: "ownership st" and s: "js_get (st_sessions st) sid = Some s" and run: "s_status s = Running"
    and s1: "s_id s1 = sid" "s_worktreeId s1 = s_worktreeId s" "s_workspaceSlotId s1 = s_workspaceSlotId s"
    and touch: "touches sid st st2" "st_sessions st2 = st_sessions st" "holds st2 = holds st" "\<not> awaits_ack st2 sid"
    and r: "r = (if truthy_bool (s_mainCheckoutLease s)
            then (clear_checkout_fields s1, snd (releaseScheduledLeaseLocal st2 s1))
            else if truthy_nullable (s_worktreeId s)
            then (s1, release_owned_worktree st2 (the (nullable_opt (s_worktreeId s))) sid)
            else timeout_release_slot st2 s1)"
  shows "touches sid st (snd r) \<and> st_sessions (snd r) = st_sessions st \<and> holds (snd r) sid = {} \<and> \<not> awaits_ack (snd r) sid
    \<and> (fst r = s1 \<or> fst r = clear_checkout_fields s1 \<or> fst r = s1\<lparr>s_workspaceSlotId := Null, s_workspaceSlotLease := None\<rparr>)"
proof -
  note o = ownershipD [OF own s]
  have held: "holds st sid = worktree_of s" using session_owns_running(1) [OF o(4) run] .
  have maps: "maps_ok st2" using touches_maps [OF touch(1) o(1)] .
  consider "truthy_bool (s_mainCheckoutLease s)" "worktree_of s = {}"
    | "\<not> truthy_bool (s_mainCheckoutLease s)" "truthy_nullable (s_worktreeId s)"
    | "\<not> truthy_bool (s_mainCheckoutLease s)" "\<not> truthy_nullable (s_worktreeId s)" "worktree_of s = {}"
    using o(4) by (auto simp: session_owns_def worktree_of_def)
  then show ?thesis
  proof cases
    case 1
    then show ?thesis using touch held by (simp add: r claim_simps touches_then_same)
  next
    case 2
    have "session_owns (holds st2 sid) (awaits_ack st sid) s" using o(4) touch(3) by simp
    note rel = release_own_worktree [OF maps this 2(2)]
    show ?thesis using 2 rel touch held touches_trans [OF touch(1) rel(1)] by (simp add: r claim_simps)
  next
    case 3
    then show ?thesis
      using timeout_release_slot_frees [of s1 st2] touch held touches_trans [OF touch(1)]
      by (auto simp: r frees_slot_def s1)
  qed
qed

lemma timeOut_keeps:
  assumes own: "ownership st" and s: "js_get (st_sessions st) sid = Some s" and run: "s_status s = Running"
  shows "keeps sid st (timeOutAcknowledgedSession st s)"
proof -
  note o = ownershipD [OF own s]
  define s1 where "s1 = s\<lparr>s_status := Timed_out, s_errorMessage := Some TIMEOUT_ERROR, s_completedAt := Some (st_now st)\<rparr>"
  define st2 where "st2 = (if truthy_nullable (s_hostId s)
    then send_to_host (the (nullable_opt (s_hostId s))) (Session_cancel sid (s_attemptId s)) (drop_pending_ack sid st)
    else drop_pending_ack sid st)"
  define r where "r = (if truthy_bool (s_mainCheckoutLease s)
            then (clear_checkout_fields s1, snd (releaseScheduledLeaseLocal st2 s1))
            else if truthy_nullable (s_worktreeId s)
            then (s1, release_owned_worktree st2 (the (nullable_opt (s_worktreeId s))) sid)
            else timeout_release_slot st2 s1)"
  have "touches sid st st2" by (simp add: st2_def touches_drop_ack touches_then_same [OF touches_drop_ack same_send])
  then have rel: "touches sid st (snd r) \<and> st_sessions (snd r) = st_sessions st \<and> holds (snd r) sid = {} \<and> \<not> awaits_ack (snd r) sid
    \<and> (fst r = s1 \<or> fst r = clear_checkout_fields s1 \<or> fst r = s1\<lparr>s_workspaceSlotId := Null, s_workspaceSlotLease := None\<rparr>)"
    by (intro timed_out_release [OF own s run _ _ _ _ _ _ _ r_def]) (use o(2) in \<open>auto simp: s1_def st2_def claim_simps\<close>)
  have "\<exists>h c. timeOutAcknowledgedSession st s = persistSession
      ((fst r)\<lparr>s_worktreeId := Null, s_hostId := Null, s_timedOutHostId := h, s_timedOutAssignmentConnectionId := c\<rparr>) (snd r)"
    unfolding timeOutAcknowledgedSession_def Let_def case_prod_beta r_def st2_def s1_def o(2) by (intro exI) (rule refl)
  then obtain h c where res: "timeOutAcknowledgedSession st s = persistSession
      ((fst r)\<lparr>s_worktreeId := Null, s_hostId := Null, s_timedOutHostId := h, s_timedOutAssignmentConnectionId := c\<rparr>) (snd r)"
    by blast
  have "session_owns {} False ((fst r)\<lparr>s_worktreeId := Null, s_hostId := Null, s_timedOutHostId := h, s_timedOutAssignmentConnectionId := c\<rparr>)"
    using o(4) session_owns_running(2) [OF o(4) run] rel
    by (auto intro!: ended_owns simp: s1_def clear_checkout_fields_def truthy_bool_def)
  then show ?thesis
    unfolding res using rel o(2) by (intro keeps_put(2) [OF own _ _ s]) (auto simp: s1_def clear_checkout_fields_def)
qed

lemma enforceRunningTimeouts_ownership:
  assumes own: "ownership st"
  shows "ownership (snd (enforceRunningTimeouts st nowMs))"
  unfolding enforceRunningTimeouts_def
proof (rule fold_entries_keeps [where P = "\<lambda>s. True"])
  fix acc :: "string list \<times> control_plane_state" and s
  assume "ownership (snd acc)" and "js_get (st_sessions (snd acc)) (s_id s) = Some s"
  then show "keeps (s_id s) (snd acc) (snd ((\<lambda>(ids, st) s. if isAcknowledgedRunningDue s nowMs
      then (ids @ [s_id s], timeOutAcknowledgedSession st s) else (ids, st)) acc s))"
    using timeOut_keeps [of "snd acc" "s_id s" s]
    by (cases "s_status s = Running") (auto simp: isAcknowledgedRunningDue_def case_prod_beta)
qed (use own session_ids [OF own] in simp_all)

end
