(* ===== verification/HostOwnership.thy ===== *)
theory HostOwnership
  imports AssignmentOwnership
begin

text \<open>
  Hosts that disconnect, go stale, drain or resume keep the invariant of \<open>Ownership\<close>
  (\<open>control-plane-worktrees.ts\<close>, \<open>control-plane-agents.ts\<close>). The sweeps run over a snapshot of the worktrees, the
  sessions or the slots; each step leaves the entries still to come as the snapshot has them.
\<close>

section \<open>Worktrees whose holder stays\<close>

definition claim_of :: "worktree_record \<Rightarrow> string \<times> worktree_status \<times> string option" where
  "claim_of w = (wt_id w, wt_status w, wt_currentSessionId w)"

lemma keeps_view:
  assumes own: "ownership st" and touch: "touches sid st st'" and "st_sessions st' = st_sessions st"
    and "holds st' = holds st" and "awaits_ack st' = awaits_ack st"
  shows "keeps sid st st'"
proof -
  have "entry_owns st sid" using own by (simp add: ownership_def)
  then have "entry_owns st' sid" by (simp add: entry_owns_def assms(3-))
  with ownership_touch [OF own touch] touch show ?thesis by (simp add: keeps_def)
qed

lemma same_holders:
  assumes "js_wf (st_worktrees st) \<Longrightarrow> js_wf m"
    and claims: "\<And>k. map_option claim_of (js_get m k) = map_option claim_of (js_get (st_worktrees st) k)"
  shows "holds (st\<lparr>st_worktrees := m\<rparr>) = holds st" "touches sid st (st\<lparr>st_worktrees := m\<rparr>)"
    "ownership st \<Longrightarrow> keeps sid st (st\<lparr>st_worktrees := m\<rparr>)"
proof -
  have entry: "js_get m k = Some w \<Longrightarrow> \<exists>w0. js_get (st_worktrees st) k = Some w0 \<and> claim_of w0 = claim_of w" for k w
    using claims [of k] by (cases "js_get (st_worktrees st) k") auto
  have "holder_of (st\<lparr>st_worktrees := m\<rparr>) k = holder_of st k" for k
    using claims [of k] by (auto simp: holder_of_def claim_of_def split: option.splits)
  then show h: "holds (st\<lparr>st_worktrees := m\<rparr>) = holds st" by (simp add: fun_eq_iff holds_def)
  have "maps_ok st \<longrightarrow> maps_ok (st\<lparr>st_worktrees := m\<rparr>)"
    using assms(1) entry by (fastforce simp: maps_ok_def worktree_entry_ok_def claim_of_def)
  then show t: "touches sid st (st\<lparr>st_worktrees := m\<rparr>)" for sid
    using h by (simp add: touches_def awaits_ack_def is_workspace_session_def)
  show "keeps sid st (st\<lparr>st_worktrees := m\<rparr>)" if "ownership st"
    by (rule keeps_view [OF that t]) (simp_all add: h awaits_ack_def fun_eq_iff)
qed

lemma offline_flag:
  assumes "js_get (st_worktrees st) (wt_id w) = Some w"
  shows "holds (put_worktree (wt_id w) (w\<lparr>wt_online := b\<rparr>) st) = holds st"
    "touches sid st (put_worktree (wt_id w) (w\<lparr>wt_online := b\<rparr>) st)"
    "ownership st \<Longrightarrow> keeps sid st (put_worktree (wt_id w) (w\<lparr>wt_online := b\<rparr>) st)"
  unfolding put_worktree_def
  by (rule same_holders; simp add: js_map_simps assms claim_of_def)+

section \<open>A host goes away\<close>

lemma keeps_deadline:
  assumes own: "ownership st" and s: "js_get (st_sessions st) sid = Some s"
  shows "keeps sid st (put_session (s\<lparr>s_reconnectDeadlineAt := d\<rparr>) st)"
    "keeps sid st (persistSession (s\<lparr>s_reconnectDeadlineAt := d\<rparr>) st)"
  using keeps_put [OF own touches_refl refl s, of "s\<lparr>s_reconnectDeadlineAt := d\<rparr>"] ownershipD [OF own s]
    session_owns_cong [of "s\<lparr>s_reconnectDeadlineAt := d\<rparr>" s]
  by simp_all

lemma requeue_worktree_keeps:
  assumes own: "ownership st" and s: "js_get (st_sessions st) sid = Some s" and run: "s_status s = Running"
    and held: "w \<in> holds st sid"
    and s2: "s2 = s\<lparr>s_providerAccountLease := None, s_hostAssignmentLease := None, s_status := Queued, s_worktreeId := Null,
      s_hostId := Null, s_errorMessage := e\<rparr>"
    and st3: "st3 = snd (releaseProviderAccountLease (releaseWorktree st w) s)"
  shows "keeps sid st (drop_pending_ack sid (put_session s2 st3))"
proof -
  note o = ownershipD [OF own s]
  have "holds st sid = {w}"
    using session_owns_running(1) [OF o(4) run] held by (auto simp: worktree_of_def truthy_set_def split: if_splits)
  then have free: "holds st3 sid = {}" by (simp add: st3 claim_simps holds_release [OF o(1)])
  have "touches sid st (releaseWorktree st w)" using touches_release [OF o(1)] held by (simp add: holds_def)
  then have t: "touches sid st st3" by (simp add: st3 touches_then_same)
  have "session_owns {} False s2"
    using o(4) session_owns_running(2) [OF o(4) run] by (auto intro!: freed_owns simp: s2)
  with keeps_set [OF own t _ s, of s2] free o(2) show ?thesis
    by (simp add: s2 put_session_def st3 claim_simps)
qed

lemma offline_worktree_keeps:
  assumes own: "ownership st" and w: "js_get (st_worktrees st) (wt_id w) = Some w"
    and res: "offline_worktree h reason (ids, st) w = Some (ids', st')"
  shows "ownership st' \<and> (\<forall>k. k \<noteq> wt_id w \<longrightarrow> js_get (st_worktrees st') k = js_get (st_worktrees st) k)"
proof -
  define st1 where "st1 = put_worktree (wt_id w) (w\<lparr>wt_online := False\<rparr>) st"
  have own1: "ownership st1" using offline_flag(3) [OF w own] by (simp add: st1_def keeps_def)
  have frame1: "k \<noteq> wt_id w \<Longrightarrow> js_get (st_worktrees st1) k = js_get (st_worktrees st) k" for k
    by (simp add: st1_def put_worktree_def js_map_simps)
  have sess: "st_sessions st1 = st_sessions st" by (simp add: st1_def put_worktree_def)
  have live: "js_get (st_worktrees st1) (wt_id w) = Some (w\<lparr>wt_online := False\<rparr>)"
    by (simp add: st1_def put_worktree_def js_map_simps)
  show ?thesis
  proof (cases "wt_hostId w \<noteq> h \<or> wt_status w \<noteq> Busy \<or> \<not> truthy_str (wt_currentSessionId w)")
    case True
    with res have "st' = st \<or> st' = st1"
      by (cases "wt_hostId w \<noteq> h") (auto simp: offline_worktree_def Let_def st1_def)
    with own own1 frame1 show ?thesis by auto
  next
    case False
    then obtain sid where sid: "wt_currentSessionId w = Some sid" "truthy_str (Some sid)" and busy: "wt_status w = Busy"
      by (cases "wt_currentSessionId w") auto
    note leaf = res [unfolded offline_worktree_def Let_def prod.case, folded st1_def]
    show ?thesis
    proof (cases "js_get (st_sessions st1) sid")
      case None
      with leaf sid busy False own1 frame1 show ?thesis by simp
    next
      case (Some s)
      consider "s_status s = Running" "\<not> truthy_str (s_ackReceivedAt s)" | "s_status s = Running" "truthy_str (s_ackReceivedAt s)"
        | "s_status s \<noteq> Running" by blast
      then show ?thesis
      proof cases
        case 1
        have held: "wt_id w \<in> holds st1 sid" using sid busy live by (simp add: holds_def holder_of_def)
        define st2 where "st2 = releaseWorktree st1 (wt_id w)"
        have st': "st' = drop_pending_ack sid (put_session (fst (releaseProviderAccountLease st2 s)\<lparr>s_status := Queued,
            s_worktreeId := Null, s_hostId := Null, s_errorMessage := Some reason\<rparr>) (snd (releaseProviderAccountLease st2 s)))"
          using leaf sid busy False Some 1 by (simp add: st2_def case_prod_beta)
        from requeue_worktree_keeps [OF own1 Some 1(1) held refl refl, of "Some reason"]
        have "ownership st'" by (simp add: keeps_def release_account_session st' st2_def)
        moreover have "js_get (st_worktrees st') k = js_get (st_worktrees st) k" if "k \<noteq> wt_id w" for k
          using frame1 [OF that] that
          by (simp add: st' st2_def claim_simps releaseWorktree_def live persistWorktree_def js_map_simps)
        ultimately show ?thesis by blast
      next
        case 2
        with leaf sid busy False Some obtain d where "st' = put_session (s\<lparr>s_reconnectDeadlineAt := Some d\<rparr>) st1"
          by (cases "reconnect_deadline st1") auto
        with keeps_deadline(1) [OF own1 Some, of "Some d"] frame1 show ?thesis by (simp add: keeps_def claim_simps)
      qed (use leaf sid busy False Some own1 frame1 in simp)
    qed
  qed
qed

lemma worktree_ids:
  assumes "ownership st"
  shows "distinct (map wt_id (js_values (st_worktrees st)))"
    "w \<in> set (js_values (st_worktrees st)) \<Longrightarrow> js_get (st_worktrees st) (wt_id w) = Some w"
proof -
  have wf: "js_wf (st_worktrees st)" and id: "\<And>k w. js_get (st_worktrees st) k = Some w \<Longrightarrow> wt_id w = k"
    using ownership_maps [OF assms] by (auto simp: maps_ok_def worktree_entry_ok_def)
  have "wt_id w = k" if "(k, w) \<in> set (st_worktrees st)" for k w
    using id wf that by (simp add: js_map_simps js_wf_def js_get_def)
  then have "map wt_id (js_values (st_worktrees st)) = map fst (st_worktrees st)" by (auto simp: js_values_def)
  with wf show "distinct (map wt_id (js_values (st_worktrees st)))" by (simp add: js_wf_def)
  show "js_get (st_worktrees st) (wt_id w) = Some w" if "w \<in> set (js_values (st_worktrees st))"
    using that wf id by (auto simp: js_values_def js_wf_def js_get_def)
qed

lemma offline_worktrees_ownership:
  assumes "ownership st" and "distinct (map wt_id ws)" and "\<forall>w\<in>set ws. js_get (st_worktrees st) (wt_id w) = Some w"
    and "fold_option (offline_worktree h reason) (ids, st) ws = Some (ids', st')"
  shows "ownership st'"
  using assms
proof (induction ws arbitrary: ids st)
  case (Cons w ws)
  from Cons.prems(4) obtain ids1 st1 where step: "offline_worktree h reason (ids, st) w = Some (ids1, st1)"
    and rest: "fold_option (offline_worktree h reason) (ids1, st1) ws = Some (ids', st')"
    by (auto split: option.splits)
  have "ownership st1 \<and> (\<forall>k. k \<noteq> wt_id w \<longrightarrow> js_get (st_worktrees st1) k = js_get (st_worktrees st) k)"
    using offline_worktree_keeps [OF Cons.prems(1) _ step] Cons.prems(3) by simp
  then have "ownership st1" "\<forall>v\<in>set ws. js_get (st_worktrees st1) (wt_id v) = Some v"
    using Cons.prems(2,3) by (simp_all add: image_iff) metis
  with Cons.prems(2) Cons.IH [OF _ _ _ rest] show ?case by simp
qed simp

lemma fold_option_entries_keeps:
  assumes step: "\<And>ids st s ids' st'. ownership st \<Longrightarrow> js_get (st_sessions st) (s_id s) = Some s \<Longrightarrow>
      f (ids, st) s = Some (ids', st') \<Longrightarrow> keeps (s_id s) st st'"
    and "ownership st" and "distinct (map s_id xs)" and "\<forall>s\<in>set xs. js_get (st_sessions st) (s_id s) = Some s"
    and "fold_option f (ids, st) xs = Some (ids', st')"
  shows "ownership st'"
  using assms(2-)
proof (induction xs arbitrary: ids st)
  case (Cons s xs)
  from Cons.prems(4) obtain ids1 st1 where r: "f (ids, st) s = Some (ids1, st1)"
    and rest: "fold_option f (ids1, st1) xs = Some (ids', st')"
    by (auto split: option.splits)
  have "keeps (s_id s) st st1" using step [OF Cons.prems(1) _ r] Cons.prems(3) by simp
  then have "ownership st1" "\<forall>t. t \<noteq> s_id s \<longrightarrow> js_get (st_sessions st1) t = js_get (st_sessions st) t"
    by (simp_all add: keeps_def touches_def)
  then have "ownership st1" "\<forall>t\<in>set xs. js_get (st_sessions st1) (s_id t) = Some t"
    using Cons.prems(2,3) by (simp_all add: image_iff) metis
  with Cons.prems(2) Cons.IH [OF _ _ _ rest] show ?case by simp
qed simp

lemma requeued_owns: "session_owns held awaiting s \<Longrightarrow> s_status s = Running \<Longrightarrow>
    session_owns {} awaiting' (queueReconnectSession s reason)"
  using session_owns_running(2) by (auto intro!: freed_owns simp: queueReconnectSession_def truthy_bool_def)

lemma offline_scheduled_keeps:
  assumes own: "ownership st" and s: "js_get (st_sessions st) (s_id s) = Some s"
    and res: "offline_scheduled h reason (ids, st) s = Some (ids', st')"
  shows "keeps (s_id s) st st'"
proof -
  note o = ownershipD [OF own s]
  define st2 where "st2 = snd (releaseProviderAccountLease (snd (releaseScheduledLeaseLocal st s)) s)"
  define s1 where "s1 = fst (releaseProviderAccountLease (snd (releaseScheduledLeaseLocal st s)) s)"
  consider "st' = st" | "truthy_bool (s_mainCheckoutLease s)" "s_status s = Running"
      "st' = drop_pending_ack (s_id s) (put_session (queueReconnectSession s1 reason) st2)"
    | d where "st' = put_session (s\<lparr>s_reconnectDeadlineAt := Some d\<rparr>) st"
    using res by (auto simp: offline_scheduled_def case_prod_beta Let_def st2_def s1_def split: if_splits option.splits)
  then show ?thesis
  proof cases
    case 2
    have "worktree_of s = {}" using o(4) 2 by (auto simp: owns_simps)
    then have free: "holds st (s_id s) = {}" using session_owns_running(1) [OF o(4) 2(2)] by simp
    have same: "same_claims st st2" unfolding st2_def using same_trans same_release_checkout same_release_account by blast
    have "session_owns {} False (queueReconnectSession s1 reason)"
      by (rule requeued_owns [of "holds st (s_id s)" "awaits_ack st (s_id s)"])
        (use o(4) 2(2) session_owns_cong [of s1 s] in \<open>simp_all add: s1_def release_account_session\<close>)
    with keeps_set [OF own touches_same [OF same] _ s, of "queueReconnectSession s1 reason"] free same
    show ?thesis
      by (simp add: 2(3) put_session_def sameD [OF same] same_claims_views [OF same] s1_def release_account_session queueReconnectSession_def)
  qed (use own keeps_deadline(1) [OF own s] in simp_all)
qed

lemma offlineHost_ownership:
  assumes own: "ownership st" and res: "offlineHostAndRequeue st h reason = Some (ids, st')"
  shows "ownership st'"
proof -
  obtain ids1 st1 where ws: "fold_option (offline_worktree h reason) ([], st) (js_values (st_worktrees st)) = Some (ids1, st1)"
    and ss: "fold_option (offline_scheduled h reason) (ids1, st1) (js_values (st_sessions st1)) = Some (ids, st')"
    using res by (auto simp: offlineHostAndRequeue_def split: option.splits)
  have own1: "ownership st1" using offline_worktrees_ownership [OF own _ _ ws] worktree_ids [OF own] by blast
  show ?thesis
    by (rule fold_option_entries_keeps [OF offline_scheduled_keeps own1 _ _ ss]) (use session_ids [OF own1] in auto)
qed

section \<open>Workspace slots of a host that goes away\<close>

lemma workspace_session:
  assumes "ownership st" and "is_workspace_session st sid" and "js_get (st_sessions st) sid = Some s"
  shows "worktree_of s = {}" "queue_type s = Type_workspace"
  using ownershipD(4) [OF assms(1,3)] assms(2,3) by (auto simp: owns_simps is_workspace_session_def)

lemma keeps_free_slot:
  assumes own: "ownership st" and "slot_currentSessionId x = None"
  shows "keeps sid st (put_slot k x st)"
  by (rule keeps_view [OF own touches_free_slot [OF assms(2)]]) (simp_all add: claim_simps)

lemma keeps_own_slot:
  assumes own: "ownership st" and "is_workspace_session st sid" and "slot_currentSessionId x = Some sid"
  shows "keeps sid st (put_slot k x st)"
  by (rule keeps_view [OF own touches_slot]) (simp_all add: assms claim_simps)

lemma keeps_slot_freed:
  assumes own: "ownership st" and s: "js_get (st_sessions st) sid = Some s" and ws: "is_workspace_session st sid"
    and same: "same_claims st st1" and s': "s_id s' = sid" "s_type s' = s_type s" "s_worktreeId s' = s_worktreeId s"
      "s_terminalHookHandoff s' = s_terminalHookHandoff s" "s_attemptId s' = s_attemptId s"
      "s_mainCheckoutLease s' = s_mainCheckoutLease s" "s_workspaceSlotId s' = Null"
    and status: "s_status s' = s_status s \<or> s_status s = Running \<and> s_status s' = Queued"
    and x: "slot_currentSessionId x = None"
  shows "keeps sid st (put_slot k x (persistSession s' st1))"
proof -
  note o = ownershipD [OF own s]
  have "session_owns (holds st1 sid) (awaits_ack st1 sid) s'"
    using o(4) workspace_session [OF own ws s] s' status by (auto simp: owns_simps same_claims_views [OF same])
  from keeps_put(2) [OF own touches_same [OF same] _ s s'(1,2) this]
  have k: "keeps sid st (persistSession s' st1)" by (simp add: sameD [OF same])
  then have "ownership (persistSession s' st1)" by (simp add: keeps_def)
  from keeps_trans [OF k keeps_free_slot [OF this x]] show ?thesis .
qed

lemma offline_slot_keeps:
  assumes own: "ownership st" and typed: "\<forall>t. slot_currentSessionId x = Some t \<longrightarrow> is_workspace_session st t"
    and res: "offline_slot h reason (ids, st) x = Some (ids', st')"
  shows "\<exists>sid. keeps sid st st'"
proof -
  define freed where "freed = x\<lparr>slot_status := (if slot_status x = Wt_error then Wt_error else Idle), slot_online := False,
    slot_currentSessionId := None\<rparr>"
  have free: "slot_currentSessionId freed = None" by (simp add: freed_def)
  note leaf = res [unfolded offline_slot_def Let_def prod.case, folded freed_def]
  define session where
    "session = (if truthy_str (slot_currentSessionId x) then js_get (st_sessions st) (the (slot_currentSessionId x)) else None)"
  note leaf = leaf [folded session_def]
  show ?thesis
  proof (cases "slot_hostId x \<noteq> h \<or> session = None")
    case True
    with leaf have "st' = st \<or> st' = put_slot (slot_id x) freed st" by (cases "slot_hostId x \<noteq> h") simp_all
    then show ?thesis using own keeps_free_slot [OF own free] by auto
  next
    case False
    then obtain sid s where x: "slot_currentSessionId x = Some sid" and session: "session = Some s"
      and s: "js_get (st_sessions st) sid = Some s"
      by (cases "slot_currentSessionId x") (auto simp: session_def split: if_splits)
    have ws: "is_workspace_session st sid" using typed x by simp
    have id: "s_id s = sid" using ownershipD(2) [OF own s] .
    note freed_slot = keeps_slot_freed [OF own s ws _ _ _ _ _ _ _ _ _ free]
    define r where "r = releaseProviderAccountLease st s"
    define s2 where "s2 = (if s_status s = Running
      then fst r\<lparr>s_status := Queued, s_errorMessage := Some reason, s_completedAt := None\<rparr> else fst r)"
    have s2: "s_id s2 = sid" "s_type s2 = s_type s" "s_worktreeId s2 = s_worktreeId s"
      "s_terminalHookHandoff s2 = s_terminalHookHandoff s" "s_attemptId s2 = s_attemptId s"
      "s_mainCheckoutLease s2 = s_mainCheckoutLease s" "s_status s2 = (if s_status s = Running then Queued else s_status s)"
      by (simp_all add: s2_def r_def release_account_session id)
    consider d where "st' = put_slot (slot_id x) (x\<lparr>slot_online := False\<rparr>) (persistSession (s\<lparr>s_reconnectDeadlineAt := Some d\<rparr>) st)"
      | "st' = put_slot (slot_id x) freed (persistSession (free_slot_fields (s2\<lparr>s_hostId := Null\<rparr>)) (snd r))"
      | "st' = put_slot (slot_id x) freed (persistSession (free_slot_fields s) st)" | "st' = put_slot (slot_id x) freed st"
      using leaf False session
      by (cases "truthy_str (s_ackReceivedAt s)"; cases "s_status s"; cases "reconnect_deadline st")
        (auto simp: case_prod_beta s2_def r_def)
    then show ?thesis
    proof cases
      case (1 d)
      have k: "keeps sid st (persistSession (s\<lparr>s_reconnectDeadlineAt := Some d\<rparr>) st)" by (rule keeps_deadline(2) [OF own s])
      have "is_workspace_session (persistSession (s\<lparr>s_reconnectDeadlineAt := Some d\<rparr>) st) sid"
        using k ws unfolding keeps_def touches_def by blast
      with k have "keeps sid (persistSession (s\<lparr>s_reconnectDeadlineAt := Some d\<rparr>) st) st'"
        unfolding 1 by (intro keeps_own_slot) (simp_all add: x keeps_def)
      with k show ?thesis using keeps_trans by blast
    next
      case 2
      show ?thesis unfolding 2
        by (rule exI, rule freed_slot) (use s2 in \<open>auto simp: r_def free_slot_fields_def\<close>)
    next
      case 3
      show ?thesis unfolding 3 by (rule exI, rule freed_slot) (use id in \<open>auto simp: free_slot_fields_def\<close>)
    qed (use keeps_free_slot [OF own free] in blast)
  qed
qed

lemma offline_slots_ownership:
  assumes "ownership st" and "\<forall>x\<in>set xs. \<forall>t. slot_currentSessionId x = Some t \<longrightarrow> is_workspace_session st t"
    and "fold_option (offline_slot h reason) (ids, st) xs = Some (ids', st')"
  shows "ownership st'"
  using assms
proof (induction xs arbitrary: ids st)
  case (Cons x xs)
  from Cons.prems(3) obtain ids1 st1 where r: "offline_slot h reason (ids, st) x = Some (ids1, st1)"
    and rest: "fold_option (offline_slot h reason) (ids1, st1) xs = Some (ids', st')"
    by (auto split: option.splits)
  obtain sid where "keeps sid st st1" using offline_slot_keeps [OF Cons.prems(1) _ r] Cons.prems(2) by auto
  then have "ownership st1" "\<And>t. is_workspace_session st1 t = is_workspace_session st t"
    using is_workspace_other by (auto simp: keeps_def)
  with Cons.prems(2) Cons.IH [OF _ _ rest] show ?case by simp
qed simp

lemma offlineSlots_ownership:
  assumes own: "ownership st" and "offlineWorkspaceSlotsLocal st h reason = Some (ids, st')"
  shows "ownership st'"
proof (rule offline_slots_ownership [OF own])
  have "js_wf (st_workspaceSlots st)" "slots_typed st" using own by (auto simp: ownership_def maps_ok_def)
  then show "\<forall>x\<in>set (js_values (st_workspaceSlots st)). \<forall>t. slot_currentSessionId x = Some t \<longrightarrow> is_workspace_session st t"
    by (fastforce simp: js_values_def slots_typed_def js_wf_def js_get_def)
qed (use assms(2) in \<open>simp add: offlineWorkspaceSlotsLocal_def\<close>)

lemma release_timed_out_keeps:
  assumes own: "ownership st" and s: "js_get (st_sessions st) (s_id s) = Some s"
  shows "keeps (s_id s) st (release_timed_out_session h st s)"
proof (cases "s_status s \<noteq> Timed_out \<or> s_timedOutHostId s \<noteq> Some h")
  case False
  define s1 where "s1 = fst (releaseProviderAccountLease st s)\<lparr>s_timedOutHostId := None, s_timedOutAssignmentConnectionId := None\<rparr>"
  have "session_owns (holds st (s_id s)) (awaits_ack st (s_id s)) s1"
    using ownershipD(4) [OF own s] session_owns_cong [of s1 s] by (simp add: s1_def release_account_session)
  with keeps_put(2) [OF own touches_same [OF same_release_account] _ s, of s s1] False show ?thesis
    by (simp add: release_timed_out_session_def case_prod_beta s1_def claim_simps)
qed (use own in \<open>auto simp: release_timed_out_session_def\<close>)

lemma fold_sessions_keeps:
  assumes "\<And>st s. ownership st \<Longrightarrow> js_get (st_sessions st) (s_id s) = Some s \<Longrightarrow> keeps (s_id s) st (f st s)"
    and "ownership st" and "distinct (map s_id xs)" and "\<forall>s\<in>set xs. js_get (st_sessions st) (s_id s) = Some s"
  shows "ownership (foldl f st xs)"
proof -
  have "foldl (\<lambda>acc s. ((), f (snd acc) s)) ((), st) xs = ((), foldl f st xs)" for st
    by (induction xs arbitrary: st) simp_all
  moreover have "ownership (snd (foldl (\<lambda>acc s. ((), f (snd acc) s)) ((), st) xs))"
    by (rule fold_entries_keeps [where P = "\<lambda>_. True"]) (use assms in simp_all)
  ultimately show ?thesis by simp
qed

lemma disconnectHost_ownership:
  assumes own: "ownership st" and res: "disconnectHost st c = Some (ids, st')"
  shows "ownership st'"
proof (cases "js_get (st_connections st) c")
  case (Some conn)
  define st2 where "st2 = (if js_get (st_hostConnection st) (conn_hostId conn) = Some c
    then st\<lparr>st_connections := js_delete c (st_connections st), st_hostConnection := js_delete (conn_hostId conn) (st_hostConnection st),
      st_drainingHosts := removeAll (conn_hostId conn) (st_drainingHosts st)\<rparr>
    else st\<lparr>st_connections := js_delete c (st_connections st)\<rparr>)"
  define st3 where
    "st3 = st2\<lparr>st_disconnectedHosts := js_set (conn_hostId conn) (conn_lastHeartbeatAt conn) (st_disconnectedHosts st2)\<rparr>"
  have same: "same_claims st st3" by (simp add: st3_def st2_def same_claims_def)
  obtain ids4 st4 ids5 st5
    where st4: "offlineHostAndRequeue st3 (conn_hostId conn) ''agent disconnected; requeued'' = Some (ids4, st4)"
    and st5: "offlineWorkspaceSlotsLocal st4 (conn_hostId conn) ''agent disconnected; requeued'' = Some (ids5, st5)"
    and st': "st' = foldl (release_timed_out_session (conn_hostId conn)) st5 (js_values (st_sessions st5))"
    using res Some by (simp add: disconnectHost_def Let_def st2_def st3_def split: if_splits)
      (auto split: option.splits prod.splits)
  have "ownership st3" using own ownership_same [OF same] by simp
  from offlineSlots_ownership [OF offlineHost_ownership [OF this st4] st5] have own5: "ownership st5" .
  show ?thesis unfolding st'
    by (rule fold_sessions_keeps [OF release_timed_out_keeps own5]) (use session_ids [OF own5] in auto)
qed (use own res in \<open>simp add: disconnectHost_def\<close>)

section \<open>Stale hosts, heartbeat, drain and resume\<close>

lemma reclaim_host_ownership:
  assumes own: "ownership st" and res: "reclaim_host nowMs (ids, st) c = Some (ids', st')"
  shows "ownership st'"
proof -
  obtain h at cid where c: "c = (h, at, cid)" by (metis prod_cases3)
  show ?thesis
  proof (cases "not_stale st nowMs at")
    case False
    with res c obtain ids1 st1 where st1: "offlineHostAndRequeue st h ''agent heartbeat stale; requeued'' = Some (ids1, st1)"
      and "same_claims st1 st'"
      by (auto simp: reclaim_host_def Let_def same_claims_def split: option.splits)
    with offlineHost_ownership [OF own st1] ownership_same show ?thesis by blast
  qed (use own res c in \<open>simp add: reclaim_host_def\<close>)
qed

lemma reclaimStaleHosts_ownership:
  assumes own: "ownership st" and res: "reclaimStaleHosts st nowMs = Some (ids, st')"
  shows "ownership st'"
proof -
  have "ownership st'" if "ownership st" "fold_option (reclaim_host nowMs) (ids0, st) cs = Some (ids, st')" for ids0 st cs
    using that
  proof (induction cs arbitrary: ids0 st)
    case (Cons c cs)
    from Cons.prems(2) obtain ids1 st1 where r: "reclaim_host nowMs (ids0, st) c = Some (ids1, st1)"
      and rest: "fold_option (reclaim_host nowMs) (ids1, st1) cs = Some (ids, st')"
      by (auto split: option.splits)
    show ?case by (rule Cons.IH [OF reclaim_host_ownership [OF Cons.prems(1) r] rest])
  qed simp
  moreover have "ownership (drop_dead_links st)"
    using own ownership_same [of st "drop_dead_links st"] by (simp add: same_claims_def drop_dead_links_def)
  ultimately show ?thesis using res unfolding reclaimStaleHosts_def by blast
qed

lemma same_heartbeat [intro, simp]: "same_claims st (snd (heartbeat st h at))"
  by (simp add: heartbeat_def same_claims_def Let_def split: option.splits)

lemma js_get_map: "js_get (map (\<lambda>(k, w). (k, f w)) m) k = map_option f (js_get m k)"
  by (induction m) (auto simp: js_get_def)

lemma set_idle_online_ownership:
  assumes "ownership st"
  shows "ownership (set_idle_online h online st)"
proof -
  have "keeps [] st (set_idle_online h online st)"
    unfolding set_idle_online_def
  proof (rule same_holders(3) [OF _ _ assms])
    show "map_option claim_of (js_get (map (\<lambda>(k, w). (k, if wt_hostId w = h \<and> wt_status w = Idle then w\<lparr>wt_online := online\<rparr> else w))
      (st_worktrees st)) k) = map_option claim_of (js_get (st_worktrees st) k)" for k
      unfolding js_get_map by (cases "js_get (st_worktrees st) k") (simp_all add: claim_of_def)
  qed (simp add: js_wf_def comp_def case_prod_beta)
  then show ?thesis by (simp add: keeps_def)
qed

lemma drain_resume_ownership:
  assumes "ownership st"
  shows "ownership (snd (drainHost st h c))" "ownership (snd (resumeHost st h c))"
proof -
  have "same_claims st (send_to_host h m (st\<lparr>st_drainingHosts := d\<rparr>))" for m d
    by (simp add: same_claims_def send_to_host_def)
  then have "ownership (send_to_host h m (st\<lparr>st_drainingHosts := d\<rparr>))" for m d
    using assms ownership_same by blast
  with assms set_idle_online_ownership show "ownership (snd (drainHost st h c))" "ownership (snd (resumeHost st h c))"
    by (simp_all add: drainHost_def resumeHost_def Let_def)
qed

end
