(* ===== verification/MessageOwnership.thy ===== *)
theory MessageOwnership
  imports HostOwnership
begin

text \<open>
  Messages of a host keep the invariant of \<open>Ownership\<close>. A status report is followed branch by branch of
  \<open>applySessionStatus\<close> (\<open>control-plane-messages.ts\<close>): a report settles the session the plan says it settles, and
  what the plan releases is what the session holds. The hypothesis is that a host does not report a session as
  queued.
\<close>

section \<open>Acknowledgement, command start, usage and logs\<close>

lemma same_usage [intro, simp]: "same_claims st (snd (ingestUsage st sid wt a u))"
  by (simp add: ingestUsage_def same_claims_def Let_def split: option.splits)

lemma same_append_log [intro, simp]: "same_claims st (snd (appendLog lc st m))"
  by (simp add: appendLog_def same_claims_def split: option.splits)

lemma same_log [intro, simp]: "same_claims st (snd (handle_log lc st m))"
proof -
  have "same_claims st (snd (case appendLog lc st m of (None, st1) \<Rightarrow> (None, st1) | (Some _, st1) \<Rightarrow> (Some ok_result, st1)))"
    using same_append_log [of st lc m] by (cases "appendLog lc st m"; cases "fst (appendLog lc st m)") auto
  then show ?thesis by (simp add: handle_log_def Let_def)
qed

lemma handle_ack_ownership:
  assumes own: "ownership st"
  shows "ownership (snd (handle_ack st sid wt a))"
proof (cases "js_get (st_sessions st) sid")
  case (Some s)
  define st1 where
    "st1 = drop_pending_ack sid (st\<lparr>st_sessions := js_set sid (s\<lparr>s_ackReceivedAt := Some (st_now st)\<rparr>) (st_sessions st)\<rparr>)"
  note o = ownershipD [OF own Some]
  have "session_owns (holds st sid) False (s\<lparr>s_ackReceivedAt := Some (st_now st)\<rparr>)"
    using session_owns_drop [OF o(4)] session_owns_cong [of "s\<lparr>s_ackReceivedAt := Some (st_now st)\<rparr>" s] by simp
  from keeps_set [OF own touches_refl refl Some _ _ this] o(2) have "ownership st1" by (simp add: keeps_def st1_def)
  then have "ownership (send_to_host h x st1)" for h x using ownership_same [OF same_send] by simp
  with \<open>ownership st1\<close> own Some show ?thesis by (simp add: handle_ack_def st1_def [symmetric] Let_def)
qed (use own in \<open>simp add: handle_ack_def\<close>)

lemma js_set_session_ownership:
  assumes own: "ownership st" and s: "js_get (st_sessions st) sid = Some s"
    and "s_id s' = sid" "s_type s' = s_type s" "session_owns (holds st sid) (awaits_ack st sid) s'"
  shows "ownership (st\<lparr>st_sessions := js_set sid s' (st_sessions st)\<rparr>)"
  using keeps_put(1) [OF own touches_refl refl s assms(3-)] assms(3) by (simp add: keeps_def put_session_def)

lemma handle_command_start_ownership:
  assumes own: "ownership st"
  shows "ownership (snd (handle_command_start st sid wt a))"
proof (cases "js_get (st_sessions st) sid")
  case (Some s)
  note o = ownershipD [OF own Some]
  have "ownership (st\<lparr>st_sessions := js_set sid (s\<lparr>s_primaryCommandStartState := p\<rparr>) (st_sessions st)\<rparr>)" for p
    by (rule js_set_session_ownership [OF own Some])
      (use o session_owns_cong [of "s\<lparr>s_primaryCommandStartState := p\<rparr>" s] in simp_all)
  moreover have "ownership (st\<lparr>st_sessions := js_set sid s (st_sessions st)\<rparr>)"
    by (rule js_set_session_ownership [OF own Some]) (use o in simp_all)
  ultimately show ?thesis by (simp add: handle_command_start_def Some Let_def ownership_same [OF same_send])
qed (use own in \<open>simp add: handle_command_start_def\<close>)

section \<open>Terminal hooks\<close>

lemma same_release_reserved [intro, simp]: "same_claims st (releaseReservedMainCheckout st sid h)"
  by (simp add: releaseReservedMainCheckout_def same_claims_def Let_def)

lemma release_owned:
  assumes "maps_ok st"
  shows "touches sid st (release_owned_worktree st w sid)" "holds (release_owned_worktree st w sid) sid = holds st sid - {w}"
    "st_sessions (release_owned_worktree st w sid) = st_sessions st"
    "awaits_ack (release_owned_worktree st w sid) = awaits_ack st"
proof -
  have "holder_of st w = Some sid" if "Option.bind (js_get (st_worktrees st) w) wt_currentSessionId = Some sid"
    using that assms by (auto simp: holder_of_def maps_ok_def worktree_entry_ok_def Option.bind_eq_Some_conv)
  moreover have "w \<notin> holds st sid" if "Option.bind (js_get (st_worktrees st) w) wt_currentSessionId \<noteq> Some sid"
    using that by (auto simp: holds_def holder_of_def split: option.splits if_splits)
  ultimately show "touches sid st (release_owned_worktree st w sid)"
    "holds (release_owned_worktree st w sid) sid = holds st sid - {w}"
    using touches_release [OF assms] holds_release [OF assms] by (simp_all add: release_owned_worktree_def)
qed (simp_all add: release_owned_worktree_def claim_simps)

lemma release_reserved:
  assumes "maps_ok st"
  shows "touches sid st (releaseReservedWorktree st sid v)"
    "holds (releaseReservedWorktree st sid v) sid = holds st sid - set_option v"
    "st_sessions (releaseReservedWorktree st sid v) = st_sessions st"
    "awaits_ack (releaseReservedWorktree st sid v) = awaits_ack st"
proof -
  have "[] \<notin> holds st sid"
    using assms by (auto simp: holds_def holder_of_def maps_ok_def worktree_entry_ok_def split: option.splits)
  then show "touches sid st (releaseReservedWorktree st sid v)"
    "holds (releaseReservedWorktree st sid v) sid = holds st sid - set_option v"
    "st_sessions (releaseReservedWorktree st sid v) = st_sessions st"
    "awaits_ack (releaseReservedWorktree st sid v) = awaits_ack st"
    using release_owned [OF assms] by (cases v; auto simp: releaseReservedWorktree_def)+
qed

lemma closed_handoff_keeps:
  assumes own: "ownership st" and s: "js_get (st_sessions st) sid = Some s" and h: "s_terminalHookHandoff s = Some h"
    and s1: "s_id s1 = sid" "s_type s1 = s_type s" "s_status s1 = s_status s" "s_worktreeId s1 = s_worktreeId s"
      "s_terminalHookHandoff s1 = None" "s_workspaceSlotId s1 = s_workspaceSlotId s"
      "truthy_bool (s_mainCheckoutLease s1) \<longrightarrow> truthy_bool (s_mainCheckoutLease s)"
  shows "keeps sid st (put_session s1 (releaseReservedMainCheckout (releaseReservedWorktree st sid (thh_worktreeId h)) sid h))"
proof -
  note o = ownershipD [OF own s] and r = release_reserved [OF ownershipD(1) [OF own s]]
  define st1 where "st1 = releaseReservedMainCheckout (releaseReservedWorktree st sid (thh_worktreeId h)) sid h"
  have view: "touches sid st st1" "st_sessions st1 = st_sessions st" "awaits_ack st1 = awaits_ack st"
    "holds st1 sid = holds st sid - set_option (thh_worktreeId h)"
    using touches_then_same [OF r(1) same_release_reserved] r
    by (simp_all add: st1_def sameD [OF same_release_reserved] same_claims_views [OF same_release_reserved])
  have "holds st sid \<subseteq> set_option (thh_worktreeId h)"
    using o(4) h by (simp add: session_owns_def reserved_for_hook_def) blast
  with view(4) have "holds st1 sid = {}" by blast
  moreover have "session_owns {} (awaits_ack st sid) s1" using o(4) h s1 by (auto simp: owns_simps)
  ultimately show ?thesis
    using keeps_put(1) [OF own view(1,2) s s1(1,2)] view(3) unfolding st1_def by simp
qed

lemma settleTerminalHook_ownership:
  assumes own: "ownership st"
  shows "ownership (snd (settleTerminalHookHandoff st sid hid h c result))"
proof (cases "js_get (st_sessions st) sid")
  case (Some s)
  note o = ownershipD [OF own Some]
  show ?thesis
  proof (cases "s_terminalHookHandoff s")
    case (Some handoff)
    define s1 where "s1 = (close_handoff handoff (s\<lparr>s_result := first_some (s_result s)
      (Some (session_result_json (resolveTerminalHookCompletionResult (thh_status handoff) result)))\<rparr>))
      \<lparr>s_terminalHookHandoffSettled := Some (hid, h)\<rparr>"
    have "keeps sid st (put_session s1 (releaseReservedMainCheckout (releaseReservedWorktree st sid (thh_worktreeId handoff)) sid handoff))"
      by (rule closed_handoff_keeps [OF own \<open>js_get (st_sessions st) sid = Some s\<close> Some])
        (use o(2) in \<open>simp_all add: s1_def close_handoff_def Let_def clear_checkout_fields_def truthy_bool_def\<close>)
    with own Some \<open>js_get (st_sessions st) sid = Some s\<close> o(2) show ?thesis
      by (simp add: settleTerminalHookHandoff_def keeps_def s1_def [symmetric] Let_def)
  qed (use own Some in \<open>simp add: settleTerminalHookHandoff_def\<close>)
qed (use own in \<open>simp add: settleTerminalHookHandoff_def\<close>)

lemma expireTerminalHook_ownership:
  assumes own: "ownership st" and s: "js_get (st_sessions st) (s_id s) = Some s"
  shows "ownership (snd (expireTerminalHookHandoffIfNeeded st s nowMs))"
proof (cases "s_terminalHookHandoff s")
  case (Some handoff)
  define s1 where "s1 = close_handoff handoff (s\<lparr>s_terminalHookHandoffExpiredAt := Some (thh_expiresAt handoff)\<rparr>)"
  have "keeps (s_id s) st (put_session s1
      (releaseReservedMainCheckout (releaseReservedWorktree st (s_id s) (thh_worktreeId handoff)) (s_id s) handoff))"
    by (rule closed_handoff_keeps [OF own s Some])
      (simp_all add: s1_def close_handoff_def Let_def clear_checkout_fields_def truthy_bool_def)
  with own Some show ?thesis by (simp add: expireTerminalHookHandoffIfNeeded_def keeps_def s1_def Let_def)
qed (use own in \<open>simp add: expireTerminalHookHandoffIfNeeded_def\<close>)

lemma handle_terminal_hook_ownership:
  assumes own: "ownership st"
  shows "ownership (snd (handle_terminal_hook_complete st sid hid r source))"
proof -
  have send: "ownership st' \<Longrightarrow> ownership (send_to_host h m st')" for st' h m using ownership_same [OF same_send] by simp
  show ?thesis
  proof (cases "Option.bind (js_get (st_sessions st) sid) s_terminalHookHandoff")
    case None
    then show ?thesis using own send
      by (auto simp: handle_terminal_hook_complete_def split: option.splits)
  next
    case (Some handoff)
    then show ?thesis using own send settleTerminalHook_ownership [OF own]
      by (simp add: handle_terminal_hook_complete_def Let_def case_prod_beta)
  qed
qed

section \<open>Reports on a session that has ended\<close>

text \<open>What a release leaves of the session record: the claims of \<open>released\<close> are among those of \<open>s\<close>, and the
  worktree id is gone.\<close>

definition released_record :: "session_record \<Rightarrow> session_record \<Rightarrow> bool" where
  "released_record s s' \<longleftrightarrow> s_id s' = s_id s \<and> s_type s' = s_type s \<and> s_status s' = s_status s \<and> s_attemptId s' = s_attemptId s
    \<and> s_terminalHookHandoff s' = s_terminalHookHandoff s \<and> worktree_of s' = {}
    \<and> (truthy_bool (s_mainCheckoutLease s') \<longrightarrow> truthy_bool (s_mainCheckoutLease s))
    \<and> (truthy_nullable (s_workspaceSlotId s') \<longrightarrow> truthy_nullable (s_workspaceSlotId s))"

lemma truthy_set_none [simp]: "\<not> truthy_nullable v \<Longrightarrow> truthy_set v = {}"
  by simp

lemma release_late_releases:
  assumes maps: "maps_ok st" and w: "worktree = truthy_nullable (s_worktreeId s)" and lease: "lease \<longrightarrow> \<not> worktree"
  shows "touches (s_id s) st (snd (release_late lease worktree workspace e st s))"
    "st_sessions (snd (release_late lease worktree workspace e st s)) = st_sessions st"
    "awaits_ack (snd (release_late lease worktree workspace e st s)) = awaits_ack st"
    "holds (snd (release_late lease worktree workspace e st s)) (s_id s) = holds st (s_id s) - worktree_of s"
    "released_record s (fst (release_late lease worktree workspace e st s))"
proof -
  define r1 where "r1 = (if lease \<or> worktree \<or> workspace then releaseProviderAccountLease st s else (s, st))"
  define r2 where "r2 = (if lease \<and> truthy_bool (s_mainCheckoutLease (fst r1)) then release_late_checkout (snd r1) (fst r1) else r1)"
  define r3 where "r3 = (if worktree then release_late_worktree (snd r2) (fst r2) else r2)"
  define r4 where "r4 = (if workspace then releaseWorkspaceSlotLocal (snd r3) (fst r3) e else r3)"
  have r: "release_late lease worktree workspace e st s = r4"
    unfolding release_late_def r4_def r3_def r2_def r1_def Let_def case_prod_beta by simp
  have same2: "same_claims st (snd r2)"
    using same_trans [OF same_release_account same_release_checkout]
    by (auto simp: r2_def r1_def release_late_checkout_def)
  have f2: "s_id (fst r2) = s_id s" "s_type (fst r2) = s_type s" "s_status (fst r2) = s_status s"
    "s_attemptId (fst r2) = s_attemptId s" "s_terminalHookHandoff (fst r2) = s_terminalHookHandoff s"
    "s_workspaceSlotId (fst r2) = s_workspaceSlotId s" "worktree \<Longrightarrow> s_worktreeId (fst r2) = s_worktreeId s"
    "\<not> worktree \<Longrightarrow> worktree_of (fst r2) = {}"
    "truthy_bool (s_mainCheckoutLease (fst r2)) \<longrightarrow> truthy_bool (s_mainCheckoutLease s)"
    using w lease
    by (auto simp: r2_def r1_def release_late_checkout_def clear_checkout_fields_def release_account_session worktree_of_def)
  have m2: "maps_ok (snd r2)" using maps same_claims_views(3) [OF same2] by simp
  have s3: "touches (s_id s) st (snd r3)" "st_sessions (snd r3) = st_sessions st" "awaits_ack (snd r3) = awaits_ack st"
    "holds (snd r3) (s_id s) = holds st (s_id s) - worktree_of s"
    using touches_trans [OF touches_same [OF same2] release_owned(1) [OF m2]] touches_same [OF same2] f2 w
      release_owned(2-) [OF m2, where sid = "s_id s"] truthy_set_the [of "s_worktreeId s"]
    by (simp_all add: r3_def release_late_worktree_def sameD [OF same2] same_claims_views [OF same2] worktree_of_def)
  have f3: "released_record s (fst r3)"
    using f2 w by (auto simp: r3_def release_late_worktree_def released_record_def worktree_of_def)
  have "frees_slot (fst r3) (snd r3) r4 \<or> r4 = r3" using release_slot_frees by (simp add: r4_def)
  then show "touches (s_id s) st (snd (release_late lease worktree workspace e st s))"
    "st_sessions (snd (release_late lease worktree workspace e st s)) = st_sessions st"
    "awaits_ack (snd (release_late lease worktree workspace e st s)) = awaits_ack st"
    "holds (snd (release_late lease worktree workspace e st s)) (s_id s) = holds st (s_id s) - worktree_of s"
    "released_record s (fst (release_late lease worktree workspace e st s))"
    unfolding r using s3 f3 touches_trans [OF s3(1)] by (auto simp: frees_slot_def released_record_def worktree_of_def)
qed

lemma released_owns:
  assumes "session_owns held awaiting s" and "released_record s s'"
  shows "session_owns (held - worktree_of s) awaiting s'"
  using assms by (auto simp: session_owns_def released_record_def reserved_for_hook_def queue_type_kind)

lemma truthy_worktree: "truthy_nullable (s_worktreeId s) \<longleftrightarrow> worktree_of s \<noteq> {}"
  by (simp add: worktree_of_def)

lemma exclusive_claims:
  assumes "session_owns held awaiting s"
  shows "truthy_bool (s_mainCheckoutLease s) \<Longrightarrow> \<not> truthy_nullable (s_worktreeId s)"
    "releaseEffects s = [Eff_release_worktree] \<longleftrightarrow> truthy_nullable (s_worktreeId s)"
    "releaseEffects s = [Eff_release_lease] \<longleftrightarrow> truthy_bool (s_mainCheckoutLease s)"
  using assms by (auto simp: session_owns_def releaseEffects_def truthy_worktree)

lemma late_report_keeps:
  assumes own: "ownership st" and s: "js_get (st_sessions st) sid = Some s"
    and wt: "has_effect plan ''release_worktree'' = truthy_nullable (s_worktreeId s)"
    and lease: "has_effect plan ''release_lease'' \<longrightarrow> truthy_bool (s_mainCheckoutLease s)"
  shows "keeps sid st (snd (late_report st s m plan))"
proof -
  note o = ownershipD [OF own s]
  define r where "r = release_late (has_effect plan ''release_lease'') (has_effect plan ''release_worktree'')
    (has_effect plan ''release_workspace'') (sm_workspaceSlotError m) st s"
  have "has_effect plan ''release_lease'' \<longrightarrow> \<not> has_effect plan ''release_worktree''"
    using exclusive_claims(1) [OF o(4)] wt lease by blast
  note late = release_late_releases [OF o(1) wt this, of "has_effect plan ''release_workspace''" "sm_workspaceSlotError m",
      folded r_def, unfolded o(2)]
  define s2 where "s2 = (case patch_of plan of None \<Rightarrow> fst r
    | Some (_, rep) \<Rightarrow> fst r\<lparr>s_cliResumeRef := first_some (rep_cliResumeRef rep) (s_cliResumeRef (fst r)),
        s_result := first_some (s_result (fst r)) (rep_result rep)\<rparr>)"
  have "released_record s s2"
    using late(5) by (auto simp: s2_def released_record_def worktree_of_def split: option.splits)
  moreover from released_owns [OF o(4) this] have "session_owns (holds (snd r) sid) (awaits_ack (snd r) sid) s2"
    using late by simp
  ultimately have "keeps sid st (persistSession s2 (snd r))"
    by (intro keeps_put(2) [OF own late(1,2) s]) (simp_all add: released_record_def o(2))
  then show ?thesis by (simp add: late_report_def r_def [symmetric] case_prod_beta s2_def)
qed

lemma settle_timed_out_keeps:
  assumes own: "ownership st" and s: "js_get (st_sessions st) sid = Some s"
  shows "keeps sid st (snd (settle_timed_out st s m))"
proof -
  define s2 where "s2 = clear_timed_out_claim (fst (releaseProviderAccountLease st s)
    \<lparr>s_result := first_some (s_result (fst (releaseProviderAccountLease st s))) (reported_result st m)\<rparr>)"
  note o = ownershipD [OF own s]
  have "session_owns (holds st sid) (awaits_ack st sid) s2"
    using o(4) session_owns_cong [of s2 s] by (simp add: s2_def clear_timed_out_claim_def release_account_session)
  with keeps_put(2) [OF own touches_same [OF same_release_account] _ s, of s s2] o(2)
  show ?thesis by (simp add: settle_timed_out_def case_prod_beta s2_def claim_simps clear_timed_out_claim_def)
qed

lemma same_defer [intro, simp]: "same_claims st (snd (deferredTerminalHookHandoff st s m h))"
  by (simp add: deferredTerminalHookHandoff_def Let_def next_id_def same_claims_def)

lemma deferred_fields:
  assumes "fst (deferredTerminalHookHandoff st s m h) = Some (Some handoff)"
  shows "thh_attemptId handoff = Some (sm_attemptId m)" "thh_worktreeId handoff = nullable_opt (s_worktreeId s)"
  using assms by (auto simp: deferredTerminalHookHandoff_def Let_def case_prod_beta split: if_splits)

lemma late_handoff_record_keeps:
  assumes own: "ownership st" and s: "js_get (st_sessions st) sid = Some s"
    and ended: "s_status s = Cancelled \<or> s_status s = Timed_out" and none: "s_terminalHookHandoff s = None"
    and same: "same_claims st st1" and h: "thh_attemptId h = s_attemptId s"
    and r: "r = (if s_status s = Timed_out
      then (clear_timed_out_claim (fst (releaseProviderAccountLease st1 (s\<lparr>s_terminalHookHandoff := Some h\<rparr>))),
        snd (releaseProviderAccountLease st1 (s\<lparr>s_terminalHookHandoff := Some h\<rparr>)))
      else releaseLocalLateTerminalAssignment st1 (s\<lparr>s_terminalHookHandoff := Some h\<rparr>) e)"
  shows "keeps sid st (persistSession (fst r) (snd r))"
proof -
  note o = ownershipD [OF own s]
  define s1 where "s1 = s\<lparr>s_terminalHookHandoff := Some h\<rparr>"
  have held: "holds st sid = worktree_of s" and quiet: "\<not> awaits_ack st sid"
    using o(4) none ended by (auto simp: session_owns_def reserved_for_hook_def)
  have "touches sid st (snd r) \<and> st_sessions (snd r) = st_sessions st \<and> awaits_ack (snd r) = awaits_ack st
    \<and> holds (snd r) sid = {} \<and> released_record s1 (fst r)"
  proof (cases "s_status s = Timed_out")
    case True
    then have "worktree_of s = {}" using o(4) by (auto simp: session_owns_def)
    then show ?thesis
      using True held touches_then_same [OF touches_same [OF same] same_release_account]
      by (simp add: r s1_def claim_simps sameD [OF same] same_claims_views [OF same] released_record_def
          clear_timed_out_claim_def worktree_of_def)
  next
    case False
    have "truthy_bool (s_mainCheckoutLease s1) \<longrightarrow> \<not> truthy_nullable (s_worktreeId s1)"
      using exclusive_claims(1) [OF o(4)] by (simp add: s1_def)
    note late = release_late_releases [OF _ refl this, of st1 "truthy_nullable (s_workspaceSlotId s1)" e]
    have rr: "r = release_late (truthy_bool (s_mainCheckoutLease s1)) (truthy_nullable (s_worktreeId s1))
        (truthy_nullable (s_workspaceSlotId s1)) e st1 s1"
      using False by (simp add: r s1_def releaseLocalLateTerminalAssignment_def)
    have "maps_ok st1" "s_id s1 = sid" "worktree_of s1 = worktree_of s"
      using o same_claims_views(3) [OF same] by (simp_all add: s1_def worktree_of_def)
    with late touches_trans [OF touches_same [OF same]] held show ?thesis
      unfolding rr by (simp add: sameD [OF same] same_claims_views [OF same])
  qed
  moreover have "session_owns {} False (fst r)" if "released_record s1 (fst r)"
    using that o(4) ended h
    by (auto simp: s1_def session_owns_def released_record_def reserved_for_hook_def queue_type_kind isActiveSessionStatus_def
        ACTIVE_SESSION_STATUSES_def)
  ultimately show ?thesis
    by (intro keeps_put(2) [OF own _ _ s]) (simp_all add: quiet released_record_def s1_def o(2))
qed

lemma late_handoff_ownership:
  assumes own: "ownership st" and s: "js_get (st_sessions st) sid = Some s"
    and ack: "localDeferredHandoffAck m s rh = None" and res: "late_handoff st s m rh = Some handled"
  shows "ownership (snd handled)"
proof -
  have m: "sm_deferTerminalHookResult m = Some True" and ended: "s_status s = Cancelled \<or> s_status s = Timed_out"
    and attempt: "s_attemptId s = Some (sm_attemptId m)"
    using res by (auto simp: late_handoff_def split: if_splits)
  have none: "s_terminalHookHandoff s = None"
    using ack m attempt ownershipD(4) [OF own s]
    by (cases "s_terminalHookHandoff s") (auto simp: localDeferredHandoffAck_def session_owns_def Let_def)
  define d where "d = deferredTerminalHookHandoff st s m rh"
  define r where "r handoff = (if s_status s = Timed_out
      then (clear_timed_out_claim (fst (releaseProviderAccountLease (snd d) (s\<lparr>s_terminalHookHandoff := Some handoff\<rparr>))),
        snd (releaseProviderAccountLease (snd d) (s\<lparr>s_terminalHookHandoff := Some handoff\<rparr>)))
      else releaseLocalLateTerminalAssignment (snd d) (s\<lparr>s_terminalHookHandoff := Some handoff\<rparr>) (sm_workspaceSlotError m))" for handoff
  have same: "same_claims st (snd d)" by (simp add: d_def)
  consider "snd handled = st" | "snd handled = snd d"
    | handoff where "fst d = Some (Some handoff)" "snd handled = persistSession (fst (r handoff)) (snd (r handoff))"
  proof (cases "settledCheckoutFetchRetryDisposition m s = Some True")
    case False
    note leaf = res [unfolded late_handoff_def Let_def, folded d_def]
    have fresh: "s_terminalHookHandoffSettled s = None" "\<not> truthy_str (s_terminalHookHandoffExpiredAt s)"
      using leaf False by (auto split: if_splits)
    show ?thesis
    proof (cases "fst d")
      case None
      with leaf False fresh have "snd handled = snd d" by (cases d) (auto split: if_splits)
      then show ?thesis by (rule that(2))
    next
      case (Some x)
      with leaf False fresh obtain handoff where x: "x = Some handoff" by (cases d; cases x) (auto split: if_splits)
      with leaf False fresh Some have "snd handled = persistSession (fst (r handoff)) (snd (r handoff))"
        by (cases d) (auto simp: r_def case_prod_beta split: if_splits)
      with Some x show ?thesis by (intro that(3)) simp_all
    qed
  qed (use res m ended attempt in \<open>auto simp: late_handoff_def split: if_splits\<close>)
  then show ?thesis
  proof cases
    case (3 handoff)
    have "thh_attemptId handoff = s_attemptId s" using deferred_fields(1) 3(1) attempt by (simp add: d_def)
    from late_handoff_record_keeps [OF own s ended none same this r_def] 3(2) show ?thesis by (simp add: keeps_def)
  qed (use own ownership_same [OF same] in simp_all)
qed

section \<open>The plan of a report\<close>

lemma find_append: "List.find P (xs @ ys) = (case List.find P xs of None \<Rightarrow> List.find P ys | Some x \<Rightarrow> Some x)"
  by (induction xs) simp_all

lemma limit_plan_shape:
  assumes "planUsageLimit s rep ctx = Some plan" and "ctx_source ctx = Local"
  shows "\<exists>pre fb why report. plan = pre @ releaseEffects s @ fb @ [Eff_requeue why report, Eff_reschedule (scheduleKind s)]
    \<and> why \<noteq> Rq_infrastructure \<and> (pre = [] \<or> (\<exists>a u. pre = [Eff_cooldown a u]) \<or> (\<exists>i. pre = [Eff_suppress_target i]))
    \<and> (fb = [] \<or> fb = [Eff_fallback])"
proof -
  define fb where "fb = (if remainingFallback s then [Eff_fallback] else [])"
  have fb: "fb = [] \<or> fb = [Eff_fallback]" by (simp add: fb_def)
  define account where "account = (case s_resolvedRoute s of None \<Rightarrow> None | Some r \<Rightarrow> rr_providerAccountId r)"
  note leaf = assms(1) [unfolded planUsageLimit_def Let_def, folded fb_def account_def]
  show ?thesis
  proof (cases "truthy_str account")
    case True
    note leaf = leaf [unfolded if_P [OF True]]
    show ?thesis
    proof (cases "ctx_providerAccount ctx")
      case None
      with leaf assms(2) have "\<exists>report. plan = [] @ releaseEffects s @ [] @ [Eff_requeue Rq_usage_limit report, Eff_reschedule (scheduleKind s)]"
        by auto
      then show ?thesis by blast
    next
      case (Some c)
      with leaf have "\<exists>u report. plan = [Eff_cooldown (the account) u] @ releaseEffects s @ fb
          @ [Eff_requeue Rq_usage_limit report, Eff_reschedule (scheduleKind s)]"
        by (auto split: option.splits)
      with fb show ?thesis by blast
    qed
  next
    case False
    with leaf have "\<exists>i report. plan = [Eff_suppress_target i] @ releaseEffects s @ fb
        @ [Eff_requeue Rq_providerless report, Eff_reschedule (scheduleKind s)]"
      by auto
    with fb show ?thesis by blast
  qed
qed

definition settling_plan :: "session_record \<Rightarrow> plan \<Rightarrow> bool" where
  "settling_plan s plan \<longleftrightarrow>
    (\<exists>pre fb why report. plan = pre @ releaseEffects s @ fb @ [Eff_requeue why report, Eff_reschedule (scheduleKind s)]
      \<and> (pre = [] \<or> (\<exists>a u. pre = [Eff_cooldown a u]) \<or> (\<exists>i. pre = [Eff_suppress_target i])) \<and> (fb = [] \<or> fb = [Eff_fallback]))
    \<or> (\<exists>st t c rep. plan = releaseEffects s @ [Eff_finish st t c rep, Eff_archive])"

lemma running_plan:
  assumes "planStatus s wt a st rep ctx = Some plan" and "ctx_source ctx = Local" and "s_status s = Running"
    and "attemptMatches s wt a" and "isTerminalSessionStatus st"
  shows "settling_plan s plan"
proof -
  consider "planUsageLimit s rep ctx = Some plan"
    | "plan = planInfrastructureFailure s Checkout_fetch_failed ctx (rep_errorMessage rep) rep"
    | t c where "plan = releaseEffects s @ [Eff_finish st t c rep, Eff_archive]"
    using assms unfolding planStatus_def Let_def
    by (cases "st = Failed \<and> rep_errorCode rep = Some ''usage_limit''";
        cases "st = Failed \<and> rep_errorCode rep = Some ''checkout_fetch_failed''") (simp, simp, simp, simp, metis)
  then show ?thesis
  proof cases
    case 1
    from limit_plan_shape [OF this assms(2)] show ?thesis unfolding settling_plan_def by blast
  next
    case 2
    have "(\<exists>why report. plan = [] @ releaseEffects s @ [] @ [Eff_requeue why report, Eff_reschedule (scheduleKind s)])
      \<or> (\<exists>st t c rep. plan = releaseEffects s @ [Eff_finish st t c rep, Eff_archive])"
      unfolding 2 planInfrastructureFailure_def Let_def using assms(3) by simp blast
    then show ?thesis unfolding settling_plan_def by blast
  qed (auto simp: settling_plan_def)
qed

lemma has_effect_set: "has_effect plan ty \<longleftrightarrow> (\<exists>e\<in>set plan. effect_type e = ty)"
  by (auto simp: has_effect_def transitionEffect_def find_None_iff2 find_None_iff)

lemma effect_of_type: "transitionEffect plan ty = Some e \<Longrightarrow> e \<in> set plan \<and> effect_type e = ty"
  by (auto simp: transitionEffect_def find_Some_iff)

lemma settling_effects:
  assumes "settling_plan s plan"
  shows "\<not> has_effect plan ''ignore''" "\<not> has_effect plan ''patch_report''"
    "has_effect plan ''release_worktree'' \<longleftrightarrow> releaseEffects s = [Eff_release_worktree]"
    "has_effect plan ''release_lease'' \<longleftrightarrow> releaseEffects s = [Eff_release_lease]"
    "has_effect plan ''requeue'' \<longleftrightarrow> \<not> has_effect plan ''finish''"
proof -
  have types: "e \<in> set (releaseEffects s) \<Longrightarrow> effect_type e \<in> {''release_lease'', ''release_workspace'', ''release_worktree''}" for e
    by (rule releaseEffects_cases [of s]) auto
  have wt: "(\<exists>e\<in>set (releaseEffects s). effect_type e = ''release_worktree'') \<longleftrightarrow> releaseEffects s = [Eff_release_worktree]"
    "(\<exists>e\<in>set (releaseEffects s). effect_type e = ''release_lease'') \<longleftrightarrow> releaseEffects s = [Eff_release_lease]"
    by (rule releaseEffects_cases [of s]; simp)+
  obtain pre rest where plan: "plan = pre @ releaseEffects s @ rest"
    and pre: "\<forall>e\<in>set pre. effect_type e \<in> {''cooldown'', ''suppress_target''}"
    and rest: "effect_type ` set rest \<subseteq> {''fallback'', ''requeue'', ''reschedule'', ''finish'', ''archive''}"
    and both: "''requeue'' \<in> effect_type ` set rest \<longleftrightarrow> ''finish'' \<notin> effect_type ` set rest"
  proof -
    from assms consider pre fb why report where
        "plan = pre @ releaseEffects s @ fb @ [Eff_requeue why report, Eff_reschedule (scheduleKind s)]"
        "pre = [] \<or> (\<exists>a u. pre = [Eff_cooldown a u]) \<or> (\<exists>i. pre = [Eff_suppress_target i])" "fb = [] \<or> fb = [Eff_fallback]"
      | st t c rep where "plan = releaseEffects s @ [Eff_finish st t c rep, Eff_archive]"
      unfolding settling_plan_def by blast
    then show ?thesis
    proof cases
      case (1 pre fb why report)
      have "\<forall>e\<in>set pre. effect_type e \<in> {''cooldown'', ''suppress_target''}" using 1(2) by (elim disjE exE) simp_all
      with 1(1,3) show ?thesis
        by (intro that [of pre "fb @ [Eff_requeue why report, Eff_reschedule (scheduleKind s)]"]) (elim disjE; simp)+
    next
      case (2 st t c rep)
      then show ?thesis by (intro that [of "[]" "[Eff_finish st t c rep, Eff_archive]"]) simp_all
    qed
  qed
  have split: "has_effect plan ty \<longleftrightarrow> (\<exists>e\<in>set pre. effect_type e = ty) \<or> (\<exists>e\<in>set (releaseEffects s). effect_type e = ty)
      \<or> ty \<in> effect_type ` set rest" for ty
    unfolding has_effect_set plan by auto
  have none: "(\<exists>e\<in>set pre. effect_type e = ty) \<longleftrightarrow> False" if "ty \<notin> {''cooldown'', ''suppress_target''}" for ty
    using pre that by blast
  have other: "(\<exists>e\<in>set (releaseEffects s). effect_type e = ty) \<longleftrightarrow> False"
    if "ty \<notin> {''release_lease'', ''release_workspace'', ''release_worktree''}" for ty
    using types that by blast
  have outside: "ty \<notin> effect_type ` set rest" if "ty \<notin> {''fallback'', ''requeue'', ''reschedule'', ''finish'', ''archive''}" for ty
    using rest that by blast
  show "\<not> has_effect plan ''ignore''" "\<not> has_effect plan ''patch_report''"
    unfolding split by (subst none, simp, subst other, simp, use outside in simp)+
  show "has_effect plan ''release_worktree'' \<longleftrightarrow> releaseEffects s = [Eff_release_worktree]"
    "has_effect plan ''release_lease'' \<longleftrightarrow> releaseEffects s = [Eff_release_lease]"
    unfolding split wt by (subst none, simp, use outside in simp)+
  show "has_effect plan ''requeue'' \<longleftrightarrow> \<not> has_effect plan ''finish''"
    unfolding split by (subst none, simp, subst other, simp, subst none, simp, subst other, simp, use both in simp)
qed

section \<open>Reports on a running session\<close>

lemma with_report_fields [simp]:
  "s_id (with_report st m plan s) = s_id s" "s_type (with_report st m plan s) = s_type s"
  "s_worktreeId (with_report st m plan s) = s_worktreeId s" "s_attemptId (with_report st m plan s) = s_attemptId s"
  "s_terminalHookHandoff (with_report st m plan s) = s_terminalHookHandoff s"
  "s_mainCheckoutLease (with_report st m plan s) = s_mainCheckoutLease s"
  "s_workspaceSlotId (with_report st m plan s) = s_workspaceSlotId s"
  by (simp_all add: with_report_def)

lemma suppression_fields [simp]:
  "s_id (apply_suppression plan s) = s_id s" "s_type (apply_suppression plan s) = s_type s"
  "s_status (apply_suppression plan s) = s_status s" "s_attemptId (apply_suppression plan s) = s_attemptId s"
  "s_terminalHookHandoff (apply_suppression plan s) = s_terminalHookHandoff s"
  "s_mainCheckoutLease (apply_suppression plan s) = s_mainCheckoutLease s"
  "s_workspaceSlotId (apply_suppression plan s) = s_workspaceSlotId s"
  by (simp_all add: apply_suppression_def split: option.splits transition_effect.splits)

lemma ownership_new_session:
  assumes own: "ownership st" and none: "js_get (st_sessions st) (s_id s) = None" and "s_id s \<noteq> []"
    and owns: "session_owns {} (awaits_ack st (s_id s)) s"
  shows "ownership (put_session s st)" "ownership (persistSession s st)"
proof -
  have "ownership (st\<lparr>st_sessions := js_set (s_id s) s' (st_sessions st)\<rparr>)" (is "ownership ?st'")
    if s': "s_id s' = s_id s" "session_owns {} (awaits_ack st (s_id s)) s'" for s'
    unfolding ownership_def
  proof (intro conjI allI)
    show "maps_ok ?st'" using own by (simp add: ownership_def maps_ok_def js_map_simps)
    have "is_workspace_session st t \<longrightarrow> is_workspace_session ?st' t" for t
      using none by (simp add: is_workspace_session_def js_map_simps)
    with own show "slots_typed ?st'" by (auto simp: ownership_def slots_typed_def)
    have "entry_owns st t" for t using own by (simp add: ownership_def)
    then show "entry_owns ?st' t" for t
      using none assms(3) s' by (cases "t = s_id s") (auto simp: entry_owns_def js_map_simps holds_def holder_of_def awaits_ack_def)
  qed
  from this [of s] this [of "sessionForPersistence s"] owns
  show "ownership (put_session s st)" "ownership (persistSession s st)" by (simp_all add: put_session_def persistSession_def)
qed

lemma rescheduled_ownership: "js_comparator lc \<Longrightarrow> ownership st \<Longrightarrow> ownership (rescheduled lc plan b st)"
  using assignQueued_ownership by (auto simp: rescheduled_def split: option.splits transition_effect.splits)

lemma requeue_reported_ownership:
  assumes lc: "js_comparator lc" and own: "ownership st" and touch: "touches sid st st4"
    and same: "st_sessions st4 = st_sessions st" and s: "js_get (st_sessions st) sid = Some s"
    and free: "holds st4 sid = {}" and s3: "s_id s3 = sid" "s_type s3 = s_type s" "s_terminalHookHandoff s3 = None"
      "truthy_bool (s_mainCheckoutLease s3) \<longrightarrow> truthy_bool (s_mainCheckoutLease s)"
      "truthy_nullable (s_workspaceSlotId s3) \<longrightarrow> truthy_nullable (s_workspaceSlotId s)"
  shows "ownership (requeue_reported lc plan st4 s3)"
proof -
  define s4 where "s4 = s3\<lparr>s_status := Queued, s_worktreeId := Null, s_hostId := Null, s_completedAt := None, s_result := None\<rparr>"
  define st5 where "st5 = rescheduled lc plan True (put_session s4 st4)"
  note o = ownershipD [OF own s]
  have free_owns: "session_owns {} b s4" for b by (rule freed_owns [OF o(4)]) (use s3 in \<open>simp_all add: s4_def\<close>)
  have "keeps sid st (put_session s4 st4)"
    by (rule keeps_put(1) [OF own touch same s]) (use s3 free_owns free in \<open>simp_all add: s4_def\<close>)
  then have own5: "ownership st5" unfolding st5_def keeps_def using rescheduled_ownership [OF lc] by blast
  have "ownership (persistSession (opt_or (js_get (st_sessions st5) sid) s4) st5)"
  proof (cases "js_get (st_sessions st5) sid")
    case None
    then show ?thesis using ownership_new_session(2) [OF own5, of s4] free_owns s3(1) o(3) by (simp add: s4_def)
  next
    case (Some t)
    note o5 = ownershipD [OF own5 Some]
    from keeps_put(2) [OF own5 touches_refl refl Some o5(2) refl o5(4)] Some show ?thesis by (simp add: keeps_def)
  qed
  then show ?thesis by (simp add: requeue_reported_def Let_def st5_def s4_def s3(1))
qed

definition settled_record :: "session_record \<Rightarrow> session_record \<Rightarrow> bool" where
  "settled_record s s' \<longleftrightarrow> s_id s' = s_id s \<and> s_type s' = s_type s \<and> s_status s' = s_status s \<and> s_attemptId s' = s_attemptId s
    \<and> s_terminalHookHandoff s' = s_terminalHookHandoff s
    \<and> (truthy_bool (s_mainCheckoutLease s') \<longrightarrow> truthy_bool (s_mainCheckoutLease s))
    \<and> (truthy_nullable (s_workspaceSlotId s') \<longrightarrow> truthy_nullable (s_workspaceSlotId s))"

lemma release_reported_releases:
  assumes maps: "maps_ok st" and held: "holds st (s_id s) = worktree_of s"
    and wt: "has_effect plan ''release_worktree'' = truthy_nullable (s_worktreeId s)"
    and lease: "truthy_bool (s_mainCheckoutLease s) \<Longrightarrow> worktree_of s = {}"
    and handoff: "\<And>h. handoff = Some h \<Longrightarrow> thh_worktreeId h = nullable_opt (s_worktreeId s)"
    and r: "r = release_reported st s m plan handoff"
  shows "touches (s_id s) st (snd r) \<and> st_sessions (snd r) = st_sessions st \<and> awaits_ack (snd r) = awaits_ack st
    \<and> holds (snd r) (s_id s) \<subseteq> set_option (Option.bind handoff thh_worktreeId) \<and> settled_record s (fst r)"
proof -
  have settled: "settled_record s s" "settled_record s (clear_checkout_fields s)"
    by (simp_all add: settled_record_def clear_checkout_fields_def truthy_bool_def)
  show ?thesis
  proof (cases "truthy_bool (s_mainCheckoutLease s)")
    case True
    with lease held settled show ?thesis by (simp add: r release_reported_def)
  next
    case False
    show ?thesis
    proof (cases "truthy_nullable (s_worktreeId s) \<and> handoff = None")
      case True
      then have w: "worktree_of s = {the (nullable_opt (s_worktreeId s))}"
        using truthy_set_the by (simp add: worktree_of_def)
      then have "holder_of st (the (nullable_opt (s_worktreeId s))) = Some (s_id s)" using held by (auto simp: holds_def)
      with True False wt w settled held holds_release [OF maps] show ?thesis
        by (simp add: r release_reported_def touches_release [OF maps] claim_simps)
    next
      case kept: False
      have "holds st (s_id s) \<subseteq> set_option (Option.bind handoff thh_worktreeId)"
        using kept handoff by (cases handoff) (auto simp: held worktree_of_def truthy_set_def split: if_splits)
      moreover have "r = (if has_effect plan ''release_workspace'' then releaseWorkspaceSlotLocal st s (sm_workspaceSlotError m) else (s, st))"
        using False kept handoff by (cases handoff) (auto simp: r release_reported_def)
      ultimately show ?thesis
        using settled release_slot_frees [of s st "sm_workspaceSlotError m"]
        by (auto simp: frees_slot_def settled_record_def)
    qed
  qed
qed

lemma finished_owns:
  assumes own: "session_owns held awaiting s" and rec: "settled_record (with_report st m plan s\<lparr>s_completedAt := c,
      s_providerAccountLease := None, s_hostAssignmentLease := None\<rparr>) s2"
    and patch: "patch_of plan = None" and terminal: "isTerminalSessionStatus (sm_status m)" and none: "s_terminalHookHandoff s = None"
    and handoff: "\<And>h. handoff = Some h \<Longrightarrow> thh_attemptId h = s_attemptId s"
    and rest: "held' \<subseteq> set_option (Option.bind handoff thh_worktreeId)"
  shows "session_owns held' False (finish_session (apply_suppression plan s2) clear rep handoff)"
proof -
  define f where "f = finish_session (apply_suppression plan s2) clear rep handoff"
  have "s_terminalHookHandoff f = handoff" "s_worktreeId f = Null" "s_workspaceSlotId f = Null" "s_status f = sm_status m"
    "s_type f = s_type s" "s_attemptId f = s_attemptId s"
    "truthy_bool (s_mainCheckoutLease f) \<longrightarrow> truthy_bool (s_mainCheckoutLease s)"
    using rec patch none by (cases handoff; simp add: f_def finish_session_def Let_def settled_record_def with_report_def)+
  moreover have "\<not> isActiveSessionStatus (sm_status m)"
    using terminal by (cases "sm_status m") simp_all
  ultimately have "session_owns held' False f"
    using own handoff rest by (auto simp: session_owns_def worktree_of_def reserved_for_hook_def queue_type_kind)
  then show ?thesis by (simp add: f_def)
qed

lemma terminal_report_ownership:
  assumes lc: "js_comparator lc" and own: "ownership st0" and s: "js_get (st_sessions st0) sid = Some s"
    and run: "s_status s = Running" and m: "sm_sessionId m = sid" "isTerminalSessionStatus (sm_status m)"
    and plan: "settling_plan s plan" and same: "same_claims st0 st"
    and handoff: "\<And>h. handoff = Some h \<Longrightarrow> thh_worktreeId h = nullable_opt (s_worktreeId s) \<and> thh_attemptId h = s_attemptId s"
    and requeue: "has_effect plan ''requeue'' \<Longrightarrow> handoff = None"
  shows "ownership (snd (terminal_report lc st s (with_report st m plan s) m plan handoff))"
proof -
  note o = ownershipD [OF own s] and eff = settling_effects [OF plan]
  note held = session_owns_running [OF o(4) run]
  define a where "a = releaseProviderAccountLease (drop_pending_ack sid st) (with_report st m plan s\<lparr>s_completedAt := Some (st_now st)\<rparr>)"
  define r where "r = release_reported (snd a) (fst a) m plan handoff"
  define st4 where "st4 = apply_cooldown plan (snd r)"
  have fa: "fst a = with_report st m plan s\<lparr>s_completedAt := Some (st_now st), s_providerAccountLease := None, s_hostAssignmentLease := None\<rparr>"
    by (simp add: a_def release_account_session)
  have ta: "touches sid st0 (snd a)" "st_sessions (snd a) = st_sessions st0" "holds (snd a) = holds st0" "\<not> awaits_ack (snd a) sid"
    using touches_then_same [OF touches_then_drop [OF touches_same [OF same]] same_release_account]
    by (simp_all add: a_def claim_simps sameD [OF same] same_claims_views [OF same])
  have ida: "s_id (fst a) = sid" "worktree_of (fst a) = worktree_of s" "s_worktreeId (fst a) = s_worktreeId s"
    "s_mainCheckoutLease (fst a) = s_mainCheckoutLease s"
    by (simp_all add: fa o(2) worktree_of_def)
  have rel: "touches sid (snd a) (snd r) \<and> st_sessions (snd r) = st_sessions (snd a) \<and> awaits_ack (snd r) = awaits_ack (snd a)
    \<and> holds (snd r) sid \<subseteq> set_option (Option.bind handoff thh_worktreeId) \<and> settled_record (fst a) (fst r)"
    using release_reported_releases [OF _ _ _ _ _ r_def] ida ta held(1) handoff eff(3) exclusive_claims [OF o(4)]
      touches_maps [OF ta(1) o(1)] by (simp add: worktree_of_def)
  have t4: "touches sid st0 st4" "st_sessions st4 = st_sessions st0" "\<not> awaits_ack st4 sid"
    "holds st4 sid \<subseteq> set_option (Option.bind handoff thh_worktreeId)"
    using rel ta touches_then_same [OF touches_trans [OF ta(1)] same_apply_cooldown] by (simp_all add: st4_def claim_simps)
  have rec: "settled_record (fst a) (fst r)" using rel by blast
  have patch: "patch_of plan = None"
    using eff(2) by (simp add: patch_of_def has_effect_def)
  have requeued: "snd (terminal_report lc st s (with_report st m plan s) m plan handoff)
      = requeue_reported lc plan st4 (apply_suppression plan (fst r))" if "has_effect plan ''requeue''"
    using that by (simp add: terminal_report_def m(1) a_def r_def st4_def Let_def case_prod_beta)
  have finished: "snd (terminal_report lc st s (with_report st m plan s) m plan handoff)
      = persistSession (finish_session (apply_suppression plan (fst r)) c rep handoff) st4"
    if "\<not> has_effect plan ''requeue''" "transitionEffect plan ''finish'' = Some (Eff_finish f1 f2 c rep)" for f1 f2 c rep
    using that by (simp add: terminal_report_def m(1) a_def r_def st4_def Let_def case_prod_beta)
  show ?thesis
  proof (cases "has_effect plan ''requeue''")
    case True
    with requeue t4(4) have "holds st4 sid = {}" by simp
    moreover have "s_terminalHookHandoff (fst r) = None" using rec held(2) by (simp add: settled_record_def fa)
    ultimately have "ownership (requeue_reported lc plan st4 (apply_suppression plan (fst r)))"
      by (intro requeue_reported_ownership [OF lc own t4(1,2) s]) (use rec o(2) in \<open>simp_all add: settled_record_def fa\<close>)
    with requeued [OF True] show ?thesis by simp
  next
    case False
    then obtain e where e: "transitionEffect plan ''finish'' = Some e" using eff(5) by (auto simp: has_effect_def)
    then obtain f1 f2 c rep where "e = Eff_finish f1 f2 c rep" using effect_of_type [OF e] by (cases e) simp_all
    with e finished [OF False] have "snd (terminal_report lc st s (with_report st m plan s) m plan handoff)
      = persistSession (finish_session (apply_suppression plan (fst r)) c rep handoff) st4" by blast
    moreover have "session_owns (holds st4 sid) False (finish_session (apply_suppression plan (fst r)) c rep handoff)"
      using finished_owns [OF o(4) rec [unfolded fa] patch m(2) held(2) _ t4(4)] handoff by blast
    ultimately show ?thesis
      using keeps_put(2) [OF own t4(1,2) s, of "finish_session (apply_suppression plan (fst r)) c rep handoff"] t4(3) rec
      by (simp add: keeps_def finish_session_def Let_def settled_record_def fa o(2))
  qed
qed

lemma retry_ownership:
  assumes lc: "js_comparator lc" and own: "ownership st" and s: "js_get (st_sessions st) sid = Some s" and run: "s_status s = Running"
  shows "ownership (snd (retry_infrastructure lc st s m plan rep))"
proof -
  note o = ownershipD [OF own s] and excl = exclusive_claims [OF ownershipD(4) [OF own s]]
  note held = session_owns_running [OF o(4) run] and rel = release_own_worktree [OF o(1,4)]
  define r where "r = (if truthy_bool (s_mainCheckoutLease s) then releaseScheduledLeaseLocal st s
    else if truthy_nullable (s_worktreeId s) then (True, releaseWorktree st (the (nullable_opt (s_worktreeId s)))) else (False, st))"
  have r: "touches sid st (snd r)" "st_sessions (snd r) = st_sessions st" "holds (snd r) sid = {}"
    using rel held excl(1) by (auto simp: r_def claim_simps touches_same truthy_worktree)
  define a where "a = releaseProviderAccountLease (snd r) s"
  define s2 where "s2 = (queueReconnectSession (fst a) (opt_or (rep_errorMessage rep) ''infrastructure retry''))
    \<lparr>s_infrastructureRetryCount := Some (opt_or (s_infrastructureRetryCount s) 0 + 1),
     s_lastInfrastructureErrorCode := Some (if rep_errorCode rep = Some ''checkout_fetch_failed'' then Checkout_fetch_failed else Host_lost),
     s_infrastructureRetryAttemptId := Some (sm_attemptId m)\<rparr>"
  have "session_owns {} False s2"
    by (rule freed_owns [OF o(4)])
      (use held in \<open>simp_all add: s2_def a_def queueReconnectSession_def release_account_session truthy_bool_def\<close>)
  with keeps_set [OF own touches_then_same [OF r(1) same_release_account] _ s, of s s2] r o(2)
  have "keeps sid st (drop_pending_ack sid (put_session s2 (snd a)))"
    by (simp add: a_def claim_simps s2_def queueReconnectSession_def put_session_def release_account_session)
  then have final: "ownership (rescheduled lc plan False (drop_pending_ack sid (put_session s2 (snd a))))"
    using rescheduled_ownership [OF lc] by (simp add: keeps_def)
  show ?thesis
  proof (cases "fst r")
    case True
    then have "snd (retry_infrastructure lc st s m plan rep) = rescheduled lc plan False (drop_pending_ack sid (put_session s2 (snd a)))"
      by (simp add: retry_infrastructure_def r_def [symmetric] a_def s2_def case_prod_beta Let_def o(2))
    with final show ?thesis by simp
  next
    case False
    then have "snd (retry_infrastructure lc st s m plan rep) = snd r" "same_claims st (snd r)"
      by (auto simp: retry_infrastructure_def r_def case_prod_beta Let_def split: if_splits)
    with own ownership_same [of st "snd r"] show ?thesis by simp
  qed
qed

lemma progress_report_keeps:
  assumes own: "ownership st" and s: "js_get (st_sessions st) sid = Some s" and run: "s_status s = Running"
    and m: "sm_status m = Running"
  shows "keeps sid st (persistSession (with_report st m [Eff_patch_report (Some Running) rep] s) st)"
proof -
  define s1 where "s1 = with_report st m [Eff_patch_report (Some Running) rep] s"
  note o = ownershipD [OF own s]
  have "s_status s1 = Running" using m by (simp add: s1_def with_report_def patch_of_def transitionEffect_def)
  with o(4) run session_owns_cong [of s1 s] have "session_owns (holds st sid) (awaits_ack st sid) s1"
    by (simp add: s1_def)
  from keeps_put(2) [OF own touches_refl refl s _ _ this] o(2) show ?thesis by (simp add: s1_def)
qed

lemma running_terminal_ownership:
  assumes lc: "js_comparator lc" and own: "ownership st" and s: "js_get (st_sessions st) sid = Some s"
    and run: "s_status s = Running" and m: "sm_sessionId m = sid" "isTerminalSessionStatus (sm_status m)"
    and plan: "settling_plan s plan" and attempt: "s_attemptId s = Some (sm_attemptId m)"
  shows "ownership (snd (running_report lc st s m plan rh))"
proof -
  note eff = settling_effects [OF plan]
  define d where "d = (if has_effect plan ''finish'' \<and> sm_deferTerminalHookResult m = Some True
    then deferredTerminalHookHandoff st s m rh else (Some None, st))"
  have same: "same_claims st (snd d)" by (simp add: d_def)
  show ?thesis
  proof (cases "fst d")
    case None
    then have "snd (running_report lc st s m plan rh) = snd d"
      by (cases d) (simp add: running_report_def d_def [symmetric])
    with own ownership_same [OF same] show ?thesis by simp
  next
    case (Some handoff)
    have h: "thh_worktreeId h = nullable_opt (s_worktreeId s) \<and> thh_attemptId h = s_attemptId s" if "handoff = Some h" for h
      using Some that deferred_fields [of st s m rh h] attempt by (auto simp: d_def split: if_splits)
    have requeue: "handoff = None" if "has_effect plan ''requeue''"
      using Some that eff(5) by (auto simp: d_def split: if_splits)
    define l where "l = (if has_effect plan ''release_lease''
      then (if map_option thh_mainCheckoutLease handoff = Some True then (holdsScheduledLeaseLocal (snd d) s, snd d)
        else releaseScheduledLeaseLocal (snd d) s) else (False, snd d))"
    have same2: "same_claims st (snd l)" using same same_trans [OF same same_release_checkout] by (simp add: l_def)
    have "snd (running_report lc st s m plan rh) = snd l
      \<or> snd (running_report lc st s m plan rh) = snd (terminal_report lc (snd l) s (with_report (snd l) m plan s) m plan handoff)"
      using Some m(2) by (cases d) (auto simp: running_report_def d_def [symmetric] l_def case_prod_beta Let_def)
    moreover have "ownership (snd l)" using own ownership_same [OF same2] by simp
    moreover have "ownership (snd (terminal_report lc (snd l) s (with_report (snd l) m plan s) m plan handoff))"
      by (rule terminal_report_ownership [OF lc own s run m plan same2 h requeue])
    ultimately show ?thesis by auto
  qed
qed

section \<open>Any report, any message\<close>

lemma late_patch_keeps:
  assumes own: "ownership st" and s: "js_get (st_sessions st) sid = Some s"
  shows "keeps sid st (snd (late_report st s m [Eff_patch_report None r]))"
proof -
  define s1 where "s1 = s\<lparr>s_cliResumeRef := first_some (rep_cliResumeRef r) (s_cliResumeRef s),
    s_result := first_some (s_result s) (rep_result r)\<rparr>"
  note o = ownershipD [OF own s]
  have "session_owns (holds st sid) (awaits_ack st sid) s1" using o(4) session_owns_cong [of s1 s] by (simp add: s1_def)
  from keeps_put(2) [OF own touches_refl refl s _ _ this] o(2) show ?thesis
    by (simp add: s1_def late_report_def release_late_def has_effect_def patch_of_def transitionEffect_def)
qed

lemma late_release_keeps:
  assumes own: "ownership st" and s: "js_get (st_sessions st) sid = Some s"
    and tail: "tail = [] \<or> (\<exists>r. tail = [Eff_patch_report None r])"
  shows "keeps sid st (snd (late_report st s m (releaseEffects s @ tail)))"
proof (rule late_report_keeps [OF own s])
  note excl = exclusive_claims [OF ownershipD(4) [OF own s]]
  have "has_effect (releaseEffects s @ tail) ''release_worktree'' \<longleftrightarrow> releaseEffects s = [Eff_release_worktree]"
    "has_effect (releaseEffects s @ tail) ''release_lease'' \<longleftrightarrow> releaseEffects s = [Eff_release_lease]"
    by (rule releaseEffects_cases [of s]; use tail in \<open>auto simp: has_effect_set\<close>)+
  with excl show "has_effect (releaseEffects s @ tail) ''release_worktree'' = truthy_nullable (s_worktreeId s)"
    "has_effect (releaseEffects s @ tail) ''release_lease'' \<longrightarrow> truthy_bool (s_mainCheckoutLease s)" by simp_all
qed

lemma apply_plan_ownership:
  assumes lc: "js_comparator lc" and own: "ownership st" and s: "js_get (st_sessions st) sid = Some s"
    and m: "sm_sessionId m = sid" "sm_status m \<noteq> Queued"
    and plan: "planStatus s wt (sm_attemptId m) (sm_status m) rep ctx = Some plan" and ctx: "ctx_source ctx = Local"
  shows "ownership (snd (apply_plan lc st s m plan rh))"
proof (cases "attemptMatches s wt (sm_attemptId m)")
  case False
  then have "has_effect plan ''ignore''"
    using plan ctx by (auto simp: planStatus_def Let_def has_effect_set)
  with own show ?thesis by (simp add: apply_plan_def)
next
  case True
  then have attempt: "s_attemptId s = Some (sm_attemptId m)" by (simp add: attemptMatches_def)
  show ?thesis
  proof (cases "isTerminalSessionStatus (sm_status m)")
    case False
    with m(2) have running: "sm_status m = Running" by (cases "sm_status m") simp_all
    then have p: "plan = [if s_status s = Running then Eff_patch_report (Some Running) rep
        else Eff_patch_report None (no_report\<lparr>rep_cliResumeRef := rep_cliResumeRef rep\<rparr>)]"
      using plan ctx True False by (simp add: planStatus_def Let_def)
    then have r: "\<not> has_effect plan ty" if "ty \<noteq> ''patch_report''" for ty using that by (auto simp: has_effect_set)
    have none: "transitionEffect plan ''requeue'' = None" using r [of "''requeue''"] by (simp add: has_effect_def)
    show ?thesis
    proof (cases "s_status s = Running")
      case run: True
      have "snd (apply_plan lc st s m plan rh) = persistSession (with_report st m plan s) st"
        using False run by (simp add: apply_plan_def r none running_report_def)
      with progress_report_keeps [OF own s run running] p run show ?thesis by (simp add: keeps_def)
    next
      case ended: False
      have "snd (apply_plan lc st s m plan rh) = snd (late_report st s m plan)" using ended by (simp add: apply_plan_def r none)
      with late_patch_keeps [OF own s] p ended show ?thesis by (simp add: keeps_def)
    qed
  next
    case terminal: True
    show ?thesis
    proof (cases "s_status s = Running")
      case run: True
      have settling: "settling_plan s plan" by (rule running_plan [OF plan ctx run True terminal])
      have "snd (apply_plan lc st s m plan rh) = snd (running_report lc st s m plan rh)
        \<or> (\<exists>r. snd (apply_plan lc st s m plan rh) = snd (retry_infrastructure lc st s m plan r))"
        using settling_effects(1) [OF settling] run
        by (auto simp: apply_plan_def split: option.splits transition_effect.splits requeue_reason.splits)
      with running_terminal_ownership [OF lc own s run m(1) terminal settling attempt] retry_ownership [OF lc own s run]
      show ?thesis by auto
    next
      case ended: False
      then obtain tail where p: "plan = releaseEffects s @ tail" and tail: "tail = [] \<or> (\<exists>r. tail = [Eff_patch_report None r])"
        using plan ctx True terminal by (auto simp: planStatus_def planLateTerminal_def Let_def split: if_splits)
      have r: "\<not> has_effect plan ''ignore''" "\<not> has_effect plan ''requeue''"
        unfolding p by (rule releaseEffects_cases [of s]; use tail in \<open>auto simp: has_effect_set\<close>)+
      have "snd (apply_plan lc st s m plan rh) = snd (late_report st s m plan)"
        using ended r by (simp add: apply_plan_def has_effect_def)
      with late_release_keeps [OF own s tail] p show ?thesis by (simp add: keeps_def)
    qed
  qed
qed

lemma report_on_session_ownership:
  assumes lc: "js_comparator lc" and own: "ownership st" and s: "js_get (st_sessions st) sid = Some s"
    and m: "sm_sessionId m = sid" "sm_status m \<noteq> Queued"
  shows "ownership (snd (report_on_session lc st s m source))"
proof -
  define rh where "rh = hostMessageOwner st (Some s) source"
  show ?thesis
  proof (cases "localDeferredHandoffAck m s rh")
    case None
    show ?thesis
    proof (cases "late_handoff st s m rh")
      case (Some handled)
      from late_handoff_ownership [OF own s None this] Some None show ?thesis
        by (simp add: report_on_session_def rh_def)
    next
      case late: None
      define plan where "plan = planStatus s (sm_worktreeId m) (sm_attemptId m) (sm_status m)
        \<lparr>rep_exitCode = sm_exitCode m, rep_errorCode = sm_errorCode m, rep_errorMessage = sm_errorMessage m,
          rep_cliResumeRef = sm_cliResumeRef m, rep_result = reported_result st m\<rparr>
        (plannerContext st (cachedProviderAccount st s) (hostMessageProtocolVersion st s source) (sm_deferTerminalHookResult m))"
      have ctx: "ctx_source (plannerContext st (cachedProviderAccount st s) (hostMessageProtocolVersion st s source)
        (sm_deferTerminalHookResult m)) = Local" by (simp add: plannerContext_def)
      have res: "snd (report_on_session lc st s m source) = (if timed_out_report s m then snd (settle_timed_out st s m)
        else case plan of None \<Rightarrow> st | Some p \<Rightarrow> snd (apply_plan lc st s m p rh))"
        using None late by (simp add: report_on_session_def rh_def [symmetric] plan_def hostStatusEvent_def split: option.splits)
      have "ownership (snd (apply_plan lc st s m p rh))" if "plan = Some p" for p
        by (rule apply_plan_ownership [OF lc own s m that [unfolded plan_def] ctx])
      with own settle_timed_out_keeps [OF own s, of m] show ?thesis
        unfolding res by (auto simp: keeps_def split: option.splits)
    qed
  qed (use own in \<open>simp add: report_on_session_def rh_def\<close>)
qed

definition reportable :: "host_message \<Rightarrow> bool" where
  "reportable msg = (case msg of Msg_status m \<Rightarrow> sm_status m \<noteq> Queued | _ \<Rightarrow> True)"

lemma handle_status_ownership:
  assumes lc: "js_comparator lc" and own: "ownership st" and m: "sm_status m \<noteq> Queued"
  shows "ownership (snd (handle_status lc st m source))"
proof -
  define u where "u = (case sm_usage m of None \<Rightarrow> (ok_result, st)
    | Some x \<Rightarrow> ingestUsage st (sm_sessionId m) (sm_worktreeId m) (sm_attemptId m) x)"
  have "same_claims st (snd u)" by (simp add: u_def split: option.splits)
  with own have own1: "ownership (snd u)" using ownership_same by blast
  have "ownership (snd (applySessionStatus lc st m source))"
    using own1 report_on_session_ownership [OF lc own1 _ refl m]
    by (simp add: applySessionStatus_def u_def [symmetric] case_prod_beta Let_def split: option.splits)
  then show ?thesis
    unfolding handle_status_def Let_def
    by (cases "applySessionStatus lc st m source"; cases "fst (applySessionStatus lc st m source)")
      (simp_all add: ownership_same [OF same_send])
qed

lemma handleHostMessage_ownership:
  assumes lc: "js_comparator lc" and own: "ownership st" and "reportable msg"
  shows "ownership (snd (handleHostMessage lc st msg source))"
proof (cases msg)
  case (Msg_status m)
  with assms(3) handle_status_ownership [OF lc own] show ?thesis by (simp add: reportable_def)
next
  case (Msg_log m)
  with own ownership_same [OF same_log] show ?thesis by simp
qed (use handle_ack_ownership [OF own] handle_command_start_ownership [OF own] handle_terminal_hook_ownership [OF own]
    ownership_same [OF same_usage] ownership_same [OF same_heartbeat] drain_resume_ownership(1) [OF own] own
    in \<open>simp_all add: case_prod_beta Let_def\<close>)

end
