(* ===== verification/GitRef.thy ===== *)
theory GitRef
  imports Prelude
begin

text \<open>
  Validation of caller-supplied git refs, \<open>modules/shared/src/scheduled-branch-ref.ts\<close>: the
  session \<open>ref\<close>, the branch of a schedule and the default ref of the GitHub ingress. The
  predicates are lexical, so each is one boolean function on the string.

  The lemmas show what acceptance guarantees: an accepted ref can not be read as an option,
  contains no control character and no traversal, a scheduled branch is in particular a
  safe session ref, and canonicalisation yields a stable heads ref.
\<close>

definition MAX_SCHEDULED_BRANCH_REF_BYTES :: nat where
  "MAX_SCHEDULED_BRANCH_REF_BYTES = 255"

definition is_hex :: "char \<Rightarrow> bool" where
  "is_hex c = (is_digit c \<or> (CHR ''a'' \<le> c \<and> c \<le> CHR ''f'') \<or> (CHR ''A'' \<le> c \<and> c \<le> CHR ''F''))"

definition sha_like_ref :: "string \<Rightarrow> bool" where
  "sha_like_ref v = (7 \<le> length v \<and> length v \<le> 64 \<and> list_all is_hex v)"

definition hasControlCharacter :: "string \<Rightarrow> bool" where
  "hasControlCharacter v = list_ex (\<lambda>c. char_code c \<le> 32 \<or> char_code c = 127) v"

definition hasForbiddenBranchCharacter :: "string \<Rightarrow> bool" where
  "hasForbiddenBranchCharacter v =
    (hasControlCharacter v \<or> list_ex (\<lambda>c. List.member v c) [CHR ''~'', CHR ''^'', CHR '':'', CHR ''?'', CHR ''*'', CHR ''['', CHR 0x5C])"

definition hasUnsafeRefShape :: "string \<Rightarrow> bool" where
  "hasUnsafeRefShape v =
    (starts_with v ''-'' \<or> starts_with v ''/'' \<or> ends_with v ''/'' \<or> ends_with v ''.''
     \<or> str_includes v ''//'' \<or> str_includes v ''..'' \<or> str_includes v [CHR 0x40, CHR 0x7B] \<or> hasControlCharacter v)"

definition hasSafeRefPathSegments :: "string \<Rightarrow> bool" where
  "hasSafeRefPathSegments v =
    list_all (\<lambda>part. \<not> starts_with part ''.'' \<and> \<not> ends_with part ''.lock'') (split_on (CHR ''/'') v)"

definition HEADS_PREFIX :: string where
  "HEADS_PREFIX = ''refs/heads/''"

definition isValidGitHubIngressDefaultRef :: "string \<Rightarrow> bool" where
  "isValidGitHubIngressDefaultRef v =
    (if \<not> starts_with v HEADS_PREFIX then False
     else if MAX_SCHEDULED_BRANCH_REF_BYTES < utf8_length v then False
     else let suffix = drop (length HEADS_PREFIX) v
       in if suffix = [] \<or> suffix = ''@'' \<or> suffix = ''HEAD'' then False
          else if hasUnsafeRefShape suffix \<or> hasForbiddenBranchCharacter suffix then False
          else hasSafeRefPathSegments suffix)"

definition canonicalizeGitHubIngressDefaultRef :: "string \<Rightarrow> string option" where
  "canonicalizeGitHubIngressDefaultRef v =
    (if isValidGitHubIngressDefaultRef v then Some v
     else if starts_with v ''refs/'' then None
     else let candidate = HEADS_PREFIX @ v
       in if isValidGitHubIngressDefaultRef candidate then Some candidate else None)"

definition isValidScheduledBranchRef :: "string \<Rightarrow> bool" where
  "isValidScheduledBranchRef v =
    (if v = [] then False
     else if MAX_SCHEDULED_BRANCH_REF_BYTES < utf8_length v then False
     else if v = ''@'' \<or> v = ''HEAD'' \<or> starts_with v ''refs/'' \<or> hasUnsafeRefShape v
       \<or> hasForbiddenBranchCharacter v \<or> sha_like_ref v then False
     else hasSafeRefPathSegments v)"

definition isValidSessionRef :: "string \<Rightarrow> bool" where
  "isValidSessionRef v =
    (if v = [] then False
     else if MAX_SCHEDULED_BRANCH_REF_BYTES < utf8_length v then False
     else if hasUnsafeRefShape v then False
     else hasSafeRefPathSegments v)"

section \<open>What acceptance guarantees\<close>

definition argv_safe :: "string \<Rightarrow> bool" where
  "argv_safe v = (v \<noteq> [] \<and> hd v \<noteq> CHR ''-'' \<and> hd v \<noteq> CHR ''/'' \<and> (\<forall>c \<in> set v. 32 < char_code c \<and> char_code c \<noteq> 127)
    \<and> (\<nexists>p q. v = p @ ''..'' @ q) \<and> (\<forall>seg \<in> set (split_on (CHR ''/'') v). seg \<noteq> [] \<and> hd seg \<noteq> CHR ''.''))"

lemma starts_with_hd: "v \<noteq> [] \<Longrightarrow> starts_with v [c] \<longleftrightarrow> hd v = c"
  by (cases v) auto

lemma split_empty_segment:
  assumes "[] \<in> set (split_on c v)"
  shows "v = [] \<or> starts_with v [c] \<or> ends_with v [c] \<or> str_includes v [c, c]"
proof -
  obtain xs ys where s: "split_on c v = xs @ [] # ys" using assms by (meson split_list)
  have v: "v = join_with [c] (xs @ [] # ys)" using join_split [of c v] s by simp
  show ?thesis
  proof (cases "xs = []")
    case True
    then show ?thesis using v by (cases ys) (auto simp: starts_with_prefix)
  next
    case False
    have r: "join_with [c] (xs @ [] # ys) = join_with [c] xs @ [c] @ join_with [c] ([] # ys)"
      using False by (intro join_with_append) auto
    show ?thesis
    proof (cases ys)
      case Nil
      then show ?thesis using v r by (auto simp: ends_with_suffix)
    next
      case (Cons z zs)
      then have "v = join_with [c] xs @ [c, c] @ join_with [c] (z # zs)" using v r by simp
      then have "str_includes v [c, c]" by (auto simp: str_includes_infix)
      then show ?thesis by blast
    qed
  qed
qed

lemma unsafe_shape_argv:
  assumes "v \<noteq> []" and "\<not> hasUnsafeRefShape v" and "hasSafeRefPathSegments v"
  shows "argv_safe v"
proof -
  have hd: "hd v \<noteq> CHR ''-''" "hd v \<noteq> CHR ''/''"
    using assms by (auto simp: hasUnsafeRefShape_def starts_with_hd)
  have ctl: "\<forall>c \<in> set v. 32 < char_code c \<and> char_code c \<noteq> 127"
    using assms(2) by (auto simp: hasUnsafeRefShape_def hasControlCharacter_def list_ex_iff not_le)
  have dots: "\<nexists>p q. v = p @ ''..'' @ q"
    using assms(2) by (simp add: hasUnsafeRefShape_def str_includes_infix)
  have "[] \<notin> set (split_on (CHR ''/'') v)"
    using split_empty_segment [of "CHR ''/''" v] assms(1,2) by (auto simp: hasUnsafeRefShape_def)
  then have "seg \<noteq> [] \<and> hd seg \<noteq> CHR ''.''" if "seg \<in> set (split_on (CHR ''/'') v)" for seg
    using that assms(3) starts_with_hd [of seg "CHR ''.''"]
    by (auto simp: hasSafeRefPathSegments_def list_all_iff)
  then show ?thesis using assms(1) hd ctl dots by (simp add: argv_safe_def)
qed

text \<open>C27: every accepted session ref is safe as an argument: it is not empty, does not start with
  a dash or a slash, contains no blank or control character and no double dot, none of its path
  segments is empty or starts with a dot, and it is at most 255 bytes long. Every accepted
  scheduled branch is an accepted session ref, and moreover neither \<open>HEAD\<close>, a full ref name nor
  a commit hash.\<close>
theorem accepted_refs_are_safe:
  "(isValidSessionRef v \<longrightarrow> argv_safe v \<and> utf8_length v \<le> 255)
   \<and> (isValidScheduledBranchRef v \<longrightarrow>
        isValidSessionRef v \<and> v \<noteq> ''HEAD'' \<and> \<not> starts_with v ''refs/'' \<and> \<not> sha_like_ref v)"
  using unsafe_shape_argv [of v]
  by (auto simp: isValidSessionRef_def isValidScheduledBranchRef_def MAX_SCHEDULED_BRANCH_REF_BYTES_def
    split: if_splits)

theorem accepted_refs_are_safe_witness:
  "argv_safe ''feature/login'' \<and> isValidScheduledBranchRef ''feature/login''"
proof -
  have "isValidSessionRef ''feature/login''" "isValidScheduledBranchRef ''feature/login''" by code_simp+
  with accepted_refs_are_safe [of "''feature/login''"] show ?thesis by blast
qed

section \<open>Canonical ingress refs\<close>

lemma heads_refs: "starts_with v HEADS_PREFIX \<Longrightarrow> starts_with v ''refs/''"
  by (auto simp: starts_with_prefix HEADS_PREFIX_def)

lemma ingress_canonical: "isValidGitHubIngressDefaultRef v \<Longrightarrow> starts_with v HEADS_PREFIX"
  by (simp add: isValidGitHubIngressDefaultRef_def split: if_splits)

text \<open>Canonicalising a GitHub ingress ref yields an accepted \<open>refs/heads/\<close> name that
  canonicalises to itself and is the input or the input with the heads prefix; every accepted
  scheduled branch of at most 244 bytes canonicalises to its heads ref.\<close>
theorem canonical_ingress_ref:
  "(canonicalizeGitHubIngressDefaultRef v = Some r \<longrightarrow>
      isValidGitHubIngressDefaultRef r \<and> starts_with r HEADS_PREFIX
      \<and> canonicalizeGitHubIngressDefaultRef r = Some r \<and> (r = v \<or> r = HEADS_PREFIX @ v))
   \<and> (isValidScheduledBranchRef v \<and> utf8_length v \<le> 244 \<longrightarrow>
      canonicalizeGitHubIngressDefaultRef v = Some (HEADS_PREFIX @ v))"
proof -
  have one: "isValidGitHubIngressDefaultRef r \<and> starts_with r HEADS_PREFIX
      \<and> canonicalizeGitHubIngressDefaultRef r = Some r \<and> (r = v \<or> r = HEADS_PREFIX @ v)"
    if "canonicalizeGitHubIngressDefaultRef v = Some r"
    using that ingress_canonical
    by (auto simp: canonicalizeGitHubIngressDefaultRef_def Let_def split: if_splits)
  have two: "canonicalizeGitHubIngressDefaultRef v = Some (HEADS_PREFIX @ v)"
    if v: "isValidScheduledBranchRef v" and l: "utf8_length v \<le> 244"
  proof -
    have "\<not> starts_with v ''refs/''" using v by (simp add: isValidScheduledBranchRef_def split: if_splits)
    then have no: "\<not> isValidGitHubIngressDefaultRef v" using heads_refs ingress_canonical by blast
    have "utf8_length (HEADS_PREFIX @ v) \<le> 255" using l by (simp add: HEADS_PREFIX_def char_code_def)
    then have "isValidGitHubIngressDefaultRef (HEADS_PREFIX @ v)"
      using v by (simp add: isValidGitHubIngressDefaultRef_def isValidScheduledBranchRef_def
        MAX_SCHEDULED_BRANCH_REF_BYTES_def Let_def split: if_splits)
    then show ?thesis
      using no \<open>\<not> starts_with v ''refs/''\<close> by (simp add: canonicalizeGitHubIngressDefaultRef_def)
  qed
  from one two show ?thesis by blast
qed

theorem canonical_ingress_ref_witness:
  "canonicalizeGitHubIngressDefaultRef ''main'' = Some (HEADS_PREFIX @ ''main'')"
proof -
  have "isValidScheduledBranchRef ''main''" by code_simp
  moreover have "utf8_length ''main'' \<le> 244" by code_simp
  ultimately show ?thesis using canonical_ingress_ref [of "''main''"] by blast
qed

end
