(* ===== verification/SessionInput.thy ===== *)
theory SessionInput
  imports Commands GitRef
begin

text \<open>
  The validation of a session request, \<open>modules/shared/src/validation.ts\<close>: the limits on prompt, timeout,
  priority, labels, ref, concurrency id and metadata, the target routing policy with its duplicate check, and
  \<open>validateCreateSessionInput\<close>, which turns a JSON body into the fields a session is created from.

  A body is a list of JSON members; a member that is absent is \<open>undefined\<close>. JSON numbers are integers.
  A rejected input is \<open>Inl\<close> of the error message.
\<close>

section \<open>Limits\<close>

definition MAX_CONCURRENCY_ID_BYTES :: nat where
  "MAX_CONCURRENCY_ID_BYTES = 2048"

definition promptByteLengthError :: "string \<Rightarrow> string option" where
  "promptByteLengthError prompt =
    (if utf8_length prompt > MAX_PROMPT_BYTES
     then Some (''prompt must be at most '' @ show_int (int MAX_PROMPT_BYTES) @ '' bytes'') else None)"

definition concurrencyIdByteLengthError :: "string \<Rightarrow> string option" where
  "concurrencyIdByteLengthError concurrencyId =
    (if utf8_length concurrencyId > MAX_CONCURRENCY_ID_BYTES
     then Some (''concurrencyId must be at most '' @ show_int (int MAX_CONCURRENCY_ID_BYTES) @ '' bytes'') else None)"

definition MAX_SESSION_TIMEOUT_SECONDS :: int where
  "MAX_SESSION_TIMEOUT_SECONDS = 7 * 24 * 60 * 60"

definition MAX_QUEUE_TTL_SECONDS :: int where
  "MAX_QUEUE_TTL_SECONDS = 30 * 24 * 60 * 60"

definition MAX_SESSION_PRIORITY :: int where
  "MAX_SESSION_PRIORITY = 10000"

definition MAX_REQUIRED_LABELS :: nat where
  "MAX_REQUIRED_LABELS = 16"

definition MAX_REQUIRED_LABEL_LENGTH :: nat where
  "MAX_REQUIRED_LABEL_LENGTH = 64"

definition MAX_METADATA_KEYS :: nat where
  "MAX_METADATA_KEYS = 32"

definition MAX_METADATA_KEY_LENGTH :: nat where
  "MAX_METADATA_KEY_LENGTH = 64"

definition MAX_METADATA_STRING_LENGTH :: nat where
  "MAX_METADATA_STRING_LENGTH = 1024"

definition MAX_FALLBACKS :: nat where
  "MAX_FALLBACKS = 90"

definition DEFAULT_QUEUE_TTL_SECONDS :: int where
  "DEFAULT_QUEUE_TTL_SECONDS = 691200"

definition sessionTimeoutError :: "json option \<Rightarrow> string option" where
  "sessionTimeoutError v =
    (case v of
       Some (JNum timeout) \<Rightarrow>
         (if timeout \<le> 0 then Some ''timeout must be a positive number of seconds''
          else if timeout > MAX_SESSION_TIMEOUT_SECONDS
          then Some (''timeout must be at most '' @ show_int MAX_SESSION_TIMEOUT_SECONDS @ '' seconds'') else None)
     | _ \<Rightarrow> Some ''timeout must be a positive number of seconds'')"

definition sessionPriorityError :: "json option \<Rightarrow> string option" where
  "sessionPriorityError v =
    (case v of
       Some (JNum priority) \<Rightarrow>
         (if \<bar>priority\<bar> > MAX_SESSION_PRIORITY
          then Some (''priority must be between -'' @ show_int MAX_SESSION_PRIORITY @ '' and '' @ show_int MAX_SESSION_PRIORITY)
          else None)
     | _ \<Rightarrow> Some ''priority must be a number'')"

definition isReservedConcurrencyId :: "string \<Rightarrow> bool" where
  "isReservedConcurrencyId v =
    (starts_with v ''catalog-delete:'' \<or> starts_with v ''provider-account:'' \<or> starts_with v ''provider-lease:''
     \<or> starts_with v ''session-spawn:'' \<or> starts_with v ''webhook:'' \<or> starts_with v ''github-comment:'')"

definition non_empty_string :: "json option \<Rightarrow> string option" where
  "non_empty_string v = (case v of Some (JStr s) \<Rightarrow> if length s > 0 then Some s else None | _ \<Rightarrow> None)"

definition session_type_of :: "json option \<Rightarrow> session_type option" where
  "session_type_of v =
    (case v of
       Some (JStr t) \<Rightarrow>
         (if t = ''prompt'' then Some Type_prompt else if t = ''scheduled'' then Some Type_scheduled
          else if t = ''workspace'' then Some Type_workspace else None)
     | _ \<Rightarrow> None)"

definition SESSION_SOURCES :: "string list" where
  "SESSION_SOURCES = [''api'', ''ui'', ''webhook'', ''schedule'']"

definition isSessionSource :: "json option \<Rightarrow> bool" where
  "isSessionSource v = (case v of Some (JStr s) \<Rightarrow> List.member SESSION_SOURCES s | _ \<Rightarrow> False)"

section \<open>Targets\<close>

definition parseTarget :: "json option \<Rightarrow> string \<Rightarrow> string + target_ref" where
  "parseTarget v name =
    (case v of
       Some (JObj target) \<Rightarrow>
         (let provider = js_get target ''providerId''; command = js_get target ''commandId''
          in if (provider \<noteq> None) = (command \<noteq> None)
             then Inl (name @ '' must contain exactly one of providerId or commandId'')
             else if provider \<noteq> None
             then (case non_empty_string provider of
                 Some p \<Rightarrow> Inr (Provider_target p) | None \<Rightarrow> Inl (name @ ''.providerId must be a non-empty string''))
             else (case non_empty_string command of
                 Some c \<Rightarrow> Inr (Command_target c) | None \<Rightarrow> Inl (name @ ''.commandId must be a non-empty string'')))
     | _ \<Rightarrow> Inl (name @ '' must be an object with exactly one of providerId or commandId''))"

fun targetKey :: "target_ref \<Rightarrow> string" where
  "targetKey (Provider_target p) = ''provider:'' @ p"
| "targetKey (Command_target c) = ''command:'' @ c"

fun parse_fallbacks :: "nat \<Rightarrow> string list \<Rightarrow> json list \<Rightarrow> string + target_ref list" where
  "parse_fallbacks i seen [] = Inr []"
| "parse_fallbacks i seen (v # vs) =
    (case parseTarget (Some v) (''fallbacks['' @ show_int (int i) @ '']'') of
       Inl e \<Rightarrow> Inl e
     | Inr fallback \<Rightarrow>
         (if List.member seen (targetKey fallback) then Inl ''target and fallbacks must not contain duplicates''
          else case parse_fallbacks (Suc i) (targetKey fallback # seen) vs of
            Inl e \<Rightarrow> Inl e | Inr fallbacks \<Rightarrow> Inr (fallback # fallbacks)))"

definition queue_ttl :: "json option \<Rightarrow> string + int" where
  "queue_ttl v =
    (case (if v = Some JNull then None else v) of
       None \<Rightarrow> Inr DEFAULT_QUEUE_TTL_SECONDS
     | Some (JNum n) \<Rightarrow>
         (if n \<le> 0 then Inl ''queueTtlSeconds must be a positive integer''
          else if n > MAX_QUEUE_TTL_SECONDS then Inl (''queueTtlSeconds must be at most '' @ show_int MAX_QUEUE_TTL_SECONDS)
          else Inr n)
     | _ \<Rightarrow> Inl ''queueTtlSeconds must be a positive integer'')"

definition validateTargetRouting ::
    "json option \<Rightarrow> json option \<Rightarrow> json option \<Rightarrow> nat \<Rightarrow> string + target_ref \<times> target_ref list \<times> int" where
  "validateTargetRouting targetv fallbacksv ttlv maxFallbacks =
    (case parseTarget targetv ''target'' of
       Inl e \<Rightarrow> Inl e
     | Inr target \<Rightarrow>
         (case (case fallbacksv of
                  None \<Rightarrow> Inr []
                | Some (JArr vs) \<Rightarrow>
                    (if length vs > maxFallbacks
                     then Inl (''fallbacks must have at most '' @ show_int (int maxFallbacks) @ '' entries'')
                     else parse_fallbacks 0 [targetKey target] vs)
                | _ \<Rightarrow> Inl ''fallbacks must be an array'') of
            Inl e \<Rightarrow> Inl e
          | Inr fallbacks \<Rightarrow>
              (case queue_ttl ttlv of Inl e \<Rightarrow> Inl e | Inr ttl \<Rightarrow> Inr (target, fallbacks, ttl))))"

section \<open>Metadata and labels\<close>

definition metadata_field_error :: "string \<times> json \<Rightarrow> string option" where
  "metadata_field_error kv =
    (if length (fst kv) = 0 \<or> length (fst kv) > MAX_METADATA_KEY_LENGTH
     then Some (''metadata keys must be 1-'' @ show_int (int MAX_METADATA_KEY_LENGTH) @ '' characters'')
     else case snd kv of
       JArr _ \<Rightarrow> Some ''metadata values must be strings, numbers, booleans, or null''
     | JObj _ \<Rightarrow> Some ''metadata values must be strings, numbers, booleans, or null''
     | JStr s \<Rightarrow>
         (if length s > MAX_METADATA_STRING_LENGTH
          then Some (''metadata string values must be at most '' @ show_int (int MAX_METADATA_STRING_LENGTH) @ '' characters'')
          else None)
     | _ \<Rightarrow> None)"

fun first_error :: "('a \<Rightarrow> string option) \<Rightarrow> 'a list \<Rightarrow> string option" where
  "first_error f [] = None"
| "first_error f (x # xs) = (case f x of Some e \<Rightarrow> Some e | None \<Rightarrow> first_error f xs)"

definition parseSessionMetadata :: "json \<Rightarrow> string + json" where
  "parseSessionMetadata v =
    (case v of
       JObj entries \<Rightarrow>
         (if length entries > MAX_METADATA_KEYS
          then Inl (''metadata must have at most '' @ show_int (int MAX_METADATA_KEYS) @ '' keys'')
          else case first_error metadata_field_error entries of Some e \<Rightarrow> Inl e | None \<Rightarrow> Inr (JObj entries))
     | _ \<Rightarrow> Inl ''metadata must be an object when set'')"

fun strings_of :: "json list \<Rightarrow> string list option" where
  "strings_of [] = Some []"
| "strings_of (JStr s # vs) = map_option ((#) s) (strings_of vs)"
| "strings_of (v # vs) = None"

definition parse_labels :: "json option \<Rightarrow> string + string list" where
  "parse_labels v =
    (case v of
       None \<Rightarrow> Inr []
     | Some (JArr vs) \<Rightarrow>
         (case strings_of vs of
            None \<Rightarrow> Inl ''requiredLabels must be an array of strings''
          | Some labels \<Rightarrow>
              (if length labels > MAX_REQUIRED_LABELS
               then Inl (''requiredLabels must have at most '' @ show_int (int MAX_REQUIRED_LABELS) @ '' entries'')
               else if list_ex (\<lambda>label. length label > MAX_REQUIRED_LABEL_LENGTH) labels
               then Inl (''requiredLabels entries must be at most '' @ show_int (int MAX_REQUIRED_LABEL_LENGTH) @ '' characters'')
               else Inr labels))
     | _ \<Rightarrow> Inl ''requiredLabels must be an array of strings'')"

section \<open>The request\<close>

fun bind_ok :: "'e + 'a \<Rightarrow> ('a \<Rightarrow> 'e + 'b) \<Rightarrow> 'e + 'b" where
  "bind_ok (Inl e) f = Inl e"
| "bind_ok (Inr x) f = f x"

definition rejected :: "bool \<Rightarrow> string \<Rightarrow> (string + 'a) \<Rightarrow> string + 'a" where
  "rejected bad message rest = (if bad then Inl message else rest)"

type_synonym request = "(string \<times> json) list"

record input_options =
  io_allowReservedConcurrencyId :: bool
  io_allowCustomWebhookConcurrencyId :: bool
  io_allowGitHubCommentConcurrencyId :: bool

record session_fields =
  sf_repositoryId :: "string option"
  sf_prompt :: string
  sf_target :: target_ref
  sf_fallbacks :: "target_ref list"
  sf_queueTtlSeconds :: int
  sf_timeout :: int
  sf_priority :: int
  sf_requiredLabels :: "string list"
  sf_ref :: "string option"
  sf_concurrencyId :: "string option"
  sf_metadata :: "json option"
  sf_type :: session_type
  sf_source :: string
  sf_workspacePoolId :: "string option"
  sf_setupProfileId :: "string option"
  sf_destroyWorkspaceAfter :: "bool option"

definition is_workspace_request :: "request \<Rightarrow> bool" where
  "is_workspace_request input = (js_get input ''repositoryId'' = Some JNull)"

definition json_bool :: "json option \<Rightarrow> bool option" where
  "json_bool v = (case v of Some (JBool b) \<Rightarrow> Some b | _ \<Rightarrow> None)"

definition scope_checked :: "request \<Rightarrow> (string + 'a) \<Rightarrow> string + 'a" where
  "scope_checked input rest =
    (let ws = is_workspace_request input; present = (\<lambda>k. js_get input k \<noteq> None)
     in rejected (\<not> ws \<and> non_empty_string (js_get input ''repositoryId'') = None) ''repositoryId is required''
       (rejected (present ''setupScript'') ''setupScript is not accepted; use setupProfileId''
       (rejected (ws \<and> non_empty_string (js_get input ''workspacePoolId'') = None)
          ''workspacePoolId is required for workspace sessions''
       (rejected (\<not> ws \<and> present ''workspacePoolId'') ''workspacePoolId is only valid for workspace sessions''
       (rejected (present ''setupProfileId'' \<and> non_empty_string (js_get input ''setupProfileId'') = None)
          ''setupProfileId must be a non-empty string when set''
       (rejected (\<not> ws \<and> present ''setupProfileId'') ''setupProfileId is only valid for workspace sessions''
       (rejected (present ''destroyWorkspaceAfter'' \<and> json_bool (js_get input ''destroyWorkspaceAfter'') = None)
          ''destroyWorkspaceAfter must be a boolean when set''
       (rejected (\<not> ws \<and> present ''destroyWorkspaceAfter'') ''destroyWorkspaceAfter is only valid for workspace sessions''
          rest))))))))"

definition requested_type :: "request \<Rightarrow> string + session_type" where
  "requested_type input =
    (let ws = is_workspace_request input; v = js_get input ''type'';
         ty = opt_or (session_type_of v) (if ws then Type_workspace else Type_prompt)
     in rejected (v \<noteq> None \<and> session_type_of v = None) ''type must be prompt, scheduled, or workspace''
       (rejected (ws \<and> ty \<noteq> Type_workspace) ''workspace sessions must have type workspace''
       (rejected (\<not> ws \<and> ty = Type_workspace) ''workspace type requires repositoryId null'' (Inr ty))))"

definition requested_prompt :: "request \<Rightarrow> session_type \<Rightarrow> string + string" where
  "requested_prompt input ty =
    (case js_get input ''prompt'' of
       Some (JStr prompt) \<Rightarrow>
         rejected (js_trim prompt = [] \<and> ty \<noteq> Type_scheduled \<and> js_get input ''source'' \<noteq> Some (JStr ''schedule''))
           ''prompt is required''
           (case promptByteLengthError prompt of Some e \<Rightarrow> Inl e | None \<Rightarrow> Inr prompt)
     | _ \<Rightarrow> Inl ''prompt is required'')"

definition json_int :: "json option \<Rightarrow> int" where
  "json_int v = (case v of Some (JNum n) \<Rightarrow> n | _ \<Rightarrow> 0)"

definition requested_timeout :: "request \<Rightarrow> string + int" where
  "requested_timeout input =
    (case sessionTimeoutError (js_get input ''timeout'') of
       Some e \<Rightarrow> Inl e | None \<Rightarrow> Inr (json_int (js_get input ''timeout'')))"

definition requested_priority :: "request \<Rightarrow> string + int" where
  "requested_priority input =
    (case js_get input ''priority'' of
       None \<Rightarrow> Inr 0
     | Some v \<Rightarrow> (case sessionPriorityError (Some v) of Some e \<Rightarrow> Inl e | None \<Rightarrow> Inr (json_int (Some v))))"

definition requested_labels :: "request \<Rightarrow> string + string list" where
  "requested_labels input =
    bind_ok (parse_labels (js_get input ''requiredLabels''))
      (\<lambda>labels. rejected (is_workspace_request input \<and> length labels > 0)
        ''requiredLabels are not supported for workspace sessions'' (Inr labels))"

definition requested_ref :: "request \<Rightarrow> string + string option" where
  "requested_ref input =
    (case js_get input ''ref'' of
       None \<Rightarrow> Inr None
     | Some v \<Rightarrow>
         (case non_empty_string (Some v) of
            None \<Rightarrow> Inl ''ref must be a non-empty string when set''
          | Some ref \<Rightarrow>
              rejected (\<not> isValidSessionRef ref) ''ref must be a valid git ref''
                (rejected (is_workspace_request input) ''ref is not supported for workspace sessions'' (Inr (Some ref)))))"

definition requested_concurrency :: "request \<Rightarrow> input_options \<Rightarrow> string + string option" where
  "requested_concurrency input options =
    (case js_get input ''concurrencyId'' of
       None \<Rightarrow> Inr None
     | Some v \<Rightarrow>
         (case non_empty_string (Some v) of
            None \<Rightarrow> Inl ''concurrencyId must be a non-empty string when set''
          | Some c \<Rightarrow>
              rejected
                (isReservedConcurrencyId c \<and> \<not> io_allowReservedConcurrencyId options
                 \<and> \<not> (io_allowCustomWebhookConcurrencyId options \<and> starts_with c ''webhook:''
                    \<or> io_allowGitHubCommentConcurrencyId options \<and> starts_with c ''github-comment:''))
                ''concurrencyId uses a reserved internal prefix''
                (case concurrencyIdByteLengthError c of Some e \<Rightarrow> Inl e | None \<Rightarrow> Inr (Some c))))"

definition requested_metadata :: "request \<Rightarrow> string + json option" where
  "requested_metadata input =
    (case js_get input ''metadata'' of
       None \<Rightarrow> Inr None | Some v \<Rightarrow> bind_ok (parseSessionMetadata v) (\<lambda>m. Inr (Some m)))"

definition requested_source :: "request \<Rightarrow> string" where
  "requested_source input = (case js_get input ''source'' of Some (JStr s) \<Rightarrow> s | _ \<Rightarrow> ''api'')"

definition validateCreateSessionInput :: "request \<Rightarrow> input_options \<Rightarrow> string + session_fields" where
  "validateCreateSessionInput input options =
    scope_checked input
     (bind_ok (requested_type input) (\<lambda>ty.
      bind_ok (requested_prompt input ty) (\<lambda>prompt.
      bind_ok (validateTargetRouting (js_get input ''target'') (js_get input ''fallbacks'') (js_get input ''queueTtlSeconds'')
        MAX_FALLBACKS) (\<lambda>(target, fallbacks, ttl).
      bind_ok (requested_timeout input) (\<lambda>timeout.
      bind_ok (requested_priority input) (\<lambda>priority.
      bind_ok (requested_labels input) (\<lambda>labels.
      bind_ok (requested_ref input) (\<lambda>ref.
      bind_ok (requested_concurrency input options) (\<lambda>concurrencyId.
      bind_ok (requested_metadata input) (\<lambda>metadata.
      rejected (js_get input ''source'' \<noteq> None \<and> \<not> isSessionSource (js_get input ''source''))
        ''source must be api, ui, webhook, or schedule''
      (rejected (ty = Type_scheduled \<and> (case ref of None \<Rightarrow> False | Some r \<Rightarrow> \<not> isValidScheduledBranchRef r))
        ''scheduled ref must be a valid branch name''
      (let ws = is_workspace_request input
       in Inr \<lparr>sf_repositoryId = (if ws then None else non_empty_string (js_get input ''repositoryId'')), sf_prompt = prompt,
         sf_target = target, sf_fallbacks = fallbacks, sf_queueTtlSeconds = ttl, sf_timeout = timeout, sf_priority = priority,
         sf_requiredLabels = labels, sf_ref = ref, sf_concurrencyId = concurrencyId, sf_metadata = metadata, sf_type = ty,
         sf_source = requested_source input,
         sf_workspacePoolId = (if ws then non_empty_string (js_get input ''workspacePoolId'') else None),
         sf_setupProfileId = (if ws then non_empty_string (js_get input ''setupProfileId'') else None),
         sf_destroyWorkspaceAfter = (if ws then json_bool (js_get input ''destroyWorkspaceAfter'') else None)\<rparr>))))))))))))"

section \<open>Evaluation\<close>

text \<open>The byte limits are compared as integers when the definitions are evaluated.\<close>

lemma prompt_limit_code [code]:
  "promptByteLengthError prompt =
    (if int (utf8_length prompt) > 65536 then Some ''prompt must be at most 65536 bytes'' else None)"
proof -
  have "show_int 65536 = ''65536''" by code_simp
  then show ?thesis by (simp add: promptByteLengthError_def MAX_PROMPT_BYTES_def)
qed

lemma concurrency_limit_code [code]:
  "concurrencyIdByteLengthError c =
    (if int (utf8_length c) > 2048 then Some ''concurrencyId must be at most 2048 bytes'' else None)"
proof -
  have "show_int 2048 = ''2048''" by code_simp
  then show ?thesis by (simp add: concurrencyIdByteLengthError_def MAX_CONCURRENCY_ID_BYTES_def)
qed

section \<open>What an accepted request guarantees\<close>

lemma rejected_ok [simp]: "rejected bad e rest = Inr x \<longleftrightarrow> \<not> bad \<and> rest = Inr x"
  by (simp add: rejected_def)

lemma bind_ok_ok [simp]: "bind_ok r f = Inr x \<longleftrightarrow> (\<exists>y. r = Inr y \<and> f y = Inr x)"
  by (cases r) simp_all

lemma targetKey_inject [simp]: "targetKey t = targetKey u \<longleftrightarrow> t = u"
  by (cases t; cases u) simp_all

lemma parse_fallbacks_distinct:
  assumes "parse_fallbacks i seen vs = Inr ts"
  shows "length ts = length vs \<and> distinct ts \<and> (\<forall>t\<in>set ts. targetKey t \<notin> set seen)"
  using assms
proof (induction vs arbitrary: i seen ts)
  case (Cons v vs)
  from Cons.prems obtain t rest where t: "parseTarget (Some v) (''fallbacks['' @ show_int (int i) @ '']'') = Inr t"
    and "targetKey t \<notin> set seen" and rest: "parse_fallbacks (Suc i) (targetKey t # seen) vs = Inr rest" and "ts = t # rest"
    by (auto split: sum.splits if_splits)
  with Cons.IH [OF rest] show ?case by auto
qed simp

definition routing_valid :: "target_ref \<Rightarrow> target_ref list \<Rightarrow> int \<Rightarrow> nat \<Rightarrow> bool" where
  "routing_valid target fallbacks ttl maxFallbacks \<longleftrightarrow> distinct (target # fallbacks) \<and> length fallbacks \<le> maxFallbacks
    \<and> 0 < ttl \<and> ttl \<le> MAX_QUEUE_TTL_SECONDS"

lemma queue_ttl_valid: "queue_ttl v = Inr ttl \<Longrightarrow> 0 < ttl \<and> ttl \<le> MAX_QUEUE_TTL_SECONDS"
  by (auto simp: queue_ttl_def DEFAULT_QUEUE_TTL_SECONDS_def MAX_QUEUE_TTL_SECONDS_def split: option.splits json.splits if_splits)

lemma validateTargetRouting_valid:
  assumes "validateTargetRouting t f ttlv n = Inr (target, fallbacks, ttl)"
  shows "routing_valid target fallbacks ttl n"
proof -
  from assms have q: "queue_ttl ttlv = Inr ttl"
    and "fallbacks = [] \<or> (\<exists>vs. length vs \<le> n \<and> parse_fallbacks 0 [targetKey target] vs = Inr fallbacks)"
    by (auto simp: validateTargetRouting_def split: sum.splits option.splits json.splits if_splits)
  with parse_fallbacks_distinct queue_ttl_valid [OF q] show ?thesis by (fastforce simp: routing_valid_def)
qed

definition scalar :: "json \<Rightarrow> bool" where
  "scalar v = (case v of JArr _ \<Rightarrow> False | JObj _ \<Rightarrow> False | JStr s \<Rightarrow> length s \<le> MAX_METADATA_STRING_LENGTH | _ \<Rightarrow> True)"

definition metadata_valid :: "json \<Rightarrow> bool" where
  "metadata_valid v = (case v of JObj m \<Rightarrow> length m \<le> MAX_METADATA_KEYS
     \<and> list_all (\<lambda>(k, x). 0 < length k \<and> length k \<le> MAX_METADATA_KEY_LENGTH \<and> scalar x) m | _ \<Rightarrow> False)"

lemma first_error_None: "first_error f xs = None \<longleftrightarrow> (\<forall>x\<in>set xs. f x = None)"
  by (induction xs) (auto split: option.splits)

lemma metadata_field_ok:
  "metadata_field_error (k, v) = None \<longleftrightarrow> 0 < length k \<and> length k \<le> MAX_METADATA_KEY_LENGTH \<and> scalar v"
  by (cases v) (auto simp: metadata_field_error_def scalar_def)

lemma parseSessionMetadata_valid: "parseSessionMetadata v = Inr m \<Longrightarrow> m = v \<and> metadata_valid v"
  by (auto simp: parseSessionMetadata_def metadata_valid_def first_error_None metadata_field_ok list_all_iff
      split: json.splits if_splits option.splits)

definition labels_valid :: "string list \<Rightarrow> bool" where
  "labels_valid labels \<longleftrightarrow> length labels \<le> MAX_REQUIRED_LABELS \<and> list_all (\<lambda>l. length l \<le> MAX_REQUIRED_LABEL_LENGTH) labels"

lemma parse_labels_valid: "parse_labels v = Inr labels \<Longrightarrow> labels_valid labels"
  by (auto simp: parse_labels_def labels_valid_def list_ex_iff list_all_iff not_less split: option.splits json.splits if_splits)

definition lane_allowed :: "input_options \<Rightarrow> string \<Rightarrow> bool" where
  "lane_allowed options c \<longleftrightarrow> 0 < length c \<and> utf8_length c \<le> MAX_CONCURRENCY_ID_BYTES
    \<and> (isReservedConcurrencyId c \<longrightarrow> io_allowReservedConcurrencyId options
      \<or> io_allowCustomWebhookConcurrencyId options \<and> starts_with c ''webhook:''
      \<or> io_allowGitHubCommentConcurrencyId options \<and> starts_with c ''github-comment:'')"

lemma non_empty_string_ok: "non_empty_string v = Some s \<longleftrightarrow> v = Some (JStr s) \<and> s \<noteq> []"
  by (auto simp: non_empty_string_def split: option.splits json.splits if_splits)

lemma requested_concurrency_valid:
  "requested_concurrency input options = Inr (Some c) \<Longrightarrow> lane_allowed options c"
  by (auto simp: requested_concurrency_def lane_allowed_def concurrencyIdByteLengthError_def non_empty_string_ok
      split: option.splits if_splits)

lemma requested_ref_valid:
  "requested_ref input = Inr (Some r) \<Longrightarrow> isValidSessionRef r \<and> \<not> is_workspace_request input"
  by (auto simp: requested_ref_def split: option.splits)

lemma requested_prompt_valid:
  "requested_prompt input ty = Inr p \<Longrightarrow> utf8_length p \<le> MAX_PROMPT_BYTES
    \<and> (js_trim p = [] \<longrightarrow> ty = Type_scheduled \<or> js_get input ''source'' = Some (JStr ''schedule''))"
  by (auto simp: requested_prompt_def promptByteLengthError_def split: option.splits json.splits if_splits)

lemma requested_numbers_valid:
  "requested_timeout input = Inr t \<Longrightarrow> 0 < t \<and> t \<le> MAX_SESSION_TIMEOUT_SECONDS"
  "requested_priority input = Inr n \<Longrightarrow> \<bar>n\<bar> \<le> MAX_SESSION_PRIORITY"
  by (auto simp: requested_timeout_def sessionTimeoutError_def requested_priority_def sessionPriorityError_def json_int_def
      MAX_SESSION_PRIORITY_def split: option.splits json.splits if_splits)

lemma requested_type_valid:
  "requested_type input = Inr ty \<Longrightarrow> (ty = Type_workspace \<longleftrightarrow> is_workspace_request input)"
  by (auto simp: requested_type_def Let_def)

definition named_target :: "target_ref \<Rightarrow> bool" where
  "named_target t = (case t of Provider_target p \<Rightarrow> p \<noteq> [] | Command_target c \<Rightarrow> c \<noteq> [])"

definition scope_valid :: "session_fields \<Rightarrow> bool" where
  "scope_valid f =
    (case sf_repositoryId f of
       Some r \<Rightarrow> r \<noteq> [] \<and> sf_type f \<noteq> Type_workspace \<and> sf_workspacePoolId f = None \<and> sf_setupProfileId f = None
         \<and> sf_destroyWorkspaceAfter f = None
     | None \<Rightarrow> sf_type f = Type_workspace \<and> sf_workspacePoolId f \<noteq> None \<and> sf_workspacePoolId f \<noteq> Some []
         \<and> sf_setupProfileId f \<noteq> Some [] \<and> sf_requiredLabels f = [] \<and> sf_ref f = None)"

definition fields_valid :: "input_options \<Rightarrow> session_fields \<Rightarrow> bool" where
  "fields_valid options f \<longleftrightarrow> scope_valid f
    \<and> utf8_length (sf_prompt f) \<le> MAX_PROMPT_BYTES
    \<and> (js_trim (sf_prompt f) = [] \<longrightarrow> sf_type f = Type_scheduled \<or> sf_source f = ''schedule'')
    \<and> routing_valid (sf_target f) (sf_fallbacks f) (sf_queueTtlSeconds f) MAX_FALLBACKS
    \<and> list_all named_target (sf_target f # sf_fallbacks f)
    \<and> 0 < sf_timeout f \<and> sf_timeout f \<le> MAX_SESSION_TIMEOUT_SECONDS \<and> \<bar>sf_priority f\<bar> \<le> MAX_SESSION_PRIORITY
    \<and> labels_valid (sf_requiredLabels f)
    \<and> (\<forall>r. sf_ref f = Some r \<longrightarrow> isValidSessionRef r \<and> (sf_type f = Type_scheduled \<longrightarrow> isValidScheduledBranchRef r))
    \<and> (\<forall>c. sf_concurrencyId f = Some c \<longrightarrow> lane_allowed options c)
    \<and> (\<forall>m. sf_metadata f = Some m \<longrightarrow> metadata_valid m) \<and> sf_source f \<in> set SESSION_SOURCES"

lemma parseTarget_named: "parseTarget v name = Inr t \<Longrightarrow> named_target t"
  by (auto simp: parseTarget_def named_target_def Let_def non_empty_string_ok split: option.splits json.splits if_splits)

lemma parse_fallbacks_named: "parse_fallbacks i seen vs = Inr ts \<Longrightarrow> list_all named_target ts"
proof (induction vs arbitrary: i seen ts)
  case (Cons v vs)
  then show ?case using parseTarget_named by (auto split: sum.splits if_splits)
qed simp

lemma validateTargetRouting_named:
  "validateTargetRouting t f ttlv n = Inr (target, fallbacks, ttl) \<Longrightarrow> list_all named_target (target # fallbacks)"
  using parseTarget_named [of t "''target''"] parse_fallbacks_named [of 0 "[targetKey target]"]
  by (auto simp: validateTargetRouting_def split: sum.splits option.splits json.splits if_splits)

lemma requested_source_valid:
  assumes "\<not> (js_get input ''source'' \<noteq> None \<and> \<not> isSessionSource (js_get input ''source''))"
  shows "requested_source input \<in> set SESSION_SOURCES"
    "js_get input ''source'' = Some (JStr ''schedule'') \<Longrightarrow> requested_source input = ''schedule''"
  using assms by (auto simp: requested_source_def isSessionSource_def SESSION_SOURCES_def split: option.splits json.splits)

lemma scope_checked_ok:
  assumes "scope_checked input rest = Inr f"
  shows "rest = Inr f" "is_workspace_request input \<or> non_empty_string (js_get input ''repositoryId'') \<noteq> None"
    "\<not> is_workspace_request input \<or> non_empty_string (js_get input ''workspacePoolId'') \<noteq> None"
proof -
  note ok = assms [unfolded scope_checked_def Let_def rejected_ok]
  show "rest = Inr f" "is_workspace_request input \<or> non_empty_string (js_get input ''repositoryId'') \<noteq> None"
    "\<not> is_workspace_request input \<or> non_empty_string (js_get input ''workspacePoolId'') \<noteq> None"
    using ok by (blast, metis, metis)
qed

lemma accepted_valid:
  assumes "validateCreateSessionInput input options = Inr f"
  shows "fields_valid options f"
proof -
  obtain ty prompt target fallbacks ttl timeout priority labels ref lane metadata where
    parts: "requested_type input = Inr ty" "requested_prompt input ty = Inr prompt"
      "validateTargetRouting (js_get input ''target'') (js_get input ''fallbacks'') (js_get input ''queueTtlSeconds'') MAX_FALLBACKS
        = Inr (target, fallbacks, ttl)"
      "requested_timeout input = Inr timeout" "requested_priority input = Inr priority" "requested_labels input = Inr labels"
      "requested_ref input = Inr ref" "requested_concurrency input options = Inr lane" "requested_metadata input = Inr metadata"
    and source: "\<not> (js_get input ''source'' \<noteq> None \<and> \<not> isSessionSource (js_get input ''source''))"
    and branch: "\<not> (ty = Type_scheduled \<and> (case ref of None \<Rightarrow> False | Some r \<Rightarrow> \<not> isValidScheduledBranchRef r))"
    and f: "f = \<lparr>sf_repositoryId = (if is_workspace_request input then None else non_empty_string (js_get input ''repositoryId'')),
      sf_prompt = prompt, sf_target = target, sf_fallbacks = fallbacks, sf_queueTtlSeconds = ttl, sf_timeout = timeout,
      sf_priority = priority, sf_requiredLabels = labels, sf_ref = ref, sf_concurrencyId = lane, sf_metadata = metadata,
      sf_type = ty, sf_source = requested_source input,
      sf_workspacePoolId = (if is_workspace_request input then non_empty_string (js_get input ''workspacePoolId'') else None),
      sf_setupProfileId = (if is_workspace_request input then non_empty_string (js_get input ''setupProfileId'') else None),
      sf_destroyWorkspaceAfter = (if is_workspace_request input then json_bool (js_get input ''destroyWorkspaceAfter'') else None)\<rparr>"
    using scope_checked_ok(1) [OF assms [unfolded validateCreateSessionInput_def]]
    unfolding bind_ok_ok split_paired_Ex prod.case rejected_ok Let_def sum.inject by (elim exE conjE) (erule that, assumption+, simp)
  note scope = scope_checked_ok(2,3) [OF assms [unfolded validateCreateSessionInput_def]]
  note v = requested_type_valid [OF parts(1)] requested_prompt_valid [OF parts(2)] requested_numbers_valid(1) [OF parts(4)]
    requested_numbers_valid(2) [OF parts(5)] validateTargetRouting_valid [OF parts(3)] validateTargetRouting_named [OF parts(3)]
  have labels: "labels_valid labels" "is_workspace_request input \<longrightarrow> labels = []"
    using parts(6) parse_labels_valid by (auto simp: requested_labels_def)
  have ref: "\<forall>r. ref = Some r \<longrightarrow> isValidSessionRef r" "is_workspace_request input \<longrightarrow> ref = None"
    using parts(7) requested_ref_valid [of input] by (cases ref; auto)+
  have metadata: "\<forall>m. metadata = Some m \<longrightarrow> metadata_valid m"
    using parts(9) parseSessionMetadata_valid by (auto simp: requested_metadata_def split: option.splits)
  have id: "non_empty_string x \<noteq> Some []" for x by (simp add: non_empty_string_ok)
  have "scope_valid f"
    using scope v(1) labels(2) ref(2) id by (cases "is_workspace_request input") (auto simp: f scope_valid_def)
  then show ?thesis
    using v labels(1) ref(1) metadata branch requested_source_valid [OF source] requested_concurrency_valid [of input options] parts(8)
    by (auto simp: f fields_valid_def split: option.splits)
qed

section \<open>Every valid set of fields is accepted\<close>

definition member_opt :: "string \<Rightarrow> json option \<Rightarrow> request" where
  "member_opt k v = (case v of None \<Rightarrow> [] | Some x \<Rightarrow> [(k, x)])"

fun target_json :: "target_ref \<Rightarrow> json" where
  "target_json (Provider_target p) = JObj [(''providerId'', JStr p)]"
| "target_json (Command_target c) = JObj [(''commandId'', JStr c)]"

fun type_name :: "session_type \<Rightarrow> string" where
  "type_name Type_prompt = ''prompt''" | "type_name Type_scheduled = ''scheduled''" | "type_name Type_workspace = ''workspace''"

definition fields_request :: "session_fields \<Rightarrow> request" where
  "fields_request f =
    [(''repositoryId'', case sf_repositoryId f of None \<Rightarrow> JNull | Some r \<Rightarrow> JStr r), (''prompt'', JStr (sf_prompt f)),
     (''target'', target_json (sf_target f)), (''fallbacks'', JArr (map target_json (sf_fallbacks f))),
     (''queueTtlSeconds'', JNum (sf_queueTtlSeconds f)), (''timeout'', JNum (sf_timeout f)), (''priority'', JNum (sf_priority f)),
     (''requiredLabels'', JArr (map JStr (sf_requiredLabels f))), (''type'', JStr (type_name (sf_type f))),
     (''source'', JStr (sf_source f))]
    @ member_opt ''ref'' (map_option JStr (sf_ref f)) @ member_opt ''concurrencyId'' (map_option JStr (sf_concurrencyId f))
    @ member_opt ''metadata'' (sf_metadata f) @ member_opt ''workspacePoolId'' (map_option JStr (sf_workspacePoolId f))
    @ member_opt ''setupProfileId'' (map_option JStr (sf_setupProfileId f))
    @ member_opt ''destroyWorkspaceAfter'' (map_option JBool (sf_destroyWorkspaceAfter f))"

lemma js_get_member: "js_get (member_opt k v) k' = (if k = k' then v else None)"
  by (auto simp: member_opt_def js_get_def split: option.splits)

lemma fields_request_get:
  "js_get (fields_request f) ''repositoryId'' = Some (case sf_repositoryId f of None \<Rightarrow> JNull | Some r \<Rightarrow> JStr r)"
  "js_get (fields_request f) ''prompt'' = Some (JStr (sf_prompt f))"
  "js_get (fields_request f) ''target'' = Some (target_json (sf_target f))"
  "js_get (fields_request f) ''fallbacks'' = Some (JArr (map target_json (sf_fallbacks f)))"
  "js_get (fields_request f) ''queueTtlSeconds'' = Some (JNum (sf_queueTtlSeconds f))"
  "js_get (fields_request f) ''timeout'' = Some (JNum (sf_timeout f))"
  "js_get (fields_request f) ''priority'' = Some (JNum (sf_priority f))"
  "js_get (fields_request f) ''requiredLabels'' = Some (JArr (map JStr (sf_requiredLabels f)))"
  "js_get (fields_request f) ''type'' = Some (JStr (type_name (sf_type f)))"
  "js_get (fields_request f) ''source'' = Some (JStr (sf_source f))"
  "js_get (fields_request f) ''ref'' = map_option JStr (sf_ref f)"
  "js_get (fields_request f) ''concurrencyId'' = map_option JStr (sf_concurrencyId f)"
  "js_get (fields_request f) ''metadata'' = sf_metadata f"
  "js_get (fields_request f) ''workspacePoolId'' = map_option JStr (sf_workspacePoolId f)"
  "js_get (fields_request f) ''setupProfileId'' = map_option JStr (sf_setupProfileId f)"
  "js_get (fields_request f) ''destroyWorkspaceAfter'' = map_option JBool (sf_destroyWorkspaceAfter f)"
  "js_get (fields_request f) ''setupScript'' = None"
  by (simp_all add: fields_request_def js_get_append js_get_member js_get_Cons split: option.splits)

lemma parseTarget_json: "named_target t \<Longrightarrow> parseTarget (Some (target_json t)) name = Inr t"
  by (cases t) (simp_all add: parseTarget_def named_target_def js_get_Cons non_empty_string_def)

lemma parse_fallbacks_json:
  "list_all named_target ts \<Longrightarrow> distinct ts \<Longrightarrow> \<forall>t\<in>set ts. targetKey t \<notin> set seen
    \<Longrightarrow> parse_fallbacks i seen (map target_json ts) = Inr ts"
proof (induction ts arbitrary: i seen)
  case (Cons t ts)
  then have "parse_fallbacks (Suc i) (targetKey t # seen) (map target_json ts) = Inr ts" by (intro Cons.IH) auto
  with Cons.prems show ?case by (simp add: parseTarget_json)
qed simp

lemma routing_json:
  assumes "routing_valid t fs ttl n" and "list_all named_target (t # fs)"
  shows "validateTargetRouting (Some (target_json t)) (Some (JArr (map target_json fs))) (Some (JNum ttl)) n = Inr (t, fs, ttl)"
proof -
  have "parse_fallbacks 0 [targetKey t] (map target_json fs) = Inr fs"
    using assms by (intro parse_fallbacks_json) (auto simp: routing_valid_def)
  with assms show ?thesis by (simp add: validateTargetRouting_def parseTarget_json routing_valid_def queue_ttl_def)
qed

lemma strings_of_JStr: "strings_of (map JStr xs) = Some xs"
  by (induction xs) simp_all

lemma fields_parts:
  assumes v: "fields_valid options f"
  shows "is_workspace_request (fields_request f) \<longleftrightarrow> sf_repositoryId f = None" (is ?ws)
    "requested_type (fields_request f) = Inr (sf_type f)"
    "requested_prompt (fields_request f) (sf_type f) = Inr (sf_prompt f)"
    "requested_timeout (fields_request f) = Inr (sf_timeout f)" "requested_priority (fields_request f) = Inr (sf_priority f)"
    "requested_labels (fields_request f) = Inr (sf_requiredLabels f)" "requested_ref (fields_request f) = Inr (sf_ref f)"
    "requested_concurrency (fields_request f) options = Inr (sf_concurrencyId f)"
    "requested_metadata (fields_request f) = Inr (sf_metadata f)" "requested_source (fields_request f) = sf_source f"
proof -
  show ws: ?ws by (simp add: is_workspace_request_def fields_request_get split: option.splits)
  note get = fields_request_get ws
  have scope: "sf_repositoryId f = None \<Longrightarrow> sf_requiredLabels f = [] \<and> sf_ref f = None" "sf_type f = Type_workspace \<longleftrightarrow> sf_repositoryId f = None"
    using v by (auto simp: fields_valid_def scope_valid_def split: option.splits)
  show "requested_type (fields_request f) = Inr (sf_type f)"
    using scope(2) by (cases "sf_type f") (auto simp: requested_type_def get session_type_of_def rejected_def)
  show "requested_prompt (fields_request f) (sf_type f) = Inr (sf_prompt f)"
    using v by (auto simp: requested_prompt_def get promptByteLengthError_def fields_valid_def)
  show "requested_timeout (fields_request f) = Inr (sf_timeout f)" "requested_priority (fields_request f) = Inr (sf_priority f)"
    using v by (auto simp: requested_timeout_def requested_priority_def get sessionTimeoutError_def sessionPriorityError_def
        json_int_def fields_valid_def)
  have "labels_valid (sf_requiredLabels f)" using v by (simp add: fields_valid_def)
  then have "parse_labels (Some (JArr (map JStr (sf_requiredLabels f)))) = Inr (sf_requiredLabels f)"
    by (auto simp: parse_labels_def strings_of_JStr labels_valid_def list_ex_iff list_all_iff not_less)
  then show "requested_labels (fields_request f) = Inr (sf_requiredLabels f)"
    using scope(1) by (auto simp: requested_labels_def get)
  have "\<forall>r. sf_ref f = Some r \<longrightarrow> isValidSessionRef r" using v by (simp add: fields_valid_def)
  then show "requested_ref (fields_request f) = Inr (sf_ref f)"
    using scope(1) by (cases "sf_ref f") (auto simp: requested_ref_def get non_empty_string_def isValidSessionRef_def split: if_splits)
  have "\<forall>c. sf_concurrencyId f = Some c \<longrightarrow> lane_allowed options c" using v by (simp add: fields_valid_def)
  then show "requested_concurrency (fields_request f) options = Inr (sf_concurrencyId f)"
    by (cases "sf_concurrencyId f") (auto simp: requested_concurrency_def get non_empty_string_def lane_allowed_def
        concurrencyIdByteLengthError_def)
  have "\<forall>m. sf_metadata f = Some m \<longrightarrow> metadata_valid m" using v by (simp add: fields_valid_def)
  moreover have "metadata_valid m \<Longrightarrow> parseSessionMetadata m = Inr m" for m
  proof (cases m)
    case (JObj members)
    assume "metadata_valid m"
    with JObj have "first_error metadata_field_error members = None"
      by (auto simp: first_error_None metadata_valid_def list_all_iff metadata_field_ok)
    with \<open>metadata_valid m\<close> JObj show ?thesis by (simp add: parseSessionMetadata_def metadata_valid_def)
  qed (simp_all add: metadata_valid_def)
  ultimately show "requested_metadata (fields_request f) = Inr (sf_metadata f)"
    by (cases "sf_metadata f") (simp_all add: requested_metadata_def get)
  show "requested_source (fields_request f) = sf_source f" by (simp add: requested_source_def get)
qed

lemma valid_accepted:
  assumes v: "fields_valid options f"
  shows "validateCreateSessionInput (fields_request f) options = Inr f"
proof -
  note parts = fields_parts [OF v]
  have routing: "validateTargetRouting (js_get (fields_request f) ''target'') (js_get (fields_request f) ''fallbacks'')
      (js_get (fields_request f) ''queueTtlSeconds'') MAX_FALLBACKS = Inr (sf_target f, sf_fallbacks f, sf_queueTtlSeconds f)"
    using v by (auto simp: fields_request_get fields_valid_def intro!: routing_json)
  have source: "isSessionSource (Some (JStr (sf_source f)))" using v by (simp add: isSessionSource_def fields_valid_def)
  have branch: "\<not> (sf_type f = Type_scheduled \<and> (case sf_ref f of None \<Rightarrow> False | Some r \<Rightarrow> \<not> isValidScheduledBranchRef r))"
    using v by (auto simp: fields_valid_def split: option.splits)
  have scope: "scope_valid f" using v by (simp add: fields_valid_def)
  have checked: "scope_checked (fields_request f) rest = rest" for rest :: "string + session_fields"
    using scope unfolding scope_checked_def Let_def parts(1) fields_request_get
    by (cases "sf_repositoryId f"; cases "sf_workspacePoolId f"; cases "sf_setupProfileId f"; cases "sf_destroyWorkspaceAfter f")
      (simp_all add: rejected_def scope_valid_def non_empty_string_def json_bool_def)
  have names: "(if sf_repositoryId f = None then None else non_empty_string (js_get (fields_request f) ''repositoryId'')) = sf_repositoryId f"
    "(if sf_repositoryId f = None then non_empty_string (js_get (fields_request f) ''workspacePoolId'') else None) = sf_workspacePoolId f"
    "(if sf_repositoryId f = None then non_empty_string (js_get (fields_request f) ''setupProfileId'') else None) = sf_setupProfileId f"
    "(if sf_repositoryId f = None then json_bool (js_get (fields_request f) ''destroyWorkspaceAfter'') else None) = sf_destroyWorkspaceAfter f"
    using scope unfolding fields_request_get
    by (cases "sf_repositoryId f"; cases "sf_workspacePoolId f"; cases "sf_setupProfileId f"; cases "sf_destroyWorkspaceAfter f";
        simp add: scope_valid_def non_empty_string_def json_bool_def)+
  show ?thesis
    unfolding validateCreateSessionInput_def checked parts routing bind_ok.simps prod.case fields_request_get(10) Let_def names
    using source branch by (simp add: rejected_def)
qed

text \<open>C32: a set of session fields comes out of the validation of some request exactly when it satisfies the
  documented limits: one scope (repository or workspace pool), a prompt of at most 64 KiB that is blank only for
  schedules, pairwise distinct named targets with at most 90 fallbacks, bounded time to live, timeout, priority,
  labels and metadata, a ref that is safe for Git, and a concurrency id outside the reserved namespaces the caller
  may not use.\<close>

theorem accepted_requests_are_the_valid_ones:
  "(\<exists>input. validateCreateSessionInput input options = Inr f) \<longleftrightarrow> fields_valid options f"
  using accepted_valid valid_accepted by blast

end
