(* ===== verification/Sessions.thy ===== *)
theory Sessions
  imports Assignment SessionInput
begin

text \<open>
  Sessions enter the control plane: \<open>createSession\<close> and \<open>supersedeSession\<close>
  (\<open>control-plane-sessions.ts\<close>), the admission check of a workspace assignment frame
  (\<open>control-plane-session-create.ts\<close>), target display names, clones (\<open>control-plane-session-clone.ts\<close>) and native
  resume (\<open>control-plane-session-resume.ts\<close>).

  An operation returns the reply and the state after it; the reply is \<open>None\<close> where the code throws, which here is
  \<open>toISOString\<close> on a time outside the range of \<open>Date\<close>. The reply carries the stored session record.
\<close>

type_synonym session_error = "string \<times> string option"
type_synonym session_reply = "session_error + session_record \<times> bool"

section \<open>Target display names\<close>

text \<open>The source separates provider and command by an em dash, which is outside the 8-bit characters of the
  model; \<open>EM_DASH\<close> stands for it.\<close>

definition EM_DASH :: string where
  "EM_DASH = [CHR 0x97]"

fun resolveSessionTargetDisplayName :: "control_plane_state \<Rightarrow> target_ref \<Rightarrow> string + string" where
  "resolveSessionTargetDisplayName st (Provider_target p) =
    (case js_get (st_providers st) p of
       Some x \<Rightarrow> Inr (prov_name x) | None \<Rightarrow> Inl (''providerId '' @ p @ '' not found''))"
| "resolveSessionTargetDisplayName st (Command_target c) =
    (case js_get (st_commands st) c of
       None \<Rightarrow> Inl (''commandId '' @ c @ '' not found'')
     | Some x \<Rightarrow>
         (case cmd_providerId x of
            None \<Rightarrow> Inr (cmd_name x)
          | Some p \<Rightarrow>
              (case js_get (st_providers st) p of
                 None \<Rightarrow> Inl (''provider '' @ p @ '' not found'')
               | Some provider \<Rightarrow> Inr (prov_name provider @ '' '' @ EM_DASH @ '' '' @ cmd_name x))))"

fun display_names :: "control_plane_state \<Rightarrow> target_ref list \<Rightarrow> string + string list" where
  "display_names st [] = Inr []"
| "display_names st (t # ts) =
    bind_ok (resolveSessionTargetDisplayName st t) (\<lambda>n. bind_ok (display_names st ts) (\<lambda>ns. Inr (n # ns)))"

definition resolveTargetDisplayNames :: "control_plane_state \<Rightarrow> target_ref \<Rightarrow> target_ref list \<Rightarrow> string + string list" where
  "resolveTargetDisplayNames st target fallbacks = display_names st (target # fallbacks)"

section \<open>Admission of a workspace assignment\<close>

record admission_route =
  ar_commandId :: string
  ar_providerId :: "string option"
  ar_providerAccountId :: "string option"

record workspace_fields =
  wf_workspacePoolId :: string
  wf_setupProfileId :: "string option"
  wf_workspaceSetupScript :: "string option"
  wf_destroyWorkspaceAfter :: "bool option"
  wf_prompt :: string
  wf_target :: target_ref
  wf_fallbacks :: "target_ref list"
  wf_timeout :: int
  wf_metadata :: "json option"

definition OPAQUE_ID :: string where
  "OPAQUE_ID = replicate 512 (CHR ''x'')"

definition opts_into_pool :: "host_inventory \<Rightarrow> string \<Rightarrow> bool" where
  "opts_into_pool inventory poolId =
    (case hi_workspacePools inventory of
       Some (JArr pools) \<Rightarrow>
         list_ex (\<lambda>p. case p of JObj m \<Rightarrow> js_get m ''workspacePoolId'' = Some (JStr poolId) | _ \<Rightarrow> False) pools
     | _ \<Rightarrow> False)"

definition default_route :: "control_plane_state \<Rightarrow> string \<Rightarrow> admission_route list" where
  "default_route st providerId =
    (let command = Option.bind (js_get (st_providers st) providerId) prov_defaultCommandId
     in if truthy_str command \<and> js_has (st_commands st) (the command)
        then [\<lparr>ar_commandId = the command, ar_providerId = Some providerId, ar_providerAccountId = Some OPAQUE_ID\<rparr>] else [])"

definition host_account_route :: "control_plane_state \<Rightarrow> string \<Rightarrow> host_provider_account \<Rightarrow> admission_route list" where
  "host_account_route st providerId hostAccount =
    (case js_get (st_providerAccounts st) (hpa_providerAccountId hostAccount) of
       None \<Rightarrow> []
     | Some account \<Rightarrow>
         (let command = first_some (hpa_commandId hostAccount)
                (Option.bind (js_get (st_providers st) providerId) prov_defaultCommandId)
          in if acct_providerId account \<noteq> providerId then []
             else if \<not> truthy_str command \<or> \<not> js_has (st_commands st) (the command) then []
             else [\<lparr>ar_commandId = the command, ar_providerId = Some providerId,
                    ar_providerAccountId = Some (acct_id account)\<rparr>]))"

definition dedupe_routes :: "admission_route list \<Rightarrow> admission_route list" where
  "dedupe_routes routes =
    js_values (foldl (\<lambda>m r. js_set (ar_commandId r @ '':'' @ opt_or (ar_providerAccountId r) ''undefined'') r m) [] routes)"

fun workspaceAdmissionRoutes :: "control_plane_state \<Rightarrow> string \<Rightarrow> target_ref \<Rightarrow> admission_route list" where
  "workspaceAdmissionRoutes st poolId (Command_target c) =
    (case js_get (st_commands st) c of
       None \<Rightarrow> []
     | Some command \<Rightarrow>
         (if \<not> truthy_str (cmd_providerId command)
          then [\<lparr>ar_commandId = cmd_id command, ar_providerId = None, ar_providerAccountId = None\<rparr>]
          else
            (let accounts = map acct_id (filter (\<lambda>a. Some (acct_providerId a) = cmd_providerId command)
                   (js_values (st_providerAccounts st)))
             in map (\<lambda>a. \<lparr>ar_commandId = cmd_id command, ar_providerId = cmd_providerId command, ar_providerAccountId = Some a\<rparr>)
                  (if accounts \<noteq> [] then accounts else [OPAQUE_ID]))))"
| "workspaceAdmissionRoutes st poolId (Provider_target p) =
    dedupe_routes (default_route st p
      @ concat (map (\<lambda>record. if opts_into_pool (hir_inventory record) poolId
          then concat (map (host_account_route st p) (hi_providerAccounts (hir_inventory record))) else [])
        (js_values (st_hostInventories st))))"

definition workspaceAssignmentMessage ::
    "workspace_fields \<Rightarrow> string option \<Rightarrow> admission_route \<Rightarrow> nat \<Rightarrow> string list \<Rightarrow> json" where
  "workspaceAssignmentMessage f setupScript r targetIndex argv = JObj
    ([(''type'', JStr ''session:assign''), (''sessionId'', JStr OPAQUE_ID), (''sessionType'', JStr ''workspace''),
      (''repositoryId'', JNull), (''worktreeId'', JNull), (''workspacePoolId'', JStr (wf_workspacePoolId f)),
      (''workspaceSlotId'', JStr OPAQUE_ID)]
     @ str_member ''setupProfileId'' (truthy_opt (wf_setupProfileId f)) @ str_member ''setupScript'' (truthy_opt setupScript)
     @ (case wf_destroyWorkspaceAfter f of None \<Rightarrow> [] | Some b \<Rightarrow> [(''destroyWorkspaceAfter'', JBool b)])
     @ [(''prompt'', JStr []), (''resolvedArgv'', JArr (map JStr argv)), (''timeout'', JNum (wf_timeout f)),
        (''assignedAt'', JStr ''2026-09-12T00:00:00.000Z''), (''attemptId'', JStr OPAQUE_ID)]
     @ (case wf_metadata f of None \<Rightarrow> [] | Some v \<Rightarrow> [(''metadata'', v)])
     @ str_member ''providerAccountId'' (truthy_opt (ar_providerAccountId r))
     @ [(''commandId'', JStr (ar_commandId r)), (''targetIndex'', JNum (int targetIndex))])"

definition admission_argv :: "command \<Rightarrow> string \<Rightarrow> string list" where
  "admission_argv command prompt =
    (if cmd_appendPrompt command
     then cmd_argv command @ (if truthy_bool (cmd_appendPromptSeparator command) then [''--''] else []) @ [prompt]
     else cmd_argv command)"

definition route_fits ::
    "control_plane_state \<Rightarrow> workspace_fields \<Rightarrow> string option \<Rightarrow> nat \<Rightarrow> admission_route \<Rightarrow> bool option" where
  "route_fits st f setupScript targetIndex r =
    map_option (\<lambda>command. utf8_length (json_stringify
        (workspaceAssignmentMessage f setupScript r targetIndex (admission_argv command (wf_prompt f)))) \<le> MAX_WORKSPACE_ASSIGN_BYTES)
      (js_get (st_commands st) (ar_commandId r))"

definition target_payload_error ::
    "control_plane_state \<Rightarrow> workspace_fields \<Rightarrow> string option \<Rightarrow> nat \<times> target_ref \<Rightarrow> string option" where
  "target_payload_error st f setupScript indexed =
    (let measured = map (route_fits st f setupScript (fst indexed))
           (workspaceAdmissionRoutes st (wf_workspacePoolId f) (snd indexed))
     in if List.member measured (Some False)
        then Some (''workspace session assignment exceeds '' @ show_int (int MAX_WORKSPACE_ASSIGN_BYTES) @ '' byte WebSocket limit'')
        else if \<not> List.member measured (Some True) then Some ''workspace session has no currently routable assignment''
        else None)"

definition workspaceAssignmentPayloadError :: "control_plane_state \<Rightarrow> workspace_fields \<Rightarrow> string option" where
  "workspaceAssignmentPayloadError st f =
    (let pool = js_get (st_workspacePools st) (wf_workspacePoolId f);
         setupProfileId = first_some (wf_setupProfileId f) (Option.bind pool pool_defaultSetupProfileId);
         setupScript = first_some (wf_workspaceSetupScript f)
           (if truthy_str setupProfileId
            then Option.bind pool (\<lambda>p. map_option sp_script (List.find (\<lambda>x. Some (sp_id x) = setupProfileId) (pool_setupProfiles p)))
            else None);
         frozen = f\<lparr>wf_setupProfileId := (if truthy_str setupProfileId then setupProfileId else wf_setupProfileId f),
           wf_destroyWorkspaceAfter := Some (opt_or (wf_destroyWorkspaceAfter f)
             (opt_or (map_option pool_destroyWorkspaceAfter pool) False))\<rparr>
     in first_error (target_payload_error st frozen setupScript) (enumerate 0 (wf_target f # wf_fallbacks f)))"

definition fields_payload_error :: "control_plane_state \<Rightarrow> session_fields \<Rightarrow> string option" where
  "fields_payload_error st v =
    (if truthy_str (sf_workspacePoolId v)
     then workspaceAssignmentPayloadError st
       \<lparr>wf_workspacePoolId = the (sf_workspacePoolId v), wf_setupProfileId = sf_setupProfileId v,
        wf_workspaceSetupScript = None, wf_destroyWorkspaceAfter = sf_destroyWorkspaceAfter v, wf_prompt = sf_prompt v,
        wf_target = sf_target v, wf_fallbacks = sf_fallbacks v, wf_timeout = sf_timeout v, wf_metadata = sf_metadata v\<rparr>
     else None)"

section \<open>Creating a session\<close>

record create_options =
  co_allowScheduleId :: bool
  co_allowCustomWebhookConcurrencyId :: bool
  co_allowGitHubCommentConcurrencyId :: bool

definition activeSessionForConcurrency :: "control_plane_state \<Rightarrow> string \<Rightarrow> session_record option" where
  "activeSessionForConcurrency st c =
    List.find (\<lambda>s. s_concurrencyId s = Some c \<and> isActiveSessionStatus (s_status s)) (js_values (st_sessions st))"

definition active_for :: "control_plane_state \<Rightarrow> string option \<Rightarrow> session_record option" where
  "active_for st c = (if truthy_str c then activeSessionForConcurrency st (the c) else None)"

definition scope_failure :: "control_plane_state \<Rightarrow> session_fields \<Rightarrow> session_error option" where
  "scope_failure st v =
    (if truthy_str (sf_repositoryId v)
     then map_option (\<lambda>(e, code). (e, Some code)) (repositoryAdmissionFailure st (the (sf_repositoryId v)))
     else case Option.bind (sf_workspacePoolId v) (js_get (st_workspacePools st)) of
       None \<Rightarrow> Some (''workspace pool not found'', Some ''NOT_FOUND'')
     | Some pool \<Rightarrow>
         (if truthy_str (sf_setupProfileId v)
            \<and> \<not> list_ex (\<lambda>profile. Some (sp_id profile) = sf_setupProfileId v) (pool_setupProfiles pool)
          then Some (''workspace setup profile not found'', Some ''NOT_FOUND'') else None))"

definition expiry_at :: "string \<Rightarrow> int \<Rightarrow> string option" where
  "expiry_at createdAt ttl = Option.bind (date_parse createdAt) (\<lambda>t. to_iso (t + ttl * 1000))"

definition queue_shard :: "control_plane_state \<Rightarrow> string \<Rightarrow> int" where
  "queue_shard st sid = \<bar>hashString sid\<bar> mod int (st_shardCount st)"

definition profile_script :: "workspace_pool_record option \<Rightarrow> string option \<Rightarrow> string option" where
  "profile_script pool profileId =
    (if truthy_str profileId
     then Option.bind pool (\<lambda>p. map_option sp_script (List.find (\<lambda>x. Some (sp_id x) = profileId) (pool_setupProfiles p)))
     else None)"

definition created_session ::
    "control_plane_state \<Rightarrow> session_fields \<Rightarrow> string list \<Rightarrow> string \<Rightarrow> string \<Rightarrow> string option \<Rightarrow> session_record" where
  "created_session st v names sid expiresAt scheduleId =
    (let pool = (if truthy_str (sf_workspacePoolId v) then js_get (st_workspacePools st) (the (sf_workspacePoolId v)) else None);
         profileId = (if truthy_str (sf_workspacePoolId v)
           then first_some (sf_setupProfileId v) (Option.bind pool pool_defaultSetupProfileId) else None)
     in blank_session\<lparr>s_id := sid, s_repositoryId := opt_or (sf_repositoryId v) [],
          s_workspacePoolId := truthy_opt (sf_workspacePoolId v), s_setupProfileId := truthy_opt profileId,
          s_workspaceSetupScript := truthy_opt (profile_script pool profileId),
          s_destroyWorkspaceAfter := (if truthy_str (sf_workspacePoolId v)
            then Some (opt_or (sf_destroyWorkspaceAfter v) (opt_or (map_option pool_destroyWorkspaceAfter pool) False)) else None),
          s_prompt := sf_prompt v, s_target := sf_target v, s_fallbacks := sf_fallbacks v, s_targetDisplayNames := names,
          s_queueTtlSeconds := sf_queueTtlSeconds v, s_queueExpiresAt := expiresAt, s_timeout := sf_timeout v,
          s_priority := sf_priority v, s_requiredLabels := sf_requiredLabels v, s_status := Queued,
          s_queueShard := queue_shard st sid, s_createdAt := st_now st, s_ref := sf_ref v,
          s_concurrencyId := sf_concurrencyId v, s_scheduleId := scheduleId, s_metadata := sf_metadata v,
          s_type := Some (sf_type v), s_source := Some (sf_source v)\<rparr>)"

definition createSession ::
    "control_plane_state \<Rightarrow> json \<Rightarrow> create_options \<Rightarrow> session_reply option \<times> control_plane_state" where
  "createSession st body options =
    (case body of
       JObj request \<Rightarrow>
        (case validateCreateSessionInput request
            \<lparr>io_allowReservedConcurrencyId = False,
             io_allowCustomWebhookConcurrencyId = co_allowCustomWebhookConcurrencyId options,
             io_allowGitHubCommentConcurrencyId = co_allowGitHubCommentConcurrencyId options\<rparr> of
           Inl e \<Rightarrow> (Some (Inl (e, None)), st)
         | Inr v \<Rightarrow>
            (case (if co_allowGitHubCommentConcurrencyId options then active_for st (sf_concurrencyId v) else None) of
               Some active \<Rightarrow> (Some (Inr (active, False)), st)
             | None \<Rightarrow>
                (case scope_failure st v of
                   Some e \<Rightarrow> (Some (Inl e), st)
                 | None \<Rightarrow>
                    (case resolveTargetDisplayNames st (sf_target v) (sf_fallbacks v) of
                       Inl e \<Rightarrow> (Some (Inl (e, Some ''VALIDATION_ERROR'')), st)
                     | Inr names \<Rightarrow>
                        (case fields_payload_error st v of
                           Some e \<Rightarrow> (Some (Inl (e, Some ''VALIDATION_ERROR'')), st)
                         | None \<Rightarrow>
                            (case active_for st (sf_concurrencyId v) of
                               Some active \<Rightarrow> (Some (Inr (active, False)), st)
                             | None \<Rightarrow>
                                (let (sid, st1) = next_id st;
                                     scheduleId = (if co_allowScheduleId options
                                       then (case js_get request ''scheduleId'' of Some (JStr x) \<Rightarrow> Some x | _ \<Rightarrow> None) else None)
                                 in case expiry_at (st_now st) (sf_queueTtlSeconds v) of
                                      None \<Rightarrow> (None, st1)
                                    | Some expiresAt \<Rightarrow>
                                        (let s = created_session st v names sid expiresAt scheduleId
                                         in (Some (Inr (s, True)), persistSession s st1)))))))))
     | JArr _ \<Rightarrow> (Some (Inl (''repositoryId is required'', None)), st)
     | _ \<Rightarrow> (Some (Inl (''body must be an object'', None)), st))"

definition getSession :: "control_plane_state \<Rightarrow> string \<Rightarrow> session_record option" where
  "getSession st sid = js_get (st_sessions st) sid"

definition forceStatus ::
    "control_plane_state \<Rightarrow> string \<Rightarrow> session_status \<Rightarrow> session_record option \<times> control_plane_state" where
  "forceStatus st sid status =
    (case js_get (st_sessions st) sid of
       None \<Rightarrow> (None, st) | Some s \<Rightarrow> (Some (s\<lparr>s_status := status\<rparr>), persistSession (s\<lparr>s_status := status\<rparr>) st))"

definition supersedeSession :: "control_plane_state \<Rightarrow> string \<Rightarrow> string \<Rightarrow> control_plane_state" where
  "supersedeSession st sid reason =
    (case js_get (st_sessions st) sid of
       None \<Rightarrow> st
     | Some s \<Rightarrow>
         (if s_status s \<noteq> Queued \<and> s_status s \<noteq> Running then st
          else
            (let st1 = drop_pending_ack sid st;
                 s1 = s\<lparr>s_status := Cancelled, s_errorMessage := Some reason, s_completedAt := Some (st_now st)\<rparr>
             in if s_status s = Running \<and> truthy_nullable (s_hostId s)
                then persistSession s1 (send_to_host (the (nullable_opt (s_hostId s))) (Session_cancel sid (s_attemptId s)) st1)
                else persistSession (s1\<lparr>s_worktreeId := Null, s_hostId := Null\<rparr>)
                  (if truthy_nullable (s_worktreeId s) then releaseWorktree st1 (the (nullable_opt (s_worktreeId s))) else st1))))"

section \<open>Cloning a session\<close>

definition given :: "json option \<Rightarrow> json \<Rightarrow> json" where
  "given v d = (case v of None \<Rightarrow> d | Some JNull \<Rightarrow> d | Some x \<Rightarrow> x)"

definition string_value :: "json \<Rightarrow> string" where
  "string_value v = (case v of JStr s \<Rightarrow> s | _ \<Rightarrow> [])"

definition CLONE_OVERRIDES :: "string list" where
  "CLONE_OVERRIDES = [''prompt'', ''timeout'', ''priority'', ''destroyWorkspaceAfter'', ''createdBy'']"

definition prompt_error :: "json \<Rightarrow> string option" where
  "prompt_error v =
    (case v of
       JStr prompt \<Rightarrow>
         (if length (js_trim prompt) = 0 then Some ''prompt must be a non-empty string'' else promptByteLengthError prompt)
     | _ \<Rightarrow> Some ''prompt must be a non-empty string'')"

definition validateCloneOverrides :: "request \<Rightarrow> json \<Rightarrow> json \<Rightarrow> json \<Rightarrow> string option" where
  "validateCloneOverrides opts prompt timeout priority =
    (if list_ex (\<lambda>(k, v). \<not> List.member CLONE_OVERRIDES k) opts then Some ''invalid clone overrides''
     else first_some (prompt_error prompt)
       (first_some (sessionTimeoutError (Some timeout))
       (first_some (sessionPriorityError (Some priority))
          (if (case js_get opts ''createdBy'' of None \<Rightarrow> False | Some (JStr _) \<Rightarrow> False | _ \<Rightarrow> True)
           then Some ''createdBy must be a string''
           else if js_get opts ''destroyWorkspaceAfter'' \<noteq> None \<and> json_bool (js_get opts ''destroyWorkspaceAfter'') = None
           then Some ''destroyWorkspaceAfter must be a boolean'' else None))))"

definition clone_scope_failure :: "control_plane_state \<Rightarrow> session_record \<Rightarrow> session_error option" where
  "clone_scope_failure st source =
    (if s_repositoryId source \<noteq> []
     then map_option (\<lambda>(e, code). (e, Some code)) (repositoryAdmissionFailure st (s_repositoryId source))
     else if \<not> truthy_str (s_workspacePoolId source) \<or> \<not> js_has (st_workspacePools st) (the (s_workspacePoolId source))
     then Some (''workspace pool not found'', Some ''VALIDATION_ERROR'') else None)"

definition clone_script :: "control_plane_state \<Rightarrow> session_record \<Rightarrow> session_error + string option" where
  "clone_script st source =
    (if truthy_str (s_workspacePoolId source) \<and> truthy_str (s_setupProfileId source)
     then (case first_some (s_workspaceSetupScript source)
         (profile_script (js_get (st_workspacePools st) (the (s_workspacePoolId source))) (s_setupProfileId source)) of
         None \<Rightarrow> Inl (''workspace setup profile not found'', Some ''NOT_FOUND'')
       | Some script \<Rightarrow> Inr (Some script))
     else Inr None)"

definition cloned_session ::
    "control_plane_state \<Rightarrow> session_record \<Rightarrow> request \<Rightarrow> string option \<Rightarrow> string list \<Rightarrow> string \<Rightarrow> string \<Rightarrow> session_record" where
  "cloned_session st source opts script names sid expiresAt =
    (let pooled = truthy_str (s_workspacePoolId source);
         createdBy = map_option string_value (js_get opts ''createdBy'')
     in blank_session\<lparr>s_id := sid, s_repositoryId := s_repositoryId source,
          s_workspacePoolId := truthy_opt (s_workspacePoolId source), s_setupProfileId := truthy_opt (s_setupProfileId source),
          s_workspaceSetupScript := script,
          s_destroyWorkspaceAfter := (if pooled
            then Some (opt_or (json_bool (js_get opts ''destroyWorkspaceAfter'')) (opt_or (s_destroyWorkspaceAfter source) False))
            else None),
          s_prompt := string_value (given (js_get opts ''prompt'') (JStr (s_prompt source))),
          s_target := s_target source, s_fallbacks := s_fallbacks source, s_targetDisplayNames := names,
          s_queueTtlSeconds := s_queueTtlSeconds source, s_queueExpiresAt := expiresAt,
          s_timeout := json_int (Some (given (js_get opts ''timeout'') (JNum (s_timeout source)))),
          s_priority := json_int (Some (given (js_get opts ''priority'') (JNum (s_priority source)))),
          s_requiredLabels := (if pooled then [] else s_requiredLabels source), s_status := Queued,
          s_queueShard := queue_shard st sid, s_createdAt := st_now st,
          s_ref := (if s_repositoryId source \<noteq> [] then s_ref source else None),
          s_metadata := map_option (\<lambda>by. JObj [(''createdBy'', JStr by)]) createdBy, s_principalId := createdBy,
          s_type := Some (if pooled then Type_workspace else Type_prompt), s_source := Some ''api''\<rparr>)"

definition session_payload_error :: "control_plane_state \<Rightarrow> session_record \<Rightarrow> string option" where
  "session_payload_error st s =
    (if truthy_str (s_workspacePoolId s)
     then workspaceAssignmentPayloadError st
       \<lparr>wf_workspacePoolId = the (s_workspacePoolId s), wf_setupProfileId = s_setupProfileId s,
        wf_workspaceSetupScript = s_workspaceSetupScript s, wf_destroyWorkspaceAfter = s_destroyWorkspaceAfter s,
        wf_prompt = s_prompt s, wf_target = s_target s, wf_fallbacks = s_fallbacks s, wf_timeout = s_timeout s,
        wf_metadata = s_metadata s\<rparr>
     else None)"

definition prepareClonedSession ::
    "control_plane_state \<Rightarrow> string \<Rightarrow> request \<Rightarrow> (session_error + session_record) option \<times> control_plane_state" where
  "prepareClonedSession st sid opts =
    (case js_get (st_sessions st) sid of
       None \<Rightarrow> (Some (Inl (''session not found'', Some ''NOT_FOUND'')), st)
     | Some source \<Rightarrow>
        (case clone_scope_failure st source of
           Some e \<Rightarrow> (Some (Inl e), st)
         | None \<Rightarrow>
            (case clone_script st source of
               Inl e \<Rightarrow> (Some (Inl e), st)
             | Inr script \<Rightarrow>
                (case validateCloneOverrides opts (given (js_get opts ''prompt'') (JStr (s_prompt source)))
                    (given (js_get opts ''timeout'') (JNum (s_timeout source)))
                    (given (js_get opts ''priority'') (JNum (s_priority source))) of
                   Some e \<Rightarrow> (Some (Inl (e, Some ''VALIDATION_ERROR'')), st)
                 | None \<Rightarrow>
                    (case resolveTargetDisplayNames st (s_target source) (s_fallbacks source) of
                       Inl e \<Rightarrow> (Some (Inl (e, Some ''VALIDATION_ERROR'')), st)
                     | Inr names \<Rightarrow>
                        (let (newId, st1) = next_id st
                         in case expiry_at (st_now st) (s_queueTtlSeconds source) of
                              None \<Rightarrow> (None, st1)
                            | Some expiresAt \<Rightarrow>
                                (let s = cloned_session st source opts script names newId expiresAt
                                 in case session_payload_error st s of
                                      Some e \<Rightarrow> (Some (Inl (e, Some ''VALIDATION_ERROR'')), st1)
                                    | None \<Rightarrow> (Some (Inr s), st1))))))))"

definition cloneSession ::
    "control_plane_state \<Rightarrow> string \<Rightarrow> request \<Rightarrow> session_reply option \<times> control_plane_state" where
  "cloneSession st sid opts =
    (case prepareClonedSession st sid opts of
       (None, st1) \<Rightarrow> (None, st1)
     | (Some (Inl e), st1) \<Rightarrow> (Some (Inl e), st1)
     | (Some (Inr s), st1) \<Rightarrow> (Some (Inr (s, True)), persistSession s st1))"

section \<open>Resuming a session\<close>

definition DEFAULT_CONTINUATION_PROMPT :: string where
  "DEFAULT_CONTINUATION_PROMPT = ''Continue from the previous session.''"

definition override_error :: "(json \<Rightarrow> string option) \<Rightarrow> json option \<Rightarrow> string option" where
  "override_error check v = (case v of None \<Rightarrow> None | Some x \<Rightarrow> check x)"

definition validateResumeOverrides :: "request \<Rightarrow> string + (target_ref \<times> target_ref list) option" where
  "validateResumeOverrides opts =
    (if (case js_get opts ''principalId'' of None \<Rightarrow> False | Some (JStr _) \<Rightarrow> False | _ \<Rightarrow> True)
     then Inl ''principalId must be a string''
     else case first_some (override_error prompt_error (js_get opts ''prompt''))
         (first_some (override_error (\<lambda>v. sessionTimeoutError (Some v)) (js_get opts ''timeout''))
           (override_error (\<lambda>v. sessionPriorityError (Some v)) (js_get opts ''priority''))) of
       Some e \<Rightarrow> Inl e
     | None \<Rightarrow>
         (if js_get opts ''target'' = None
          then (if js_get opts ''fallbacks'' \<noteq> None then Inl ''fallbacks requires target'' else Inr None)
          else bind_ok (validateTargetRouting (js_get opts ''target'') (js_get opts ''fallbacks'') None MAX_FALLBACKS)
            (\<lambda>(target, fallbacks, ttl). Inr (Some (target, fallbacks)))))"

definition resume_pin :: "session_record \<Rightarrow> string option" where
  "resume_pin source =
    (let route = map_option rr_hostId (s_resolvedRoute source)
     in if truthy_str route then route
        else if truthy_nullable (s_hostId source) then nullable_opt (s_hostId source)
        else truthy_opt (nullable_opt (s_pinnedHostId source)))"

definition metadata_members :: "json option \<Rightarrow> request" where
  "metadata_members v = (case v of Some (JObj m) \<Rightarrow> m | _ \<Rightarrow> [])"

definition resume_owner :: "session_record \<Rightarrow> json option \<Rightarrow> json option \<times> string option" where
  "resume_owner source who =
    (case who of
       Some p \<Rightarrow>
         (Some (JObj (js_set ''createdBy'' (JStr (string_value p)) (metadata_members (s_metadata source)))), Some (string_value p))
     | None \<Rightarrow>
         (s_metadata source,
          if s_principalId source \<noteq> None then s_principalId source
          else case js_get (metadata_members (s_metadata source)) ''createdBy'' of Some (JStr x) \<Rightarrow> Some x | _ \<Rightarrow> None))"

definition repointed ::
    "target_ref \<Rightarrow> target_ref list \<Rightarrow> string list \<Rightarrow> string \<Rightarrow> session_record \<Rightarrow> session_record" where
  "repointed target fallbacks names prompt s =
    s\<lparr>s_target := target, s_fallbacks := fallbacks, s_targetDisplayNames := names, s_resumeFallback := Some True,
      s_prompt := appendPriorContextPointer prompt\<rparr>"

definition native_continuation ::
    "session_record \<Rightarrow> string \<Rightarrow> string \<Rightarrow> string \<Rightarrow> session_record \<Rightarrow> session_record" where
  "native_continuation source pin pinExpiresAt prompt s =
    s\<lparr>s_target := s_target source, s_fallbacks := s_fallbacks source, s_targetDisplayNames := s_targetDisplayNames source,
      s_prompt := prompt, s_pinnedHostId := Val pin,
      s_pinnedProviderAccountId := (case truthy_opt (Option.bind (s_resolvedRoute source) rr_providerAccountId) of
        None \<Rightarrow> Undefined | Some a \<Rightarrow> Val a),
      s_pinnedTargetIndex := map_option rr_targetIndex (s_resolvedRoute source),
      s_pinnedCommandId := map_option rr_commandId (s_resolvedRoute source), s_pinExpiresAt := Some pinExpiresAt,
      s_resumeFallback := (if s_cliResumeRef source = None \<and> s_resumedFromSessionId source = None then Some True else None),
      s_cliResumeRef := s_cliResumeRef source, s_resumeSpec := s_resumeSpec source\<rparr>"

definition resumed_base ::
    "control_plane_state \<Rightarrow> session_record \<Rightarrow> string \<Rightarrow> request \<Rightarrow> string \<Rightarrow> string \<Rightarrow> session_record" where
  "resumed_base st source sourceId opts newId expiresAt =
    (let owner = resume_owner source (js_get opts ''principalId'')
     in blank_session\<lparr>s_id := newId, s_repositoryId := s_repositoryId source,
          s_queueTtlSeconds := s_queueTtlSeconds source, s_queueExpiresAt := expiresAt,
          s_timeout := json_int (Some (given (js_get opts ''timeout'') (JNum (s_timeout source)))),
          s_priority := json_int (Some (given (js_get opts ''priority'') (JNum (s_priority source)))),
          s_requiredLabels := s_requiredLabels source, s_status := Queued, s_queueShard := queue_shard st newId,
          s_createdAt := st_now st, s_resumedFromSessionId := Some sourceId, s_ref := s_ref source,
          s_concurrencyId := s_concurrencyId source, s_metadata := fst owner, s_principalId := snd owner,
          s_type := Some Type_prompt, s_source := Some ''api''\<rparr>)"

definition pin_expiry_invalid :: "json option \<Rightarrow> bool" where
  "pin_expiry_invalid v = (case v of None \<Rightarrow> False | Some (JStr t) \<Rightarrow> date_parse t = None | _ \<Rightarrow> True)"

definition resume_rejection :: "control_plane_state \<Rightarrow> session_record \<Rightarrow> request \<Rightarrow> session_error + (target_ref \<times> target_ref list) option" where
  "resume_rejection st source opts =
    (if s_type source = Some Type_workspace \<or> truthy_str (s_workspacePoolId source)
     then Inl (''workspace sessions do not support native resume'', None)
     else case repositoryAdmissionFailure st (s_repositoryId source) of
       Some (e, code) \<Rightarrow> Inl (e, Some code)
     | None \<Rightarrow>
        (if \<not> isTerminalSessionStatus (s_status source) then Inl (''source session must be terminal before resume'', None)
         else if s_type source = Some Type_scheduled then Inl (''scheduled sessions do not support worktree resume'', None)
         else case validateResumeOverrides opts of
           Inl e \<Rightarrow> Inl (e, None)
         | Inr routing \<Rightarrow>
            (case first_some (sessionTimeoutError (Some (given (js_get opts ''timeout'') (JNum (s_timeout source)))))
                (sessionPriorityError (Some (given (js_get opts ''priority'') (JNum (s_priority source))))) of
               Some e \<Rightarrow> Inl (e, None)
             | None \<Rightarrow>
                (if resume_pin source = None then Inl (''source session has no agent to pin'', None)
                 else if routing = None \<and> Option.bind (s_resumeSpec source) rs_resumeArgvTemplate \<noteq> None
                   \<and> \<not> truthy_str (s_cliResumeRef source)
                 then Inl (''source session has no captured CLI resume reference'', None)
                 else if pin_expiry_invalid (js_get opts ''pinExpiresAt'')
                 then Inl (''pinExpiresAt must be a valid timestamp'', None)
                 else Inr routing))))"

definition prepareResumedSession ::
    "control_plane_state \<Rightarrow> string \<Rightarrow> request \<Rightarrow> session_reply option \<times> control_plane_state" where
  "prepareResumedSession st sid opts =
    (case js_get (st_sessions st) sid of
       None \<Rightarrow> (Some (Inl (''session not found'', None)), st)
     | Some source \<Rightarrow>
        (case resume_rejection st source opts of
           Inl e \<Rightarrow> (Some (Inl e), st)
         | Inr routing \<Rightarrow>
            (case (case routing of None \<Rightarrow> Inr []
                | Some (target, fallbacks) \<Rightarrow> resolveTargetDisplayNames st target fallbacks) of
               Inl e \<Rightarrow> (Some (Inl (e, None)), st)
             | Inr names \<Rightarrow>
                (case active_for st (s_concurrencyId source) of
                   Some active \<Rightarrow> (Some (Inr (active, False)), st)
                 | None \<Rightarrow>
                    (let (newId, st1) = next_id st;
                         prompt = string_value (given (js_get opts ''prompt'') (JStr DEFAULT_CONTINUATION_PROMPT));
                         pinExpiresAt = (case js_get opts ''pinExpiresAt'' of
                           None \<Rightarrow> expiry_at (st_now st) 3600 | Some v \<Rightarrow> Some (string_value v))
                     in case (pinExpiresAt, expiry_at (st_now st) (s_queueTtlSeconds source)) of
                          (Some pinned, Some expiresAt) \<Rightarrow>
                            (let base = resumed_base st source sid opts newId expiresAt
                             in (Some (Inr (case routing of
                                   Some (target, fallbacks) \<Rightarrow> repointed target fallbacks names prompt base
                                 | None \<Rightarrow> native_continuation source (the (resume_pin source)) pinned prompt base, True)), st1))
                        | _ \<Rightarrow> (None, st1))))))"

definition resumeSession ::
    "control_plane_state \<Rightarrow> string \<Rightarrow> request \<Rightarrow> session_reply option \<times> control_plane_state" where
  "resumeSession st sid opts =
    (let (reply, st1) = prepareResumedSession st sid opts
     in (reply, case reply of Some (Inr (s, created)) \<Rightarrow> if created then persistSession s st1 else st1 | _ \<Rightarrow> st1))"

end
