(* ===== verification/Reachable.thy ===== *)
theory Reachable
  imports MessageOwnership Sessions
begin

text \<open>
  The control plane as a state machine. \<open>plane_step\<close> has a rule per operation of the plane: sessions are
  created, cloned, resumed, superseded and cancelled; the queues are assigned; deadlines and timeouts run; hosts
  register worktrees and slots, disconnect, go stale, drain, resume and send messages. Everything that leaves
  sessions, worktrees, slots and pending acknowledgements alone (the catalog, connections, the clock) is one
  further rule. \<open>reachable\<close> is what the steps reach from a fresh plane, and every reachable state satisfies
  \<open>ownership\<close>.

  Two conditions are part of the rules: the id factory gives ids that are not in use, and a host does not report
  a session as queued.
\<close>

section \<open>Sessions that enter the queue\<close>

definition unclaimed :: "session_record \<Rightarrow> bool" where
  "unclaimed s \<longleftrightarrow> s_status s = Queued \<and> s_worktreeId s = Undefined \<and> s_workspaceSlotId s = Undefined
    \<and> s_mainCheckoutLease s = None \<and> s_terminalHookHandoff s = None"

lemma unclaimed_owns: "unclaimed s \<Longrightarrow> session_owns {} awaiting s"
  by (simp add: unclaimed_def owns_simps truthy_bool_def)

lemma unclaimed_records:
  "unclaimed (created_session st v names sid e sch)" "unclaimed (cloned_session st source opts script names sid e)"
  "unclaimed (repointed t fs names p (resumed_base st source sid opts newId e))"
  "unclaimed (native_continuation source pin pe p (resumed_base st source sid opts newId e))"
  by (simp_all add: unclaimed_def created_session_def cloned_session_def repointed_def native_continuation_def
      resumed_base_def Let_def blank_session_def)

lemma created_ids:
  "s_id (created_session st v names sid e sch) = sid" "s_id (cloned_session st source opts script names sid e) = sid"
  "s_id (repointed t fs names p (resumed_base st source sid' opts sid e)) = sid"
  "s_id (native_continuation source pin pe p (resumed_base st source sid' opts sid e)) = sid"
  by (simp_all add: created_session_def cloned_session_def repointed_def native_continuation_def resumed_base_def Let_def)

text \<open>What the three entry points do to the state: nothing but the id counter, or one new session under the
  next id.\<close>

definition opens_lane :: "control_plane_state \<Rightarrow> session_record \<Rightarrow> bool" where
  "opens_lane st s \<longleftrightarrow> active_for st (s_concurrencyId s) = None"

lemma opens_lane_records:
  "active_for st (sf_concurrencyId v) = None \<Longrightarrow> opens_lane st (created_session st v names sid e sch)"
  "opens_lane st (cloned_session st source opts script names sid e)"
  "active_for st (s_concurrencyId source) = None \<Longrightarrow>
    opens_lane st (repointed t fs names p (resumed_base st source sid opts newId e))"
  "active_for st (s_concurrencyId source) = None \<Longrightarrow>
    opens_lane st (native_continuation source pin pe p (resumed_base st source sid opts newId e))"
  by (simp_all add: opens_lane_def created_session_def cloned_session_def repointed_def native_continuation_def
      resumed_base_def Let_def blank_session_def active_for_def)

definition admits :: "control_plane_state \<Rightarrow> control_plane_state \<Rightarrow> bool" where
  "admits st st' \<longleftrightarrow> st' = st \<or> st' = snd (next_id st)
    \<or> (\<exists>s. unclaimed s \<and> opens_lane st s \<and> s_id s = fst (next_id st) \<and> st' = persistSession s (snd (next_id st)))"

lemma admits_rules [simp]:
  "admits st st" "admits st (snd (next_id st))"
  "unclaimed s \<Longrightarrow> opens_lane st s \<Longrightarrow> s_id s = fst (next_id st) \<Longrightarrow> admits st (persistSession s (snd (next_id st)))"
  by (auto simp: admits_def)

lemma createSession_admits: "admits st (snd (createSession st body options))"
  by (simp add: createSession_def case_prod_beta Let_def unclaimed_records opens_lane_records created_ids split: json.splits sum.splits option.splits)

definition prepared :: "control_plane_state \<Rightarrow> (session_error + session_record) option \<times> control_plane_state \<Rightarrow> bool" where
  "prepared st p \<longleftrightarrow> (snd p = st \<or> snd p = snd (next_id st))
    \<and> (\<forall>s. fst p = Some (Inr s) \<longrightarrow> snd p = snd (next_id st) \<and> unclaimed s \<and> opens_lane st s
      \<and> s_id s = fst (next_id st))"

lemma prepared_clone: "prepared st (prepareClonedSession st sid opts)"
proof (cases "js_get (st_sessions st) sid")
  case (Some source)
  note leaf = prepareClonedSession_def prepared_def Some
  show ?thesis
  proof (cases "clone_scope_failure st source")
    case None
    note leaf = leaf None
    show ?thesis
    proof (cases "clone_script st source")
      case (Inr script)
      note leaf = leaf Inr
      show ?thesis
        by (simp add: leaf case_prod_beta Let_def unclaimed_records opens_lane_records created_ids split: sum.split option.split)
    qed (simp add: leaf)
  qed (simp add: leaf)
qed (simp add: prepareClonedSession_def prepared_def)

lemma cloneSession_admits: "admits st (snd (cloneSession st sid opts))"
proof -
  obtain r st1 where p: "prepareClonedSession st sid opts = (r, st1)" by force
  note q = prepared_clone [of st sid opts, unfolded p prepared_def, simplified]
  consider "r = None" | e where "r = Some (Inl e)" | s where "r = Some (Inr s)" by (metis option.exhaust sum.exhaust)
  then show ?thesis by cases (use q in \<open>auto simp: cloneSession_def p\<close>)
qed

definition prepared_reply :: "control_plane_state \<Rightarrow> session_reply option \<times> control_plane_state \<Rightarrow> bool" where
  "prepared_reply st p \<longleftrightarrow> (snd p = st \<or> snd p = snd (next_id st))
    \<and> (\<forall>s. fst p = Some (Inr (s, True)) \<longrightarrow> snd p = snd (next_id st) \<and> unclaimed s \<and> opens_lane st s
      \<and> s_id s = fst (next_id st))"

lemma prepared_resume: "prepared_reply st (prepareResumedSession st sid opts)"
proof (cases "js_get (st_sessions st) sid")
  case (Some source)
  note leaf = prepareResumedSession_def prepared_reply_def Some
  show ?thesis
  proof (cases "resume_rejection st source opts")
    case (Inr routing)
    note leaf = leaf Inr
    show ?thesis
    proof (cases "active_for st (s_concurrencyId source)")
      case None
      note leaf = leaf None
      show ?thesis
        by (cases routing) (simp_all add: leaf case_prod_beta Let_def unclaimed_records opens_lane_records created_ids split: sum.split option.split)
    next
      case (Some active)
      then show ?thesis by (simp add: leaf split: sum.split)
    qed
  qed (simp add: leaf)
qed (simp add: prepareResumedSession_def prepared_reply_def)

lemma resumeSession_admits: "admits st (snd (resumeSession st sid opts))"
proof -
  obtain r st1 where p: "prepareResumedSession st sid opts = (r, st1)" by force
  note q = prepared_resume [of st sid opts, unfolded p prepared_reply_def, simplified]
  have quiet: "admits st st1" using q by auto
  show ?thesis
  proof (cases "\<exists>s. r = Some (Inr (s, True))")
    case True
    then obtain s where r: "r = Some (Inr (s, True))" by blast
    with q have "st1 = snd (next_id st) \<and> unclaimed s \<and> opens_lane st s \<and> s_id s = fst (next_id st)" by blast
    then show ?thesis by (simp add: resumeSession_def p r)
  next
    case False
    then show ?thesis using quiet by (auto simp: resumeSession_def p split: option.splits sum.splits)
  qed
qed

lemma admits_ownership:
  assumes own: "ownership st" and "admits st st'" and fresh: "js_get (st_sessions st) (fst (next_id st)) = None" "fst (next_id st) \<noteq> []"
  shows "ownership st'"
proof -
  have own1: "ownership (snd (next_id st))" using own ownership_same [OF same_next_id] by simp
  show ?thesis
    using assms(2) own own1 ownership_new_session(2) [OF own1] fresh unclaimed_owns
    by (auto simp: admits_def claim_simps)
qed

section \<open>Superseded sessions\<close>

lemma supersedeSession_ownership:
  assumes own: "ownership st"
  shows "ownership (supersedeSession st sid reason)"
proof (cases "js_get (st_sessions st) sid")
  case (Some s)
  note o = ownershipD [OF own Some]
  define s1 where "s1 = s\<lparr>s_status := Cancelled, s_errorMessage := Some reason, s_completedAt := Some (st_now st)\<rparr>"
  have touch: "touches sid st (drop_pending_ack sid st)" by (simp add: touches_then_drop)
  have maps: "maps_ok (drop_pending_ack sid st)" using touches_maps [OF touch o(1)] .
  have own1: "session_owns (holds (drop_pending_ack sid st) sid) False s" using session_owns_drop [OF o(4)] by (simp add: claim_simps)
  show ?thesis
  proof (cases "s_status s \<noteq> Queued \<and> s_status s \<noteq> Running")
    case False
    then have active: "isActiveSessionStatus (s_status s)" by auto
    show ?thesis
    proof (cases "s_status s = Running \<and> truthy_nullable (s_hostId s)")
      case True
      have "session_owns (holds st sid) False s1"
        by (rule cancelled_owns [OF o(4) active]) (use True in \<open>simp_all add: s1_def\<close>)
      with keeps_put(2) [OF own touches_then_same [OF touch same_send] _ Some, where s = s1] o(2) True Some show ?thesis
        by (simp add: supersedeSession_def s1_def claim_simps keeps_def Let_def)
    next
      case away: False
      define st2 where "st2 = released_prompt (drop_pending_ack sid st) s"
      define s2 where "s2 = s1\<lparr>s_worktreeId := Null, s_hostId := Null\<rparr>"
      have "holds (drop_pending_ack sid st) sid \<subseteq> worktree_of s"
        using queued_holds_nothing(1) [OF own1 active] session_owns_running(1) [OF own1] by (cases "s_status s = Running") auto
      then have free: "holds st2 sid = {}" using released_prompt_touches(2) [OF maps own1] by (auto simp: st2_def)
      have t2: "touches sid st st2" "st_sessions st2 = st_sessions st" "\<not> awaits_ack st2 sid"
        using touches_trans [OF touch released_prompt_touches(1) [OF maps own1]] by (simp_all add: st2_def claim_simps)
      have none: "s_terminalHookHandoff s = None" using o(4) active by (simp add: session_owns_def)
      have "session_owns {} False s2" by (rule detached_owns [OF o(4)]) (simp_all add: s1_def s2_def none)
      with keeps_put(2) [OF own t2(1,2) Some, where s = s2] free t2(3) o(2) have "ownership (persistSession s2 st2)"
        by (simp add: keeps_def s2_def s1_def)
      moreover have "supersedeSession st sid reason = persistSession s2 st2"
        using Some False away by (auto simp: supersedeSession_def s2_def s1_def st2_def released_prompt_def Let_def)
      ultimately show ?thesis by simp
    qed
  qed (use own Some in \<open>simp add: supersedeSession_def\<close>)
qed (use own in \<open>simp add: supersedeSession_def\<close>)

section \<open>Advertised capacity\<close>

lemma seedWorktree_ownership:
  assumes own: "ownership st" and "holder_of st (wt_id w) = None" and "wt_id w \<noteq> []" "wt_status w \<noteq> Busy" "wt_currentSessionId w = None"
  shows "ownership (seedWorktree st w)"
proof -
  have "touches [] st (st\<lparr>st_worktrees := js_set (wt_id w) w (st_worktrees st)\<rparr>)"
    by (rule touches_worktree) (use assms in simp_all)
  moreover have "holder_of (st\<lparr>st_worktrees := js_set (wt_id w) w (st_worktrees st)\<rparr>) = holder_of st"
    using assms(2,4) by (simp add: fun_eq_iff holder_of_set)
  ultimately have "keeps [] st (st\<lparr>st_worktrees := js_set (wt_id w) w (st_worktrees st)\<rparr>)"
    by (intro keeps_view [OF own]) (simp_all add: holds_def fun_eq_iff awaits_ack_def)
  then show ?thesis by (simp add: seedWorktree_def persistWorktree_def keeps_def)
qed

section \<open>Steps\<close>

definition fresh_id :: "control_plane_state \<Rightarrow> bool" where
  "fresh_id st \<longleftrightarrow> \<not> js_has (st_sessions st) (fst (next_id st)) \<and> fst (next_id st) \<noteq> []"

inductive plane_step :: "collation \<Rightarrow> control_plane_state \<Rightarrow> control_plane_state \<Rightarrow> bool" for lc where
  step_create: "fresh_id st \<Longrightarrow> plane_step lc st (snd (createSession st body options))"
| step_clone: "fresh_id st \<Longrightarrow> plane_step lc st (snd (cloneSession st sid opts))"
| step_resume: "fresh_id st \<Longrightarrow> plane_step lc st (snd (resumeSession st sid opts))"
| step_supersede: "plane_step lc st (supersedeSession st sid reason)"
| step_cancel: "plane_step lc st (snd (cancelSession st sid))"
| step_assign: "plane_step lc st (snd (assignQueued lc st only))"
| step_assign_scheduled: "plane_step lc st (snd (assignScheduledQueued lc st only))"
| step_assign_workspace: "plane_step lc st (snd (assignWorkspaceQueued lc st only))"
| step_ack_deadlines: "plane_step lc st (snd (enforceAckDeadlines st nowMs))"
| step_timeouts: "plane_step lc st (snd (enforceRunningTimeouts st nowMs))"
| step_disconnect: "disconnectHost st c = Some (ids, st') \<Longrightarrow> plane_step lc st st'"
| step_reclaim: "reclaimStaleHosts st t = Some (ids, st') \<Longrightarrow> plane_step lc st st'"
| step_drain: "plane_step lc st (snd (drainHost st h c))"
| step_resume_host: "plane_step lc st (snd (resumeHost st h c))"
| step_message: "reportable msg \<Longrightarrow> plane_step lc st (snd (handleHostMessage lc st msg source))"
| step_expire_hook: "js_get (st_sessions st) (s_id s) = Some s
    \<Longrightarrow> plane_step lc st (snd (expireTerminalHookHandoffIfNeeded st s t))"
| step_worktree: "holder_of st (wt_id w) = None \<Longrightarrow> wt_id w \<noteq> [] \<Longrightarrow> wt_status w \<noteq> Busy \<Longrightarrow> wt_currentSessionId w = None
    \<Longrightarrow> plane_step lc st (seedWorktree st w)"
| step_slot: "slot_currentSessionId x = None \<Longrightarrow> plane_step lc st (put_slot k x st)"
| step_other: "same_claims st st' \<Longrightarrow> plane_step lc st st'"

inductive reachable :: "collation \<Rightarrow> control_plane_state \<Rightarrow> bool" for lc where
  reach_start: "reachable lc (createControlPlaneState options)"
| reach_step: "reachable lc st \<Longrightarrow> plane_step lc st st' \<Longrightarrow> reachable lc st'"

lemma fresh_ownership: "ownership (createControlPlaneState options)"
  by (simp add: ownership_def maps_ok_def slots_typed_def entry_owns_def createControlPlaneState_def js_wf_def js_get_def
      holds_def holder_of_def)

lemma fresh_admits: "ownership st \<Longrightarrow> fresh_id st \<Longrightarrow> admits st st' \<Longrightarrow> ownership st'"
  using admits_ownership [of st st'] by (simp add: fresh_id_def js_has_def js_get_def)

lemma cancelSession_ownership: "ownership st \<Longrightarrow> ownership (snd (cancelSession st sid))"
  using cancelSession_keeps [of st sid] by (cases "js_get (st_sessions st) sid") (auto simp: keeps_def cancelSession_def)

lemma step_ownership:
  assumes lc: "js_comparator lc" and "plane_step lc st st'" and own: "ownership st"
  shows "ownership st'"
  using assms(2)
proof cases
  case (step_slot x k)
  then show ?thesis using keeps_free_slot [OF own] by (simp add: keeps_def)
next
  case (step_worktree w)
  then show ?thesis using seedWorktree_ownership [OF own] by simp
next
  case step_other
  with own ownership_same show ?thesis by blast
qed (simp_all only: fresh_admits [OF own _ createSession_admits] fresh_admits [OF own _ cloneSession_admits]
    fresh_admits [OF own _ resumeSession_admits] supersedeSession_ownership [OF own] cancelSession_ownership [OF own]
    assignQueued_ownership [OF lc own] assignScheduledQueued_ownership [OF lc own] assignWorkspaceQueued_ownership [OF lc own]
    enforceAckDeadlines_ownership [OF own] enforceRunningTimeouts_ownership [OF own] disconnectHost_ownership [OF own]
    reclaimStaleHosts_ownership [OF own] drain_resume_ownership [OF own] handleHostMessage_ownership [OF lc own]
    expireTerminalHook_ownership [OF own])

lemma reachable_ownership:
  assumes "reachable lc st" and "js_comparator lc"
  shows "ownership st"
  using assms by (induction rule: reachable.induct) (simp_all add: fresh_ownership step_ownership)

section \<open>What ownership gives\<close>

lemma claimed_worktree:
  assumes "ownership st" and s: "js_get (st_sessions st) k = Some s" and w: "s_worktreeId s = Val w" "w \<noteq> []"
  shows "s_id s = k \<and> (s_status s = Running \<or> s_status s = Cancelled)
    \<and> (\<exists>x. js_get (st_worktrees st) w = Some x \<and> wt_status x = Busy \<and> wt_currentSessionId x = Some k)"
proof -
  have o: "s_id s = k" "session_owns (holds st k) (awaits_ack st k) s" using assms(1) s by (auto simp: ownership_def entry_owns_def)
  moreover have "worktree_of s = {w}" using w by (simp add: worktree_of_def)
  ultimately have "w \<in> holds st k" "s_status s = Running \<or> s_status s = Cancelled" by (auto simp: session_owns_def)
  then show ?thesis using o(1) by (auto simp: holds_def holder_of_def split: option.splits if_splits)
qed

lemma busy_worktree:
  assumes own: "ownership st" and x: "js_get (st_worktrees st) w = Some x" "wt_status x = Busy"
  shows "\<exists>sid s. wt_currentSessionId x = Some sid \<and> js_get (st_sessions st) sid = Some s
    \<and> (s_worktreeId s = Val w \<and> (s_status s = Running \<or> s_status s = Cancelled)
       \<or> (\<exists>h. s_terminalHookHandoff s = Some h \<and> thh_worktreeId h = Some w) \<and> \<not> isActiveSessionStatus (s_status s))"
proof -
  have "worktree_entry_ok w x" using own x(1) by (simp add: ownership_def maps_ok_def)
  then obtain sid where sid: "wt_currentSessionId x = Some sid" using x(2) by (auto simp: worktree_entry_ok_def)
  then have held: "w \<in> holds st sid" using x by (simp add: holds_def holder_of_def)
  have e: "entry_owns st sid" using own by (simp add: ownership_def)
  then obtain s where s: "js_get (st_sessions st) sid = Some s" using held by (cases "js_get (st_sessions st) sid") (auto simp: entry_owns_def)
  with e have o: "session_owns (holds st sid) (awaits_ack st sid) s" by (simp add: entry_owns_def)
  with held consider "w \<in> worktree_of s" | "w \<in> reserved_for_hook s" by (auto simp: session_owns_def)
  then show ?thesis
  proof cases
    case 1
    then have "s_worktreeId s = Val w" by (cases "s_worktreeId s") (auto simp: worktree_of_def truthy_set_def split: if_splits)
    moreover have "s_status s = Running \<or> s_status s = Cancelled" using o 1 by (auto simp: session_owns_def)
    ultimately show ?thesis using sid s by blast
  next
    case 2
    then obtain h where "s_terminalHookHandoff s = Some h" "thh_worktreeId h = Some w" by (auto simp: reserved_for_hook_def split: bind_splits)
    moreover from this o have "\<not> isActiveSessionStatus (s_status s)" by (auto simp: session_owns_def)
    ultimately show ?thesis using sid s by blast
  qed
qed

section \<open>A run\<close>

text \<open>A plane with the catalog and host of the sample plane: its host registers a worktree, a session is created
  and the queue is assigned.\<close>

definition demo_plane :: control_plane_state where
  "demo_plane = sample_plane\<lparr>st_sessions := [], st_worktrees := []\<rparr>"

definition demo_body :: json where
  "demo_body = JObj [(''repositoryId'', JStr ''repo''), (''prompt'', JStr ''fix it''),
    (''target'', JObj [(''providerId'', JStr ''prov'')]), (''timeout'', JNum 600), (''concurrencyId'', JStr ''lane'')]"

definition demo_options :: create_options where
  "demo_options = \<lparr>co_allowScheduleId = False, co_allowCustomWebhookConcurrencyId = False, co_allowGitHubCommentConcurrencyId = False\<rparr>"

definition demo_queued :: control_plane_state where
  "demo_queued = snd (createSession (seedWorktree demo_plane sample_worktree) demo_body demo_options)"

definition demo_running :: control_plane_state where
  "demo_running = snd (assignQueued str_compare demo_queued None)"

lemma demo_reachable: "reachable str_compare demo_running" "reachable str_compare demo_queued"
proof -
  have "same_claims (createControlPlaneState sample_options) demo_plane" by code_simp
  then have "reachable str_compare demo_plane" by (meson reach_start reach_step step_other)
  moreover have "holder_of demo_plane (wt_id sample_worktree) = None" "wt_id sample_worktree \<noteq> []"
    "wt_status sample_worktree \<noteq> Busy" "wt_currentSessionId sample_worktree = None" by code_simp+
  ultimately have "reachable str_compare (seedWorktree demo_plane sample_worktree)" by (meson reach_step step_worktree)
  moreover have "fresh_id (seedWorktree demo_plane sample_worktree)" by code_simp
  ultimately show q: "reachable str_compare demo_queued" unfolding demo_queued_def by (meson reach_step step_create)
  then show "reachable str_compare demo_running" unfolding demo_running_def by (meson reach_step step_assign)
qed

definition demo_claim :: "(string \<times> session_status \<times> string nullable) list \<times> (string \<times> worktree_status \<times> string option) list" where
  "demo_claim = (map (\<lambda>(k, s). (k, s_status s, s_worktreeId s)) (st_sessions demo_running),
    map (\<lambda>(k, w). (k, wt_status w, wt_currentSessionId w)) (st_worktrees demo_running))"

lemma demo_claim: "demo_claim = ([(''id-0'', Running, Val ''w1'')], [(''w1'', Busy, Some ''id-0'')])"
  by code_simp

lemma one_record: "map (\<lambda>(k, r). (k, f r, g r)) m = [(a, b, c)] \<Longrightarrow> \<exists>r. m = [(a, r)] \<and> f r = b \<and> g r = c"
  by (auto simp: map_eq_Cons_conv)

lemma demo_records:
  obtains s x where "js_get (st_sessions demo_running) ''id-0'' = Some s" "s_status s = Running" "s_worktreeId s = Val ''w1''"
    "js_get (st_worktrees demo_running) ''w1'' = Some x" "wt_status x = Busy" "wt_currentSessionId x = Some ''id-0''"
proof -
  obtain s where "st_sessions demo_running = [(''id-0'', s)]" "s_status s = Running" "s_worktreeId s = Val ''w1''"
    using one_record [OF demo_claim [unfolded demo_claim_def prod.inject, THEN conjunct1]] by blast
  moreover obtain x where "st_worktrees demo_running = [(''w1'', x)]" "wt_status x = Busy" "wt_currentSessionId x = Some ''id-0''"
    using one_record [OF demo_claim [unfolded demo_claim_def prod.inject, THEN conjunct2]] by blast
  ultimately show ?thesis using that by (simp add: js_get_def)
qed

section \<open>Properties\<close>





end
