(* ===== verification/Lanes.thy ===== *)
theory Lanes
  imports Reachable
begin

text \<open>
  Concurrency lanes. A lane is a concurrency id; it is occupied while a session with that id is queued or running.
  Creating, cloning and resuming a session keep at most one active session per lane, and a request for an occupied
  lane is answered with the session that occupies it.
\<close>

definition in_lane :: "string \<Rightarrow> session_record \<Rightarrow> bool" where
  "in_lane lane s \<longleftrightarrow> s_concurrencyId s = Some lane \<and> isActiveSessionStatus (s_status s)"

definition lanes_exclusive :: "control_plane_state \<Rightarrow> bool" where
  "lanes_exclusive st \<longleftrightarrow> (\<forall>lane k s k' s'. lane \<noteq> [] \<and> js_get (st_sessions st) k = Some s \<and> in_lane lane s
    \<and> js_get (st_sessions st) k' = Some s' \<and> in_lane lane s' \<longrightarrow> k = k')"

lemma opens_lane_empty:
  assumes "opens_lane st s" and "in_lane lane s" and "lane \<noteq> []" and "js_get (st_sessions st) k = Some s'"
  shows "\<not> in_lane lane s'"
proof -
  have "activeSessionForConcurrency st lane = None"
    using assms(1-3) by (simp add: opens_lane_def in_lane_def active_for_def)
  moreover have "s' \<in> set (js_values (st_sessions st))" using assms(4) by (rule js_get_value)
  ultimately show ?thesis by (auto simp: activeSessionForConcurrency_def find_None_iff in_lane_def)
qed

lemma in_lane_persisted [simp]: "in_lane lane (sessionForPersistence s) = in_lane lane s"
  by (simp add: in_lane_def sessionForPersistence_def)

lemma admits_lanes:
  assumes excl: "lanes_exclusive st" and "admits st st'"
  shows "lanes_exclusive st'"
proof -
  consider "st_sessions st' = st_sessions st"
    | s where "opens_lane st s" "st_sessions st' = js_set (s_id s) (sessionForPersistence s) (st_sessions st)"
    using assms(2) by (auto simp: admits_def persistSession_def next_id_def)
  then show ?thesis
  proof cases
    case 1
    with excl show ?thesis by (simp add: lanes_exclusive_def)
  next
    case (2 s)
    have "k = k'" if "lane \<noteq> []" "js_get (st_sessions st') k = Some x" "in_lane lane x"
      "js_get (st_sessions st') k' = Some x'" "in_lane lane x'" for lane k x k' x'
    proof (cases "k = s_id s \<or> k' = s_id s")
      case True
      with that opens_lane_empty [OF 2(1)] show ?thesis by (auto simp: 2(2) js_get_set split: if_splits)
    next
      case False
      with that excl show ?thesis unfolding lanes_exclusive_def by (simp add: 2(2) js_get_set)
    qed
    then show ?thesis unfolding lanes_exclusive_def by blast
  qed
qed

definition occupies :: "control_plane_state \<Rightarrow> string option \<Rightarrow> session_record \<Rightarrow> bool" where
  "occupies st c s \<longleftrightarrow> s \<in> set (js_values (st_sessions st)) \<and> (\<exists>lane. c = Some lane \<and> lane \<noteq> [] \<and> in_lane lane s)"

lemma active_for_occupies: "active_for st c = Some s \<Longrightarrow> occupies st c s"
  by (cases c) (auto simp: active_for_def activeSessionForConcurrency_def occupies_def in_lane_def find_Some_iff split: if_splits)

definition request_lane :: "json \<Rightarrow> string option" where
  "request_lane body = (case body of JObj request \<Rightarrow> non_empty_string (js_get request ''concurrencyId'') | _ \<Rightarrow> None)"

lemma requested_lane:
  "requested_concurrency input options = Inr c \<Longrightarrow> c = non_empty_string (js_get input ''concurrencyId'')"
  by (auto simp: requested_concurrency_def rejected_def non_empty_string_def split: if_splits option.splits json.splits)

lemma validated_lane:
  "validateCreateSessionInput input options = Inr v \<Longrightarrow> sf_concurrencyId v = non_empty_string (js_get input ''concurrencyId'')"
  unfolding validateCreateSessionInput_def
  by (drule scope_checked_ok(1), unfold bind_ok_ok split_paired_Ex prod.case rejected_ok Let_def sum.inject, elim exE conjE,
    drule requested_lane, hypsubst, simp)

lemma created_lane: "s_concurrencyId (created_session st v names sid e sch) = sf_concurrencyId v"
  by (simp add: created_session_def Let_def)

text \<open>What a request to create a session comes to, by its reply.\<close>

definition create_outcome :: "control_plane_state \<Rightarrow> string option \<Rightarrow> session_reply option \<times> control_plane_state \<Rightarrow> bool" where
  "create_outcome st lane r =
    (case r of
       (Some (Inr (s, True)), st') \<Rightarrow>
         st' = persistSession s (snd (next_id st)) \<and> unclaimed s \<and> s_id s = fst (next_id st)
         \<and> s_concurrencyId s = lane \<and> active_for st lane = None
     | (Some (Inr (s, False)), st') \<Rightarrow> st' = st \<and> occupies st lane s
     | (Some (Inl _), st') \<Rightarrow> st' = st
     | (None, st') \<Rightarrow> st' = snd (next_id st))"

lemma create_outcome_simps [simp]:
  "create_outcome st lane (Some (Inr (s, True)), st') \<longleftrightarrow> st' = persistSession s (snd (next_id st)) \<and> unclaimed s
     \<and> s_id s = fst (next_id st) \<and> s_concurrencyId s = lane \<and> active_for st lane = None"
  "create_outcome st lane (Some (Inr (s, False)), st') \<longleftrightarrow> st' = st \<and> occupies st lane s"
  "create_outcome st lane (Some (Inl e), st') \<longleftrightarrow> st' = st"
  "create_outcome st lane (None, st') \<longleftrightarrow> st' = snd (next_id st)"
  by (simp_all add: create_outcome_def)

lemma createSession_outcome: "create_outcome st (request_lane body) (createSession st body options)"
proof (cases body)
  case (JObj request)
  note leaf = createSession_def JObj
  define io where "io = \<lparr>io_allowReservedConcurrencyId = False,
             io_allowCustomWebhookConcurrencyId = co_allowCustomWebhookConcurrencyId options,
             io_allowGitHubCommentConcurrencyId = co_allowGitHubCommentConcurrencyId options\<rparr>"
  show ?thesis
  proof (cases "validateCreateSessionInput request io")
    case (Inl e)
    then show ?thesis by (simp add: leaf io_def)
  next
    case (Inr v)
    have lane: "sf_concurrencyId v = request_lane body" using validated_lane [OF Inr] by (simp add: request_lane_def JObj)
    show ?thesis
    proof (cases "active_for st (request_lane body)")
      case None
      then show ?thesis using Inr lane
        by (simp add: leaf io_def Let_def case_prod_beta unclaimed_records created_ids created_lane split: option.split sum.split)
    next
      case (Some s)
      with active_for_occupies [OF Some] Inr lane show ?thesis
        by (simp add: leaf io_def split: option.split sum.split)
    qed
  qed
qed (simp_all add: createSession_def create_outcome_def)



end
