(* ===== verification/Schedules.thy ===== *)
theory Schedules
  imports Lanes Cron
begin

text \<open>
  Schedules of a control plane without storage: the records and their validation
  (\<open>control-plane-schedules.ts\<close>, \<open>control-plane-schedule-prompt.ts\<close>), and how they turn into sessions
  (\<open>control-plane-schedule-fire.ts\<close>: \<open>triggerSchedule\<close>, \<open>evaluateCron\<close>, \<open>tryClaimScheduleFire\<close>).

  The map of schedules stands beside the rest of the state bag. An operation returns its reply and the state after it;
  the reply is \<open>None\<close> where the code throws. A member of an input that is absent is \<open>None\<close> or \<open>Undefined\<close>.
  Persisted cursors may carry a UTC offset of at most 23 hours and 59 minutes.
\<close>

section \<open>Records\<close>

record schedule_record =
  sch_id :: string
  sch_repositoryId :: string
  sch_workspacePoolId :: "string option"
  sch_setupProfileId :: "string option"
  sch_destroyWorkspaceAfter :: "bool option"
  sch_name :: string
  sch_target :: target_ref
  sch_fallbacks :: "target_ref list"
  sch_targetDisplayNames :: "string list"
  sch_cron :: string
  sch_enabled :: bool
  sch_timeout :: int
  sch_queueTtlSeconds :: int
  sch_nextRunAt :: string
  sch_lastRunAt :: "string option"
  sch_createdAt :: string
  sch_ref :: "string option"
  sch_concurrencyId :: "string option"
  sch_principalId :: "string option"
  sch_prompt :: "string option"

record schedule_input =
  si_id :: "string option"
  si_repositoryId :: "string nullable"
  si_workspacePoolId :: "string option"
  si_setupProfileId :: "string nullable"
  si_destroyWorkspaceAfter :: "json option"
  si_requiredLabels :: "json option"
  si_setupScript :: "json option"
  si_name :: string
  si_target :: "json option"
  si_fallbacks :: "json option"
  si_cron :: string
  si_timeout :: int
  si_queueTtlSeconds :: "json option"
  si_nextRunAt :: "string option"
  si_enabled :: "bool option"
  si_ref :: "string option"
  si_concurrencyId :: "string option"
  si_prompt :: "string option"
  si_principalId :: "string option"

record schedule_patch =
  spt_repositoryId :: "string nullable"
  spt_workspacePoolId :: "string option"
  spt_setupProfileId :: "string nullable"
  spt_destroyWorkspaceAfter :: "json option"
  spt_requiredLabels :: "json option"
  spt_setupScript :: "json option"
  spt_name :: "string option"
  spt_target :: "json option"
  spt_fallbacks :: "json option"
  spt_cron :: "string option"
  spt_timeout :: "int option"
  spt_queueTtlSeconds :: "json option"
  spt_nextRunAt :: "string option"
  spt_enabled :: "bool option"
  spt_ref :: "string option"
  spt_concurrencyId :: "string option"
  spt_prompt :: "string option"
  spt_principalId :: "string option"

record scheduling_state =
  ss_schedules :: "(string, schedule_record) jsmap"
  ss_plane :: control_plane_state
  ss_scheduleIdFactory :: "nat \<Rightarrow> string"
  ss_scheduleIdCount :: nat

definition put_schedule :: "string \<Rightarrow> schedule_record \<Rightarrow> scheduling_state \<Rightarrow> scheduling_state" where
  "put_schedule k sch st = st\<lparr>ss_schedules := js_set k sch (ss_schedules st)\<rparr>"

definition with_plane :: "control_plane_state \<Rightarrow> scheduling_state \<Rightarrow> scheduling_state" where
  "with_plane plane st = st\<lparr>ss_plane := plane\<rparr>"

definition next_schedule_id :: "scheduling_state \<Rightarrow> string \<times> scheduling_state" where
  "next_schedule_id st = (ss_scheduleIdFactory st (ss_scheduleIdCount st), st\<lparr>ss_scheduleIdCount := Suc (ss_scheduleIdCount st)\<rparr>)"

section \<open>Prompts\<close>

definition scheduledSessionPrompt :: "string option \<Rightarrow> string" where
  "scheduledSessionPrompt prompt = opt_or (map_option js_trim prompt) []"

definition storedSchedulePrompt :: "string option \<Rightarrow> string option" where
  "storedSchedulePrompt v = truthy_opt (map_option js_trim v)"

definition applyStoredPrompt :: "schedule_record \<Rightarrow> string \<Rightarrow> schedule_record" where
  "applyStoredPrompt sch v = sch\<lparr>sch_prompt := storedSchedulePrompt (Some v)\<rparr>"

section \<open>Validation\<close>

definition MAX_SCHEDULE_FALLBACKS :: nat where
  "MAX_SCHEDULE_FALLBACKS = 88"

record schedule_mode =
  md_repositoryId :: string
  md_workspacePoolId :: "string option"
  md_setupProfileId :: "string option"

definition is_workspace_scope :: "string nullable \<Rightarrow> bool" where
  "is_workspace_scope v \<longleftrightarrow> v = Null \<or> v = Val []"

definition has_profile :: "workspace_pool_record \<Rightarrow> string \<Rightarrow> bool" where
  "has_profile pool profileId = list_ex (\<lambda>profile. sp_id profile = profileId) (pool_setupProfiles pool)"

definition repository_mode :: "schedule_input \<Rightarrow> string + schedule_mode" where
  "repository_mode input =
    (case si_repositoryId input of
       Val r \<Rightarrow>
         (if js_trim r = [] then Inl ''repositoryId is required''
          else if si_workspacePoolId input \<noteq> None \<or> si_setupProfileId input \<noteq> Undefined \<or> si_destroyWorkspaceAfter input \<noteq> None
          then Inl ''workspace fields require repositoryId to be null''
          else Inr \<lparr>md_repositoryId = r, md_workspacePoolId = None, md_setupProfileId = None\<rparr>)
     | _ \<Rightarrow> Inl ''repositoryId is required'')"

definition workspace_mode :: "control_plane_state \<Rightarrow> schedule_input \<Rightarrow> string + schedule_mode" where
  "workspace_mode st input =
    (if \<not> truthy_str (map_option js_trim (si_workspacePoolId input)) then Inl ''workspacePoolId is required for workspace schedules''
     else if si_ref input \<noteq> None then Inl ''ref is not supported for workspace schedules''
     else if (case si_setupProfileId input of Val p \<Rightarrow> js_trim p = [] | _ \<Rightarrow> False) then Inl ''setupProfileId must not be empty''
     else if (case si_destroyWorkspaceAfter input of None \<Rightarrow> False | Some JNull \<Rightarrow> False | Some (JBool _) \<Rightarrow> False | _ \<Rightarrow> True)
     then Inl ''destroyWorkspaceAfter must be a boolean''
     else case js_get (st_workspacePools st) (the (si_workspacePoolId input)) of
       None \<Rightarrow> Inl ''workspace pool not found''
     | Some pool \<Rightarrow>
         (case truthy_opt (nullable_opt (si_setupProfileId input)) of
            None \<Rightarrow> Inr \<lparr>md_repositoryId = [], md_workspacePoolId = si_workspacePoolId input, md_setupProfileId = None\<rparr>
          | Some p \<Rightarrow>
              (if has_profile pool p
               then Inr \<lparr>md_repositoryId = [], md_workspacePoolId = si_workspacePoolId input, md_setupProfileId = Some p\<rparr>
               else Inl ''workspace setup profile not found'')))"

definition validateScheduleMode :: "control_plane_state \<Rightarrow> schedule_input \<Rightarrow> string + schedule_mode" where
  "validateScheduleMode st input =
    (if si_setupScript input \<noteq> None then Inl ''setupScript is not accepted by schedule inputs''
     else if (case si_requiredLabels input of None \<Rightarrow> False | Some (JArr _) \<Rightarrow> False | _ \<Rightarrow> True)
     then Inl ''requiredLabels must be an array''
     else if (case si_requiredLabels input of Some (JArr vs) \<Rightarrow> 0 < length vs | _ \<Rightarrow> False)
     then Inl ''requiredLabels are not supported by schedule inputs''
     else if is_workspace_scope (si_repositoryId input) then workspace_mode st input
     else repository_mode input)"

definition schedule_lane :: "string \<Rightarrow> string option \<Rightarrow> string" where
  "schedule_lane sid c = opt_or (truthy_opt (map_option js_trim c)) (''schedule-'' @ sid)"

definition lane_error :: "string \<Rightarrow> string option" where
  "lane_error lane =
    (if isReservedConcurrencyId lane then Some ''concurrencyId uses a reserved internal prefix'' else concurrencyIdByteLengthError lane)"

type_synonym schedule_reply = "(session_error + schedule_record) option"

text \<open>The checks of a new schedule up to its id, with the target, its display names and the first cursor they find.\<close>

definition checked_schedule ::
    "control_plane_state \<Rightarrow> schedule_input \<Rightarrow> (string + schedule_mode \<times> string \<times> (target_ref \<times> target_ref list \<times> int) \<times> string list) option" where
  "checked_schedule st input =
    (case validateScheduleMode st input of
       Inl e \<Rightarrow> Some (Inl e)
     | Inr mode \<Rightarrow>
         (if \<not> isValidUtcTimestamp (st_now st) then Some (Inl ''server clock must be an ISO-8601 UTC timestamp'')
          else if (case si_ref input of None \<Rightarrow> False | Some r \<Rightarrow> \<not> isValidScheduledBranchRef r)
          then Some (Inl ''ref must be a valid scheduled branch name'')
          else if (case si_nextRunAt input of None \<Rightarrow> False | Some t \<Rightarrow> \<not> isValidUtcTimestamp t)
          then Some (Inl ''nextRunAt must be an ISO-8601 UTC timestamp'')
          else case nextCronOccurrence (si_cron input) (st_now st) of
            None \<Rightarrow> None
          | Some None \<Rightarrow> Some (Inl ''cron must be a valid five-field UTC expression'')
          | Some (Some cursor) \<Rightarrow> Some
              (bind_ok (validateTargetRouting (si_target input) (si_fallbacks input) (si_queueTtlSeconds input) MAX_SCHEDULE_FALLBACKS)
                (\<lambda>routing. bind_ok (resolveTargetDisplayNames st (fst routing) (fst (snd routing)))
                  (\<lambda>names. Inr (mode, cursor, routing, names))))))"

definition new_schedule ::
    "schedule_input \<Rightarrow> schedule_mode \<Rightarrow> string \<Rightarrow> target_ref \<times> target_ref list \<times> int \<Rightarrow> string list \<Rightarrow> string \<Rightarrow> string \<Rightarrow> schedule_record" where
  "new_schedule input mode cursor routing names sid now =
    \<lparr>sch_id = sid, sch_repositoryId = md_repositoryId mode, sch_workspacePoolId = truthy_opt (md_workspacePoolId mode),
     sch_setupProfileId = truthy_opt (md_setupProfileId mode),
     sch_destroyWorkspaceAfter = (if truthy_str (md_workspacePoolId mode) then json_bool (si_destroyWorkspaceAfter input) else None),
     sch_name = si_name input, sch_target = fst routing, sch_fallbacks = fst (snd routing), sch_targetDisplayNames = names,
     sch_cron = si_cron input, sch_enabled = opt_or (si_enabled input) True, sch_timeout = si_timeout input,
     sch_queueTtlSeconds = snd (snd routing), sch_nextRunAt = cursor, sch_lastRunAt = None, sch_createdAt = now,
     sch_ref = si_ref input, sch_concurrencyId = Some (schedule_lane sid (si_concurrencyId input)),
     sch_principalId = Some (opt_or (si_principalId input) ''system''), sch_prompt = storedSchedulePrompt (si_prompt input)\<rparr>"

definition preparePutSchedule :: "scheduling_state \<Rightarrow> schedule_input \<Rightarrow> (string + schedule_record) option \<times> scheduling_state" where
  "preparePutSchedule st input =
    (case checked_schedule (ss_plane st) input of
       None \<Rightarrow> (None, st)
     | Some (Inl e) \<Rightarrow> (Some (Inl e), st)
     | Some (Inr (mode, cursor, routing, names)) \<Rightarrow>
         (let (sid, st1) = (case si_id input of Some i \<Rightarrow> (i, st) | None \<Rightarrow> next_schedule_id st)
          in case lane_error (schedule_lane sid (si_concurrencyId input)) of
               Some e \<Rightarrow> (Some (Inl e), st1)
             | None \<Rightarrow> (Some (Inr (new_schedule input mode cursor routing names sid (st_now (ss_plane st)))), st1)))"

definition putSchedule :: "scheduling_state \<Rightarrow> schedule_input \<Rightarrow> schedule_reply \<times> scheduling_state" where
  "putSchedule st input =
    (case preparePutSchedule st input of
       (None, st1) \<Rightarrow> (None, st1)
     | (Some (Inl e), st1) \<Rightarrow> (Some (Inl (e, None)), st1)
     | (Some (Inr sch), st1) \<Rightarrow> (Some (Inr sch), put_schedule (sch_id sch) sch st1))"

definition putScheduleDurable :: "scheduling_state \<Rightarrow> schedule_input \<Rightarrow> schedule_reply \<times> scheduling_state" where
  "putScheduleDurable st input =
    (case validateScheduleMode (ss_plane st) input of
       Inl e \<Rightarrow> (Some (Inl (e, None)), st)
     | Inr mode \<Rightarrow>
         (if md_repositoryId mode \<noteq> [] \<and> \<not> js_has (st_repositories (ss_plane st)) (md_repositoryId mode)
          then (Some (Inl (''repository not found'', None)), st)
          else case (if md_repositoryId mode \<noteq> [] then repositoryAdmissionFailure (ss_plane st) (md_repositoryId mode) else None) of
            Some (e, code) \<Rightarrow> (Some (Inl (e, Some code)), st)
          | None \<Rightarrow> putSchedule st input))"

definition withActiveSession :: "control_plane_state \<Rightarrow> schedule_record \<Rightarrow> schedule_record \<times> string option" where
  "withActiveSession st sch =
    (let lane = schedule_lane (sch_id sch) (sch_concurrencyId sch)
     in (sch\<lparr>sch_concurrencyId := Some lane\<rparr>, map_option s_id (activeSessionForConcurrency st lane)))"

definition getSchedule :: "scheduling_state \<Rightarrow> string \<Rightarrow> (schedule_record \<times> string option) option" where
  "getSchedule st k = map_option (withActiveSession (ss_plane st)) (js_get (ss_schedules st) k)"

definition listSchedules :: "scheduling_state \<Rightarrow> (schedule_record \<times> string option) list" where
  "listSchedules st = map (withActiveSession (ss_plane st)) (js_values (ss_schedules st))"

definition deleteSchedule :: "scheduling_state \<Rightarrow> string \<Rightarrow> string option \<times> scheduling_state" where
  "deleteSchedule st k =
    (if \<not> js_has (ss_schedules st) k then (Some ''schedule not found'', st)
     else (None, st\<lparr>ss_schedules := js_delete k (ss_schedules st)\<rparr>))"

section \<open>Updates\<close>

definition or_else :: "'a nullable \<Rightarrow> 'a option \<Rightarrow> 'a nullable" where
  "or_else v old = (case v of Undefined \<Rightarrow> (case old of None \<Rightarrow> Undefined | Some x \<Rightarrow> Val x) | _ \<Rightarrow> v)"

definition nullish_or :: "json option \<Rightarrow> json \<Rightarrow> json option" where
  "nullish_or v old = (case v of None \<Rightarrow> Some old | Some JNull \<Rightarrow> Some old | Some x \<Rightarrow> Some x)"

text \<open>The schedule with the patch laid over it, as the input of the mode check.\<close>

definition merged_input :: "schedule_record \<Rightarrow> schedule_patch \<Rightarrow> schedule_input" where
  "merged_input sch p =
    (let scope = (case spt_repositoryId p of
           Undefined \<Rightarrow> (if sch_repositoryId sch = [] then Null else Val (sch_repositoryId sch)) | v \<Rightarrow> v);
         ws = is_workspace_scope scope
     in \<lparr>si_id = Some (sch_id sch), si_repositoryId = scope,
         si_workspacePoolId = (if ws then first_some (spt_workspacePoolId p) (sch_workspacePoolId sch) else None),
         si_setupProfileId = (if ws then or_else (spt_setupProfileId p) (sch_setupProfileId sch) else Undefined),
         si_destroyWorkspaceAfter = (if ws then first_some (spt_destroyWorkspaceAfter p) (map_option JBool (sch_destroyWorkspaceAfter sch)) else None),
         si_requiredLabels = spt_requiredLabels p, si_setupScript = spt_setupScript p,
         si_name = opt_or (spt_name p) (sch_name sch), si_target = nullish_or (spt_target p) (target_json (sch_target sch)),
         si_fallbacks = nullish_or (spt_fallbacks p) (JArr (map target_json (sch_fallbacks sch))),
         si_cron = opt_or (spt_cron p) (sch_cron sch), si_timeout = opt_or (spt_timeout p) (sch_timeout sch),
         si_queueTtlSeconds = nullish_or (spt_queueTtlSeconds p) (JNum (sch_queueTtlSeconds sch)), si_nextRunAt = spt_nextRunAt p,
         si_enabled = Some (opt_or (spt_enabled p) (sch_enabled sch)),
         si_ref = (if ws then None else first_some (spt_ref p) (sch_ref sch)),
         si_concurrencyId = first_some (spt_concurrencyId p) (sch_concurrencyId sch),
         si_prompt = first_some (spt_prompt p) (sch_prompt sch), si_principalId = sch_principalId sch\<rparr>)"

definition updated_schedule ::
    "schedule_record \<Rightarrow> schedule_patch \<Rightarrow> schedule_mode \<Rightarrow> string \<Rightarrow> string \<Rightarrow> target_ref \<times> target_ref list \<times> int \<Rightarrow> string list \<Rightarrow> schedule_record" where
  "updated_schedule sch p mode cursor lane routing names =
    (let repo = (md_repositoryId mode \<noteq> []);
         next = sch\<lparr>sch_repositoryId := md_repositoryId mode, sch_name := opt_or (spt_name p) (sch_name sch),
           sch_target := fst routing, sch_fallbacks := fst (snd routing), sch_targetDisplayNames := names,
           sch_cron := opt_or (spt_cron p) (sch_cron sch), sch_enabled := opt_or (spt_enabled p) (sch_enabled sch),
           sch_timeout := opt_or (spt_timeout p) (sch_timeout sch), sch_queueTtlSeconds := snd (snd routing),
           sch_nextRunAt := cursor, sch_concurrencyId := Some lane,
           sch_ref := (if repo then first_some (spt_ref p) (sch_ref sch) else None),
           sch_workspacePoolId := (if repo then None else md_workspacePoolId mode),
           sch_setupProfileId := (if repo then None else truthy_opt (md_setupProfileId mode)),
           sch_destroyWorkspaceAfter := (if repo then None else json_bool (si_destroyWorkspaceAfter (merged_input sch p)))\<rparr>
     in case spt_prompt p of None \<Rightarrow> next | Some v \<Rightarrow> applyStoredPrompt next v)"

definition prepareUpdateSchedule :: "scheduling_state \<Rightarrow> string \<Rightarrow> schedule_patch \<Rightarrow> (string + schedule_record) option" where
  "prepareUpdateSchedule st k p =
    (let now = st_now (ss_plane st)
     in case js_get (ss_schedules st) k of
       None \<Rightarrow> Some (Inl ''schedule not found'')
     | Some sch \<Rightarrow>
         (if \<not> truthy_str (sch_principalId sch) then Some (Inl ''schedule must be claimed by an authenticated principal'')
          else if spt_principalId p \<noteq> None \<and> spt_principalId p \<noteq> sch_principalId sch
          then Some (Inl ''schedule ownership cannot be transferred'')
          else case validateScheduleMode (ss_plane st) (merged_input sch p) of
            Inl e \<Rightarrow> Some (Inl e)
          | Inr mode \<Rightarrow>
              (if \<not> isValidUtcTimestamp now then Some (Inl ''server clock must be an ISO-8601 UTC timestamp'')
               else if (case spt_nextRunAt p of None \<Rightarrow> False | Some t \<Rightarrow> \<not> isValidUtcTimestamp t)
               then Some (Inl ''nextRunAt must be an ISO-8601 UTC timestamp'')
               else case nextCronOccurrence (opt_or (spt_cron p) (sch_cron sch)) now of
                 None \<Rightarrow> None
               | Some None \<Rightarrow> Some (Inl ''cron must be a valid five-field UTC expression'')
               | Some (Some cursor) \<Rightarrow>
                   (if (case spt_ref p of None \<Rightarrow> False | Some r \<Rightarrow> \<not> isValidScheduledBranchRef r)
                    then Some (Inl ''ref must be a valid scheduled branch name'')
                    else
                      (let lane = schedule_lane k (first_some (spt_concurrencyId p) (sch_concurrencyId sch))
                       in case lane_error lane of
                         Some e \<Rightarrow> Some (Inl e)
                       | None \<Rightarrow> Some
                           (bind_ok (validateTargetRouting (nullish_or (spt_target p) (target_json (sch_target sch)))
                               (nullish_or (spt_fallbacks p) (JArr (map target_json (sch_fallbacks sch))))
                               (nullish_or (spt_queueTtlSeconds p) (JNum (sch_queueTtlSeconds sch))) MAX_SCHEDULE_FALLBACKS)
                             (\<lambda>routing. bind_ok (resolveTargetDisplayNames (ss_plane st) (fst routing) (fst (snd routing)))
                               (\<lambda>names. Inr (updated_schedule sch p mode cursor lane routing names)))))))))"

definition updateSchedule :: "scheduling_state \<Rightarrow> string \<Rightarrow> schedule_patch \<Rightarrow> (string + schedule_record) option \<times> scheduling_state" where
  "updateSchedule st k p =
    (case prepareUpdateSchedule st k p of
       Some (Inr sch) \<Rightarrow> (Some (Inr sch), put_schedule k sch st)
     | r \<Rightarrow> (r, st))"

section \<open>Cursors\<close>

text \<open>\<open>Date.parse\<close> of a persisted cursor: a UTC time, or a time with an offset, which is subtracted.\<close>

definition offset_shapes :: "string list" where
  "offset_shapes = [''0000-00-00T00:00:00+00:00'', ''0000-00-00T00:00:00-00:00'', ''0000-00-00T00:00:00.000+00:00'',
     ''0000-00-00T00:00:00.000-00:00'']"

definition has_offset :: "string \<Rightarrow> bool" where
  "has_offset v = list_ex (\<lambda>p. has_shape p v) offset_shapes"

definition offset_time :: "string \<Rightarrow> int option" where
  "offset_time v =
    (let n = length v - 6; h = field v (n + 1) 2; m = field v (n + 4) 2; offset = (h * 60 + m) * 60000
     in if h \<le> 23 \<and> m \<le> 59
        then Option.bind (date_parse (take n v @ ''Z'')) (\<lambda>t. time_clip (if v ! n = CHR ''-'' then t + offset else t - offset))
        else None)"

definition cursor_time :: "string \<Rightarrow> int option" where
  "cursor_time v = (if has_offset v then offset_time v else date_parse v)"

definition isValidPersistedCursor :: "string \<Rightarrow> bool" where
  "isValidPersistedCursor v \<longleftrightarrow>
    (has_shape ''0000-00-00T00:00:00Z'' v \<or> has_shape ''0000-00-00T00:00:00.000Z'' v \<or> has_offset v) \<and> cursor_time v \<noteq> None"

definition nextRunAt :: "schedule_record \<Rightarrow> string \<Rightarrow> string option option" where
  "nextRunAt sch nowIso =
    (if \<not> isValidPersistedCursor (sch_nextRunAt sch) \<or> \<not> isValidUtcTimestamp nowIso then Some None
     else nextCronOccurrence (sch_cron sch) nowIso)"

definition later :: "int option \<Rightarrow> int option \<Rightarrow> bool" where
  "later a b = (case a of None \<Rightarrow> False | Some x \<Rightarrow> (case b of None \<Rightarrow> False | Some y \<Rightarrow> y < x))"

section \<open>Firing\<close>

definition resolveScheduledTarget :: "control_plane_state \<Rightarrow> schedule_record \<Rightarrow> string + string list" where
  "resolveScheduledTarget st sch = resolveTargetDisplayNames st (sch_target sch) (sch_fallbacks sch)"

text \<open>An undefined metadata value is rejected like an object, and stands here as the empty array.\<close>

definition scheduledSessionInput :: "control_plane_state \<Rightarrow> schedule_record \<Rightarrow> request" where
  "scheduledSessionInput st sch =
    (let ws = truthy_str (sch_workspacePoolId sch)
     in [(''repositoryId'', if ws then JNull else JStr (sch_repositoryId sch)), (''prompt'', JStr (scheduledSessionPrompt (sch_prompt sch))),
         (''target'', target_json (sch_target sch)), (''fallbacks'', JArr (map target_json (sch_fallbacks sch))),
         (''timeout'', JNum (sch_timeout sch)), (''queueTtlSeconds'', JNum (sch_queueTtlSeconds sch)),
         (''type'', JStr (if ws then ''workspace'' else ''scheduled'')), (''source'', JStr ''schedule'')]
       @ member_opt ''ref'' (map_option JStr (sch_ref sch))
       @ [(''concurrencyId'', JStr (opt_or (sch_concurrencyId sch) (''schedule-'' @ sch_id sch))), (''scheduleId'', JStr (sch_id sch))]
       @ member_opt ''workspacePoolId'' (map_option JStr (truthy_opt (sch_workspacePoolId sch)))
       @ member_opt ''setupProfileId'' (map_option JStr (truthy_opt (sch_setupProfileId sch)))
       @ (if ws then [(''destroyWorkspaceAfter'', JBool (opt_or (sch_destroyWorkspaceAfter sch)
             (opt_or (map_option pool_destroyWorkspaceAfter (js_get (st_workspacePools st) (the (sch_workspacePoolId sch)))) False)))]
          else [])
       @ [(''metadata'', JObj [(''createdBy'', case sch_principalId sch of Some p \<Rightarrow> JStr p | None \<Rightarrow> JArr [])])])"

definition schedule_options :: create_options where
  "schedule_options = \<lparr>co_allowScheduleId = True, co_allowCustomWebhookConcurrencyId = False, co_allowGitHubCommentConcurrencyId = False\<rparr>"

definition create_scheduled :: "control_plane_state \<Rightarrow> schedule_record \<Rightarrow> session_reply option \<times> control_plane_state" where
  "create_scheduled st sch = createSession st (JObj (scheduledSessionInput st sch)) schedule_options"

definition set_principal :: "string \<Rightarrow> string option \<Rightarrow> control_plane_state \<Rightarrow> control_plane_state" where
  "set_principal sid owner st =
    (case js_get (st_sessions st) sid of
       None \<Rightarrow> st | Some s \<Rightarrow> st\<lparr>st_sessions := js_set sid (s\<lparr>s_principalId := owner\<rparr>) (st_sessions st)\<rparr>)"

definition triggerSchedule :: "scheduling_state \<Rightarrow> string \<Rightarrow> string \<Rightarrow> (string + session_record \<times> bool) option \<times> scheduling_state" where
  "triggerSchedule st k nowIso =
    (case js_get (ss_schedules st) k of
       None \<Rightarrow> (Some (Inl ''schedule not found''), st)
     | Some sch \<Rightarrow>
         (if \<not> sch_enabled sch then (Some (Inl ''schedule is disabled''), st)
          else case nextRunAt sch nowIso of
            None \<Rightarrow> (None, st)
          | Some None \<Rightarrow> (Some (Inl ''invalid schedule cron or timestamp''), st)
          | Some (Some cursor) \<Rightarrow>
              (case resolveScheduledTarget (ss_plane st) sch of
                 Inl e \<Rightarrow> (Some (Inl e), st)
               | Inr _ \<Rightarrow>
                   (case create_scheduled (ss_plane st) sch of
                      (None, plane) \<Rightarrow> (None, with_plane plane st)
                    | (Some (Inl e), plane) \<Rightarrow> (Some (Inl (fst e)), with_plane plane st)
                    | (Some (Inr (s, created)), plane) \<Rightarrow>
                        (Some (Inr (s, created)),
                         if created
                         then put_schedule k (sch\<lparr>sch_nextRunAt := cursor, sch_lastRunAt := Some nowIso\<rparr>)
                           (with_plane (set_principal (s_id s) (sch_principalId sch) plane) st)
                         else with_plane plane st)))))"

definition before_cutoff :: "control_plane_state \<Rightarrow> schedule_record \<Rightarrow> string \<Rightarrow> bool" where
  "before_cutoff st sch cursor =
    (case (if sch_repositoryId sch = [] then None else Option.bind (js_get (st_repositories st) (sch_repositoryId sch)) rep_activationCutoffAt) of
       None \<Rightarrow> False | Some cutoff \<Rightarrow> cutoff \<noteq> [] \<and> later (date_parse cutoff) (cursor_time cursor))"

definition tryClaimScheduleFire ::
    "scheduling_state \<Rightarrow> string \<Rightarrow> string \<Rightarrow> string \<Rightarrow> session_record option option \<times> scheduling_state" where
  "tryClaimScheduleFire st k expected nowIso =
    (case js_get (ss_schedules st) k of
       None \<Rightarrow> (Some None, st)
     | Some sch \<Rightarrow>
         (if \<not> sch_enabled sch then (Some None, st)
          else case nextRunAt sch nowIso of
            None \<Rightarrow> (None, st)
          | Some None \<Rightarrow> (Some None, st)
          | Some (Some cursor) \<Rightarrow>
              (if sch_nextRunAt sch \<noteq> expected then (Some None, st)
               else if later (cursor_time expected) (date_parse nowIso) then (Some None, st)
               else if before_cutoff (ss_plane st) sch expected then (Some None, put_schedule k (sch\<lparr>sch_nextRunAt := cursor\<rparr>) st)
               else case resolveScheduledTarget (ss_plane st) sch of
                 Inl _ \<Rightarrow> (Some None, st)
               | Inr _ \<Rightarrow>
                   (case create_scheduled (ss_plane st) sch of
                      (None, plane) \<Rightarrow> (None, with_plane plane st)
                    | (Some (Inl (_, code)), plane) \<Rightarrow>
                        (Some None,
                         if code = Some ''REPOSITORY_ADMISSION_CLOSED''
                         then put_schedule k (sch\<lparr>sch_nextRunAt := cursor\<rparr>) (with_plane plane st) else with_plane plane st)
                    | (Some (Inr (s, created)), plane) \<Rightarrow>
                        (if created
                         then (Some (Some s), put_schedule k (sch\<lparr>sch_nextRunAt := cursor, sch_lastRunAt := Some nowIso\<rparr>)
                           (with_plane (set_principal (s_id s) (sch_principalId sch) plane) st))
                         else (Some None, put_schedule k (sch\<lparr>sch_nextRunAt := cursor\<rparr>) (with_plane plane st)))))))"

definition evaluate_one ::
    "string \<Rightarrow> session_record list option \<times> scheduling_state \<Rightarrow> string \<Rightarrow> session_record list option \<times> scheduling_state" where
  "evaluate_one nowIso r k =
    (case r of
       (None, st) \<Rightarrow> r
     | (Some created, st) \<Rightarrow>
         (case js_get (ss_schedules st) k of
            None \<Rightarrow> r
          | Some sch \<Rightarrow>
              (if \<not> sch_enabled sch then r
               else if later (cursor_time (sch_nextRunAt sch)) (date_parse nowIso) then r
               else case tryClaimScheduleFire st (sch_id sch) (sch_nextRunAt sch) nowIso of
                 (None, st1) \<Rightarrow> (None, st1)
               | (Some None, st1) \<Rightarrow> (Some created, st1)
               | (Some (Some s), st1) \<Rightarrow> (Some (created @ [s]), st1))))"

definition evaluateCron :: "scheduling_state \<Rightarrow> string \<Rightarrow> session_record list option \<times> scheduling_state" where
  "evaluateCron st nowIso =
    (if \<not> isValidUtcTimestamp nowIso then (Some [], st)
     else foldl (evaluate_one nowIso) (Some [], st) (js_keys (ss_schedules st)))"

end
