(* ===== verification/ScheduleRuns.thy ===== *)
theory ScheduleRuns
  imports Schedules
begin

text \<open>
  What schedules do: the cursor of a schedule is the next occurrence of its cron expression, an accepted schedule turns
  into an accepted session request, every occurrence is claimed at most once, and the sessions a schedule creates keep
  the invariants of the plane and never overlap in their lane.
\<close>

section \<open>Cursors\<close>

lemma printed_length: "to_iso r = Some s \<Longrightarrow> length s = 24 \<or> length s = 27"
  by (auto simp: to_iso_def iso_year_def iso_tail_shape(2) length_pad_digits split: option.splits if_splits)

lemma no_offset: "length v \<noteq> 25 \<Longrightarrow> length v \<noteq> 29 \<Longrightarrow> \<not> has_offset v"
  by (auto simp: has_offset_def offset_shapes_def has_shape_def dest: list_all2_lengthD)

lemma nextCronOccurrence_printed: "nextCronOccurrence e a = Some (Some s) \<Longrightarrow> \<exists>r. to_iso r = Some s"
  by (auto simp: nextCronOccurrence_def Let_def split: if_splits option.splits)

lemma cron_cursor:
  assumes "nextCronOccurrence e now = Some (Some c)"
  shows "\<exists>t r cr. isValidUtcTimestamp now \<and> parseCron e = Some cr \<and> date_parse now = Some t \<and> cursor_time c = Some r \<and> t < r
    \<and> cron_matches cr r \<and> (\<forall>u. t < u \<and> u < r \<longrightarrow> \<not> cron_matches cr u)"
proof -
  obtain cr where v: "isValidUtcTimestamp now" "parseCron e = Some cr"
    using assms by (auto simp: nextCronOccurrence_def split: if_splits option.splits)
  have "\<not> has_offset c" using nextCronOccurrence_printed [OF assms] printed_length no_offset by fastforce
  then show ?thesis using nextCronOccurrence_spec [OF v] v assms by (auto simp: cursor_time_def)
qed

lemma nextCronOccurrence_total: "nextCronOccurrence e now \<noteq> None"
proof (cases "isValidUtcTimestamp now \<and> parseCron e \<noteq> None")
  case True
  then obtain cr where "isValidUtcTimestamp now" "parseCron e = Some cr" by auto
  from nextCronOccurrence_spec [OF this] show ?thesis by (auto split: option.splits)
qed (auto simp: nextCronOccurrence_def)

lemma nextRunAt_total: "nextRunAt sch now \<noteq> None"
  using nextCronOccurrence_total [of "sch_cron sch" now] by (simp add: nextRunAt_def)

lemma nextRunAt_cron: "nextRunAt sch now = Some (Some c) \<Longrightarrow> nextCronOccurrence (sch_cron sch) now = Some (Some c)
    \<and> isValidPersistedCursor (sch_nextRunAt sch)"
  by (auto simp: nextRunAt_def split: if_splits)

text \<open>The new cursor is after the instant at which the old one was due.\<close>

lemma cursor_moves:
  assumes "nextRunAt sch now = Some (Some c)" and "\<not> later (cursor_time (sch_nextRunAt sch)) (date_parse now)"
  shows "c \<noteq> sch_nextRunAt sch" "later (cursor_time c) (date_parse now)"
proof -
  obtain t r where t: "date_parse now = Some t" "cursor_time c = Some r" "t < r"
    using cron_cursor [OF conjunct1 [OF nextRunAt_cron [OF assms(1)]]] by blast
  then show "later (cursor_time c) (date_parse now)" by (simp add: later_def)
  with assms(2) show "c \<noteq> sch_nextRunAt sch" by auto
qed

section \<open>Stored schedules\<close>

definition lane_ok :: "string option \<Rightarrow> bool" where
  "lane_ok c = (case c of None \<Rightarrow> False | Some lane \<Rightarrow> lane \<noteq> [] \<and> \<not> isReservedConcurrencyId lane \<and> utf8_length lane \<le> MAX_CONCURRENCY_ID_BYTES)"

definition scope_ok :: "schedule_record \<Rightarrow> bool" where
  "scope_ok sch \<longleftrightarrow>
    (if sch_repositoryId sch = []
     then sch_workspacePoolId sch \<noteq> None \<and> sch_workspacePoolId sch \<noteq> Some [] \<and> sch_setupProfileId sch \<noteq> Some [] \<and> sch_ref sch = None
     else sch_workspacePoolId sch = None \<and> sch_setupProfileId sch = None \<and> sch_destroyWorkspaceAfter sch = None
       \<and> (\<forall>r. sch_ref sch = Some r \<longrightarrow> isValidScheduledBranchRef r))"

definition schedule_ok :: "schedule_record \<Rightarrow> bool" where
  "schedule_ok sch \<longleftrightarrow> scope_ok sch \<and> lane_ok (sch_concurrencyId sch)
    \<and> routing_valid (sch_target sch) (sch_fallbacks sch) (sch_queueTtlSeconds sch) MAX_SCHEDULE_FALLBACKS
    \<and> list_all named_target (sch_target sch # sch_fallbacks sch) \<and> parseCron (sch_cron sch) \<noteq> None
    \<and> cursor_time (sch_nextRunAt sch) \<noteq> None \<and> sch_principalId sch \<noteq> None"

lemma schedule_lane_nonempty: "schedule_lane k c \<noteq> []"
  by (cases c) (auto simp: schedule_lane_def truthy_opt_def)

lemma lane_checked: "lane_error (schedule_lane k c) = None \<Longrightarrow> lane_ok (Some (schedule_lane k c))"
  using schedule_lane_nonempty [of k c]
  by (simp add: lane_error_def lane_ok_def concurrencyIdByteLengthError_def not_less split: if_splits)

lemma js_trim_Nil [simp]: "js_trim [] = []"
  by (simp add: js_trim_def)

lemma mode_checked:
  assumes "validateScheduleMode st input = Inr mode"
  shows "if md_repositoryId mode = []
    then si_ref input = None \<and> md_workspacePoolId mode \<noteq> None \<and> md_workspacePoolId mode \<noteq> Some [] \<and> md_setupProfileId mode \<noteq> Some []
    else md_workspacePoolId mode = None \<and> md_setupProfileId mode = None \<and> \<not> is_workspace_scope (si_repositoryId input)"
proof (cases "is_workspace_scope (si_repositoryId input)")
  case True
  then have "workspace_mode st input = Inr mode" using assms by (auto simp: validateScheduleMode_def split: if_splits)
  then show ?thesis by (cases "si_workspacePoolId input") (auto simp: workspace_mode_def truthy_opt_def split: if_splits option.splits)
next
  case False
  then have "repository_mode input = Inr mode" using assms by (auto simp: validateScheduleMode_def split: if_splits)
  then show ?thesis using False by (auto simp: repository_mode_def split: nullable.splits if_splits)
qed

lemma mode_repository: "validateScheduleMode st input = Inr mode \<Longrightarrow> is_workspace_scope (si_repositoryId input) \<Longrightarrow> md_repositoryId mode = []"
  by (auto simp: validateScheduleMode_def workspace_mode_def split: if_splits option.splits)

lemma cursor_ok: "nextCronOccurrence e now = Some (Some c) \<Longrightarrow> parseCron e \<noteq> None \<and> cursor_time c \<noteq> None"
  using cron_cursor by blast

lemma preparePut_ok:
  assumes "preparePutSchedule st input = (Some (Inr sch), st')"
  shows "schedule_ok sch" "nextCronOccurrence (sch_cron sch) (st_now (ss_plane st)) = Some (Some (sch_nextRunAt sch))"
proof -
  obtain mode cursor target fallbacks ttl names where c: "checked_schedule (ss_plane st) input = Some (Inr (mode, cursor, (target, fallbacks, ttl), names))"
    using assms by (auto simp: preparePutSchedule_def split: option.splits sum.splits prod.splits)
  obtain sid where lane: "lane_error (schedule_lane sid (si_concurrencyId input)) = None"
    and sch: "sch = new_schedule input mode cursor (target, fallbacks, ttl) names sid (st_now (ss_plane st))"
    using assms c by (auto simp: preparePutSchedule_def next_schedule_id_def split: option.splits)
  from c have m: "validateScheduleMode (ss_plane st) input = Inr mode"
    and n: "nextCronOccurrence (si_cron input) (st_now (ss_plane st)) = Some (Some cursor)"
    and r: "validateTargetRouting (si_target input) (si_fallbacks input) (si_queueTtlSeconds input) MAX_SCHEDULE_FALLBACKS = Inr (target, fallbacks, ttl)"
    and ref: "\<forall>x. si_ref input = Some x \<longrightarrow> isValidScheduledBranchRef x"
    by (auto simp: checked_schedule_def split: sum.splits option.splits if_splits)
  have "scope_ok sch" using mode_checked [OF m] ref by (auto simp: scope_ok_def sch new_schedule_def truthy_opt_def split: if_splits)
  then show "schedule_ok sch"
    using lane_checked [OF lane] validateTargetRouting_valid [OF r] validateTargetRouting_named [OF r] cursor_ok [OF n]
    by (simp add: schedule_ok_def sch new_schedule_def)
  show "nextCronOccurrence (sch_cron sch) (st_now (ss_plane st)) = Some (Some (sch_nextRunAt sch))" using n by (simp add: sch new_schedule_def)
qed

lemma updated_views:
  "sch_repositoryId (updated_schedule sch p mode cursor lane routing names) = md_repositoryId mode"
  "sch_workspacePoolId (updated_schedule sch p mode cursor lane routing names) = (if md_repositoryId mode \<noteq> [] then None else md_workspacePoolId mode)"
  "sch_setupProfileId (updated_schedule sch p mode cursor lane routing names) = (if md_repositoryId mode \<noteq> [] then None else truthy_opt (md_setupProfileId mode))"
  "md_repositoryId mode \<noteq> [] \<Longrightarrow> sch_destroyWorkspaceAfter (updated_schedule sch p mode cursor lane routing names) = None"
  "sch_ref (updated_schedule sch p mode cursor lane routing names) = (if md_repositoryId mode \<noteq> [] then first_some (spt_ref p) (sch_ref sch) else None)"
  "sch_concurrencyId (updated_schedule sch p mode cursor lane routing names) = Some lane"
  "sch_target (updated_schedule sch p mode cursor lane routing names) = fst routing"
  "sch_fallbacks (updated_schedule sch p mode cursor lane routing names) = fst (snd routing)"
  "sch_queueTtlSeconds (updated_schedule sch p mode cursor lane routing names) = snd (snd routing)"
  "sch_cron (updated_schedule sch p mode cursor lane routing names) = opt_or (spt_cron p) (sch_cron sch)"
  "sch_nextRunAt (updated_schedule sch p mode cursor lane routing names) = cursor"
  "sch_principalId (updated_schedule sch p mode cursor lane routing names) = sch_principalId sch"
  "sch_id (updated_schedule sch p mode cursor lane routing names) = sch_id sch"
  by (simp_all add: updated_schedule_def applyStoredPrompt_def Let_def split: option.split)

lemma prepareUpdate_ok:
  assumes "prepareUpdateSchedule st k p = Some (Inr sch')" and "js_get (ss_schedules st) k = Some sch" and "schedule_ok sch"
  shows "schedule_ok sch'" "sch_id sch' = sch_id sch"
    "nextCronOccurrence (sch_cron sch') (st_now (ss_plane st)) = Some (Some (sch_nextRunAt sch'))"
proof -
  obtain mode cursor target fallbacks ttl names where m: "validateScheduleMode (ss_plane st) (merged_input sch p) = Inr mode"
    and n: "nextCronOccurrence (opt_or (spt_cron p) (sch_cron sch)) (st_now (ss_plane st)) = Some (Some cursor)"
    and ref: "\<forall>x. spt_ref p = Some x \<longrightarrow> isValidScheduledBranchRef x"
    and lane: "lane_error (schedule_lane k (first_some (spt_concurrencyId p) (sch_concurrencyId sch))) = None"
    and r: "validateTargetRouting (nullish_or (spt_target p) (target_json (sch_target sch)))
        (nullish_or (spt_fallbacks p) (JArr (map target_json (sch_fallbacks sch))))
        (nullish_or (spt_queueTtlSeconds p) (JNum (sch_queueTtlSeconds sch))) MAX_SCHEDULE_FALLBACKS = Inr (target, fallbacks, ttl)"
    and s: "sch' = updated_schedule sch p mode cursor (schedule_lane k (first_some (spt_concurrencyId p) (sch_concurrencyId sch)))
        (target, fallbacks, ttl) names"
    using assms(1,2) by (auto simp: prepareUpdateSchedule_def Let_def split: sum.splits option.splits if_splits)
  have "\<forall>x. sch_ref sch = Some x \<longrightarrow> isValidScheduledBranchRef x" using assms(3) by (auto simp: schedule_ok_def scope_ok_def split: if_splits)
  with ref have refs: "\<forall>x. first_some (spt_ref p) (sch_ref sch) = Some x \<longrightarrow> isValidScheduledBranchRef x" by (cases "spt_ref p") auto
  have "scope_ok sch'" using mode_checked [OF m] refs by (auto simp: scope_ok_def s updated_views truthy_opt_def split: if_splits)
  then show "schedule_ok sch'"
    using lane_checked [OF lane] validateTargetRouting_valid [OF r] validateTargetRouting_named [OF r] cursor_ok [OF n] assms(3)
    by (simp add: schedule_ok_def s updated_views)
  show "sch_id sch' = sch_id sch" by (simp add: s updated_views)
  show "nextCronOccurrence (sch_cron sch') (st_now (ss_plane st)) = Some (Some (sch_nextRunAt sch'))" using n by (simp add: s updated_views)
qed

section \<open>The request of a schedule\<close>

text \<open>What the control plane does not check when it stores a schedule: its timeout, the size of its prompt and of the
  name of its owner.\<close>

definition runnable :: "schedule_record \<Rightarrow> bool" where
  "runnable sch \<longleftrightarrow> 0 < sch_timeout sch \<and> sch_timeout sch \<le> MAX_SESSION_TIMEOUT_SECONDS
    \<and> utf8_length (scheduledSessionPrompt (sch_prompt sch)) \<le> MAX_PROMPT_BYTES
    \<and> (case sch_principalId sch of None \<Rightarrow> False | Some p \<Rightarrow> length p \<le> MAX_METADATA_STRING_LENGTH)"

lemma runnable_code [code]:
  "runnable sch \<longleftrightarrow> 0 < sch_timeout sch \<and> sch_timeout sch \<le> MAX_SESSION_TIMEOUT_SECONDS
    \<and> int (utf8_length (scheduledSessionPrompt (sch_prompt sch))) \<le> 65536
    \<and> (case sch_principalId sch of None \<Rightarrow> False | Some p \<Rightarrow> int (length p) \<le> 1024)"
  by (simp add: runnable_def MAX_PROMPT_BYTES_def MAX_METADATA_STRING_LENGTH_def split: option.split)

definition schedule_fields :: "control_plane_state \<Rightarrow> schedule_record \<Rightarrow> session_fields" where
  "schedule_fields st sch =
    (let ws = truthy_str (sch_workspacePoolId sch)
     in \<lparr>sf_repositoryId = (if ws then None else Some (sch_repositoryId sch)), sf_prompt = scheduledSessionPrompt (sch_prompt sch),
         sf_target = sch_target sch, sf_fallbacks = sch_fallbacks sch, sf_queueTtlSeconds = sch_queueTtlSeconds sch,
         sf_timeout = sch_timeout sch, sf_priority = 0, sf_requiredLabels = [], sf_ref = sch_ref sch,
         sf_concurrencyId = sch_concurrencyId sch, sf_metadata = Some (JObj [(''createdBy'', JStr (the (sch_principalId sch)))]),
         sf_type = (if ws then Type_workspace else Type_scheduled), sf_source = ''schedule'', sf_workspacePoolId = sch_workspacePoolId sch,
         sf_setupProfileId = sch_setupProfileId sch,
         sf_destroyWorkspaceAfter = (if ws then Some (opt_or (sch_destroyWorkspaceAfter sch)
           (opt_or (map_option pool_destroyWorkspaceAfter (js_get (st_workspacePools st) (the (sch_workspacePoolId sch)))) False)) else None)\<rparr>)"

lemma scheduled_get:
  "js_get (scheduledSessionInput st sch) ''repositoryId'' = Some (if truthy_str (sch_workspacePoolId sch) then JNull else JStr (sch_repositoryId sch))"
  "js_get (scheduledSessionInput st sch) ''prompt'' = Some (JStr (scheduledSessionPrompt (sch_prompt sch)))"
  "js_get (scheduledSessionInput st sch) ''target'' = Some (target_json (sch_target sch))"
  "js_get (scheduledSessionInput st sch) ''fallbacks'' = Some (JArr (map target_json (sch_fallbacks sch)))"
  "js_get (scheduledSessionInput st sch) ''queueTtlSeconds'' = Some (JNum (sch_queueTtlSeconds sch))"
  "js_get (scheduledSessionInput st sch) ''timeout'' = Some (JNum (sch_timeout sch))"
  "js_get (scheduledSessionInput st sch) ''priority'' = None" "js_get (scheduledSessionInput st sch) ''requiredLabels'' = None"
  "js_get (scheduledSessionInput st sch) ''type'' = Some (JStr (if truthy_str (sch_workspacePoolId sch) then ''workspace'' else ''scheduled''))"
  "js_get (scheduledSessionInput st sch) ''source'' = Some (JStr ''schedule'')"
  "js_get (scheduledSessionInput st sch) ''ref'' = map_option JStr (sch_ref sch)"
  "js_get (scheduledSessionInput st sch) ''concurrencyId'' = Some (JStr (opt_or (sch_concurrencyId sch) (''schedule-'' @ sch_id sch)))"
  "js_get (scheduledSessionInput st sch) ''scheduleId'' = Some (JStr (sch_id sch))"
  "js_get (scheduledSessionInput st sch) ''metadata'' = Some (JObj [(''createdBy'', case sch_principalId sch of Some p \<Rightarrow> JStr p | None \<Rightarrow> JArr [])])"
  "js_get (scheduledSessionInput st sch) ''workspacePoolId'' = map_option JStr (truthy_opt (sch_workspacePoolId sch))"
  "js_get (scheduledSessionInput st sch) ''setupProfileId'' = map_option JStr (truthy_opt (sch_setupProfileId sch))"
  "js_get (scheduledSessionInput st sch) ''destroyWorkspaceAfter'' = (if truthy_str (sch_workspacePoolId sch)
     then Some (JBool (opt_or (sch_destroyWorkspaceAfter sch)
       (opt_or (map_option pool_destroyWorkspaceAfter (js_get (st_workspacePools st) (the (sch_workspacePoolId sch)))) False))) else None)"
  "js_get (scheduledSessionInput st sch) ''setupScript'' = None"
  by (cases "truthy_str (sch_workspacePoolId sch)", simp_all add: scheduledSessionInput_def js_get_append js_get_member js_get_Cons split: option.splits)+

lemma scheduled_workspace: "is_workspace_request (scheduledSessionInput st sch) \<longleftrightarrow> truthy_str (sch_workspacePoolId sch)"
  by (simp add: is_workspace_request_def scheduled_get)

lemma scheduled_is_session_ref: "isValidScheduledBranchRef r \<Longrightarrow> isValidSessionRef r"
  by (simp add: isValidSessionRef_def isValidScheduledBranchRef_def split: if_splits)

definition schedule_io :: input_options where
  "schedule_io = \<lparr>io_allowReservedConcurrencyId = False, io_allowCustomWebhookConcurrencyId = False, io_allowGitHubCommentConcurrencyId = False\<rparr>"

lemma scheduled_parts:
  assumes ok: "schedule_ok sch" and run: "runnable sch"
  defines "ws \<equiv> truthy_str (sch_workspacePoolId sch)"
  shows "requested_type (scheduledSessionInput st sch) = Inr (if ws then Type_workspace else Type_scheduled)"
    "requested_prompt (scheduledSessionInput st sch) ty = Inr (scheduledSessionPrompt (sch_prompt sch))"
    "requested_timeout (scheduledSessionInput st sch) = Inr (sch_timeout sch)" "requested_priority (scheduledSessionInput st sch) = Inr 0"
    "requested_labels (scheduledSessionInput st sch) = Inr []" "requested_ref (scheduledSessionInput st sch) = Inr (sch_ref sch)"
    "requested_concurrency (scheduledSessionInput st sch) schedule_io = Inr (sch_concurrencyId sch)"
    "requested_metadata (scheduledSessionInput st sch) = Inr (Some (JObj [(''createdBy'', JStr (the (sch_principalId sch)))]))"
    "requested_source (scheduledSessionInput st sch) = ''schedule''"
proof -
  note get = scheduled_get scheduled_workspace
  show "requested_type (scheduledSessionInput st sch) = Inr (if ws then Type_workspace else Type_scheduled)"
    by (simp add: requested_type_def get session_type_of_def rejected_def ws_def)
  show "requested_prompt (scheduledSessionInput st sch) ty = Inr (scheduledSessionPrompt (sch_prompt sch))"
    using run by (simp add: requested_prompt_def get promptByteLengthError_def runnable_def rejected_def)
  show "requested_timeout (scheduledSessionInput st sch) = Inr (sch_timeout sch)"
    using run by (simp add: requested_timeout_def get sessionTimeoutError_def runnable_def json_int_def)
  show "requested_priority (scheduledSessionInput st sch) = Inr 0" "requested_labels (scheduledSessionInput st sch) = Inr []"
    by (simp_all add: requested_priority_def requested_labels_def parse_labels_def get rejected_def)
  have ref: "\<forall>r. sch_ref sch = Some r \<longrightarrow> isValidSessionRef r \<and> \<not> ws"
    using ok scheduled_is_session_ref by (auto simp: schedule_ok_def scope_ok_def ws_def split: if_splits)
  then show "requested_ref (scheduledSessionInput st sch) = Inr (sch_ref sch)"
    by (cases "sch_ref sch") (auto simp: requested_ref_def get ws_def non_empty_string_def isValidSessionRef_def rejected_def split: if_splits)
  obtain lane where "sch_concurrencyId sch = Some lane" "lane \<noteq> []" "\<not> isReservedConcurrencyId lane" "utf8_length lane \<le> MAX_CONCURRENCY_ID_BYTES"
    using ok by (auto simp: schedule_ok_def lane_ok_def split: option.splits)
  then show "requested_concurrency (scheduledSessionInput st sch) schedule_io = Inr (sch_concurrencyId sch)"
    by (simp add: requested_concurrency_def get non_empty_string_def rejected_def concurrencyIdByteLengthError_def)
  obtain p where "sch_principalId sch = Some p" "length p \<le> MAX_METADATA_STRING_LENGTH" using run by (auto simp: runnable_def split: option.splits)
  then show "requested_metadata (scheduledSessionInput st sch) = Inr (Some (JObj [(''createdBy'', JStr (the (sch_principalId sch)))]))"
    by (simp add: requested_metadata_def get parseSessionMetadata_def MAX_METADATA_KEYS_def metadata_field_error_def MAX_METADATA_KEY_LENGTH_def)
  show "requested_source (scheduledSessionInput st sch) = ''schedule''" by (simp add: requested_source_def get)
qed

lemma scheduled_accepted:
  assumes ok: "schedule_ok sch" and run: "runnable sch"
  shows "validateCreateSessionInput (scheduledSessionInput st sch) schedule_io = Inr (schedule_fields st sch)"
proof -
  note parts = scheduled_parts [OF ok run]
  have "routing_valid (sch_target sch) (sch_fallbacks sch) (sch_queueTtlSeconds sch) MAX_FALLBACKS" "list_all named_target (sch_target sch # sch_fallbacks sch)"
    using ok by (auto simp: schedule_ok_def routing_valid_def MAX_SCHEDULE_FALLBACKS_def MAX_FALLBACKS_def)
  note routing = routing_json [OF this]
  have scope: "if truthy_str (sch_workspacePoolId sch) then sch_repositoryId sch = [] \<and> sch_setupProfileId sch \<noteq> Some [] \<and> sch_ref sch = None
      else sch_repositoryId sch \<noteq> [] \<and> sch_workspacePoolId sch = None \<and> sch_setupProfileId sch = None"
    using ok by (cases "sch_workspacePoolId sch") (auto simp: schedule_ok_def scope_ok_def split: if_splits)
  have checked: "scope_checked (scheduledSessionInput st sch) rest = rest" for rest :: "string + session_fields"
    using scope unfolding scope_checked_def Let_def scheduled_workspace scheduled_get
    by (cases "sch_workspacePoolId sch"; cases "sch_setupProfileId sch")
      (auto simp: rejected_def non_empty_string_def json_bool_def truthy_opt_def split: if_splits)
  have branch: "\<forall>r. sch_ref sch = Some r \<longrightarrow> isValidScheduledBranchRef r"
    using ok by (auto simp: schedule_ok_def scope_ok_def split: if_splits)
  have names: "(if truthy_str (sch_workspacePoolId sch) then None else non_empty_string (Some (if truthy_str (sch_workspacePoolId sch) then JNull else JStr (sch_repositoryId sch))))
      = (if truthy_str (sch_workspacePoolId sch) then None else Some (sch_repositoryId sch))"
    "(if truthy_str (sch_workspacePoolId sch) then non_empty_string (map_option JStr (truthy_opt (sch_workspacePoolId sch))) else None) = sch_workspacePoolId sch"
    "(if truthy_str (sch_workspacePoolId sch) then non_empty_string (map_option JStr (truthy_opt (sch_setupProfileId sch))) else None) = sch_setupProfileId sch"
    using scope by (cases "sch_workspacePoolId sch"; cases "sch_setupProfileId sch"; auto simp: non_empty_string_def truthy_opt_def split: if_splits)+
  show ?thesis
    unfolding validateCreateSessionInput_def checked parts scheduled_get routing bind_ok.simps prod.case Let_def scheduled_workspace names
    using branch by (simp add: rejected_def isSessionSource_def SESSION_SOURCES_def schedule_fields_def json_bool_def split: option.split)
qed

section \<open>Claims\<close>

lemma request_lane_scheduled: "schedule_ok sch \<Longrightarrow> request_lane (JObj (scheduledSessionInput st sch)) = sch_concurrencyId sch"
  by (auto simp: request_lane_def scheduled_get non_empty_string_def schedule_ok_def lane_ok_def split: option.splits)

lemma create_scheduled_outcome:
  "schedule_ok sch \<Longrightarrow> create_outcome st (sch_concurrencyId sch) (create_scheduled st sch)"
  using createSession_outcome [of st "JObj (scheduledSessionInput st sch)" schedule_options] request_lane_scheduled [of sch st]
  by (simp add: create_scheduled_def)

lemma create_scheduled_created:
  assumes "schedule_ok sch" and "runnable sch" and "scope_failure st (schedule_fields st sch) = None"
    and "resolveTargetDisplayNames st (sch_target sch) (sch_fallbacks sch) = Inr names"
    and "fields_payload_error st (schedule_fields st sch) = None" and "active_for st (sch_concurrencyId sch) = None"
    and "expiry_at (st_now st) (sch_queueTtlSeconds sch) = Some e"
  shows "create_scheduled st sch = (Some (Inr (created_session st (schedule_fields st sch) names (fst (next_id st)) e (Some (sch_id sch)), True)),
    persistSession (created_session st (schedule_fields st sch) names (fst (next_id st)) e (Some (sch_id sch))) (snd (next_id st)))"
proof -
  have f: "sf_target (schedule_fields st sch) = sch_target sch" "sf_fallbacks (schedule_fields st sch) = sch_fallbacks sch"
    "sf_concurrencyId (schedule_fields st sch) = sch_concurrencyId sch" "sf_queueTtlSeconds (schedule_fields st sch) = sch_queueTtlSeconds sch"
    by (simp_all add: schedule_fields_def Let_def)
  show ?thesis
    using scheduled_accepted [OF assms(1,2), unfolded schedule_io_def] assms(3-7)
    by (simp add: create_scheduled_def createSession_def schedule_options_def f scheduled_get case_prod_beta Let_def)
qed

lemma create_scheduled_rejected:
  assumes "schedule_ok sch" and "\<not> runnable sch"
  shows "\<exists>e. create_scheduled st sch = (Some (Inl (e, None)), st)"
proof -
  have "validateCreateSessionInput (scheduledSessionInput st sch) schedule_io \<noteq> Inr f" for f
  proof
    assume "validateCreateSessionInput (scheduledSessionInput st sch) schedule_io = Inr f"
    from scope_checked_ok(1) [OF this [unfolded validateCreateSessionInput_def]]
    have parts: "\<exists>ty p. requested_prompt (scheduledSessionInput st sch) ty = Inr p"
      "\<exists>t. requested_timeout (scheduledSessionInput st sch) = Inr t" "\<exists>m. requested_metadata (scheduledSessionInput st sch) = Inr m"
      unfolding bind_ok_ok split_paired_Ex prod.case rejected_ok by blast+
    have "0 < sch_timeout sch \<and> sch_timeout sch \<le> MAX_SESSION_TIMEOUT_SECONDS"
      using parts(2) by (auto simp: requested_timeout_def sessionTimeoutError_def scheduled_get split: if_splits)
    moreover have "utf8_length (scheduledSessionPrompt (sch_prompt sch)) \<le> MAX_PROMPT_BYTES"
      using parts(1) by (auto simp: requested_prompt_def promptByteLengthError_def scheduled_get rejected_def split: if_splits)
    moreover have "case sch_principalId sch of None \<Rightarrow> False | Some p \<Rightarrow> length p \<le> MAX_METADATA_STRING_LENGTH"
      using parts(3) by (auto simp: requested_metadata_def parseSessionMetadata_def metadata_field_error_def scheduled_get split: if_splits option.splits)
    ultimately show False using assms(2) by (simp add: runnable_def)
  qed
  then obtain e where "validateCreateSessionInput (scheduledSessionInput st sch) schedule_io = Inl e"
    by (cases "validateCreateSessionInput (scheduledSessionInput st sch) schedule_io") auto
  then show ?thesis by (simp add: create_scheduled_def createSession_def schedule_options_def schedule_io_def)
qed

definition due :: "string \<Rightarrow> schedule_record \<Rightarrow> string \<Rightarrow> bool" where
  "due now sch c \<longleftrightarrow> sch_enabled sch \<and> nextRunAt sch now = Some (Some c) \<and> \<not> later (cursor_time (sch_nextRunAt sch)) (date_parse now)"

definition fired_state :: "string \<Rightarrow> schedule_record \<Rightarrow> string \<Rightarrow> string \<Rightarrow> session_record \<Rightarrow> scheduling_state \<Rightarrow> scheduling_state" where
  "fired_state k sch c now s st = put_schedule k (sch\<lparr>sch_nextRunAt := c, sch_lastRunAt := Some now\<rparr>)
    (with_plane (set_principal (s_id s) (sch_principalId sch) (persistSession s (snd (next_id (ss_plane st))))) st)"

text \<open>What a claim can come to: nothing, a skipped occurrence, one new session, or an exception after an id was drawn.\<close>

inductive claim_step :: "string \<Rightarrow> string \<Rightarrow> scheduling_state \<Rightarrow> session_record option option \<Rightarrow> scheduling_state \<Rightarrow> bool"
  for k now st where
  claim_quiet: "claim_step k now st (Some None) st"
| claim_skip: "js_get (ss_schedules st) k = Some sch \<Longrightarrow> due now sch c
    \<Longrightarrow> claim_step k now st (Some None) (put_schedule k (sch\<lparr>sch_nextRunAt := c\<rparr>) st)"
| claim_fire: "js_get (ss_schedules st) k = Some sch \<Longrightarrow> due now sch c \<Longrightarrow> unclaimed s \<Longrightarrow> s_id s = fst (next_id (ss_plane st))
    \<Longrightarrow> s_concurrencyId s = sch_concurrencyId sch \<Longrightarrow> active_for (ss_plane st) (sch_concurrencyId sch) = None
    \<Longrightarrow> s_scheduleId s = Some (sch_id sch) \<Longrightarrow> claim_step k now st (Some (Some s)) (fired_state k sch c now s st)"
| claim_throw: "fst (create_scheduled (ss_plane st) sch) = None
    \<Longrightarrow> claim_step k now st None (with_plane (snd (next_id (ss_plane st))) st)"

definition schedules_ok :: "scheduling_state \<Rightarrow> bool" where
  "schedules_ok st \<longleftrightarrow> js_wf (ss_schedules st) \<and> (\<forall>k sch. js_get (ss_schedules st) k = Some sch \<longrightarrow> schedule_ok sch \<and> sch_id sch = k)"

lemma with_plane_same [simp]: "with_plane (ss_plane st) st = st"
  by (simp add: with_plane_def)

lemma create_scheduled_id:
  "fst (create_scheduled st sch) = Some (Inr (s, True)) \<Longrightarrow> s_scheduleId s = Some (sch_id sch)"
  by (auto simp: create_scheduled_def createSession_def schedule_options_def scheduled_get created_session_def Let_def case_prod_beta
      split: sum.splits option.splits)

lemma session_reply_cases:
  fixes r :: "session_reply option"
  obtains (threw) "r = None" | (rejected) e code where "r = Some (Inl (e, code))" | (created) s where "r = Some (Inr (s, True))"
    | (occupied) s where "r = Some (Inr (s, False))"
proof (cases r)
  case (Some x)
  show ?thesis
  proof (cases x)
    case (Inl e)
    with Some that(2) show ?thesis by (cases e) auto
  next
    case (Inr y)
    obtain s b where "y = (s, b)" by (cases y) auto
    with Some Inr that(3,4) show ?thesis by (cases b) auto
  qed
qed (use that(1) in simp)

lemma tryClaim_step:
  assumes ok: "schedules_ok st"
  shows "claim_step k now st (fst (tryClaimScheduleFire st k expected now)) (snd (tryClaimScheduleFire st k expected now))"
proof (cases "js_get (ss_schedules st) k")
  case (Some sch)
  have sch: "schedule_ok sch" using ok Some by (simp add: schedules_ok_def)
  note leaf = tryClaimScheduleFire_def Some
  show ?thesis
  proof (cases "\<exists>c. due now sch c \<and> sch_nextRunAt sch = expected")
    case False
    then have "tryClaimScheduleFire st k expected now = (Some None, st)"
      using nextRunAt_total [of sch now] by (auto simp: leaf due_def split: option.splits)
    then show ?thesis by (simp add: claim_quiet)
  next
    case True
    then obtain c where c: "due now sch c" "sch_nextRunAt sch = expected" by blast
    define cr where "cr = create_scheduled (ss_plane st) sch"
    have run: "tryClaimScheduleFire st k expected now =
      (if before_cutoff (ss_plane st) sch expected then (Some None, put_schedule k (sch\<lparr>sch_nextRunAt := c\<rparr>) st)
       else case resolveScheduledTarget (ss_plane st) sch of
         Inl _ \<Rightarrow> (Some None, st)
       | Inr _ \<Rightarrow>
           (case cr of
              (None, plane) \<Rightarrow> (None, with_plane plane st)
            | (Some (Inl (_, code)), plane) \<Rightarrow>
                (Some None, if code = Some ''REPOSITORY_ADMISSION_CLOSED''
                 then put_schedule k (sch\<lparr>sch_nextRunAt := c\<rparr>) (with_plane plane st) else with_plane plane st)
            | (Some (Inr (s, created)), plane) \<Rightarrow>
                (if created
                 then (Some (Some s), put_schedule k (sch\<lparr>sch_nextRunAt := c, sch_lastRunAt := Some now\<rparr>)
                   (with_plane (set_principal (s_id s) (sch_principalId sch) plane) st))
                 else (Some None, put_schedule k (sch\<lparr>sch_nextRunAt := c\<rparr>) (with_plane plane st)))))"
      unfolding cr_def using c by (simp add: leaf due_def)
    have out: "create_outcome (ss_plane st) (sch_concurrencyId sch) cr" unfolding cr_def by (rule create_scheduled_outcome [OF sch])
    note skip = claim_skip [where k = k, OF Some c(1)]
    obtain reply plane where cr: "cr = (reply, plane)" by (cases cr)
    note run = run [unfolded cr prod.case] and out = out [unfolded cr]
    show ?thesis
    proof (cases reply rule: session_reply_cases)
      case threw
      then have "claim_step k now st None (with_plane plane st)"
        using out claim_throw [of st sch k now] cr by (simp add: cr_def)
      with threw skip claim_quiet show ?thesis by (simp add: run split: sum.split)
    next
      case (rejected e code)
      with out skip claim_quiet show ?thesis by (simp add: run split: sum.split)
    next
      case (created s)
      have s: "plane = persistSession s (snd (next_id (ss_plane st)))" "unclaimed s" "s_id s = fst (next_id (ss_plane st))"
        "s_concurrencyId s = sch_concurrencyId sch" "active_for (ss_plane st) (sch_concurrencyId sch) = None"
        using out created by simp_all
      have "claim_step k now st (Some (Some s)) (fired_state k sch c now s st)"
        by (rule claim_fire [OF Some c(1) s(2-5)], rule create_scheduled_id [of "ss_plane st"]) (use created cr in \<open>simp add: cr_def\<close>)
      with created s(1) skip claim_quiet show ?thesis by (simp add: run fired_state_def split: sum.split)
    next
      case (occupied s)
      with out skip claim_quiet show ?thesis by (simp add: run split: sum.split)
    qed
  qed
qed (simp add: tryClaimScheduleFire_def claim_quiet)

section \<open>Invariants of the plane\<close>

text \<open>The id factory gives ids that are not in use.\<close>

definition ids_fresh :: "control_plane_state \<Rightarrow> bool" where
  "ids_fresh st \<longleftrightarrow> inj (st_idFactory st)
    \<and> (\<forall>n\<ge>st_idCount st. js_get (st_sessions st) (st_idFactory st n) = None \<and> st_idFactory st n \<noteq> [])"

definition plane_ok :: "control_plane_state \<Rightarrow> bool" where
  "plane_ok st \<longleftrightarrow> lanes_exclusive st \<and> ownership st \<and> ids_fresh st"

lemma ids_fresh_admits:
  assumes fresh: "ids_fresh st" and "admits st st'"
  shows "ids_fresh st'"
proof -
  have f: "st_idFactory st' = st_idFactory st" "st_idCount st \<le> st_idCount st'"
    using assms(2) by (auto simp: admits_def persistSession_def next_id_def)
  have "js_get (st_sessions st') (st_idFactory st n) = None" if "st_idCount st' \<le> n" for n
    using assms(2)
  proof (unfold admits_def, elim disjE exE conjE)
    fix s
    assume s: "s_id s = fst (next_id st)" "st' = persistSession s (snd (next_id st))"
    then have "st_idCount st < n" using that by (simp add: persistSession_def next_id_def)
    then have "st_idFactory st n \<noteq> st_idFactory st (st_idCount st)" using fresh by (auto simp: ids_fresh_def dest: injD)
    then show ?thesis using s fresh \<open>st_idCount st < n\<close> by (simp add: persistSession_def next_id_def js_get_set ids_fresh_def)
  qed (use fresh that in \<open>simp_all add: ids_fresh_def next_id_def\<close>)
  with fresh f show ?thesis by (auto simp: ids_fresh_def)
qed

lemma plane_ok_admits: "plane_ok st \<Longrightarrow> admits st st' \<Longrightarrow> plane_ok st'"
  using admits_lanes [of st st'] ids_fresh_admits [of st st'] fresh_admits [of st st']
  by (auto simp: plane_ok_def fresh_id_def ids_fresh_def js_has_def js_get_def next_id_def)

lemma plane_ok_principal:
  assumes ok: "plane_ok st"
  shows "plane_ok (set_principal sid owner st)"
proof (cases "js_get (st_sessions st) sid")
  case (Some s)
  define s' where "s' = s\<lparr>s_principalId := owner\<rparr>"
  define st' where "st' = st\<lparr>st_sessions := js_set sid s' (st_sessions st)\<rparr>"
  have lane: "in_lane lane s' = in_lane lane s" for lane by (simp add: s'_def in_lane_def)
  have "\<exists>y. js_get (st_sessions st) k = Some y \<and> (\<forall>lane. in_lane lane x = in_lane lane y)" if "js_get (st_sessions st') k = Some x" for k x
    using that lane Some by (cases "k = sid") (auto simp: st'_def js_get_set)
  then have lanes: "lanes_exclusive st'" using ok unfolding plane_ok_def lanes_exclusive_def by meson
  have touch: "touches sid st st'" unfolding st'_def by (rule touches_sessions [OF _ Some]) (simp add: s'_def)
  have "entry_owns st sid" using ok by (simp add: plane_ok_def ownership_def)
  moreover have "session_owns h a s' = session_owns h a s" for h a
    by (simp add: session_owns_def s'_def worktree_of_def reserved_for_hook_def queue_type_def)
  moreover have "holds st' = holds st" "awaits_ack st' = awaits_ack st" "s_id s' = s_id s"
    by (simp_all add: fun_eq_iff st'_def holds_def holder_of_def awaits_ack_def s'_def)
  ultimately have "entry_owns st' sid" using Some by (simp add: entry_owns_def js_get_set st'_def)
  then have "ownership st'" using ownership_touch [OF _ touch] ok by (simp add: plane_ok_def)
  moreover have "ids_fresh st'" using ok Some by (auto simp: plane_ok_def ids_fresh_def st'_def js_get_set)
  ultimately show ?thesis using lanes Some by (simp add: plane_ok_def set_principal_def st'_def s'_def)
qed (simp add: set_principal_def ok)

lemma schedule_ok_cursor: "schedule_ok sch \<Longrightarrow> due now sch c \<Longrightarrow> schedule_ok (sch\<lparr>sch_nextRunAt := c\<rparr>)
    \<and> schedule_ok (sch\<lparr>sch_nextRunAt := c, sch_lastRunAt := t\<rparr>)"
  using cursor_ok by (auto simp: schedule_ok_def scope_ok_def due_def dest!: nextRunAt_cron)

lemma js_keys_overwrite: "js_get m k = Some v \<Longrightarrow> js_keys (js_set k x m) = js_keys m"
  using js_get_keys [of m k] by (simp add: js_keys_set)

lemma claim_keeps:
  assumes "claim_step k now st r st'" and ok: "schedules_ok st" "plane_ok (ss_plane st)"
  shows "schedules_ok st' \<and> plane_ok (ss_plane st') \<and> js_keys (ss_schedules st') = js_keys (ss_schedules st)
    \<and> st_now (ss_plane st') = st_now (ss_plane st) \<and> (\<forall>j. j \<noteq> k \<longrightarrow> js_get (ss_schedules st') j = js_get (ss_schedules st) j)"
  using assms(1)
proof cases
  case (claim_skip sch c)
  with ok schedule_ok_cursor show ?thesis by (auto simp: schedules_ok_def put_schedule_def js_get_set js_keys_overwrite)
next
  case (claim_fire sch c s)
  have "opens_lane (ss_plane st) s" using claim_fire(7,8) by (simp add: opens_lane_def)
  then have "plane_ok (persistSession s (snd (next_id (ss_plane st))))"
    using plane_ok_admits [OF ok(2)] claim_fire(5,6) by simp
  note p = plane_ok_principal [OF this]
  have now: "st_now (set_principal i o' (persistSession s (snd (next_id (ss_plane st))))) = st_now (ss_plane st)" for i o'
    by (simp add: set_principal_def persistSession_def next_id_def split: option.split)
  show ?thesis using claim_fire(1-4) ok p now schedule_ok_cursor
    by (auto simp: fired_state_def schedules_ok_def put_schedule_def with_plane_def js_get_set js_keys_overwrite)
next
  case (claim_throw sch)
  have "plane_ok (snd (next_id (ss_plane st)))" by (rule plane_ok_admits [OF ok(2)]) simp
  moreover have "st_now (snd (next_id (ss_plane st))) = st_now (ss_plane st)" by (simp add: next_id_def)
  ultimately show ?thesis using claim_throw ok(1) by (simp add: with_plane_def schedules_ok_def)
qed (use ok in simp)

section \<open>Cron evaluation\<close>

lemma valid_expiry:
  assumes "isValidUtcTimestamp now" and "0 < ttl" and "ttl \<le> MAX_QUEUE_TTL_SECONDS"
  shows "\<exists>e. expiry_at now ttl = Some e"
proof -
  obtain t where t: "date_parse now = Some t" "100 \<le> getUTCFullYear t" "getUTCFullYear t \<le> 9999"
    using valid_timestamp_parse [OF assms(1)] by blast
  have "0 \<le> month_index t" "\<not> 120012 \<le> month_index t" using t month_range [of t] by (auto simp: month_index_def)
  then have "month_start 0 \<le> t" "t < month_start 120012" using month_start_le [of 0 t] month_start_le [of 120012 t] by auto
  moreover have "month_start 0 = -62167219200000" "month_start 120012 = 253433923200000" by code_simp+
  ultimately have "\<bar>t + ttl * 1000\<bar> \<le> max_time" using assms(2,3) by (simp add: MAX_QUEUE_TTL_SECONDS_def max_time_def)
  from to_iso_some [OF this] t(1) show ?thesis by (simp add: expiry_at_def)
qed

lemma validated_ttl: "validateCreateSessionInput input options = Inr v \<Longrightarrow> 0 < sf_queueTtlSeconds v \<and> sf_queueTtlSeconds v \<le> MAX_QUEUE_TTL_SECONDS"
  using accepted_valid [of input options v] by (simp add: fields_valid_def routing_valid_def)

lemma createSession_returns: "isValidUtcTimestamp (st_now st) \<Longrightarrow> fst (createSession st body options) \<noteq> None"
proof -
  assume clock: "isValidUtcTimestamp (st_now st)"
  have expires: "\<exists>e. expiry_at (st_now st) (sf_queueTtlSeconds v) = Some e" if "validateCreateSessionInput request io = Inr v" for request io v
    using validated_ttl [OF that] valid_expiry [OF clock] by blast
  show ?thesis
    by (auto simp: createSession_def case_prod_beta Let_def split: json.split sum.split option.split dest!: expires)
qed

lemma tryClaim_returns:
  assumes "schedules_ok st" and "isValidUtcTimestamp (st_now (ss_plane st))"
  shows "fst (tryClaimScheduleFire st k expected now) \<noteq> None"
  using tryClaim_step [OF assms(1), of k now expected]
proof cases
  case (claim_throw sch)
  then show ?thesis using createSession_returns [OF assms(2)] by (simp add: create_scheduled_def)
qed simp_all

text \<open>A session created by the evaluation of one of the schedules in \<open>ks\<close>, and the state that evaluation reaches.\<close>

definition ran :: "string \<Rightarrow> scheduling_state \<Rightarrow> string set \<Rightarrow> scheduling_state \<Rightarrow> session_record \<Rightarrow> bool" where
  "ran now st0 ks st s \<longleftrightarrow> (\<exists>k sch c. k \<in> ks \<and> s_scheduleId s = Some k \<and> s_status s = Queued
    \<and> js_get (ss_schedules st0) k = Some sch \<and> due now sch c
    \<and> js_get (ss_schedules st) k = Some (sch\<lparr>sch_nextRunAt := c, sch_lastRunAt := Some now\<rparr>))"

definition evaluated :: "string \<Rightarrow> scheduling_state \<Rightarrow> string set \<Rightarrow> session_record list \<Rightarrow> scheduling_state \<Rightarrow> bool" where
  "evaluated now st0 ks created st \<longleftrightarrow> schedules_ok st \<and> plane_ok (ss_plane st) \<and> js_keys (ss_schedules st) = js_keys (ss_schedules st0)
    \<and> st_now (ss_plane st) = st_now (ss_plane st0)
    \<and> (\<forall>k. k \<notin> ks \<longrightarrow> js_get (ss_schedules st) k = js_get (ss_schedules st0) k)
    \<and> distinct (map s_scheduleId created) \<and> list_all (ran now st0 ks st) created"

lemma ran_mono:
  "ran now st0 ks st s \<Longrightarrow> (\<And>j. j \<in> ks \<Longrightarrow> js_get (ss_schedules st') j = js_get (ss_schedules st) j) \<Longrightarrow> ran now st0 (insert k ks) st' s"
  unfolding ran_def by (metis insertI2)

lemma ran_schedule: "ran now st0 ks st s \<Longrightarrow> k \<notin> ks \<Longrightarrow> s_scheduleId s \<noteq> Some k"
  unfolding ran_def by auto

lemma evaluated_claim:
  assumes ev: "evaluated now st0 ks created st" and k: "k \<notin> ks" and step: "claim_step k now st (Some fired) st'"
  shows "evaluated now st0 (insert k ks) (created @ (case fired of None \<Rightarrow> [] | Some s \<Rightarrow> [s])) st'"
proof -
  have ok: "schedules_ok st" "plane_ok (ss_plane st)" using ev by (simp_all add: evaluated_def)
  note keep = claim_keeps [OF step ok]
  have old: "list_all (ran now st0 (insert k ks) st') created"
    using ev keep k by (auto simp: evaluated_def list_all_iff intro: ran_mono)
  have rest: "schedules_ok st' \<and> plane_ok (ss_plane st') \<and> js_keys (ss_schedules st') = js_keys (ss_schedules st0)
    \<and> st_now (ss_plane st') = st_now (ss_plane st0) \<and> (\<forall>j. j \<notin> insert k ks \<longrightarrow> js_get (ss_schedules st') j = js_get (ss_schedules st0) j)"
    using ev keep by (simp add: evaluated_def)
  have dist: "distinct (map s_scheduleId created)" using ev by (simp add: evaluated_def)
  show ?thesis
  proof (cases fired)
    case None
    with rest old dist show ?thesis by (simp add: evaluated_def)
  next
    case (Some s)
    from step [unfolded Some] obtain x c where x: "js_get (ss_schedules st) k = Some x" "due now x c" "unclaimed s"
        "s_scheduleId s = Some (sch_id x)" "st' = fired_state k x c now s st"
      by cases auto
    have "sch_id x = k" using ok(1) x(1) by (simp add: schedules_ok_def)
    moreover have "js_get (ss_schedules st0) k = Some x" using ev k x(1) by (simp add: evaluated_def)
    moreover have "js_get (ss_schedules st') k = Some (x\<lparr>sch_nextRunAt := c, sch_lastRunAt := Some now\<rparr>)"
      by (simp add: x(5) fired_state_def put_schedule_def js_get_set)
    ultimately have new: "ran now st0 (insert k ks) st' s" "s_scheduleId s = Some k" using x(2-4) by (auto simp: ran_def unclaimed_def)
    have "\<forall>s'\<in>set created. s_scheduleId s' \<noteq> Some k" using ev k ran_schedule by (fastforce simp: evaluated_def list_all_iff)
    with rest old dist new Some show ?thesis by (auto simp: evaluated_def)
  qed
qed

lemma evaluated_quiet: "evaluated now st0 ks created st \<Longrightarrow> evaluated now st0 (insert k ks) created st"
  by (auto simp: evaluated_def list_all_iff intro: ran_mono)

lemma evaluated_one:
  assumes ev: "evaluated now st0 ks created st" and k: "k \<notin> ks" and clock: "isValidUtcTimestamp (st_now (ss_plane st0))"
  shows "\<exists>created' st'. evaluate_one now (Some created, st) k = (Some created', st') \<and> evaluated now st0 (insert k ks) created' st'"
proof (cases "js_get (ss_schedules st) k")
  case (Some sch)
  have ok: "schedules_ok st" using ev by (simp add: evaluated_def)
  define cl where "cl = tryClaimScheduleFire st k (sch_nextRunAt sch) now"
  have id: "sch_id sch = k" using ok Some by (simp add: schedules_ok_def)
  have "fst cl \<noteq> None" unfolding cl_def by (rule tryClaim_returns [OF ok]) (use ev clock in \<open>simp add: evaluated_def\<close>)
  then obtain fired st' where cl: "cl = (Some fired, st')" by (cases cl) auto
  have one: "evaluate_one now (Some created, st) k =
    (if \<not> sch_enabled sch \<or> later (cursor_time (sch_nextRunAt sch)) (date_parse now) then (Some created, st)
     else (Some (created @ (case fired of None \<Rightarrow> [] | Some s \<Rightarrow> [s])), st'))"
    using cl by (simp add: evaluate_one_def Some id cl_def split: option.split)
  have "claim_step k now st (Some fired) st'" using tryClaim_step [OF ok, of k now "sch_nextRunAt sch"] cl by (simp add: cl_def)
  from evaluated_claim [OF ev k this] evaluated_quiet [OF ev] show ?thesis by (simp add: one)
qed (use evaluated_quiet [OF ev] in \<open>simp add: evaluate_one_def\<close>)

lemma evaluated_fold:
  "distinct ks \<Longrightarrow> set ks \<inter> done_ks = {} \<Longrightarrow> evaluated now st0 done_ks created st \<Longrightarrow> isValidUtcTimestamp (st_now (ss_plane st0))
    \<Longrightarrow> \<exists>created' st'. foldl (evaluate_one now) (Some created, st) ks = (Some created', st') \<and> evaluated now st0 (done_ks \<union> set ks) created' st'"
proof (induction ks arbitrary: done_ks created st)
  case (Cons k ks)
  obtain created' st' where one: "evaluate_one now (Some created, st) k = (Some created', st')" "evaluated now st0 (insert k done_ks) created' st'"
    using evaluated_one [OF Cons(4) _ Cons(5), of k] Cons(3) by auto
  have "set ks \<inter> insert k done_ks = {}" using Cons(2,3) by auto
  note rest = Cons(1) [OF _ this one(2) Cons(5)]
  have "done_ks \<union> set (k # ks) = insert k done_ks \<union> set ks" by auto
  with rest Cons(2) one(1) show ?case by (simp only: foldl_Cons distinct.simps)
qed simp

lemma evaluateCron_evaluated:
  assumes "schedules_ok st" and "plane_ok (ss_plane st)" and "isValidUtcTimestamp now" and "isValidUtcTimestamp (st_now (ss_plane st))"
  shows "\<exists>created st'. evaluateCron st now = (Some created, st') \<and> evaluated now st (set (js_keys (ss_schedules st))) created st'"
proof -
  have "evaluated now st {} [] st" using assms(1,2) by (simp add: evaluated_def)
  moreover have "distinct (js_keys (ss_schedules st))" using assms(1) by (simp add: schedules_ok_def js_wf_def js_keys_def)
  ultimately show ?thesis using evaluated_fold [of "js_keys (ss_schedules st)" "{}"] assms(3,4) by (simp add: evaluateCron_def)
qed

section \<open>What the operations keep\<close>

lemma claim_schedules: "claim_step k now st r st' \<Longrightarrow> schedules_ok st \<Longrightarrow> schedules_ok st'"
proof (induction rule: claim_step.induct)
  case (claim_skip sch c)
  with schedule_ok_cursor show ?case by (auto simp: schedules_ok_def put_schedule_def js_get_set)
next
  case (claim_fire sch c s)
  with schedule_ok_cursor show ?case by (auto simp: fired_state_def schedules_ok_def put_schedule_def with_plane_def js_get_set)
qed (simp_all add: schedules_ok_def with_plane_def)

lemma prepared_views:
  "preparePutSchedule st input = (r, st1) \<Longrightarrow> ss_schedules st1 = ss_schedules st \<and> ss_plane st1 = ss_plane st"
  by (auto simp: preparePutSchedule_def next_schedule_id_def Let_def split: option.splits sum.splits)

lemma putSchedule_ok: "schedules_ok st \<Longrightarrow> schedules_ok (snd (putSchedule st input))"
proof -
  assume ok: "schedules_ok st"
  obtain r st1 where p: "preparePutSchedule st input = (r, st1)" by (cases "preparePutSchedule st input")
  have ok1: "schedules_ok st1" using ok prepared_views [OF p] by (simp add: schedules_ok_def)
  show ?thesis
  proof (cases "\<exists>sch. r = Some (Inr sch)")
    case True
    then obtain sch where r: "r = Some (Inr sch)" by blast
    with ok1 preparePut_ok(1) [OF p [unfolded r]] show ?thesis by (auto simp: putSchedule_def p schedules_ok_def put_schedule_def js_get_set)
  next
    case False
    with ok1 show ?thesis by (auto simp: putSchedule_def p split: option.splits sum.splits)
  qed
qed

lemma updateSchedule_ok: "schedules_ok st \<Longrightarrow> schedules_ok (snd (updateSchedule st k p))"
proof -
  assume ok: "schedules_ok st"
  show ?thesis
  proof (cases "\<exists>sch'. prepareUpdateSchedule st k p = Some (Inr sch')")
    case True
    then obtain sch' where u: "prepareUpdateSchedule st k p = Some (Inr sch')" by blast
    then obtain sch where s: "js_get (ss_schedules st) k = Some sch"
      by (cases "js_get (ss_schedules st) k") (simp_all add: prepareUpdateSchedule_def)
    then have "schedule_ok sch" "sch_id sch = k" using ok by (simp_all add: schedules_ok_def)
    with prepareUpdate_ok [OF u s] ok u show ?thesis by (auto simp: updateSchedule_def schedules_ok_def put_schedule_def js_get_set)
  next
    case False
    with ok show ?thesis by (auto simp: updateSchedule_def split: option.splits sum.splits)
  qed
qed

lemma triggerSchedule_ok: "schedules_ok st \<Longrightarrow> schedules_ok (snd (triggerSchedule st k now))"
proof -
  assume ok: "schedules_ok st"
  have moved: "schedules_ok (put_schedule k (sch\<lparr>sch_nextRunAt := c, sch_lastRunAt := t\<rparr>) (with_plane plane st))"
    if "js_get (ss_schedules st) k = Some sch" "nextRunAt sch now = Some (Some c)" for sch c t plane
    using that ok cursor_ok [OF conjunct1 [OF nextRunAt_cron [OF that(2)]]]
    by (auto simp: schedules_ok_def put_schedule_def with_plane_def js_get_set schedule_ok_def scope_ok_def)
  have "schedules_ok (with_plane plane st)" for plane using ok by (simp add: schedules_ok_def with_plane_def)
  with ok moved show ?thesis
    by (auto simp: triggerSchedule_def split: option.split sum.split prod.split)
qed

lemma deleteSchedule_ok: "schedules_ok st \<Longrightarrow> schedules_ok (snd (deleteSchedule st k))"
  by (auto simp: deleteSchedule_def schedules_ok_def js_map_simps split: if_splits)

section \<open>A run\<close>

definition demo_clock_time :: string where
  "demo_clock_time = ''2026-01-01T00:00:00.000Z''"

definition demo_noon :: string where
  "demo_noon = ''2026-01-01T12:00:00.000Z''"

definition demo_scheduling :: scheduling_state where
  "demo_scheduling = \<lparr>ss_schedules = [], ss_plane = demo_plane\<lparr>st_now := demo_clock_time, st_idFactory := (\<lambda>n. replicate (Suc n) (CHR ''i''))\<rparr>,
     ss_scheduleIdFactory = (\<lambda>n. replicate (Suc n) (CHR ''k'')), ss_scheduleIdCount = 0\<rparr>"

definition demo_input :: schedule_input where
  "demo_input = \<lparr>si_id = None, si_repositoryId = Val ''repo'', si_workspacePoolId = None, si_setupProfileId = Undefined,
     si_destroyWorkspaceAfter = None, si_requiredLabels = None, si_setupScript = None, si_name = ''nightly'',
     si_target = Some (JObj [(''providerId'', JStr ''prov'')]), si_fallbacks = None, si_cron = ''0 6 * * *'', si_timeout = 600,
     si_queueTtlSeconds = None, si_nextRunAt = None, si_enabled = None, si_ref = None, si_concurrencyId = None,
     si_prompt = Some ''tidy'', si_principalId = None\<rparr>"

definition demo_scheduled :: scheduling_state where
  "demo_scheduled = snd (putScheduleDurable demo_scheduling demo_input)"

lemma demo_scheduled_views:
  "map (\<lambda>(k, s). (k, sch_nextRunAt s, sch_enabled s)) (ss_schedules demo_scheduled) = [(''k'', ''2026-01-01T06:00:00.000Z'', True)]"
  by code_simp

lemma demo_plane_ok: "plane_ok (ss_plane demo_scheduling)"
proof -
  have "same_claims (createControlPlaneState sample_options) (ss_plane demo_scheduling)" by code_simp
  then have "ownership (ss_plane demo_scheduling)" using fresh_ownership ownership_same by blast
  moreover have "st_sessions (ss_plane demo_scheduling) = []" by code_simp
  moreover have "inj (\<lambda>n. replicate (Suc n) (CHR ''i''))" by (rule injI) (metis length_replicate nat.inject)
  ultimately show ?thesis by (simp add: plane_ok_def lanes_exclusive_def ids_fresh_def js_get_def demo_scheduling_def)
qed

lemma putSchedule_plane: "ss_plane (snd (putSchedule st input)) = ss_plane st"
proof -
  obtain r st1 where p: "preparePutSchedule st input = (r, st1)" by (cases "preparePutSchedule st input")
  from prepared_views [OF p] show ?thesis by (simp add: putSchedule_def p put_schedule_def split: option.split sum.split)
qed

lemma putScheduleDurable_cases: "snd (putScheduleDurable st input) = st \<or> snd (putScheduleDurable st input) = snd (putSchedule st input)"
  by (simp add: putScheduleDurable_def split: sum.split option.split)

lemma demo_scheduled_ok: "schedules_ok demo_scheduled" "ss_plane demo_scheduled = ss_plane demo_scheduling"
proof -
  have "schedules_ok demo_scheduling" by (simp add: schedules_ok_def demo_scheduling_def js_wf_def js_get_def)
  then show "schedules_ok demo_scheduled" "ss_plane demo_scheduled = ss_plane demo_scheduling"
    using putScheduleDurable_cases [of demo_scheduling demo_input] putSchedule_ok [of demo_scheduling demo_input] putSchedule_plane
    unfolding demo_scheduled_def by (metis, metis)
qed

lemma demo_times: "isValidUtcTimestamp demo_noon" "isValidUtcTimestamp (st_now (ss_plane demo_scheduled))"
proof -
  have "isValidUtcTimestamp demo_clock_time" by code_simp
  then show "isValidUtcTimestamp (st_now (ss_plane demo_scheduled))" by (simp add: demo_scheduled_ok(2) demo_scheduling_def)
qed code_simp

section \<open>Properties\<close>

text \<open>C8: evaluating the schedules at an instant always completes and claims every occurrence at most once: each created
  session is queued, belongs to a different schedule, and that schedule was enabled and due; its cursor moves past the
  instant, so a second evaluation at the same instant fires none of these schedules again. Worktree ownership and the
  exclusiveness of lanes are kept, so that the sessions of a schedule never overlap.\<close>

theorem cron_claims_each_occurrence_once:
  assumes "schedules_ok st" and "plane_ok (ss_plane st)" and "isValidUtcTimestamp now" and "isValidUtcTimestamp (st_now (ss_plane st))"
  shows "\<exists>created st' again st''. evaluateCron st now = (Some created, st') \<and> distinct (map s_scheduleId created)
    \<and> list_all (ran now st (set (js_keys (ss_schedules st))) st') created \<and> schedules_ok st' \<and> plane_ok (ss_plane st')
    \<and> evaluateCron st' now = (Some again, st'') \<and> s_scheduleId ` set created \<inter> s_scheduleId ` set again = {}"
proof -
  obtain created st' where e: "evaluateCron st now = (Some created, st')" "evaluated now st (set (js_keys (ss_schedules st))) created st'"
    using evaluateCron_evaluated [OF assms] by blast
  then have ok: "schedules_ok st'" "plane_ok (ss_plane st')" "isValidUtcTimestamp (st_now (ss_plane st'))" using assms(4) by (simp_all add: evaluated_def)
  obtain again st'' where a: "evaluateCron st' now = (Some again, st'')" "evaluated now st' (set (js_keys (ss_schedules st'))) again st''"
    using evaluateCron_evaluated [OF ok(1,2) assms(3) ok(3)] by blast
  have "s_scheduleId s \<noteq> s_scheduleId s'" if s: "s \<in> set created" "s' \<in> set again" for s s'
  proof
    assume same: "s_scheduleId s = s_scheduleId s'"
    have "ran now st (set (js_keys (ss_schedules st))) st' s" "ran now st' (set (js_keys (ss_schedules st'))) st'' s'"
      using s e(2) a(2) by (auto simp: evaluated_def list_all_iff)
    with same obtain sch c c' where "due now sch c" "due now (sch\<lparr>sch_nextRunAt := c, sch_lastRunAt := Some now\<rparr>) c'"
      by (fastforce simp: ran_def)
    with cursor_moves(2) [of sch now c] show False by (simp add: due_def)
  qed
  with e a show ?thesis by (fastforce simp: evaluated_def)
qed

theorem cron_claims_each_occurrence_once_witness:
  "map s_scheduleId (the (fst (evaluateCron demo_scheduled demo_noon))) = [Some ''k'']
    \<and> schedules_ok (snd (evaluateCron demo_scheduled demo_noon))"
proof -
  have "map s_scheduleId (the (fst (evaluateCron demo_scheduled demo_noon))) = [Some ''k'']" by code_simp
  moreover have "plane_ok (ss_plane demo_scheduled)" by (simp add: demo_scheduled_ok(2) demo_plane_ok)
  ultimately show ?thesis using cron_claims_each_occurrence_once [OF demo_scheduled_ok(1) _ demo_times] by auto
qed


text \<open>C33: stored schedules stay well formed. Creating, updating, deleting, triggering and claiming keep the invariant: the
  key is the id, the scope is one repository or one pool, the targets are distinct and at most 88 fallbacks, the lane is
  outside the reserved namespaces, the expression parses, the cursor is an instant and the schedule has an owner. A new or
  updated schedule is due at the first occurrence after the clock.\<close>

theorem stored_schedules_well_formed:
  assumes "schedules_ok st"
  shows "schedules_ok (snd (putScheduleDurable st input)) \<and> schedules_ok (snd (updateSchedule st k p)) \<and> schedules_ok (snd (deleteSchedule st k))
    \<and> schedules_ok (snd (triggerSchedule st k now)) \<and> schedules_ok (snd (tryClaimScheduleFire st k expected now))
    \<and> (fst (putSchedule st input) = Some (Inr sch) \<or> fst (updateSchedule st k p) = Some (Inr sch) \<longrightarrow>
        nextCronOccurrence (sch_cron sch) (st_now (ss_plane st)) = Some (Some (sch_nextRunAt sch)))"
proof (intro conjI impI)
  show "schedules_ok (snd (putScheduleDurable st input))"
    using putScheduleDurable_cases [of st input] putSchedule_ok [OF assms] assms by auto
  show "nextCronOccurrence (sch_cron sch) (st_now (ss_plane st)) = Some (Some (sch_nextRunAt sch))"
    if "fst (putSchedule st input) = Some (Inr sch) \<or> fst (updateSchedule st k p) = Some (Inr sch)"
    using that
  proof
    assume "fst (putSchedule st input) = Some (Inr sch)"
    then obtain st1 where "preparePutSchedule st input = (Some (Inr sch), st1)"
      by (cases "preparePutSchedule st input") (auto simp: putSchedule_def split: option.splits sum.splits)
    then show ?thesis by (rule preparePut_ok(2))
  next
    assume "fst (updateSchedule st k p) = Some (Inr sch)"
    then have u: "prepareUpdateSchedule st k p = Some (Inr sch)" by (auto simp: updateSchedule_def split: option.splits sum.splits)
    then obtain old where old: "js_get (ss_schedules st) k = Some old" by (cases "js_get (ss_schedules st) k") (simp_all add: prepareUpdateSchedule_def)
    show ?thesis by (rule prepareUpdate_ok(3) [OF u old]) (use assms old in \<open>simp add: schedules_ok_def\<close>)
  qed
qed (simp_all only: updateSchedule_ok [OF assms] deleteSchedule_ok [OF assms] triggerSchedule_ok [OF assms] claim_schedules [OF tryClaim_step [OF assms] assms])

theorem stored_schedules_well_formed_witness:
  "schedules_ok (snd (deleteSchedule demo_scheduled ''k'')) \<and> ss_schedules demo_scheduled \<noteq> []"
proof -
  have "ss_schedules demo_scheduled \<noteq> []" using demo_scheduled_views by auto
  then show ?thesis using stored_schedules_well_formed [OF demo_scheduled_ok(1), where k = "''k''"] by blast
qed

lemma demo_schedule:
  obtains sch where "js_get (ss_schedules demo_scheduled) ''k'' = Some sch" "sch_nextRunAt sch = ''2026-01-01T06:00:00.000Z''" "sch_enabled sch"
    "ss_schedules demo_scheduled = [(''k'', sch)]"
  using one_record [OF demo_scheduled_views] by (auto simp: js_get_def)

definition due_check :: "string \<Rightarrow> control_plane_state \<Rightarrow> schedule_record \<Rightarrow> bool" where
  "due_check now plane sch \<longleftrightarrow> runnable sch \<and> isValidPersistedCursor (sch_nextRunAt sch)
    \<and> nextCronOccurrence (sch_cron sch) now = Some (Some ''2026-01-02T06:00:00.000Z'')
    \<and> \<not> later (cursor_time (sch_nextRunAt sch)) (date_parse now) \<and> \<not> before_cutoff plane sch (sch_nextRunAt sch)
    \<and> scope_failure plane (schedule_fields plane sch) = None \<and> fields_payload_error plane (schedule_fields plane sch) = None
    \<and> resolveTargetDisplayNames plane (sch_target sch) (sch_fallbacks sch) = Inr [''prov''] \<and> active_for plane (sch_concurrencyId sch) = None"

definition all_due :: "string \<Rightarrow> scheduling_state \<Rightarrow> bool" where
  "all_due now st = list_all (\<lambda>(k, sch). due_check now (ss_plane st) sch) (ss_schedules st)"


text \<open>C40: a schedule whose timeout is out of range is accepted but never runs: the validation of schedules does not look at the
  timeout, the validation of sessions does. A manual trigger fails at every time, and a claim creates no session and leaves
  the state as it is, cursor included (unless the occurrence is before the activation cutoff), so it is tried again at every
  evaluation.\<close>

theorem accepted_schedule_never_runs:
  assumes "putSchedule st input = (Some (Inr sch), st')" and "schedules_ok st" and "\<not> (0 < si_timeout input \<and> si_timeout input \<le> MAX_SESSION_TIMEOUT_SECONDS)"
  shows "fst (triggerSchedule st' (sch_id sch) now) \<noteq> Some (Inr (s, b))
    \<and> fst (tryClaimScheduleFire st' (sch_id sch) expected now) = Some None
    \<and> (before_cutoff (ss_plane st') sch expected \<or> snd (tryClaimScheduleFire st' (sch_id sch) expected now) = st')"
proof -
  obtain st1 where p: "preparePutSchedule st input = (Some (Inr sch), st1)" and st': "st' = put_schedule (sch_id sch) sch st1"
    using assms(1) by (cases "preparePutSchedule st input") (auto simp: putSchedule_def split: option.splits sum.splits)
  have stored: "js_get (ss_schedules st') (sch_id sch) = Some sch" by (simp add: st' put_schedule_def js_get_set)
  have "sch_timeout sch = si_timeout input" using p by (auto simp: preparePutSchedule_def next_schedule_id_def new_schedule_def split: option.splits sum.splits)
  then have "\<not> runnable sch" using assms(3) unfolding runnable_def by presburger
  from create_scheduled_rejected [OF preparePut_ok(1) [OF p] this, of "ss_plane st'"] obtain e where
    r: "create_scheduled (ss_plane st') sch = (Some (Inl (e, None)), ss_plane st')" by blast
  have "nextRunAt sch now \<noteq> None" by (rule nextRunAt_total)
  with stored r show ?thesis
    by (auto simp: triggerSchedule_def tryClaimScheduleFire_def split: option.split sum.split)
qed

theorem accepted_schedule_never_runs_witness:
  "\<exists>sch st'. putSchedule demo_scheduling (demo_input\<lparr>si_timeout := 0\<rparr>) = (Some (Inr sch), st') \<and> sch_enabled sch
    \<and> fst (tryClaimScheduleFire st' (sch_id sch) (sch_nextRunAt sch) demo_noon) = Some None"
proof -
  define r where "r = putSchedule demo_scheduling (demo_input\<lparr>si_timeout := 0\<rparr>)"
  have "(case fst r of Some (Inr sch) \<Rightarrow> sch_enabled sch | _ \<Rightarrow> False)" unfolding r_def by code_simp
  then obtain sch st' where s: "r = (Some (Inr sch), st')" "sch_enabled sch" by (cases r) (auto split: option.splits sum.splits)
  have "schedules_ok demo_scheduling" by (simp add: schedules_ok_def demo_scheduling_def js_wf_def js_get_def)
  from accepted_schedule_never_runs [OF s(1) [unfolded r_def] this] s show ?thesis by (auto simp: r_def)
qed

end
