(* ===== verification/Recovery.thy ===== *)
theory Recovery
  imports Reachable
begin

text \<open>
  Where recovery falls short. Four paths of the local control plane leave a session and the capacity around it out
  of step; each is stated on the model of the function that does it.

  \<^item> The acknowledgement deadline (\<open>enforceAckDeadlines\<close>) requeues a workspace session without freeing its slot.
  \<^item> The disconnect of a host (\<open>offlineWorkspaceSlotsLocal\<close>) leaves the pending acknowledgement behind, and the
    deadline then requeues a session that has ended in the meantime.
  \<^item> A workspace session requeued for a usage limit keeps its acknowledgement, which the next assignment inherits.
  \<^item> A host may report a session as queued (\<open>applySessionStatus\<close>).
\<close>

section \<open>The acknowledgement deadline\<close>

lemma enforce_ack_unclaimed:
  assumes "ack_overdue st nowMs p" and "js_get (st_sessions st) sid = Some s" and "matches_pending s p"
    and "pa_worktreeId p = None"
  shows "\<exists>st' s'. enforce_ack nowMs (ids, st) (sid, p) = (ids @ [sid], st') \<and> js_get (st_sessions st') sid = Some s'
    \<and> s_status s' = Queued \<and> s_workspaceSlotId s' = Null \<and> st_workspaceSlots st' = st_workspaceSlots st"
  using assms by (simp add: enforce_ack_def Let_def case_prod_beta js_get_set drop_pending_ack_def queueReconnectSession_def claim_simps)

text \<open>C36: an overdue acknowledgement of a workspace assignment requeues the session and drops its slot id, but the
  record of the slot stays as it is: busy, naming the session, and no session can be placed on it.\<close>

theorem overdue_workspace_assignment_keeps_slot_busy:
  assumes "ack_overdue st nowMs p" and "js_get (st_sessions st) sid = Some s" and "matches_pending s p"
    and "pa_worktreeId p = None"
    and "js_get (st_workspaceSlots st) k = Some x" and "slot_status x = Busy" and "slot_currentSessionId x = Some sid"
  shows "\<exists>st' s'. enforce_ack nowMs (ids, st) (sid, p) = (ids @ [sid], st') \<and> js_get (st_sessions st') sid = Some s'
    \<and> s_status s' = Queued \<and> s_workspaceSlotId s' = Null
    \<and> js_get (st_workspaceSlots st') k = Some x \<and> (\<forall>t. \<not> slot_eligible st' t x)"
  using enforce_ack_unclaimed [OF assms(1-4), of ids] assms(5,6) by (auto simp: slot_eligible_def Let_def)

text \<open>A workspace session sent to its host and not acknowledged.\<close>

definition unacked_session :: session_record where
  "unacked_session = sample_session\<lparr>s_type := Some Type_workspace, s_status := Running, s_worktreeId := Null,
    s_workspaceSlotId := Val (slot_id sample_slot), s_hostId := Val (slot_hostId sample_slot), s_attemptId := Some ''a1'',
    s_ackReceivedAt := None\<rparr>"

definition unacked_slot :: workspace_slot_record where
  "unacked_slot = sample_slot\<lparr>slot_status := Busy, slot_currentSessionId := Some (s_id unacked_session)\<rparr>"

definition unacked_pending :: pending_ack where
  "unacked_pending = \<lparr>pa_sessionId = s_id unacked_session, pa_worktreeId = None, pa_attemptId = ''a1'', pa_assignedAtMs = Some 0\<rparr>"

definition unacked_plane :: control_plane_state where
  "unacked_plane = sample_plane\<lparr>st_sessions := [(s_id unacked_session, unacked_session)],
    st_workspaceSlots := [(slot_id unacked_slot, unacked_slot)], st_pendingAcks := [(s_id unacked_session, unacked_pending)]\<rparr>"

lemma unacked_facts:
  "ack_overdue unacked_plane (st_ackDeadlineMs unacked_plane) unacked_pending"
  "js_get (st_sessions unacked_plane) (s_id unacked_session) = Some unacked_session"
  "matches_pending unacked_session unacked_pending" "pa_worktreeId unacked_pending = None"
  "js_get (st_workspaceSlots unacked_plane) (slot_id unacked_slot) = Some unacked_slot" "slot_status unacked_slot = Busy"
  "slot_currentSessionId unacked_slot = Some (s_id unacked_session)"
  by (simp_all add: ack_overdue_def unacked_plane_def unacked_pending_def unacked_session_def unacked_slot_def
      matches_pending_def js_get_def)

theorem overdue_workspace_assignment_keeps_slot_busy_witness:
  "\<exists>st' s'. enforceAckDeadlines unacked_plane (st_ackDeadlineMs unacked_plane) = ([s_id unacked_session], st')
    \<and> js_get (st_sessions st') (s_id unacked_session) = Some s' \<and> s_status s' = Queued
    \<and> js_get (st_workspaceSlots st') (slot_id unacked_slot) = Some unacked_slot"
proof -
  have "enforceAckDeadlines unacked_plane t = enforce_ack t ([], unacked_plane) (s_id unacked_session, unacked_pending)" for t
    by (simp add: enforceAckDeadlines_def unacked_plane_def)
  with overdue_workspace_assignment_keeps_slot_busy [OF unacked_facts, of "[]"] show ?thesis by auto
qed

section \<open>A host disconnects before the acknowledgement\<close>

lemma offline_unacked_slot:
  assumes "js_get (st_sessions st) sid = Some s" and "s_id s = sid" "sid \<noteq> []" and "s_status s = Running" and "matches_pending s p"
    and "slot_currentSessionId x = Some sid"
  shows "\<exists>ids' st' s'. offline_slot (slot_hostId x) reason (ids, st) x = Some (ids', st') \<and> js_get (st_sessions st') sid = Some s'
    \<and> s_status s' = Queued \<and> s_id s' = sid \<and> matches_pending s' p \<and> st_pendingAcks st' = st_pendingAcks st
    \<and> ack_overdue st' nowMs p = ack_overdue st nowMs p"
  using assms
  by (simp add: offline_slot_def Let_def case_prod_beta matches_pending_def put_slot_def persistSession_def js_get_set
      sessionForPersistence_def ack_overdue_def free_slot_fields_def releaseProviderAccountLease_def releaseProviderAccountLeaseLocal_def
      split: option.split)

text \<open>C37: when a host disconnects before it has acknowledged a workspace assignment, the session goes back to the
  queue but the pending acknowledgement stays and still matches it. If the session then expires in the queue and so
  ends as failed, the acknowledgement deadline puts the ended session back to the queue.\<close>

theorem ended_session_requeued_by_stale_deadline:
  assumes "js_get (st_sessions st) sid = Some s" and "s_id s = sid" and "sid \<noteq> []" and "s_status s = Running"
    and "matches_pending s p" and "pa_worktreeId p = None" and "slot_currentSessionId x = Some sid"
    and "ack_overdue st nowMs p"
  shows "\<exists>ids' st1 s1 st2 s2. offline_slot (slot_hostId x) reason (ids, st) x = Some (ids', st1)
    \<and> js_get (st_sessions st1) sid = Some s1 \<and> s_status s1 = Queued \<and> st_pendingAcks st1 = st_pendingAcks st
    \<and> s_status (expire_session s1 now why) = Failed
    \<and> enforce_ack nowMs ([], put_session (expire_session s1 now why) st1) (sid, p) = ([sid], st2)
    \<and> js_get (st_sessions st2) sid = Some s2 \<and> s_status s2 = Queued"
proof -
  obtain ids' st1 s1 where off: "offline_slot (slot_hostId x) reason (ids, st) x = Some (ids', st1)"
      "js_get (st_sessions st1) sid = Some s1" "s_status s1 = Queued" "matches_pending s1 p" "st_pendingAcks st1 = st_pendingAcks st"
      "ack_overdue st1 nowMs p" "s_id s1 = sid"
    using offline_unacked_slot [OF assms(1-5,7), of reason ids nowMs] assms(8) by blast
  let ?st = "put_session (expire_session s1 now why) st1"
  have "ack_overdue ?st nowMs p" using off(6) by (simp add: ack_overdue_def put_session_def split: option.splits)
  moreover have "js_get (st_sessions ?st) sid = Some (expire_session s1 now why)"
    using off(7) by (simp add: put_session_def expire_session_def js_get_set)
  moreover have "matches_pending (expire_session s1 now why) p" using off(4) by (simp add: matches_pending_def expire_session_def)
  ultimately obtain st2 s2 where "enforce_ack nowMs ([], ?st) (sid, p) = ([sid], st2)" "js_get (st_sessions st2) sid = Some s2"
      "s_status s2 = Queued"
    using enforce_ack_unclaimed [of ?st nowMs p sid "expire_session s1 now why" "[]"] assms(6) by auto
  moreover have "s_status (expire_session s1 now why) = Failed" by (simp add: expire_session_def)
  ultimately show ?thesis using off(1-3,5) by blast
qed

theorem ended_session_requeued_by_stale_deadline_witness:
  "\<exists>ids st1 s1 st2 s2. offline_slot ''h1'' ''gone'' ([], unacked_plane) unacked_slot = Some (ids, st1)
    \<and> js_get (st_sessions st1) (s_id unacked_session) = Some s1
    \<and> enforce_ack (st_ackDeadlineMs unacked_plane) ([], put_session (expire_session s1 ''now'' ''expired'') st1)
        (s_id unacked_session, unacked_pending) = ([s_id unacked_session], st2)
    \<and> js_get (st_sessions st2) (s_id unacked_session) = Some s2 \<and> s_status s2 = Queued"
proof -
  have "s_id unacked_session \<noteq> []" "s_status unacked_session = Running" "slot_hostId unacked_slot = ''h1''"
    by (simp_all add: unacked_session_def unacked_slot_def sample_slot_def sample_session_def)
  with ended_session_requeued_by_stale_deadline [OF unacked_facts(2) refl _ _ unacked_facts(3,4,7,1)] show ?thesis by metis
qed

section \<open>An inherited acknowledgement\<close>

lemma release_reported_keeps_ack:
  "\<not> truthy_bool (s_mainCheckoutLease s) \<Longrightarrow> s_ackReceivedAt (fst (release_reported st s m plan h)) = s_ackReceivedAt s"
  by (simp add: release_reported_def releaseWorkspaceSlotLocal_def Let_def)


definition usage_limit_report :: status_message where
  "usage_limit_report = \<lparr>sm_sessionId = s_id unacked_session, sm_worktreeId = None, sm_attemptId = ''a1'', sm_status = Failed,
    sm_exitCode = Undefined, sm_errorCode = Some ''usage_limit'', sm_errorMessage = None, sm_cliResumeRef = None,
    sm_result = None, sm_usage = None, sm_deferTerminalHookResult = None, sm_workspaceSlotError = None\<rparr>"

definition acked_session :: session_record where
  "acked_session = unacked_session\<lparr>s_ackReceivedAt := Some ''2026-01-05T10:00:00.000Z''\<rparr>"


section \<open>A session reported as queued\<close>

definition queued_report :: status_message where
  "queued_report = usage_limit_report\<lparr>sm_sessionId := ''id-0'', sm_worktreeId := Some ''w1'', sm_attemptId := ''attempt-0'',
    sm_status := Queued, sm_errorCode := None\<rparr>"

definition demo_reported :: control_plane_state where
  "demo_reported = snd (handleHostMessage str_compare demo_running (Msg_status queued_report) None)"

lemma demo_reported: "map (\<lambda>(k, s). (k, s_status s, s_worktreeId s)) (st_sessions demo_reported) = [(''id-0'', Queued, Val ''w1'')]"
  "map (\<lambda>(k, w). (k, wt_status w, wt_currentSessionId w)) (st_worktrees demo_reported) = [(''w1'', Busy, Some ''id-0'')]"
  by code_simp+


end
