(* ===== verification/Outbound.thy ===== *)
theory Outbound
  imports SessionResult
begin

text \<open>
  The outbound buffer of a host daemon, \<open>host-daemon/src/ws-outbound-buffer.ts\<close>: one bounded FIFO for every frame
  a host sends. Logs are droppable; every other frame waits for capacity, in ticket order. The writer
  (\<open>pump\<close> and \<open>settleInflight\<close> of \<open>ws-transport.ts\<close>) has one frame in flight at a time.

  A frame has an id, the number of its \<open>enqueue\<close> call, which stands for the delivery promise: \<open>wb_settled\<close> lists the
  promises that have been settled, \<open>wb_dropped\<close> the calls of \<open>onDrop\<close>. A producer suspended in \<open>enqueueRetained\<close> is an
  element of \<open>wb_waiting\<close>; the capacity promise it awaits is a generation number, \<open>wb_capacity\<close>, which \<open>notifyCapacity\<close>
  advances, and the producer may run again once the generation it saw has passed or its signal is aborted. What the
  transport does in the callbacks (a loss notice, the next write) are further operations.
\<close>

section \<open>Frames and the buffer\<close>

definition MAX_ITEMS :: int where "MAX_ITEMS = 1000"

definition MAX_BYTES :: int where "MAX_BYTES = 4 * 1024 * 1024"

definition frame_type :: "json \<Rightarrow> string" where
  "frame_type m = (case m of JObj ms \<Rightarrow> (case js_get ms ''type'' of Some (JStr t) \<Rightarrow> t | _ \<Rightarrow> []) | _ \<Rightarrow> [])"

definition frame_bytes :: "json \<Rightarrow> int" where
  "frame_bytes m = int (utf8_length (json_stringify m))"

text \<open>\<open>wi_admitted\<close> is the size captured by the abort handler of the frame, \<open>wi_bytes\<close> the size in the frame's record.\<close>

record ws_buffer_item =
  wi_id :: nat
  wi_message :: json
  wi_bytes :: int
  wi_admitted :: int
  wi_nonDroppable :: bool
  wi_aborted :: bool

record ws_waiter =
  ww_ticket :: nat
  ww_id :: nat
  ww_message :: json
  ww_bytes :: int
  ww_aborted :: bool
  ww_seen :: nat

datatype settlement = Resolved | Rejected string

record ws_outbound_buffer =
  wb_items :: "ws_buffer_item list"
  wb_inflight :: "ws_buffer_item list"
  wb_nextAdmissionTicket :: nat
  wb_admissionTurn :: nat
  wb_cancelledTickets :: "nat list"
  wb_capacity :: nat
  wb_closed :: bool
  wb_bytes :: int
  wb_waiting :: "ws_waiter list"
  wb_nextId :: nat
  wb_dropped :: "json list"
  wb_settled :: "(nat \<times> settlement) list"

definition new_buffer :: ws_outbound_buffer where
  "new_buffer = \<lparr>wb_items = [], wb_inflight = [], wb_nextAdmissionTicket = 0, wb_admissionTurn = 0,
    wb_cancelledTickets = [], wb_capacity = 0, wb_closed = False, wb_bytes = 0, wb_waiting = [], wb_nextId = 0,
    wb_dropped = [], wb_settled = []\<rparr>"

section \<open>Operations\<close>

definition buffer_length :: "ws_outbound_buffer \<Rightarrow> int" where
  "buffer_length st = int (length (wb_items st)) + int (length (wb_inflight st))"

definition fits :: "ws_outbound_buffer \<Rightarrow> int \<Rightarrow> bool" where
  "fits st bytes \<longleftrightarrow> buffer_length st < MAX_ITEMS \<and> wb_bytes st + bytes \<le> MAX_BYTES"

definition settle :: "nat \<Rightarrow> settlement \<Rightarrow> ws_outbound_buffer \<Rightarrow> ws_outbound_buffer" where
  "settle i r st = st\<lparr>wb_settled := wb_settled st @ [(i, r)]\<rparr>"

definition drop_frame :: "json \<Rightarrow> ws_outbound_buffer \<Rightarrow> ws_outbound_buffer" where
  "drop_frame m st = st\<lparr>wb_dropped := wb_dropped st @ [m]\<rparr>"

definition notifyCapacity :: "ws_outbound_buffer \<Rightarrow> ws_outbound_buffer" where
  "notifyCapacity st = st\<lparr>wb_capacity := Suc (wb_capacity st)\<rparr>"

definition hasWaitingAdmission :: "ws_outbound_buffer \<Rightarrow> bool" where
  "hasWaitingAdmission st \<longleftrightarrow> wb_nextAdmissionTicket st \<noteq> wb_admissionTurn st"

function skip_cancelled :: "nat \<Rightarrow> nat list \<Rightarrow> nat \<times> nat list" where
  "skip_cancelled turn cancelled =
    (if List.member cancelled turn then skip_cancelled (Suc turn) (removeAll turn cancelled) else (turn, cancelled))"
  by pat_completeness auto
termination
  by (relation "measure (\<lambda>(turn, cancelled). length cancelled)") (auto simp: length_removeAll_less)

declare skip_cancelled.simps [simp del]

definition advanceAdmissionTurn :: "ws_outbound_buffer \<Rightarrow> ws_outbound_buffer" where
  "advanceAdmissionTurn st =
    (let (turn, cancelled) = skip_cancelled (Suc (wb_admissionTurn st)) (wb_cancelledTickets st)
     in st\<lparr>wb_admissionTurn := turn, wb_cancelledTickets := cancelled\<rparr>)"

definition droppable :: "ws_buffer_item \<Rightarrow> bool" where
  "droppable x \<longleftrightarrow> frame_type (wi_message x) = ''session:log'' \<and> \<not> wi_nonDroppable x"

definition evict_log :: "ws_buffer_item list \<Rightarrow> ws_buffer_item \<Rightarrow> ws_outbound_buffer \<Rightarrow> ws_outbound_buffer" where
  "evict_log rest x st =
    settle (wi_id x) (Rejected ''outbound log dropped while disconnected'')
      (drop_frame (wi_message x) (st\<lparr>wb_items := rest, wb_bytes := wb_bytes st - wi_bytes x\<rparr>))"

function evictLogsUntilFits :: "ws_outbound_buffer \<Rightarrow> int \<Rightarrow> ws_outbound_buffer" where
  "evictLogsUntilFits st bytes =
    (if fits st bytes then st
     else case List.extract droppable (wb_items st) of
       None \<Rightarrow> st
     | Some (before, x, after) \<Rightarrow> evictLogsUntilFits (evict_log (before @ after) x st) bytes)"
  by pat_completeness auto
termination
  by (relation "measure (\<lambda>(st, bytes). length (wb_items st))")
    (auto simp: evict_log_def settle_def drop_frame_def dest!: extract_SomeE)

declare evictLogsUntilFits.simps [simp del]

definition admit :: "ws_buffer_item \<Rightarrow> ws_outbound_buffer \<Rightarrow> ws_outbound_buffer" where
  "admit x st = st\<lparr>wb_items := wb_items st @ [x], wb_bytes := wb_bytes st + wi_bytes x\<rparr>"

definition enqueueAdmitted :: "ws_outbound_buffer \<Rightarrow> nat \<Rightarrow> json \<Rightarrow> int \<Rightarrow> bool \<Rightarrow> bool \<Rightarrow> ws_outbound_buffer" where
  "enqueueAdmitted st i m bytes nonDroppable aborted =
    (if aborted then settle i (Rejected ''outbound frame cancelled'') st
     else notifyCapacity (admit \<lparr>wi_id = i, wi_message = m, wi_bytes = bytes, wi_admitted = bytes,
       wi_nonDroppable = nonDroppable, wi_aborted = False\<rparr> st))"

definition leave :: "ws_waiter \<Rightarrow> ws_outbound_buffer \<Rightarrow> ws_outbound_buffer" where
  "leave w st = st\<lparr>wb_waiting := filter (\<lambda>v. ww_ticket v \<noteq> ww_ticket w) (wb_waiting st)\<rparr>"

definition waitForCapacity :: "ws_waiter \<Rightarrow> ws_outbound_buffer \<Rightarrow> ws_outbound_buffer" where
  "waitForCapacity w st = st\<lparr>wb_waiting :=
    map (\<lambda>v. if ww_ticket v = ww_ticket w then v\<lparr>ww_seen := wb_capacity st\<rparr> else v) (wb_waiting st)\<rparr>"

definition run_waiter :: "ws_outbound_buffer \<Rightarrow> ws_waiter \<Rightarrow> ws_outbound_buffer" where
  "run_waiter st w =
    (if wb_closed st then settle (ww_id w) (Rejected ''WebSocket transport closed'') (leave w st)
     else if ww_aborted w
     then
       (let st1 = (leave w st)\<lparr>wb_cancelledTickets := set_add (ww_ticket w) (wb_cancelledTickets st)\<rparr>;
            st2 = (if ww_ticket w = wb_admissionTurn st1 then advanceAdmissionTurn st1 else st1)
        in settle (ww_id w) (Rejected ''outbound frame cancelled'') (notifyCapacity st2))
     else if ww_ticket w \<noteq> wb_admissionTurn st then waitForCapacity w st
     else
       (let st1 = evictLogsUntilFits st (ww_bytes w)
        in if \<not> fits st1 (ww_bytes w) then waitForCapacity w st1
           else notifyCapacity
             (enqueueAdmitted (advanceAdmissionTurn (leave w st1)) (ww_id w) (ww_message w) (ww_bytes w) True False)))"

definition enqueueRetained :: "ws_outbound_buffer \<Rightarrow> nat \<Rightarrow> json \<Rightarrow> int \<Rightarrow> bool \<Rightarrow> ws_outbound_buffer" where
  "enqueueRetained st i m bytes aborted =
    (let w = \<lparr>ww_ticket = wb_nextAdmissionTicket st, ww_id = i, ww_message = m, ww_bytes = bytes, ww_aborted = aborted,
           ww_seen = wb_capacity st\<rparr>
     in run_waiter (st\<lparr>wb_nextAdmissionTicket := Suc (wb_nextAdmissionTicket st), wb_waiting := wb_waiting st @ [w]\<rparr>) w)"

fun replace_keepalive :: "json \<Rightarrow> int \<Rightarrow> ws_buffer_item list \<Rightarrow> ws_buffer_item list" where
  "replace_keepalive m bytes [] = []"
| "replace_keepalive m bytes (x # xs) =
    (if frame_type (wi_message x) = ''host:keepalive'' then x\<lparr>wi_message := m, wi_bytes := bytes\<rparr> # xs
     else x # replace_keepalive m bytes xs)"

definition coalesceQueuedKeepalive ::
    "ws_outbound_buffer \<Rightarrow> json \<Rightarrow> int \<Rightarrow> (nat \<times> ws_outbound_buffer) option" where
  "coalesceQueuedKeepalive st m bytes =
    (if frame_type m \<noteq> ''host:keepalive'' then None
     else case List.find (\<lambda>x. frame_type (wi_message x) = ''host:keepalive'') (wb_items st) of
       None \<Rightarrow> None
     | Some existing \<Rightarrow>
         (if wb_bytes st - wi_bytes existing + bytes > MAX_BYTES then None
          else Some (wi_id existing, notifyCapacity (st\<lparr>wb_bytes := wb_bytes st - wi_bytes existing + bytes,
            wb_items := replace_keepalive m bytes (wb_items st)\<rparr>))))"

definition enqueue :: "ws_outbound_buffer \<Rightarrow> json \<Rightarrow> bool \<Rightarrow> bool \<Rightarrow> nat \<times> ws_outbound_buffer" where
  "enqueue st m retain aborted =
    (let i = wb_nextId st; st1 = st\<lparr>wb_nextId := Suc i\<rparr>;
         bytes = frame_bytes m; nonDroppable = (retain \<or> frame_type m \<noteq> ''session:log'')
     in if wb_closed st then (i, settle i (Rejected ''WebSocket transport closed'') st1)
        else if bytes > MAX_BYTES
        then (i, settle i (Rejected ''outbound frame exceeds buffer limit'') (if nonDroppable then st1 else drop_frame m st1))
        else case coalesceQueuedKeepalive st m bytes of
          Some r \<Rightarrow> r
        | None \<Rightarrow>
            (if \<not> nonDroppable \<and> (hasWaitingAdmission st \<or> \<not> fits st bytes)
             then (i, settle i (Rejected (''outbound buffer full for '' @ frame_type m)) (drop_frame m st1))
             else if nonDroppable then (i, enqueueRetained st1 i m bytes aborted)
             else (i, enqueueAdmitted st1 i m bytes nonDroppable aborted)))"

definition take_frame :: "ws_outbound_buffer \<Rightarrow> ws_buffer_item option \<times> ws_outbound_buffer" where
  "take_frame st =
    (case wb_items st of
       [] \<Rightarrow> (None, st)
     | x # xs \<Rightarrow> (Some x, st\<lparr>wb_items := xs, wb_inflight := wb_inflight st @ [x]\<rparr>))"

definition putBack :: "ws_outbound_buffer \<Rightarrow> ws_buffer_item \<Rightarrow> ws_outbound_buffer" where
  "putBack st x = st\<lparr>wb_inflight := removeAll x (wb_inflight st), wb_items := x # wb_items st\<rparr>"

definition complete :: "ws_outbound_buffer \<Rightarrow> ws_buffer_item \<Rightarrow> ws_outbound_buffer" where
  "complete st x =
    (if \<not> List.member (wb_inflight st) x then st
     else notifyCapacity (st\<lparr>wb_inflight := removeAll x (wb_inflight st), wb_bytes := wb_bytes st - wi_bytes x\<rparr>))"

definition rejectAll :: "ws_outbound_buffer \<Rightarrow> string \<Rightarrow> ws_outbound_buffer" where
  "rejectAll st e =
    notifyCapacity (st\<lparr>wb_closed := True, wb_items := [], wb_inflight := [], wb_bytes := 0,
      wb_settled := wb_settled st @ map (\<lambda>x. (wi_id x, Rejected e)) (wb_items st @ wb_inflight st)\<rparr>)"

text \<open>The abort handler of a frame in the queue.\<close>

definition abort_item :: "ws_outbound_buffer \<Rightarrow> ws_buffer_item \<Rightarrow> ws_outbound_buffer" where
  "abort_item st x =
    (if \<not> List.member (wb_items st) x then st
     else notifyCapacity (settle (wi_id x) (Rejected ''outbound frame cancelled'')
       (st\<lparr>wb_items := remove1 x (wb_items st), wb_bytes := wb_bytes st - wi_admitted x\<rparr>)))"

text \<open>\<open>settleInflight\<close> of the transport, for a write that succeeded or failed with an error.\<close>

definition settleInflight :: "ws_outbound_buffer \<Rightarrow> ws_buffer_item \<Rightarrow> string option \<Rightarrow> bool \<Rightarrow> ws_outbound_buffer" where
  "settleInflight st x error closed =
    (if wi_aborted x then settle (wi_id x) (Rejected ''outbound frame cancelled'') (complete st x)
     else case error of
       Some e \<Rightarrow>
         (if droppable x then settle (wi_id x) (Rejected e) (drop_frame (wi_message x) (complete st x))
          else if closed then settle (wi_id x) (Rejected e) (complete st x)
          else putBack st x)
     | None \<Rightarrow> settle (wi_id x) Resolved (complete st x))"

end
