(* ===== verification/OutboundOrder.thy ===== *)
theory OutboundOrder
  imports Outbound "HOL-Library.Multiset"
begin

text \<open>
  The outbound buffer keeps its promises: frames leave in the order of their \<open>enqueue\<close> calls, the buffer stays
  within its limits, every frame is accounted for until its promise is settled, and a producer that could be
  admitted is never left asleep. \<open>buffer_step\<close> has a rule per operation of the buffer, the producers and the writer;
  a keepalive is sent without an abort signal.
\<close>

section \<open>Steps\<close>

inductive buffer_step :: "ws_outbound_buffer \<Rightarrow> ws_outbound_buffer \<Rightarrow> bool" where
  step_enqueue: "buffer_step st (snd (enqueue st m retain aborted))"
| step_run: "w \<in> set (wb_waiting st) \<Longrightarrow> ww_seen w < wb_capacity st \<or> ww_aborted w \<Longrightarrow> buffer_step st (run_waiter st w)"
| step_abort_waiting: "buffer_step st (st\<lparr>wb_waiting := map (\<lambda>v. if ww_ticket v = t then v\<lparr>ww_aborted := True\<rparr> else v) (wb_waiting st)\<rparr>)"
| step_abort_queued: "frame_type (wi_message x) \<noteq> ''host:keepalive'' \<Longrightarrow> buffer_step st (abort_item st x)"
| step_abort_inflight: "buffer_step st (st\<lparr>wb_inflight := map (\<lambda>x. x\<lparr>wi_aborted := True\<rparr>) (wb_inflight st)\<rparr>)"
| step_take: "wb_inflight st = [] \<Longrightarrow> buffer_step st (snd (take_frame st))"
| step_settle: "wb_inflight st = [x] \<Longrightarrow> buffer_step st (settleInflight st x error closed)"
| step_close: "buffer_step st (rejectAll st e)"

inductive buffer_reachable :: "ws_outbound_buffer \<Rightarrow> bool" where
  buffer_start: "buffer_reachable new_buffer"
| buffer_next: "buffer_reachable st \<Longrightarrow> buffer_step st st' \<Longrightarrow> buffer_reachable st'"

section \<open>The invariant\<close>

definition queue :: "ws_outbound_buffer \<Rightarrow> ws_buffer_item list" where
  "queue st = wb_inflight st @ wb_items st"

definition resolved_ids :: "ws_outbound_buffer \<Rightarrow> nat list" where
  "resolved_ids st = map fst (filter (\<lambda>p. snd p = Resolved) (wb_settled st))"

definition frame_ids :: "ws_outbound_buffer \<Rightarrow> nat list" where
  "frame_ids st = map wi_id (queue st) @ map ww_id (wb_waiting st)"

definition balanced :: "ws_outbound_buffer \<Rightarrow> bool" where
  "balanced st \<longleftrightarrow> wb_bytes st = sum_list (map wi_bytes (queue st)) \<and> wb_bytes st \<le> MAX_BYTES \<and> buffer_length st \<le> MAX_ITEMS
    \<and> (\<forall>x\<in>set (queue st). 0 \<le> wi_bytes x \<and> (frame_type (wi_message x) \<noteq> ''host:keepalive'' \<longrightarrow> wi_admitted x = wi_bytes x))"

definition in_order :: "ws_outbound_buffer \<Rightarrow> bool" where
  "in_order st \<longleftrightarrow> sorted_wrt (<) (resolved_ids st @ frame_ids st)"

definition accounted :: "ws_outbound_buffer \<Rightarrow> bool" where
  "accounted st \<longleftrightarrow> mset (map fst (wb_settled st)) + mset (frame_ids st) = mset [0..<wb_nextId st]"

definition drops_logs :: "ws_outbound_buffer \<Rightarrow> bool" where
  "drops_logs st \<longleftrightarrow> (\<forall>m\<in>set (wb_dropped st). frame_type m = ''session:log'')"

definition tickets_ok :: "ws_outbound_buffer \<Rightarrow> bool" where
  "tickets_ok st \<longleftrightarrow> wb_admissionTurn st \<le> wb_nextAdmissionTicket st \<and> wb_admissionTurn st \<notin> set (wb_cancelledTickets st)
    \<and> set (wb_cancelledTickets st) \<subseteq> {..<wb_nextAdmissionTicket st}
    \<and> map ww_ticket (wb_waiting st)
      = filter (\<lambda>t. t \<notin> set (wb_cancelledTickets st)) [wb_admissionTurn st..<wb_nextAdmissionTicket st]"

definition would_fit :: "ws_outbound_buffer \<Rightarrow> int \<Rightarrow> bool" where
  "would_fit st b \<longleftrightarrow> fits (evictLogsUntilFits st b) b"

definition awake :: "ws_outbound_buffer \<Rightarrow> bool" where
  "awake st \<longleftrightarrow> (\<forall>w\<in>set (wb_waiting st). ww_seen w \<le> wb_capacity st \<and> 0 \<le> ww_bytes w
    \<and> (ww_ticket w = wb_admissionTurn st \<and> would_fit st (ww_bytes w) \<longrightarrow> ww_seen w < wb_capacity st \<or> ww_aborted w))"

definition buffer_ok :: "ws_outbound_buffer \<Rightarrow> bool" where
  "buffer_ok st \<longleftrightarrow> balanced st \<and> in_order st \<and> accounted st \<and> drops_logs st \<and> length (wb_inflight st) \<le> 1
    \<and> distinct (map ww_ticket (wb_waiting st)) \<and> (\<not> wb_closed st \<longrightarrow> tickets_ok st \<and> awake st)"

lemmas buffer_views = queue_def resolved_ids_def frame_ids_def buffer_length_def settle_def drop_frame_def notifyCapacity_def
lemmas order_views = buffer_views in_order_def accounted_def drops_logs_def

section \<open>Eviction\<close>

lemma evict_induct:
  assumes "P st" and "\<And>st xs x ys. P st \<Longrightarrow> wb_items st = xs @ x # ys \<Longrightarrow> droppable x \<Longrightarrow> P (evict_log (xs @ ys) x st)"
  shows "P (evictLogsUntilFits st b)"
  using assms(1)
proof (induction st b rule: evictLogsUntilFits.induct)
  case (1 st bytes)
  show ?case
  proof (cases "fits st bytes \<or> List.extract droppable (wb_items st) = None")
    case True
    with 1(2) show ?thesis by (subst evictLogsUntilFits.simps) auto
  next
    case False
    then obtain xs x ys where ex: "List.extract droppable (wb_items st) = Some (xs, x, ys)" by auto
    from extract_SomeE [OF this] have "P (evict_log (xs @ ys) x st)" by (intro assms(2) [OF 1(2)]) auto
    with False ex 1(1) [OF _ ex refl refl] show ?thesis by (subst evictLogsUntilFits.simps) simp
  qed
qed

lemma evict_frame:
  "wb_inflight (evictLogsUntilFits st b) = wb_inflight st" "wb_waiting (evictLogsUntilFits st b) = wb_waiting st"
  "wb_capacity (evictLogsUntilFits st b) = wb_capacity st" "wb_admissionTurn (evictLogsUntilFits st b) = wb_admissionTurn st"
  "wb_nextAdmissionTicket (evictLogsUntilFits st b) = wb_nextAdmissionTicket st"
  "wb_cancelledTickets (evictLogsUntilFits st b) = wb_cancelledTickets st" "wb_closed (evictLogsUntilFits st b) = wb_closed st"
  "wb_nextId (evictLogsUntilFits st b) = wb_nextId st"
  by (rule evict_induct [of "\<lambda>s. _ s = _ st"]; simp add: evict_log_def buffer_views)+

lemma evict_log_order:
  assumes "in_order st" "accounted st" "drops_logs st" and "wb_items st = xs @ x # ys" and "droppable x"
  shows "in_order (evict_log (xs @ ys) x st) \<and> accounted (evict_log (xs @ ys) x st) \<and> drops_logs (evict_log (xs @ ys) x st)"
  using assms by (auto simp: evict_log_def order_views droppable_def sorted_wrt_append)

lemma evict_log_balanced: "balanced st \<Longrightarrow> wb_items st = xs @ x # ys \<Longrightarrow> balanced (evict_log (xs @ ys) x st)"
  by (auto simp: evict_log_def balanced_def buffer_views)

lemma evict_order:
  assumes "in_order st" "accounted st" "drops_logs st"
  shows "in_order (evictLogsUntilFits st b) \<and> accounted (evictLogsUntilFits st b) \<and> drops_logs (evictLogsUntilFits st b)"
  by (rule evict_induct) (use assms in \<open>auto dest: evict_log_order\<close>)

lemma evict_balanced: "balanced st \<Longrightarrow> balanced (evictLogsUntilFits st b)"
  by (rule evict_induct) (auto dest: evict_log_balanced)

text \<open>What is left when every droppable log is gone decides whether a frame can be made to fit.\<close>

definition retained :: "ws_outbound_buffer \<Rightarrow> ws_buffer_item list" where
  "retained st = wb_inflight st @ filter (\<lambda>x. \<not> droppable x) (wb_items st)"

definition core_fits :: "ws_outbound_buffer \<Rightarrow> int \<Rightarrow> bool" where
  "core_fits st b \<longleftrightarrow> int (length (retained st)) < MAX_ITEMS \<and> sum_list (map wi_bytes (retained st)) + b \<le> MAX_BYTES"

lemma sum_filter_le: "\<forall>x\<in>set xs. (0::int) \<le> f x \<Longrightarrow> sum_list (map f (filter P xs)) \<le> sum_list (map f xs)"
  by (induction xs) auto

lemma fits_core:
  assumes "balanced st" and "fits st b"
  shows "core_fits st b"
proof -
  have "sum_list (map wi_bytes (filter (\<lambda>x. \<not> droppable x) (wb_items st))) \<le> sum_list (map wi_bytes (wb_items st))"
    using assms(1) by (intro sum_filter_le) (simp add: balanced_def queue_def)
  moreover have "length (filter (\<lambda>x. \<not> droppable x) (wb_items st)) \<le> length (wb_items st)" by (rule length_filter_le)
  ultimately show ?thesis using assms
    by (simp add: fits_def core_fits_def retained_def balanced_def buffer_views del: length_filter_le)
qed

lemma core_fits_evict: "wb_items st = xs @ x # ys \<Longrightarrow> droppable x \<Longrightarrow> core_fits (evict_log (xs @ ys) x st) b = core_fits st b"
  by (simp add: core_fits_def retained_def evict_log_def buffer_views)

lemma would_fit_core: "balanced st \<Longrightarrow> would_fit st b = core_fits st b"
proof (induction st b rule: evictLogsUntilFits.induct)
  case (1 st bytes)
  show ?case
  proof (cases "fits st bytes")
    case True
    with fits_core [OF 1(2)] show ?thesis unfolding would_fit_def by (subst evictLogsUntilFits.simps) simp
  next
    case False
    show ?thesis
    proof (cases "List.extract droppable (wb_items st)")
      case None
      then have "filter (\<lambda>x. \<not> droppable x) (wb_items st) = wb_items st" by (simp add: extract_None_iff filter_id_conv)
      with False None 1(2) show ?thesis unfolding would_fit_def
        by (subst evictLogsUntilFits.simps) (simp add: core_fits_def retained_def fits_def balanced_def buffer_views add.commute)
    next
      case (Some r)
      then obtain xs x ys where ex: "List.extract droppable (wb_items st) = Some (xs, x, ys)" by (cases r) auto
      note split = extract_SomeE [OF ex]
      have "would_fit (evict_log (xs @ ys) x st) bytes = core_fits st bytes"
        using 1(1) [OF False ex refl refl] evict_log_balanced [OF 1(2)] core_fits_evict split by simp
      with False ex show ?thesis unfolding would_fit_def by (subst evictLogsUntilFits.simps) simp
    qed
  qed
qed

section \<open>Tickets\<close>

lemma skip_cancelled_spec:
  "skip_cancelled t c = (t', c') \<Longrightarrow> t \<le> t' \<and> t' \<notin> set c' \<and> {t..<t'} \<subseteq> set c \<and> set c' = set c - {t..<t'}"
proof (induction t c arbitrary: t' c' rule: skip_cancelled.induct)
  case (1 t c)
  show ?case
  proof (cases "List.member c t")
    case True
    with 1(2) have "skip_cancelled (Suc t) (removeAll t c) = (t', c')" by (simp add: skip_cancelled.simps [of t c])
    note ih = 1(1) [OF True this]
    then have "{t..<t'} = insert t {Suc t..<t'}" by auto
    with ih True show ?thesis by auto
  next
    case False
    with 1(2) have "(t, c) = (t', c')" unfolding skip_cancelled.simps [of t c] by (simp only: if_False)
    with False show ?thesis by auto
  qed
qed

lemma advance_tickets:
  assumes turn: "wb_admissionTurn st < wb_nextAdmissionTicket st" and sub: "set (wb_cancelledTickets st) \<subseteq> {..<wb_nextAdmissionTicket st}"
    and wait: "map ww_ticket (wb_waiting st)
      = filter (\<lambda>t. t \<notin> set (wb_cancelledTickets st)) [Suc (wb_admissionTurn st)..<wb_nextAdmissionTicket st]"
  shows "tickets_ok (advanceAdmissionTurn st)"
proof -
  obtain t' c' where sk: "skip_cancelled (Suc (wb_admissionTurn st)) (wb_cancelledTickets st) = (t', c')" by force
  note spec = skip_cancelled_spec [OF sk]
  have le: "t' \<le> wb_nextAdmissionTicket st"
  proof (rule ccontr)
    assume "\<not> t' \<le> wb_nextAdmissionTicket st"
    then have "wb_nextAdmissionTicket st \<in> {Suc (wb_admissionTurn st)..<t'}" using turn by auto
    with spec sub show False by blast
  qed
  have "[Suc (wb_admissionTurn st)..<wb_nextAdmissionTicket st] = [Suc (wb_admissionTurn st)..<t'] @ [t'..<wb_nextAdmissionTicket st]"
    using spec le by (metis le_add_diff_inverse upt_add_eq_append)
  moreover have "filter (\<lambda>t. t \<notin> set (wb_cancelledTickets st)) [Suc (wb_admissionTurn st)..<t'] = []"
    using spec by (auto simp: filter_empty_conv)
  moreover have "filter (\<lambda>t. t \<notin> set (wb_cancelledTickets st)) [t'..<wb_nextAdmissionTicket st]
      = filter (\<lambda>t. t \<notin> set c') [t'..<wb_nextAdmissionTicket st]"
    using spec by (intro filter_cong) auto
  ultimately show ?thesis using wait spec le sub by (auto simp: tickets_ok_def advanceAdmissionTurn_def sk)
qed

lemma tickets_head:
  assumes "tickets_ok st" and "w \<in> set (wb_waiting st)" and "ww_ticket w = wb_admissionTurn st"
  shows "wb_admissionTurn st < wb_nextAdmissionTicket st"
    "\<exists>ws. wb_waiting st = w # ws \<and> wb_waiting (leave w st) = ws
      \<and> map ww_ticket ws = filter (\<lambda>t. t \<notin> set (wb_cancelledTickets st)) [Suc (wb_admissionTurn st)..<wb_nextAdmissionTicket st]"
proof -
  have "ww_ticket w \<in> set (map ww_ticket (wb_waiting st))" using assms(2) by simp
  with assms show lt: "wb_admissionTurn st < wb_nextAdmissionTicket st" by (auto simp: tickets_ok_def)
  then have up: "map ww_ticket (wb_waiting st) = wb_admissionTurn st #
      filter (\<lambda>t. t \<notin> set (wb_cancelledTickets st)) [Suc (wb_admissionTurn st)..<wb_nextAdmissionTicket st]"
    using assms(1) by (simp add: tickets_ok_def upt_conv_Cons)
  then obtain v ws where ws: "wb_waiting st = v # ws" "ww_ticket v = wb_admissionTurn st"
      "map ww_ticket ws = filter (\<lambda>t. t \<notin> set (wb_cancelledTickets st)) [Suc (wb_admissionTurn st)..<wb_nextAdmissionTicket st]"
    by (auto simp: map_eq_Cons_conv)
  have later: "ww_ticket u \<noteq> wb_admissionTurn st" if "u \<in> set ws" for u
  proof -
    have "ww_ticket u \<in> set (map ww_ticket ws)" using that by simp
    then show ?thesis unfolding ws(3) by simp
  qed
  with assms(2,3) ws have "v = w" by auto
  moreover have "filter (\<lambda>u. ww_ticket u \<noteq> wb_admissionTurn st) ws = ws" using later by (simp add: filter_id_conv)
  ultimately show "\<exists>ws. wb_waiting st = w # ws \<and> wb_waiting (leave w st) = ws
      \<and> map ww_ticket ws = filter (\<lambda>t. t \<notin> set (wb_cancelledTickets st)) [Suc (wb_admissionTurn st)..<wb_nextAdmissionTicket st]"
    using ws assms(3) by (auto simp: leave_def)
qed

lemma tickets_waiting: "tickets_ok st \<Longrightarrow> \<not> hasWaitingAdmission st \<Longrightarrow> wb_waiting st = []"
  by (auto simp: tickets_ok_def hasWaitingAdmission_def)

section \<open>Producers\<close>

definition flow_ok :: "ws_outbound_buffer \<Rightarrow> bool" where
  "flow_ok st \<longleftrightarrow> balanced st \<and> in_order st \<and> accounted st \<and> drops_logs st \<and> length (wb_inflight st) \<le> 1
    \<and> distinct (map ww_ticket (wb_waiting st))"

definition seen_ok :: "ws_outbound_buffer \<Rightarrow> bool" where
  "seen_ok st \<longleftrightarrow> (\<forall>w\<in>set (wb_waiting st). ww_seen w \<le> wb_capacity st \<and> 0 \<le> ww_bytes w)"

lemma buffer_ok_parts: "buffer_ok st \<longleftrightarrow> flow_ok st \<and> (\<not> wb_closed st \<longrightarrow> tickets_ok st \<and> awake st)"
  by (auto simp: buffer_ok_def flow_ok_def)

lemma awake_notified: "\<forall>w\<in>set (wb_waiting st). ww_seen w < wb_capacity st \<and> 0 \<le> ww_bytes w \<Longrightarrow> awake st"
  by (auto simp: awake_def)

lemma awake_seen: "awake st \<Longrightarrow> seen_ok st"
  by (simp add: awake_def seen_ok_def)

lemma awake_same:
  assumes "awake st" and "balanced st" "balanced st'" and "wb_waiting st' = wb_waiting st" "wb_capacity st' = wb_capacity st"
    "wb_admissionTurn st' = wb_admissionTurn st" and "\<And>b. core_fits st' b \<Longrightarrow> core_fits st b"
  shows "awake st'"
  using assms by (simp add: awake_def would_fit_core)

lemma leave_split:
  assumes "distinct (map f xs)" and "w \<in> set xs"
  shows "\<exists>ys zs. xs = ys @ w # zs \<and> filter (\<lambda>v. f v \<noteq> f w) xs = ys @ zs"
proof -
  obtain ys zs where xs: "xs = ys @ w # zs" using assms(2) by (meson split_list)
  with assms(1) have "\<forall>v\<in>set ys \<union> set zs. f v \<noteq> f w" by (auto simp: image_iff)
  then have "filter (\<lambda>v. f v \<noteq> f w) ys = ys" "filter (\<lambda>v. f v \<noteq> f w) zs = zs" by (simp_all add: filter_id_conv)
  with xs show ?thesis by auto
qed

text \<open>A producer gives up: its promise is rejected.\<close>

lemma leave_flow:
  assumes ok: "flow_ok st" and w: "w \<in> set (wb_waiting st)"
  shows "flow_ok (settle (ww_id w) (Rejected e) (leave w st))"
proof -
  obtain ys zs where split: "wb_waiting st = ys @ w # zs" "wb_waiting (leave w st) = ys @ zs"
    using leave_split [of ww_ticket, OF _ w] ok by (auto simp: flow_ok_def leave_def)
  then show ?thesis using ok
    by (auto simp: flow_ok_def balanced_def order_views leave_def sorted_wrt_append)
qed

lemma flow_same:
  assumes "flow_ok st" and "wb_items st' = wb_items st" "wb_inflight st' = wb_inflight st" "wb_bytes st' = wb_bytes st"
    "wb_settled st' = wb_settled st" "wb_dropped st' = wb_dropped st" "wb_nextId st' = wb_nextId st"
    "map ww_id (wb_waiting st') = map ww_id (wb_waiting st)" "map ww_ticket (wb_waiting st') = map ww_ticket (wb_waiting st)"
  shows "flow_ok st'"
  using assms by (simp add: flow_ok_def balanced_def order_views)

lemma flow_notify [simp]: "flow_ok (notifyCapacity st) = flow_ok st"
  by (simp add: flow_ok_def balanced_def order_views)

lemma flow_advance [simp]: "flow_ok (advanceAdmissionTurn st) = flow_ok st"
  by (simp add: flow_ok_def balanced_def order_views advanceAdmissionTurn_def case_prod_beta)

lemma tickets_notify [simp]: "tickets_ok (notifyCapacity st) = tickets_ok st" "tickets_ok (settle i r st) = tickets_ok st"
  by (simp_all add: tickets_ok_def notifyCapacity_def settle_def)

text \<open>A suspended producer runs.\<close>

lemma run_closed: "flow_ok st \<Longrightarrow> w \<in> set (wb_waiting st) \<Longrightarrow> wb_closed st \<Longrightarrow> buffer_ok (run_waiter st w)"
  using leave_flow [of st w] by (simp add: run_waiter_def buffer_ok_parts settle_def leave_def)

lemma run_cancelled:
  assumes flow: "flow_ok st" and w: "w \<in> set (wb_waiting st)" and t: "tickets_ok st" and seen: "seen_ok st"
    and opened: "\<not> wb_closed st" and aborted: "ww_aborted w"
  shows "buffer_ok (run_waiter st w)"
proof -
  define st1 where "st1 = (leave w st)\<lparr>wb_cancelledTickets := set_add (ww_ticket w) (wb_cancelledTickets st)\<rparr>"
  define st2 where "st2 = (if ww_ticket w = wb_admissionTurn st1 then advanceAdmissionTurn st1 else st1)"
  have run: "run_waiter st w = settle (ww_id w) (Rejected ''outbound frame cancelled'') (notifyCapacity st2)"
    using opened aborted by (simp add: run_waiter_def st2_def st1_def Let_def)
  have "flow_ok (settle (ww_id w) (Rejected ''outbound frame cancelled'') (leave w st))" by (rule leave_flow [OF flow w])
  then have "flow_ok (run_waiter st w)" unfolding run
    by (rule flow_same) (simp_all add: buffer_views st2_def st1_def leave_def advanceAdmissionTurn_def case_prod_beta)
  moreover have "tickets_ok st2"
  proof (cases "ww_ticket w = wb_admissionTurn st")
    case True
    obtain ws where ws: "wb_waiting (leave w st) = ws"
        "map ww_ticket ws = filter (\<lambda>t. t \<notin> set (wb_cancelledTickets st)) [Suc (wb_admissionTurn st)..<wb_nextAdmissionTicket st]"
      using tickets_head(2) [OF t w True] by blast
    have "tickets_ok (advanceAdmissionTurn st1)"
    proof (rule advance_tickets)
      show "map ww_ticket (wb_waiting st1)
          = filter (\<lambda>t. t \<notin> set (wb_cancelledTickets st1)) [Suc (wb_admissionTurn st1)..<wb_nextAdmissionTicket st1]"
        using ws True by (simp add: st1_def leave_def) (intro filter_cong, auto)
    qed (use t tickets_head(1) [OF t w True] True in \<open>simp_all add: st1_def leave_def tickets_ok_def\<close>)
    with True show ?thesis by (simp add: st2_def st1_def leave_def)
  next
    case False
    have "ww_ticket w \<in> set (map ww_ticket (wb_waiting st))" using w by simp
    then have "ww_ticket w < wb_nextAdmissionTicket st" using t unfolding tickets_ok_def by auto
    moreover have "map ww_ticket (wb_waiting st1) = filter (\<lambda>t. t \<noteq> ww_ticket w) (map ww_ticket (wb_waiting st))"
      by (simp add: st1_def leave_def filter_map o_def)
    ultimately show ?thesis using t False
      by (auto simp: st2_def st1_def leave_def tickets_ok_def intro!: filter_cong)
  qed
  moreover have "awake (run_waiter st w)" unfolding run
    using seen by (intro awake_notified)
      (auto simp: seen_ok_def buffer_views st2_def st1_def leave_def advanceAdmissionTurn_def case_prod_beta less_Suc_eq_le)
  ultimately show ?thesis using run by (simp add: buffer_ok_parts)
qed

lemma core_fits_evicted: "core_fits (evictLogsUntilFits st b) c = core_fits st c"
  by (rule evict_induct [of "\<lambda>s. core_fits s c = core_fits st c"]) (simp_all add: core_fits_evict)

definition awake_others :: "nat \<Rightarrow> ws_outbound_buffer \<Rightarrow> bool" where
  "awake_others t st \<longleftrightarrow> seen_ok st \<and> (\<forall>w\<in>set (wb_waiting st). ww_ticket w \<noteq> t \<and> ww_ticket w = wb_admissionTurn st
    \<and> would_fit st (ww_bytes w) \<longrightarrow> ww_seen w < wb_capacity st \<or> ww_aborted w)"

lemma wait_views:
  "wb_items (waitForCapacity w st) = wb_items st" "wb_inflight (waitForCapacity w st) = wb_inflight st"
  "wb_bytes (waitForCapacity w st) = wb_bytes st" "wb_closed (waitForCapacity w st) = wb_closed st"
  "wb_capacity (waitForCapacity w st) = wb_capacity st" "wb_admissionTurn (waitForCapacity w st) = wb_admissionTurn st"
  "map ww_ticket (wb_waiting (waitForCapacity w st)) = map ww_ticket (wb_waiting st)"
  "flow_ok st \<Longrightarrow> flow_ok (waitForCapacity w st)" "tickets_ok (waitForCapacity w st) = tickets_ok st"
  "core_fits (waitForCapacity w st) b = core_fits st b"
proof -
  have m: "map ww_ticket (wb_waiting (waitForCapacity w st)) = map ww_ticket (wb_waiting st)"
    "map ww_id (wb_waiting (waitForCapacity w st)) = map ww_id (wb_waiting st)" by (auto simp: waitForCapacity_def)
  show v: "wb_items (waitForCapacity w st) = wb_items st" "wb_inflight (waitForCapacity w st) = wb_inflight st"
    "wb_bytes (waitForCapacity w st) = wb_bytes st" "wb_closed (waitForCapacity w st) = wb_closed st"
    "wb_capacity (waitForCapacity w st) = wb_capacity st" "wb_admissionTurn (waitForCapacity w st) = wb_admissionTurn st"
    by (simp_all add: waitForCapacity_def)
  have u: "wb_nextAdmissionTicket (waitForCapacity w st) = wb_nextAdmissionTicket st" "wb_settled (waitForCapacity w st) = wb_settled st"
    "wb_cancelledTickets (waitForCapacity w st) = wb_cancelledTickets st" "wb_dropped (waitForCapacity w st) = wb_dropped st"
    "wb_nextId (waitForCapacity w st) = wb_nextId st"
    by (simp_all add: waitForCapacity_def)
  show "flow_ok st \<Longrightarrow> flow_ok (waitForCapacity w st)" by (rule flow_same) (simp_all only: m u v)
  show "tickets_ok (waitForCapacity w st) = tickets_ok st" by (simp only: tickets_ok_def m u v)
  show "core_fits (waitForCapacity w st) b = core_fits st b" by (simp only: core_fits_def retained_def v)
  show "map ww_ticket (wb_waiting (waitForCapacity w st)) = map ww_ticket (wb_waiting st)" by (rule m)
qed

lemma wait_ok:
  assumes flow: "flow_ok st" and t: "tickets_ok st" and others: "awake_others (ww_ticket w) st"
    and blocked: "ww_ticket w = wb_admissionTurn st \<longrightarrow> \<not> would_fit st (ww_bytes w)" and w: "w \<in> set (wb_waiting st)"
  shows "buffer_ok (waitForCapacity w st)"
proof -
  have bal: "balanced st" "balanced (waitForCapacity w st)" using flow wait_views(8) [OF flow] by (simp_all add: flow_ok_def)
  have fit: "would_fit (waitForCapacity w st) b = would_fit st b" for b by (simp add: would_fit_core bal wait_views)
  have same: "v = w" if "v \<in> set (wb_waiting st)" "ww_ticket v = ww_ticket w" for v
    using flow w that by (auto simp: flow_ok_def distinct_map inj_on_def)
  have "awake (waitForCapacity w st)" unfolding awake_def wait_views(5,6) fit
  proof
    fix v assume "v \<in> set (wb_waiting (waitForCapacity w st))"
    then consider "v \<in> set (wb_waiting st)" "ww_ticket v \<noteq> ww_ticket w" | "v = w\<lparr>ww_seen := wb_capacity st\<rparr>"
      using same by (auto simp: waitForCapacity_def split: if_splits)
    then show "ww_seen v \<le> wb_capacity st \<and> 0 \<le> ww_bytes v \<and> (ww_ticket v = wb_admissionTurn st \<and> would_fit st (ww_bytes v)
        \<longrightarrow> ww_seen v < wb_capacity st \<or> ww_aborted v)"
    proof cases
      case 1
      with others show ?thesis unfolding awake_others_def seen_ok_def by blast
    next
      case 2
      with others blocked w show ?thesis by (auto simp: awake_others_def seen_ok_def)
    qed
  qed
  with wait_views(8) [OF flow] t show ?thesis by (simp add: buffer_ok_parts wait_views(9))
qed

lemma admit_flow:
  assumes flow: "flow_ok st" and waiting: "wb_waiting st = w # ws" "wb_waiting st' = ws" and fits: "fits st (ww_bytes w)"
    and bytes: "0 \<le> ww_bytes w"
    and same: "wb_items st' = wb_items st" "wb_inflight st' = wb_inflight st" "wb_bytes st' = wb_bytes st"
      "wb_settled st' = wb_settled st" "wb_dropped st' = wb_dropped st" "wb_nextId st' = wb_nextId st"
  shows "flow_ok (enqueueAdmitted st' (ww_id w) m (ww_bytes w) nd False)"
  using flow fits bytes waiting unfolding flow_ok_def
  by (auto simp: enqueueAdmitted_def admit_def balanced_def order_views fits_def same)

lemma run_waiter_ok:
  assumes flow: "flow_ok st" and w: "w \<in> set (wb_waiting st)" and t: "\<not> wb_closed st \<Longrightarrow> tickets_ok st"
    and others: "\<not> wb_closed st \<Longrightarrow> awake_others (ww_ticket w) st"
  shows "buffer_ok (run_waiter st w)"
proof -
  consider "wb_closed st" | "\<not> wb_closed st" "ww_aborted w" | "\<not> wb_closed st" "\<not> ww_aborted w" "ww_ticket w \<noteq> wb_admissionTurn st"
    | "\<not> wb_closed st" "\<not> ww_aborted w" "ww_ticket w = wb_admissionTurn st" by blast
  then show ?thesis
  proof cases
    case 1
    then show ?thesis by (rule run_closed [OF flow w])
  next
    case 2
    then show ?thesis using run_cancelled [OF flow w] t others by (simp add: awake_others_def)
  next
    case 3
    then show ?thesis using wait_ok [OF flow t others _ w] by (simp add: run_waiter_def)
  next
    case 4
    define b where "b = ww_bytes w"
    define st1 where "st1 = evictLogsUntilFits st b"
    note t = t [OF 4(1)] and others = others [OF 4(1)]
    have bal: "balanced st" "balanced st1" using flow evict_balanced by (simp_all add: flow_ok_def st1_def)
    have flow1: "flow_ok st1" using flow evict_order [of st] bal by (simp add: flow_ok_def st1_def evict_frame)
    have t1: "tickets_ok st1" using t by (simp add: tickets_ok_def st1_def evict_frame)
    have w1: "w \<in> set (wb_waiting st1)" "ww_ticket w = wb_admissionTurn st1" using w 4(3) by (simp_all add: st1_def evict_frame)
    show ?thesis
    proof (cases "fits st1 b")
      case False
      have "\<not> would_fit st1 b" using False bal core_fits_evicted [of st b b] would_fit_core [of st b] would_fit_core [of st1 b]
        by (simp add: would_fit_def st1_def)
      moreover have "awake_others (ww_ticket w) st1" using others 4(3) by (simp add: awake_others_def seen_ok_def st1_def evict_frame)
      ultimately have "buffer_ok (waitForCapacity w st1)" using wait_ok [OF flow1 t1 _ _ w1(1)] by (simp add: b_def)
      then show ?thesis using 4 False by (simp add: run_waiter_def st1_def b_def Let_def)
    next
      case True
      obtain ws where ws: "wb_waiting st1 = w # ws" "wb_waiting (leave w st1) = ws"
          "map ww_ticket ws = filter (\<lambda>t. t \<notin> set (wb_cancelledTickets st1)) [Suc (wb_admissionTurn st1)..<wb_nextAdmissionTicket st1]"
        using tickets_head(2) [OF t1 w1] by blast
      define st2 where "st2 = advanceAdmissionTurn (leave w st1)"
      define st3 where "st3 = enqueueAdmitted st2 (ww_id w) (ww_message w) b True False"
      have same: "wb_items st2 = wb_items st1" "wb_inflight st2 = wb_inflight st1" "wb_bytes st2 = wb_bytes st1"
          "wb_settled st2 = wb_settled st1" "wb_dropped st2 = wb_dropped st1" "wb_nextId st2 = wb_nextId st1" "wb_waiting st2 = ws"
          "wb_capacity st2 = wb_capacity st1"
        using ws(2) by (simp_all add: st2_def advanceAdmissionTurn_def leave_def case_prod_beta)
      have seen: "seen_ok st1" using others by (simp add: awake_others_def seen_ok_def st1_def evict_frame)
      then have "0 \<le> ww_bytes w" using w1(1) by (simp add: seen_ok_def)
      then have "flow_ok st3" using admit_flow [OF flow1 ws(1), of st2] same True by (simp add: st3_def b_def)
      moreover have "tickets_ok st2" unfolding st2_def
        by (rule advance_tickets) (use ws t1 tickets_head(1) [OF t1 w1] in \<open>simp_all add: leave_def tickets_ok_def\<close>)
      then have "tickets_ok st3" by (simp add: st3_def enqueueAdmitted_def admit_def notifyCapacity_def tickets_ok_def)
      moreover have "awake (notifyCapacity st3)"
        using seen ws(1) same by (intro awake_notified) (auto simp: seen_ok_def st3_def enqueueAdmitted_def admit_def notifyCapacity_def)
      ultimately have "buffer_ok (notifyCapacity st3)" by (simp add: buffer_ok_parts)
      then show ?thesis using 4 True by (simp add: run_waiter_def st3_def st2_def st1_def b_def Let_def)
    qed
  qed
qed

section \<open>Enqueueing\<close>

lemma frame_bytes_nonneg [simp]: "0 \<le> frame_bytes m"
  by (simp add: frame_bytes_def)

lemma accounted_bound: "accounted st \<Longrightarrow> i \<in> set (frame_ids st) \<union> fst ` set (wb_settled st) \<Longrightarrow> i < wb_nextId st"
proof -
  assume "accounted st" and i: "i \<in> set (frame_ids st) \<union> fst ` set (wb_settled st)"
  then have "i \<in># mset [0..<wb_nextId st]" unfolding accounted_def by (metis Un_iff list.set_map set_mset_mset set_mset_union)
  then show ?thesis by simp
qed

text \<open>The next id goes to the end of the order: settled at once, queued, or waiting.\<close>

lemma in_order_snoc: "in_order st \<Longrightarrow> accounted st \<Longrightarrow> sorted_wrt (<) (resolved_ids st @ frame_ids st @ [wb_nextId st])"
  using accounted_bound [of st] by (force simp: in_order_def sorted_wrt_append resolved_ids_def)

lemma reject_new_flow:
  assumes "flow_ok st" and "\<forall>m\<in>set ms. frame_type m = ''session:log''"
  shows "flow_ok (settle (wb_nextId st) (Rejected e) (st\<lparr>wb_nextId := Suc (wb_nextId st), wb_dropped := wb_dropped st @ ms\<rparr>))"
  using assms by (auto simp: flow_ok_def balanced_def order_views)

lemma enqueueRetained_ok:
  assumes ok: "buffer_ok st" and opened: "\<not> wb_closed st" and b: "0 \<le> b"
  shows "buffer_ok (enqueueRetained (st\<lparr>wb_nextId := Suc (wb_nextId st)\<rparr>) (wb_nextId st) m b aborted)"
proof -
  define w where "w = \<lparr>ww_ticket = wb_nextAdmissionTicket st, ww_id = wb_nextId st, ww_message = m, ww_bytes = b,
    ww_aborted = aborted, ww_seen = wb_capacity st\<rparr>"
  define st1 where "st1 = st\<lparr>wb_nextId := Suc (wb_nextId st), wb_nextAdmissionTicket := Suc (wb_nextAdmissionTicket st),
    wb_waiting := wb_waiting st @ [w]\<rparr>"
  have flow: "flow_ok st" and t: "tickets_ok st" and a: "awake st" using ok opened by (simp_all add: buffer_ok_parts)
  have new: "wb_nextAdmissionTicket st \<notin> set (map ww_ticket (wb_waiting st))" using t unfolding tickets_ok_def by auto
  have t1: "tickets_ok st1" using t by (auto simp: tickets_ok_def st1_def w_def)
  have bal: "balanced st" "balanced st1" using flow by (simp_all add: flow_ok_def balanced_def st1_def buffer_views)
  have "in_order st1" using in_order_snoc [of st] flow by (simp add: flow_ok_def in_order_def resolved_ids_def frame_ids_def queue_def st1_def w_def)
  then have flow1: "flow_ok st1" using flow new bal by (simp add: flow_ok_def accounted_def drops_logs_def frame_ids_def queue_def st1_def w_def)
  have fit: "would_fit st1 c = would_fit st c" for c by (simp add: would_fit_core bal) (simp add: core_fits_def retained_def st1_def)
  have "awake_others (ww_ticket w) st1" using a b unfolding awake_others_def awake_def seen_ok_def fit by (auto simp: st1_def w_def)
  then have "buffer_ok (run_waiter st1 w)" by (intro run_waiter_ok [OF flow1 _ t1]) (simp_all add: st1_def)
  then show ?thesis by (simp add: enqueueRetained_def st1_def w_def Let_def)
qed

lemma admit_log_ok:
  assumes ok: "buffer_ok st" and opened: "\<not> wb_closed st" and none: "\<not> hasWaitingAdmission st" and fits: "fits st b" and b: "0 \<le> b"
  shows "buffer_ok (enqueueAdmitted (st\<lparr>wb_nextId := Suc (wb_nextId st)\<rparr>) (wb_nextId st) m b nd aborted)"
proof -
  have flow: "flow_ok st" and t: "tickets_ok st" and a: "awake st" using ok opened by (simp_all add: buffer_ok_parts)
  note empty = tickets_waiting [OF t none]
  show ?thesis
  proof (cases aborted)
    case True
    then show ?thesis using reject_new_flow [OF flow, of "[]"] t empty
      by (simp add: enqueueAdmitted_def buffer_ok_parts settle_def tickets_ok_def awake_def)
  next
    case False
    have "flow_ok (enqueueAdmitted (st\<lparr>wb_nextId := Suc (wb_nextId st)\<rparr>) (wb_nextId st) m b nd False)"
      using flow fits b empty in_order_snoc [of st] unfolding flow_ok_def
      by (auto simp: enqueueAdmitted_def admit_def balanced_def order_views fits_def)
    with False t empty show ?thesis
      by (simp add: buffer_ok_parts enqueueAdmitted_def admit_def notifyCapacity_def tickets_ok_def awake_def)
  qed
qed

lemma replace_keepalive_split:
  assumes "List.find (\<lambda>x. frame_type (wi_message x) = ''host:keepalive'') xs = Some x"
  shows "\<exists>ys zs. xs = ys @ x # zs \<and> replace_keepalive m b xs = ys @ x\<lparr>wi_message := m, wi_bytes := b\<rparr> # zs
    \<and> frame_type (wi_message x) = ''host:keepalive''"
  using assms
proof (induction xs)
  case (Cons y xs)
  show ?case
  proof (cases "frame_type (wi_message y) = ''host:keepalive''")
    case True
    with Cons(2) show ?thesis by (intro exI [of _ "[]"] exI [of _ xs]) simp
  next
    case False
    with Cons obtain ys zs where "xs = ys @ x # zs" "replace_keepalive m b xs = ys @ x\<lparr>wi_message := m, wi_bytes := b\<rparr> # zs"
      "frame_type (wi_message x) = ''host:keepalive''" by auto
    with False show ?thesis by (intro exI [of _ "y # ys"] exI [of _ zs]) simp
  qed
qed simp

lemma notified_ok:
  assumes ok: "buffer_ok st" and flow: "flow_ok st'" and "wb_closed st' = wb_closed st"
    and "wb_waiting st' = wb_waiting st" "wb_capacity st' = Suc (wb_capacity st)" "wb_admissionTurn st' = wb_admissionTurn st"
    "wb_nextAdmissionTicket st' = wb_nextAdmissionTicket st" "wb_cancelledTickets st' = wb_cancelledTickets st"
  shows "buffer_ok st'"
proof -
  have "\<not> wb_closed st \<Longrightarrow> awake st'"
    using ok awake_seen [of st] assms(4,5) by (intro awake_notified) (auto simp: buffer_ok_parts seen_ok_def less_Suc_eq_le)
  then show ?thesis using assms by (simp add: buffer_ok_parts tickets_ok_def)
qed

lemma coalesce_ok:
  assumes ok: "buffer_ok st" and c: "coalesceQueuedKeepalive st m b = Some (i, st')" and b: "0 \<le> b"
  shows "buffer_ok st'"
proof -
  obtain x where x: "frame_type m = ''host:keepalive''" "List.find (\<lambda>x. frame_type (wi_message x) = ''host:keepalive'') (wb_items st) = Some x"
      "wb_bytes st - wi_bytes x + b \<le> MAX_BYTES"
      "st' = notifyCapacity (st\<lparr>wb_bytes := wb_bytes st - wi_bytes x + b, wb_items := replace_keepalive m b (wb_items st)\<rparr>)"
    using c by (auto simp: coalesceQueuedKeepalive_def split: if_splits option.splits)
  obtain ys zs where s: "wb_items st = ys @ x # zs" "replace_keepalive m b (wb_items st) = ys @ x\<lparr>wi_message := m, wi_bytes := b\<rparr> # zs"
    using replace_keepalive_split [OF x(2)] by blast
  have "flow_ok st" using ok by (simp add: buffer_ok_parts)
  moreover have "st' = notifyCapacity (st\<lparr>wb_bytes := wb_bytes st - wi_bytes x + b, wb_items := ys @ x\<lparr>wi_message := m, wi_bytes := b\<rparr> # zs\<rparr>)"
    by (simp only: x(4) s(2))
  ultimately have "flow_ok st'" using x(1,3) b s(1) by (auto simp: flow_ok_def balanced_def order_views)
  with ok show ?thesis by (rule notified_ok) (simp_all add: x(4) notifyCapacity_def)
qed

lemma quiet_ok:
  assumes ok: "buffer_ok st" and flow: "flow_ok st'" and "wb_closed st' = wb_closed st" "wb_waiting st' = wb_waiting st"
    "wb_capacity st' = wb_capacity st" "wb_admissionTurn st' = wb_admissionTurn st"
    "wb_nextAdmissionTicket st' = wb_nextAdmissionTicket st" "wb_cancelledTickets st' = wb_cancelledTickets st"
    and core: "\<And>b. core_fits st' b \<Longrightarrow> core_fits st b"
  shows "buffer_ok st'"
proof -
  have "balanced st" "balanced st'" using ok flow by (simp_all add: buffer_ok_parts flow_ok_def)
  then have "\<not> wb_closed st \<Longrightarrow> awake st'" using awake_same [of st st'] assms by (simp add: buffer_ok_parts)
  then show ?thesis using assms by (simp add: buffer_ok_parts tickets_ok_def)
qed

lemma reject_new_ok:
  assumes "buffer_ok st" and "\<forall>m\<in>set ms. frame_type m = ''session:log''"
  shows "buffer_ok (settle (wb_nextId st) (Rejected e) (st\<lparr>wb_nextId := Suc (wb_nextId st), wb_dropped := wb_dropped st @ ms\<rparr>))"
  using assms(1) reject_new_flow [OF _ assms(2), of st e]
  by (rule quiet_ok) (use assms in \<open>simp_all add: buffer_ok_parts settle_def core_fits_def retained_def\<close>)

lemma enqueue_ok:
  assumes ok: "buffer_ok st"
  shows "buffer_ok (snd (enqueue st m retain aborted))"
proof (cases "wb_closed st \<or> frame_bytes m > MAX_BYTES")
  case True
  have "buffer_ok (settle (wb_nextId st) (Rejected e) (st\<lparr>wb_nextId := Suc (wb_nextId st)\<rparr>))" for e
    using reject_new_ok [OF ok, of "[]"] by simp
  then show ?thesis using True reject_new_ok [OF ok, of "[m]"] by (auto simp: enqueue_def Let_def drop_frame_def)
next
  case False
  show ?thesis
  proof (cases "coalesceQueuedKeepalive st m (frame_bytes m)")
    case (Some r)
    then show ?thesis using False coalesce_ok [OF ok, of m "frame_bytes m" "fst r" "snd r"] by (simp add: enqueue_def Let_def)
  next
    case None
    show ?thesis
      using False None reject_new_ok [OF ok, of "[m]"] enqueueRetained_ok [OF ok, of "frame_bytes m" m aborted]
        admit_log_ok [OF ok, of "frame_bytes m" m False aborted]
      by (auto simp: enqueue_def Let_def drop_frame_def)
  qed
qed

section \<open>The writer\<close>

lemma take_ok:
  assumes ok: "buffer_ok st" and "wb_inflight st = []"
  shows "buffer_ok (snd (take_frame st))"
proof (cases "wb_items st")
  case (Cons x xs)
  have flow: "flow_ok st" using ok by (simp add: buffer_ok_parts)
  show ?thesis
  proof (rule quiet_ok [OF ok])
    show "flow_ok (snd (take_frame st))"
      using flow assms(2) Cons by (simp add: flow_ok_def balanced_def order_views take_frame_def)
    fix b assume "core_fits (snd (take_frame st)) b"
    moreover have "0 \<le> wi_bytes x" using flow Cons by (simp add: flow_ok_def balanced_def queue_def)
    ultimately show "core_fits st b" using assms(2) Cons by (auto simp: core_fits_def retained_def take_frame_def split: if_splits)
  qed (simp_all add: take_frame_def Cons)
qed (use ok in \<open>simp add: take_frame_def\<close>)

lemma complete_ok:
  assumes ok: "buffer_ok st" and x: "wb_inflight st = [x]" and m: "\<forall>m\<in>set ms. frame_type m = ''session:log''"
  shows "buffer_ok (settle (wi_id x) r ((complete st x)\<lparr>wb_dropped := wb_dropped st @ ms\<rparr>))"
proof (rule notified_ok [OF ok])
  have "flow_ok st" using ok by (simp add: buffer_ok_parts)
  then show "flow_ok (settle (wi_id x) r ((complete st x)\<lparr>wb_dropped := wb_dropped st @ ms\<rparr>))"
    using m by (cases r) (auto simp: flow_ok_def balanced_def order_views complete_def x sorted_wrt_append)
qed (simp_all add: complete_def x settle_def notifyCapacity_def)

lemma settleInflight_ok:
  assumes ok: "buffer_ok st" and x: "wb_inflight st = [x]"
  shows "buffer_ok (settleInflight st x error closed)"
proof -
  have finished: "buffer_ok (settle (wi_id x) r (complete st x))" for r
    using complete_ok [OF assms, of "[]" r] by (simp add: complete_def x notifyCapacity_def)
  have dropped: "buffer_ok (settle (wi_id x) r (drop_frame (wi_message x) (complete st x)))" if "droppable x" for r
    using complete_ok [OF assms, of "[wi_message x]" r] that by (simp add: complete_def x notifyCapacity_def drop_frame_def droppable_def)
  have returned: "buffer_ok (putBack st x)" if kept: "\<not> droppable x"
  proof (rule quiet_ok [OF ok])
    show "flow_ok (putBack st x)" using ok x by (simp add: buffer_ok_parts flow_ok_def balanced_def order_views putBack_def)
    show "core_fits (putBack st x) b \<Longrightarrow> core_fits st b" for b using kept x by (simp add: core_fits_def retained_def putBack_def)
  qed (simp_all add: putBack_def)
  show ?thesis using finished dropped returned by (simp add: settleInflight_def split: option.split)
qed

lemma abort_item_ok:
  assumes ok: "buffer_ok st" and type: "frame_type (wi_message x) \<noteq> ''host:keepalive''"
  shows "buffer_ok (abort_item st x)"
proof (cases "x \<in> set (wb_items st)")
  case True
  then obtain ys zs where s: "wb_items st = ys @ x # zs" "remove1 x (wb_items st) = ys @ zs"
    by (metis remove1_append remove1.simps(2) split_list_first)
  have flow: "flow_ok st" using ok by (simp add: buffer_ok_parts)
  then have "wi_admitted x = wi_bytes x" using True type by (simp add: flow_ok_def balanced_def queue_def)
  with flow have "flow_ok (abort_item st x)"
    using True s by (auto simp: flow_ok_def balanced_def order_views abort_item_def sorted_wrt_append)
  with ok show ?thesis by (rule notified_ok) (use True in \<open>simp_all add: abort_item_def settle_def notifyCapacity_def\<close>)
qed (use ok in \<open>simp add: abort_item_def\<close>)

lemma rejectAll_ok:
  assumes ok: "buffer_ok st"
  shows "buffer_ok (rejectAll st e)"
proof -
  have "filter (\<lambda>p. snd p = Resolved) (map (\<lambda>x. (wi_id x, Rejected e)) xs) = []" for xs :: "ws_buffer_item list"
    by (simp add: filter_empty_conv)
  then show ?thesis using ok
    by (auto simp: buffer_ok_parts flow_ok_def balanced_def order_views rejectAll_def sorted_wrt_append MAX_BYTES_def MAX_ITEMS_def
        o_def add_ac)
qed

section \<open>Every reachable buffer\<close>

lemma abort_waiting_ok:
  assumes ok: "buffer_ok st"
  shows "buffer_ok (st\<lparr>wb_waiting := map (\<lambda>v. if ww_ticket v = t then v\<lparr>ww_aborted := True\<rparr> else v) (wb_waiting st)\<rparr>)"
    (is "buffer_ok ?st'")
proof -
  have m: "map ww_ticket (wb_waiting ?st') = map ww_ticket (wb_waiting st)" "map ww_id (wb_waiting ?st') = map ww_id (wb_waiting st)"
    by auto
  have v: "wb_items ?st' = wb_items st" "wb_inflight ?st' = wb_inflight st" "wb_bytes ?st' = wb_bytes st"
    "wb_settled ?st' = wb_settled st" "wb_dropped ?st' = wb_dropped st" "wb_nextId ?st' = wb_nextId st"
    "wb_nextAdmissionTicket ?st' = wb_nextAdmissionTicket st" "wb_cancelledTickets ?st' = wb_cancelledTickets st"
    "wb_admissionTurn ?st' = wb_admissionTurn st" "wb_closed ?st' = wb_closed st" by simp_all
  have flow: "flow_ok ?st'" "flow_ok st" using ok flow_same [of st ?st'] by (simp_all only: buffer_ok_parts m v)
  then have "would_fit ?st' b = would_fit st b" for b by (simp add: would_fit_core flow_ok_def) (simp add: core_fits_def retained_def)
  moreover have "tickets_ok ?st' = tickets_ok st" by (simp only: tickets_ok_def m v)
  ultimately show ?thesis using ok flow by (auto simp: buffer_ok_parts awake_def)
qed

lemma abort_inflight_ok:
  assumes ok: "buffer_ok st"
  shows "buffer_ok (st\<lparr>wb_inflight := map (\<lambda>x. x\<lparr>wi_aborted := True\<rparr>) (wb_inflight st)\<rparr>)"
  by (rule quiet_ok [OF ok]) (use ok in \<open>simp_all add: buffer_ok_parts flow_ok_def balanced_def order_views o_def ball_Un
    core_fits_def retained_def\<close>)

lemma step_ok:
  assumes "buffer_step st st'" and ok: "buffer_ok st"
  shows "buffer_ok st'"
  using assms(1)
proof cases
  case (step_run w)
  have "buffer_ok (run_waiter st w)"
    using ok step_run(2) by (intro run_waiter_ok) (auto simp: buffer_ok_parts awake_others_def awake_def seen_ok_def)
  with step_run(1) show ?thesis by simp
qed (simp_all add: ok enqueue_ok take_ok settleInflight_ok abort_item_ok rejectAll_ok abort_waiting_ok abort_inflight_ok)

lemma new_buffer_ok: "buffer_ok new_buffer"
  by (simp add: buffer_ok_parts flow_ok_def balanced_def order_views new_buffer_def tickets_ok_def awake_def MAX_BYTES_def MAX_ITEMS_def)

lemma reachable_ok: "buffer_reachable st \<Longrightarrow> buffer_ok st"
  by (induction rule: buffer_reachable.induct) (auto intro: new_buffer_ok step_ok)

section \<open>A full buffer\<close>

text \<open>A thousand acknowledgements fill the buffer; the next one waits; the first is written.\<close>

definition ack_frame :: json where
  "ack_frame = JObj [(''type'', JStr ''session:ack''), (''sessionId'', JStr ''s1'')]"

definition ack_item :: "nat \<Rightarrow> ws_buffer_item" where
  "ack_item i = \<lparr>wi_id = i, wi_message = ack_frame, wi_bytes = frame_bytes ack_frame, wi_admitted = frame_bytes ack_frame,
    wi_nonDroppable = True, wi_aborted = False\<rparr>"

definition filled :: "nat \<Rightarrow> ws_outbound_buffer" where
  "filled n = new_buffer\<lparr>wb_items := map ack_item [0..<n], wb_nextAdmissionTicket := n, wb_admissionTurn := n,
    wb_capacity := 2 * n, wb_bytes := int n * frame_bytes ack_frame, wb_nextId := n\<rparr>"

definition full_buffer :: ws_outbound_buffer where
  "full_buffer = snd (enqueue (filled 1000) ack_frame False False)"

definition written_buffer :: ws_outbound_buffer where
  "written_buffer = settleInflight (snd (take_frame full_buffer)) (ack_item 0) None False"

lemma ack_frame_facts: "frame_type ack_frame = ''session:ack''" "frame_bytes ack_frame = 39"
  by code_simp+

lemma filled_step: "n < 1000 \<Longrightarrow> snd (enqueue (filled n) ack_frame False False) = filled (Suc n)"
  by (simp add: enqueue_def Let_def filled_def new_buffer_def ack_frame_facts MAX_BYTES_def coalesceQueuedKeepalive_def enqueueRetained_def
      run_waiter_def evictLogsUntilFits.simps fits_def buffer_length_def MAX_ITEMS_def enqueueAdmitted_def admit_def notifyCapacity_def
      advanceAdmissionTurn_def skip_cancelled.simps leave_def ack_item_def)

lemma filled_reachable: "n \<le> 1000 \<Longrightarrow> buffer_reachable (filled n)"
proof (induction n)
  case 0
  have "filled 0 = new_buffer" by (simp add: filled_def new_buffer_def)
  with buffer_start show ?case by simp
next
  case (Suc n)
  then have "buffer_reachable (filled n)" by simp
  from buffer_next [OF this step_enqueue, of ack_frame False False] Suc(2) filled_step show ?case by simp
qed

lemma full_buffer_waiting:
  "full_buffer = (filled 1000)\<lparr>wb_nextId := 1001, wb_nextAdmissionTicket := 1001, wb_waiting := [\<lparr>ww_ticket = 1000, ww_id = 1000,
    ww_message = ack_frame, ww_bytes = 39, ww_aborted = False, ww_seen = 2000\<rparr>]\<rparr>"
proof -
  have "List.extract droppable (map ack_item [0..<1000]) = None"
    by (simp add: extract_None_iff droppable_def ack_item_def ack_frame_facts)
  then show ?thesis
    by (simp add: full_buffer_def enqueue_def Let_def filled_def new_buffer_def ack_frame_facts MAX_BYTES_def coalesceQueuedKeepalive_def
        enqueueRetained_def run_waiter_def evictLogsUntilFits.simps fits_def buffer_length_def MAX_ITEMS_def waitForCapacity_def
        del: upt_rec_numeral)
qed

lemma full_buffer_items: "wb_items full_buffer = ack_item 0 # map ack_item [1..<1000]" "wb_inflight full_buffer = []"
proof -
  have "[0..<1000] = 0 # [1..<1000::nat]" by (subst upt_conv_Cons) simp_all
  then show "wb_items full_buffer = ack_item 0 # map ack_item [1..<1000]" by (simp add: full_buffer_waiting filled_def del: upt_rec_numeral)
  show "wb_inflight full_buffer = []" by (simp add: full_buffer_waiting filled_def new_buffer_def)
qed

lemma written_buffer_reachable: "buffer_reachable written_buffer"
proof -
  have "buffer_reachable full_buffer" unfolding full_buffer_def by (rule buffer_next [OF filled_reachable step_enqueue]) simp
  then have "buffer_reachable (snd (take_frame full_buffer))" by (rule buffer_next) (simp add: step_take full_buffer_items)
  then show ?thesis unfolding written_buffer_def by (rule buffer_next) (simp add: step_settle take_frame_def full_buffer_items)
qed

lemma written_buffer_views:
  "wb_waiting written_buffer = [\<lparr>ww_ticket = 1000, ww_id = 1000, ww_message = ack_frame, ww_bytes = 39, ww_aborted = False, ww_seen = 2000\<rparr>]"
  "\<not> wb_closed written_buffer" "wb_items written_buffer = map ack_item [1..<1000]" "wb_inflight written_buffer = []"
  "wb_bytes written_buffer = 999 * 39" "wb_settled written_buffer = [(0, Resolved)]" "wb_nextId written_buffer = 1001"
  by (simp_all add: written_buffer_def settleInflight_def settle_def complete_def notifyCapacity_def take_frame_def full_buffer_items
      ack_frame_facts) (simp_all add: full_buffer_waiting filled_def new_buffer_def ack_item_def ack_frame_facts)

section \<open>Properties\<close>

text \<open>C10: the outbound buffer is a FIFO that loses nothing silently. Frames are written in the order of their
  \<open>enqueue\<close> calls, and before every frame still queued, in flight or waiting; the promise of every call is settled at
  most once, and as long as it is not, its frame is in the buffer; only logs are ever dropped.\<close>

theorem frames_leave_in_order_and_none_is_lost:
  assumes "buffer_reachable st"
  shows "sorted_wrt (<) (resolved_ids st @ map wi_id (wb_inflight st) @ map wi_id (wb_items st) @ map ww_id (wb_waiting st))
    \<and> (\<forall>i < wb_nextId st. count_list (map fst (wb_settled st) @ map wi_id (wb_inflight st) @ map wi_id (wb_items st)
        @ map ww_id (wb_waiting st)) i = 1)
    \<and> (\<forall>m\<in>set (wb_dropped st). frame_type m = ''session:log'')"
proof -
  have ok: "buffer_ok st" by (rule reachable_ok [OF assms])
  have "count_list (map fst (wb_settled st) @ map wi_id (wb_inflight st) @ map wi_id (wb_items st) @ map ww_id (wb_waiting st)) i
      = count (mset [0..<wb_nextId st]) i" for i
    using ok by (simp add: buffer_ok_def accounted_def frame_ids_def queue_def count_mset [symmetric] flip: mset_append mset_map)
  moreover have "count (mset [0..<n]) i = 1" if "i < n" for i n :: nat using that by (simp add: count_mset_set)
  ultimately show ?thesis using ok by (simp add: buffer_ok_def in_order_def frame_ids_def queue_def drops_logs_def)
qed

theorem frames_leave_in_order_and_none_is_lost_witness:
  "sorted_wrt (<) (resolved_ids written_buffer @ map wi_id (wb_inflight written_buffer) @ map wi_id (wb_items written_buffer)
      @ map ww_id (wb_waiting written_buffer))
    \<and> resolved_ids written_buffer = [0] \<and> map ww_id (wb_waiting written_buffer) = [1000]"
  using frames_leave_in_order_and_none_is_lost [OF written_buffer_reachable] written_buffer_views(1,6) by (simp add: resolved_ids_def)



text \<open>C11: no producer is left asleep. While the buffer is open, the producer that has waited longest has the turn; if
  its frame fits once droppable logs are evicted, the producer has been woken, and when it runs its frame enters the
  queue.\<close>

theorem waiting_producer_is_woken:
  assumes "buffer_reachable st" and "\<not> wb_closed st" and "wb_waiting st = w # ws"
  shows "ww_ticket w = wb_admissionTurn st
    \<and> (would_fit st (ww_bytes w) \<and> \<not> ww_aborted w \<longrightarrow>
        ww_seen w < wb_capacity st \<and> ww_id w \<in> set (map wi_id (wb_items (run_waiter st w))))"
proof -
  have ok: "tickets_ok st" "awake st" using reachable_ok [OF assms(1)] assms(2) by (simp_all add: buffer_ok_parts)
  have "wb_admissionTurn st < wb_nextAdmissionTicket st" using ok(1) assms(3) by (cases "wb_admissionTurn st < wb_nextAdmissionTicket st") (auto simp: tickets_ok_def)
  then have turn: "ww_ticket w = wb_admissionTurn st" using ok(1) assms(3) by (auto simp: tickets_ok_def upt_conv_Cons)
  have "ww_id w \<in> set (map wi_id (wb_items (run_waiter st w)))" if "would_fit st (ww_bytes w)" "\<not> ww_aborted w"
    using that assms(2) turn by (simp add: run_waiter_def would_fit_def Let_def enqueueAdmitted_def admit_def notifyCapacity_def)
  with turn ok(2) assms(3) show ?thesis by (auto simp: awake_def)
qed

theorem waiting_producer_is_woken_witness:
  "\<exists>w. wb_waiting written_buffer = [w] \<and> ww_seen w < wb_capacity written_buffer
    \<and> ww_id w \<in> set (map wi_id (wb_items (run_waiter written_buffer w)))"
proof -
  have "would_fit written_buffer 39"
    by (simp add: would_fit_def evictLogsUntilFits.simps fits_def buffer_length_def written_buffer_views MAX_ITEMS_def MAX_BYTES_def)
  with waiting_producer_is_woken [OF written_buffer_reachable written_buffer_views(2,1)] written_buffer_views(1) show ?thesis by simp
qed

end
