(* ===== verification/LogStreamer.thy ===== *)
theory LogStreamer
  imports Records "HOL-Library.Sublist"
begin

text \<open>
  The log source of a running session on a host: \<open>host-daemon/src/log-coalesce.ts\<close> (splitting output into pieces,
  batches, the rate window) and \<open>host-daemon/src/log-streamer.ts\<close> (the class \<open>LogStreamer\<close>: a pending batch, an overflow
  batch, drop notices, one timer).

  \<open>ls_emitted\<close> lists the chunks handed to \<open>emit\<close>, \<open>ls_timer\<close> is the delay of the armed timer. The clock is read once
  per operation: \<open>clk_ms\<close> is \<open>nowMs\<close>, \<open>clk_iso\<close> is \<open>now\<close>. An infinite message rate is \<open>None\<close>. Sizes are integers.
  With a rate below one nothing is ever allowed and the next time is not a number; the timer is then armed at once.
\<close>

section \<open>Pieces\<close>

definition NEWLINE :: char where "NEWLINE = CHR 0x0A"

definition byte_length :: "string \<Rightarrow> int" where
  "byte_length s = int (utf8_length s)"

definition countLogLines :: "string \<Rightarrow> int" where
  "countLogLines content =
    (if content = [] then 0
     else let lines = int (length (filter (\<lambda>c. c = NEWLINE) content))
          in if last content = NEWLINE then lines else lines + 1)"

definition formatDroppedLogNotice :: "int \<Rightarrow> string" where
  "formatDroppedLogNotice dropped = show_int dropped @ '' log chunk(s) dropped''"

fun take_bytes :: "int \<Rightarrow> string \<Rightarrow> string" where
  "take_bytes room [] = []"
| "take_bytes room (c # cs) = (if byte_length [c] > room then [] else c # take_bytes (room - byte_length [c]) cs)"

definition truncateUtf8 :: "string \<Rightarrow> int \<Rightarrow> string" where
  "truncateUtf8 content maxBytes = (if byte_length content \<le> maxBytes then content else take_bytes maxBytes content)"

fun split_bytes :: "int \<Rightarrow> string \<Rightarrow> int \<Rightarrow> string \<Rightarrow> string list" where
  "split_bytes maxBytes current used [] = (if current = [] then [] else [current])"
| "split_bytes maxBytes current used (c # cs) =
    (if used > 0 \<and> used + byte_length [c] > maxBytes then current # split_bytes maxBytes [c] (byte_length [c]) cs
     else split_bytes maxBytes (current @ [c]) (used + byte_length [c]) cs)"

definition splitUtf8 :: "string \<Rightarrow> int \<Rightarrow> string list" where
  "splitUtf8 content maxBytesPerPiece = split_bytes maxBytesPerPiece [] 0 content"

fun split_lines :: "int \<Rightarrow> string \<Rightarrow> int \<Rightarrow> string \<Rightarrow> string list" where
  "split_lines maxLines current lines [] = (if current = [] then [] else [current])"
| "split_lines maxLines current lines (c # cs) =
    (if c = NEWLINE
     then (if lines + 1 \<ge> maxLines then (current @ [c]) # split_lines maxLines [] 0 cs
           else split_lines maxLines (current @ [c]) (lines + 1) cs)
     else split_lines maxLines (current @ [c]) lines cs)"

definition splitLogLines :: "string \<Rightarrow> int \<Rightarrow> string list" where
  "splitLogLines content maxLines =
    (if content = [] then [] else if countLogLines content \<le> maxLines then [content] else split_lines maxLines [] 0 content)"

section \<open>Batches\<close>

record coalesce_batch =
  cb_stream :: log_stream
  cb_content :: string
  cb_timestamp :: string
  cb_bytes :: int

definition startBatch :: "log_stream \<Rightarrow> string \<Rightarrow> string \<Rightarrow> coalesce_batch" where
  "startBatch stream content timestamp =
    \<lparr>cb_stream = stream, cb_content = content, cb_timestamp = timestamp, cb_bytes = byte_length content\<rparr>"

definition appendToBatch :: "coalesce_batch \<Rightarrow> string \<Rightarrow> coalesce_batch" where
  "appendToBatch batch piece =
    batch\<lparr>cb_content := cb_content batch @ piece, cb_bytes := cb_bytes batch + byte_length piece\<rparr>"

definition canAppendToBatch :: "coalesce_batch \<Rightarrow> log_stream \<Rightarrow> string \<Rightarrow> int \<Rightarrow> int \<Rightarrow> int \<Rightarrow> bool" where
  "canAppendToBatch batch stream piece pieceBytes maxBytes maxLines =
    (if cb_stream batch \<noteq> stream then False
     else if cb_bytes batch + pieceBytes > maxBytes then False
     else countLogLines (cb_content batch @ piece) \<le> maxLines)"

definition batchAtBound :: "coalesce_batch \<Rightarrow> int \<Rightarrow> int \<Rightarrow> bool" where
  "batchAtBound batch maxBytes maxLines = (\<not> canAppendToBatch batch (cb_stream batch) [NEWLINE] 1 maxBytes maxLines)"

section \<open>The streamer\<close>

definition DEFAULT_LOG_MESSAGES_PER_SEC :: int where "DEFAULT_LOG_MESSAGES_PER_SEC = 10"
definition DEFAULT_LOG_BATCH_MAX_WAIT_MS :: int where "DEFAULT_LOG_BATCH_MAX_WAIT_MS = 100"
definition DEFAULT_LOG_BATCH_MAX_LINES :: int where "DEFAULT_LOG_BATCH_MAX_LINES = 100"
definition RATE_WINDOW_MS :: int where "RATE_WINDOW_MS = 1000"
definition DEFAULT_MAX_WIRE_BYTES :: int where "DEFAULT_MAX_WIRE_BYTES = (32 * 1024 - 512) div 6"
definition DEFAULT_MAX_LOG_CHUNKS :: int where "DEFAULT_MAX_LOG_CHUNKS = 10000"
definition DEFAULT_MAX_LOG_BYTES :: int where "DEFAULT_MAX_LOG_BYTES = 10 * 1024 * 1024"
definition MAX_SESSION_LOG_DROPPED :: int where "MAX_SESSION_LOG_DROPPED = 1000000"

record log_limits =
  ll_maxChunks :: "int option"
  ll_maxBytes :: "int option"
  ll_maxWireBytes :: "int option"
  ll_logBatchMaxLines :: "int option"
  ll_logBatchMaxWaitMs :: "int option"
  ll_maxMessagesPerSec :: "int option option"
  ll_maxDroppedPerNotice :: "int option"

record streamer_config =
  sc_sessionId :: string
  sc_attemptId :: string
  sc_maxChunks :: int
  sc_maxBytes :: int
  sc_maxWireBytes :: int
  sc_logBatchMaxLines :: int
  sc_logBatchMaxWaitMs :: int
  sc_droppedLimit :: "int option"
  sc_maxMessagesPerSec :: "int option"

definition new_streamer_config :: "string \<Rightarrow> string \<Rightarrow> log_limits \<Rightarrow> streamer_config" where
  "new_streamer_config sessionId attemptId limits =
    \<lparr>sc_sessionId = sessionId, sc_attemptId = attemptId, sc_maxChunks = opt_or (ll_maxChunks limits) DEFAULT_MAX_LOG_CHUNKS,
     sc_maxBytes = opt_or (ll_maxBytes limits) DEFAULT_MAX_LOG_BYTES,
     sc_maxWireBytes = opt_or (ll_maxWireBytes limits) DEFAULT_MAX_WIRE_BYTES,
     sc_logBatchMaxLines = opt_or (ll_logBatchMaxLines limits) DEFAULT_LOG_BATCH_MAX_LINES,
     sc_logBatchMaxWaitMs = opt_or (ll_logBatchMaxWaitMs limits) DEFAULT_LOG_BATCH_MAX_WAIT_MS,
     sc_droppedLimit = ll_maxDroppedPerNotice limits,
     sc_maxMessagesPerSec = opt_or (ll_maxMessagesPerSec limits) (Some DEFAULT_LOG_MESSAGES_PER_SEC)\<rparr>"

definition maxDroppedPerNotice :: "streamer_config \<Rightarrow> int" where
  "maxDroppedPerNotice cfg = max 1 (opt_or (sc_droppedLimit cfg) MAX_SESSION_LOG_DROPPED)"

record session_log_chunk =
  lg_sessionId :: string
  lg_attemptId :: string
  lg_stream :: log_stream
  lg_content :: string
  lg_timestamp :: string
  lg_seq :: int
  lg_dropped :: "int option"

record clock =
  clk_ms :: int
  clk_iso :: string

record log_streamer =
  ls_seq :: int
  ls_emittedChunks :: int
  ls_emittedBytes :: int
  ls_pending :: "coalesce_batch option"
  ls_pendingSinceMs :: int
  ls_overflow :: "coalesce_batch option"
  ls_overflowSinceMs :: int
  ls_timer :: "int option"
  ls_droppedChunks :: int
  ls_unsentDropped :: int
  ls_times :: "int list"
  ls_emitted :: "session_log_chunk list"

definition new_streamer :: "int \<Rightarrow> log_streamer" where
  "new_streamer initialSeq =
    \<lparr>ls_seq = initialSeq, ls_emittedChunks = 0, ls_emittedBytes = 0, ls_pending = None, ls_pendingSinceMs = 0, ls_overflow = None,
     ls_overflowSinceMs = 0, ls_timer = None, ls_droppedChunks = 0, ls_unsentDropped = 0, ls_times = [], ls_emitted = []\<rparr>"

subsection \<open>The rate window\<close>

definition prune :: "clock \<Rightarrow> log_streamer \<Rightarrow> log_streamer" where
  "prune clk st = st\<lparr>ls_times := dropWhile (\<lambda>t. t \<le> clk_ms clk - RATE_WINDOW_MS) (ls_times st)\<rparr>"

definition canEmit :: "streamer_config \<Rightarrow> clock \<Rightarrow> log_streamer \<Rightarrow> bool \<times> log_streamer" where
  "canEmit cfg clk st =
    (case sc_maxMessagesPerSec cfg of
       None \<Rightarrow> (True, st)
     | Some limit \<Rightarrow> (int (length (ls_times (prune clk st))) < limit, prune clk st))"

definition nextEmitAt :: "streamer_config \<Rightarrow> clock \<Rightarrow> log_streamer \<Rightarrow> int \<times> log_streamer" where
  "nextEmitAt cfg clk st =
    (case sc_maxMessagesPerSec cfg of
       None \<Rightarrow> (clk_ms clk, st)
     | Some limit \<Rightarrow>
         (case ls_times (prune clk st) of
            [] \<Rightarrow> (clk_ms clk, prune clk st)
          | t # ts \<Rightarrow> (if int (length (t # ts)) < limit then clk_ms clk else t + RATE_WINDOW_MS, prune clk st)))"

definition rate_record :: "streamer_config \<Rightarrow> clock \<Rightarrow> log_streamer \<Rightarrow> log_streamer" where
  "rate_record cfg clk st = (if sc_maxMessagesPerSec cfg = None then st else st\<lparr>ls_times := ls_times st @ [clk_ms clk]\<rparr>)"

subsection \<open>Emission and the timer\<close>

definition emitRaw ::
    "streamer_config \<Rightarrow> clock \<Rightarrow> log_streamer \<Rightarrow> log_stream \<Rightarrow> string \<Rightarrow> string \<Rightarrow> int option \<Rightarrow> session_log_chunk \<times> log_streamer" where
  "emitRaw cfg clk st stream content timestamp dropped =
    (let chunk = \<lparr>lg_sessionId = sc_sessionId cfg, lg_attemptId = sc_attemptId cfg, lg_stream = stream, lg_content = content,
           lg_timestamp = timestamp, lg_seq = ls_seq st, lg_dropped = dropped\<rparr>;
         st1 = st\<lparr>ls_seq := ls_seq st + 1\<rparr>;
         st2 = (if stream = System then st1
           else st1\<lparr>ls_emittedChunks := ls_emittedChunks st1 + 1, ls_emittedBytes := ls_emittedBytes st1 + byte_length content\<rparr>);
         st3 = rate_record cfg clk st2
     in (chunk, st3\<lparr>ls_emitted := ls_emitted st3 @ [chunk]\<rparr>))"

definition scheduleFlush :: "streamer_config \<Rightarrow> clock \<Rightarrow> log_streamer \<Rightarrow> log_streamer" where
  "scheduleFlush cfg clk st =
    (if ls_timer st \<noteq> None \<or> ls_pending st = None \<and> ls_overflow st = None \<and> ls_unsentDropped st = 0 then st
     else
       (let waitForCoalesce = (case ls_pending st of
              None \<Rightarrow> False
            | Some batch \<Rightarrow> ls_overflow st = None \<and> ls_unsentDropped st < maxDroppedPerNotice cfg
                \<and> \<not> batchAtBound batch (sc_maxWireBytes cfg) (sc_logBatchMaxLines cfg));
            (emitAt, st1) = nextEmitAt cfg clk st;
            due = max (if waitForCoalesce then ls_pendingSinceMs st + sc_logBatchMaxWaitMs cfg else clk_ms clk) emitAt
        in st1\<lparr>ls_timer := Some (max 0 (due - clk_ms clk))\<rparr>))"

definition promoteOverflow :: "log_streamer \<Rightarrow> log_streamer" where
  "promoteOverflow st =
    (if ls_pending st \<noteq> None \<or> ls_overflow st = None then st
     else st\<lparr>ls_pending := ls_overflow st, ls_pendingSinceMs := ls_overflowSinceMs st, ls_overflow := None\<rparr>)"

definition remainingBytes :: "streamer_config \<Rightarrow> log_streamer \<Rightarrow> int" where
  "remainingBytes cfg st =
    sc_maxBytes cfg - ls_emittedBytes st - (case ls_pending st of None \<Rightarrow> 0 | Some b \<Rightarrow> cb_bytes b)
      - (case ls_overflow st of None \<Rightarrow> 0 | Some b \<Rightarrow> cb_bytes b)"

definition recordDrop :: "log_streamer \<Rightarrow> log_streamer" where
  "recordDrop st = st\<lparr>ls_droppedChunks := ls_droppedChunks st + 1, ls_unsentDropped := ls_unsentDropped st + 1\<rparr>"

function notice_loop ::
    "streamer_config \<Rightarrow> clock \<Rightarrow> bool \<Rightarrow> session_log_chunk option \<Rightarrow> log_streamer \<Rightarrow> session_log_chunk option \<times> log_streamer" where
  "notice_loop cfg clk force latest st =
    (if \<not> ls_unsentDropped st > 0 then (latest, st)
     else
       (let mustSend = (force \<or> ls_unsentDropped st \<ge> maxDroppedPerNotice cfg \<and> ls_pending st = None \<and> ls_overflow st = None)
        in if \<not> mustSend \<and> latest \<noteq> None then (latest, scheduleFlush cfg clk st)
           else
             (let (allowed, st1) = (if mustSend then (True, st) else canEmit cfg clk st)
              in if \<not> allowed then (latest, scheduleFlush cfg clk st1)
                 else
                   (let count = min (ls_unsentDropped st) (maxDroppedPerNotice cfg);
                        (chunk, st2) = emitRaw cfg clk (st1\<lparr>ls_unsentDropped := ls_unsentDropped st - count\<rparr>) System
                          (formatDroppedLogNotice count) (clk_iso clk) (Some count)
                    in notice_loop cfg clk force (Some chunk) st2))))"
  by pat_completeness auto
termination
  by (relation "measure (\<lambda>(cfg, clk, force, latest, st). nat (ls_unsentDropped st))")
    (auto simp: emitRaw_def rate_record_def maxDroppedPerNotice_def Let_def split: if_splits)

declare notice_loop.simps [simp del]

definition flushDropNotice :: "streamer_config \<Rightarrow> clock \<Rightarrow> bool \<Rightarrow> log_streamer \<Rightarrow> session_log_chunk option \<times> log_streamer" where
  "flushDropNotice cfg clk force st = notice_loop cfg clk force None st"

definition emit_pending ::
    "streamer_config \<Rightarrow> clock \<Rightarrow> coalesce_batch \<Rightarrow> log_streamer \<Rightarrow> session_log_chunk \<times> log_streamer" where
  "emit_pending cfg clk batch st =
    (let (chunk, st1) = emitRaw cfg clk (st\<lparr>ls_timer := None, ls_pending := None\<rparr>) (cb_stream batch) (cb_content batch)
       (cb_timestamp batch) None
     in (chunk, promoteOverflow st1))"

text \<open>The loop of \<open>flushPending\<close>; its flag says that the rate window stopped it.\<close>

function flush_loop ::
    "streamer_config \<Rightarrow> clock \<Rightarrow> bool \<Rightarrow> session_log_chunk option \<Rightarrow> log_streamer \<Rightarrow> bool \<times> session_log_chunk option \<times> log_streamer" where
  "flush_loop cfg clk force latest st =
    (case ls_pending st of
       None \<Rightarrow> (False, latest, st)
     | Some batch \<Rightarrow>
         (let (allowed, st1) = (if force then (True, st) else canEmit cfg clk st)
          in if \<not> allowed then (True, latest, scheduleFlush cfg clk st1)
             else
               (let (chunk, st2) = emit_pending cfg clk batch st1
                in if force then flush_loop cfg clk force (Some chunk) st2 else (False, Some chunk, st2))))"
  by pat_completeness auto
termination
  by (relation "measure (\<lambda>(cfg, clk, force, latest, st). (if ls_pending st = None then 0 else 1) + (if ls_overflow st = None then 0 else 1))")
    (auto simp: emit_pending_def emitRaw_def rate_record_def promoteOverflow_def Let_def split: if_splits)

declare flush_loop.simps [simp del]

definition flushPending :: "streamer_config \<Rightarrow> clock \<Rightarrow> bool \<Rightarrow> log_streamer \<Rightarrow> session_log_chunk option \<times> log_streamer" where
  "flushPending cfg clk force st =
    (case flush_loop cfg clk force None (promoteOverflow st) of
       (blocked, latest, st1) \<Rightarrow>
         (if blocked then (latest, st1)
          else if ls_pending st1 \<noteq> None \<or> ls_overflow st1 \<noteq> None
          then (latest, if force then st1 else scheduleFlush cfg clk st1)
          else
            (let (notice, st2) = flushDropNotice cfg clk force st1;
                 st3 = (if \<not> force \<and> ls_unsentDropped st2 > 0 then scheduleFlush cfg clk st2 else st2)
             in (first_some notice latest, st3))))"

subsection \<open>Writing\<close>

definition fits_batch :: "streamer_config \<Rightarrow> coalesce_batch option \<Rightarrow> log_stream \<Rightarrow> string \<Rightarrow> bool" where
  "fits_batch cfg b stream piece =
    (case b of None \<Rightarrow> False
     | Some batch \<Rightarrow> canAppendToBatch batch stream piece (byte_length piece) (sc_maxWireBytes cfg) (sc_logBatchMaxLines cfg))"

definition startPending ::
    "streamer_config \<Rightarrow> clock \<Rightarrow> log_streamer \<Rightarrow> log_stream \<Rightarrow> string \<Rightarrow> string \<Rightarrow> bool \<Rightarrow> session_log_chunk option \<times> log_streamer" where
  "startPending cfg clk st stream piece timestamp force =
    (if \<not> force \<and> ls_emittedChunks st \<ge> sc_maxChunks cfg then (None, st)
     else
       (let st1 = st\<lparr>ls_pending := Some (startBatch stream piece timestamp), ls_pendingSinceMs := clk_ms clk\<rparr>
        in if force then flushPending cfg clk True st1 else (None, st1)))"

record enqueue_result =
  er_chunk :: "session_log_chunk option"
  er_diverted :: bool
  er_dropped :: bool

definition append_pending :: "string \<Rightarrow> log_streamer \<Rightarrow> log_streamer" where
  "append_pending piece st = st\<lparr>ls_pending := map_option (\<lambda>b. appendToBatch b piece) (ls_pending st)\<rparr>"

definition append_overflow :: "string \<Rightarrow> log_streamer \<Rightarrow> log_streamer" where
  "append_overflow piece st = st\<lparr>ls_overflow := map_option (\<lambda>b. appendToBatch b piece) (ls_overflow st)\<rparr>"

definition enqueue_behind ::
    "streamer_config \<Rightarrow> clock \<Rightarrow> log_streamer \<Rightarrow> log_stream \<Rightarrow> string \<Rightarrow> string \<Rightarrow> bool \<Rightarrow> bool \<Rightarrow> enqueue_result \<times> log_streamer" where
  "enqueue_behind cfg clk st stream piece timestamp force allowOverflow =
    (let (latest, st1) = (if ls_pending st \<noteq> None then flushPending cfg clk force st else (None, st));
         st2 = promoteOverflow st1
     in if ls_pending st2 = None
        then (let (chunk, st3) = startPending cfg clk st2 stream piece timestamp force
              in (\<lparr>er_chunk = first_some chunk latest, er_diverted = False, er_dropped = False\<rparr>, st3))
        else if ls_overflow st2 = None \<and> ls_unsentDropped st2 = 0 \<and> fits_batch cfg (ls_pending st2) stream piece
        then (\<lparr>er_chunk = latest, er_diverted = False, er_dropped = False\<rparr>, append_pending piece st2)
        else if allowOverflow \<and> ls_unsentDropped st2 = 0 \<and> fits_batch cfg (ls_overflow st2) stream piece
        then (\<lparr>er_chunk = latest, er_diverted = True, er_dropped = False\<rparr>, append_overflow piece st2)
        else if allowOverflow \<and> ls_unsentDropped st2 = 0 \<and> ls_overflow st2 = None \<and> ls_emittedChunks st2 + 1 < sc_maxChunks cfg
        then (\<lparr>er_chunk = latest, er_diverted = True, er_dropped = False\<rparr>,
          st2\<lparr>ls_overflow := Some (startBatch stream piece timestamp), ls_overflowSinceMs := clk_ms clk\<rparr>)
        else (\<lparr>er_chunk = latest, er_diverted = True, er_dropped = True\<rparr>, recordDrop st2))"

definition enqueuePiece ::
    "streamer_config \<Rightarrow> clock \<Rightarrow> log_streamer \<Rightarrow> log_stream \<Rightarrow> string \<Rightarrow> string \<Rightarrow> bool \<Rightarrow> bool \<Rightarrow> bool \<Rightarrow> enqueue_result \<times> log_streamer" where
  "enqueuePiece cfg clk st stream piece timestamp force allowPending allowOverflow =
    (if allowPending \<and> ls_overflow st = None \<and> fits_batch cfg (ls_pending st) stream piece
     then (\<lparr>er_chunk = None, er_diverted = False, er_dropped = False\<rparr>, append_pending piece st)
     else if allowPending \<and> ls_pending st = None
     then (let (chunk, st1) = startPending cfg clk st stream piece timestamp force
           in (\<lparr>er_chunk = chunk, er_diverted = False, er_dropped = False\<rparr>, st1))
     else enqueue_behind cfg clk st stream piece timestamp force allowOverflow)"

definition afterStdoutEnqueue :: "streamer_config \<Rightarrow> clock \<Rightarrow> log_streamer \<Rightarrow> session_log_chunk option \<times> log_streamer" where
  "afterStdoutEnqueue cfg clk st =
    (let st1 = promoteOverflow st
     in case ls_pending st1 of
          None \<Rightarrow> flushDropNotice cfg clk False st1
        | Some batch \<Rightarrow>
            (if sc_logBatchMaxWaitMs cfg = 0 \<or> ls_overflow st1 \<noteq> None \<or> ls_unsentDropped st1 \<ge> maxDroppedPerNotice cfg
                \<or> batchAtBound batch (sc_maxWireBytes cfg) (sc_logBatchMaxLines cfg)
             then flushPending cfg clk False st1
             else (None, scheduleFlush cfg clk st1)))"

definition pieces_of :: "streamer_config \<Rightarrow> string \<Rightarrow> string list" where
  "pieces_of cfg content = concat (map (\<lambda>p. splitLogLines p (sc_logBatchMaxLines cfg)) (splitUtf8 content (sc_maxWireBytes cfg)))"

fun write_pieces ::
    "streamer_config \<Rightarrow> clock \<Rightarrow> log_stream \<Rightarrow> string \<Rightarrow> bool \<Rightarrow> bool \<Rightarrow> bool \<Rightarrow> session_log_chunk option \<Rightarrow> log_streamer \<Rightarrow> string list
     \<Rightarrow> session_log_chunk option \<times> log_streamer" where
  "write_pieces cfg clk stream timestamp force allowPending rejectRest latest st [] = (latest, st)"
| "write_pieces cfg clk stream timestamp force allowPending rejectRest latest st (piece # rest) =
    (let (r, st1) = enqueuePiece cfg clk st stream piece timestamp force (allowPending \<and> \<not> rejectRest) (\<not> rejectRest)
     in write_pieces cfg clk stream timestamp force (allowPending \<and> \<not> er_diverted r) (rejectRest \<or> er_dropped r)
          (first_some (er_chunk r) latest) st1 rest)"

definition writeAt ::
    "streamer_config \<Rightarrow> clock \<Rightarrow> log_streamer \<Rightarrow> log_stream \<Rightarrow> string \<Rightarrow> string \<Rightarrow> session_log_chunk option \<times> log_streamer" where
  "writeAt cfg clk st stream content timestamp =
    (let force = (stream = System);
         (latest, st1) = (if force then flushPending cfg clk True st else (None, st))
     in if \<not> force \<and> ls_emittedChunks st1 \<ge> sc_maxChunks cfg \<and> ls_pending st1 = None \<and> ls_overflow st1 = None then (latest, st1)
        else
          (let bounded = (if force then content else truncateUtf8 content (remainingBytes cfg st1))
           in if bounded = [] then (latest, st1)
              else
                (let (latest2, st2) = write_pieces cfg clk stream timestamp force True False latest st1 (pieces_of cfg bounded)
                 in if force then (latest2, st2)
                    else (let (flushed, st3) = afterStdoutEnqueue cfg clk st2 in (first_some flushed latest2, st3)))))"

definition write_log :: "streamer_config \<Rightarrow> clock \<Rightarrow> log_streamer \<Rightarrow> log_stream \<Rightarrow> string \<Rightarrow> session_log_chunk option \<times> log_streamer" where
  "write_log cfg clk st stream content = writeAt cfg clk st stream content (clk_iso clk)"

definition writeTimestampedSystem :: "streamer_config \<Rightarrow> clock \<Rightarrow> log_streamer \<Rightarrow> string \<Rightarrow> session_log_chunk option \<times> log_streamer" where
  "writeTimestampedSystem cfg clk st label = writeAt cfg clk st System (label @ '' at '' @ clk_iso clk) (clk_iso clk)"

definition flush_streamer :: "streamer_config \<Rightarrow> clock \<Rightarrow> log_streamer \<Rightarrow> log_streamer" where
  "flush_streamer cfg clk st = snd (flushPending cfg clk True st)"

text \<open>The callback of the timer.\<close>

definition timer_fires :: "streamer_config \<Rightarrow> clock \<Rightarrow> log_streamer \<Rightarrow> log_streamer" where
  "timer_fires cfg clk st = snd (flushPending cfg clk False (st\<lparr>ls_timer := None\<rparr>))"

end
