(* ===== verification/LogDelivery.thy ===== *)
theory LogDelivery
  imports LogStreamer
begin

text \<open>
  What the log streamer guarantees: chunks are numbered consecutively, stay within the size limits, and every dropped
  piece is announced; output is kept in order and only lost where it is counted or capped; buffered output never sits
  without a timer.
\<close>

section \<open>Splitting\<close>

lemma byte_length_simps [simp]:
  "byte_length [] = 0" "byte_length (s @ t) = byte_length s + byte_length t" "0 \<le> byte_length s" "0 < byte_length [c]"
  "0 < byte_length s \<longleftrightarrow> s \<noteq> []" "byte_length s \<le> 0 \<longleftrightarrow> s = []"
  by (simp_all add: byte_length_def) (cases s; simp)+

lemma byte_length_Cons: "byte_length (c # s) = byte_length [c] + byte_length s"
  using byte_length_simps(2) [of "[c]" s] by simp

lemma take_bytes_prefix: "prefix (take_bytes room s) s"
  by (induction room s rule: take_bytes.induct) auto

lemma take_bytes_bound: "0 \<le> room \<Longrightarrow> byte_length (take_bytes room s) \<le> room"
  by (induction room s rule: take_bytes.induct) (auto simp: byte_length_Cons [of _ "take_bytes _ _"])

lemma take_bytes_negative: "room < 0 \<Longrightarrow> take_bytes room s = []"
  by (cases s) (auto simp: byte_length_def utf8_length_def)

lemma truncateUtf8_prefix: "prefix (truncateUtf8 s n) s"
  by (simp add: truncateUtf8_def take_bytes_prefix)

lemma truncateUtf8_bound: "byte_length (truncateUtf8 s n) \<le> max 0 n"
proof (cases "0 \<le> n")
  case False
  then have "\<not> byte_length s \<le> n" using byte_length_simps(3) [of s] by linarith
  with False show ?thesis by (simp add: truncateUtf8_def take_bytes_negative)
qed (simp add: truncateUtf8_def take_bytes_bound)

lemma concat_split_bytes: "concat (split_bytes m current used s) = current @ s"
  by (induction m current used s rule: split_bytes.induct) simp_all

lemma concat_split_lines: "concat (split_lines m current lines s) = current @ s"
  by (induction m current lines s rule: split_lines.induct) simp_all

lemma concat_pieces: "concat (pieces_of cfg s) = s"
proof -
  have "concat (splitLogLines p n) = p" for p n by (simp add: splitLogLines_def concat_split_lines)
  then have "concat (concat (map (\<lambda>p. splitLogLines p n) ps)) = concat ps" for ps n by (induction ps) simp_all
  then show ?thesis by (simp add: pieces_of_def splitUtf8_def concat_split_bytes)
qed

definition within_wire :: "int \<Rightarrow> string \<Rightarrow> bool" where
  "within_wire m s \<longleftrightarrow> byte_length s \<le> m \<or> length s = 1"

lemma split_bytes_within:
  "used = byte_length current \<Longrightarrow> current = [] \<or> within_wire m current \<Longrightarrow> p \<in> set (split_bytes m current used s) \<Longrightarrow> within_wire m p"
proof (induction m current used s rule: split_bytes.induct)
  case (2 m current used c cs)
  show ?case
  proof (cases "used > 0 \<and> used + byte_length [c] > m")
    case True
    with 2 have "current \<noteq> []" by auto
    with True 2 show ?thesis by (auto simp: within_wire_def)
  next
    case False
    then have "within_wire m (current @ [c])" using 2(3) by (cases "current = []") (auto simp: within_wire_def)
    with False 2(2) [OF False] 2(3,5) show ?thesis by (auto split: if_splits)
  qed
qed (auto split: if_splits)

lemma within_wire_part: "within_wire m (concat ps) \<Longrightarrow> p \<in> set ps \<Longrightarrow> p \<noteq> [] \<Longrightarrow> within_wire m p"
proof -
  assume w: "within_wire m (concat ps)" and p: "p \<in> set ps" "p \<noteq> []"
  from p(1) obtain xs ys where ps: "ps = xs @ p # ys" by (meson split_list)
  then have "byte_length p \<le> byte_length (concat ps)" using byte_length_simps(3) [of "concat xs"] byte_length_simps(3) [of "concat ys"] by (simp del: byte_length_simps(3))
  moreover have "length p \<le> length (concat ps)" "length p \<noteq> 0" using ps p(2) by simp_all
  ultimately show ?thesis using w unfolding within_wire_def by linarith
qed

lemma split_lines_nonempty: "p \<in> set (split_lines m current lines s) \<Longrightarrow> p \<noteq> []"
  by (induction m current lines s rule: split_lines.induct) (auto split: if_splits)

definition newlines :: "string \<Rightarrow> int" where
  "newlines s = int (length (filter (\<lambda>c. c = NEWLINE) s))"

lemma newlines_simps [simp]: "newlines [] = 0" "newlines (s @ t) = newlines s + newlines t" "newlines [c] = (if c = NEWLINE then 1 else 0)"
  by (simp_all add: newlines_def)

lemma countLogLines_newlines: "countLogLines s \<le> newlines s + 1" "s \<noteq> [] \<Longrightarrow> last s = NEWLINE \<Longrightarrow> countLogLines s = newlines s"
  by (simp_all add: countLogLines_def newlines_def Let_def)

lemma split_lines_lines:
  "1 \<le> m \<Longrightarrow> lines = newlines current \<Longrightarrow> lines < m \<Longrightarrow> p \<in> set (split_lines m current lines s) \<Longrightarrow> countLogLines p \<le> m"
proof (induction m current lines s rule: split_lines.induct)
  case (1 m current lines)
  then show ?case using countLogLines_newlines(1) [of current] by (auto split: if_splits)
next
  case (2 m current lines c cs)
  show ?case
  proof (cases "c = NEWLINE \<and> lines + 1 \<ge> m")
    case True
    then have "countLogLines (current @ [c]) = lines + 1" using 2(5) countLogLines_newlines(2) [of "current @ [c]"] by simp
    then show ?thesis using True 2(1) 2(4-7) by auto
  next
    case False
    then show ?thesis using 2 by (cases "c = NEWLINE") auto
  qed
qed

definition sized :: "streamer_config \<Rightarrow> string \<Rightarrow> bool" where
  "sized cfg s \<longleftrightarrow> within_wire (sc_maxWireBytes cfg) s \<and> countLogLines s \<le> sc_logBatchMaxLines cfg"

lemma pieces_sized:
  assumes "1 \<le> sc_logBatchMaxLines cfg" and "p \<in> set (pieces_of cfg s)"
  shows "sized cfg p"
proof -
  obtain q where q: "q \<in> set (splitUtf8 s (sc_maxWireBytes cfg))" "p \<in> set (splitLogLines q (sc_logBatchMaxLines cfg))"
    using assms(2) by (auto simp: pieces_of_def)
  have wire: "within_wire (sc_maxWireBytes cfg) q" using split_bytes_within [of 0 "[]"] q(1) by (auto simp: splitUtf8_def)
  show ?thesis
  proof (cases "countLogLines q \<le> sc_logBatchMaxLines cfg")
    case True
    then show ?thesis using q(2) wire by (auto simp: splitLogLines_def sized_def split: if_splits)
  next
    case False
    then have p: "p \<in> set (split_lines (sc_logBatchMaxLines cfg) [] 0 q)" using q(2) by (auto simp: splitLogLines_def split: if_splits)
    from within_wire_part [of _ "split_lines (sc_logBatchMaxLines cfg) [] 0 q", OF _ p split_lines_nonempty [OF p]] wire
      split_lines_lines [of _ 0 "[]", OF assms(1) _ _ p] assms(1) show ?thesis by (simp add: sized_def concat_split_lines)
  qed
qed

section \<open>The invariant\<close>

definition batch_text :: "coalesce_batch option \<Rightarrow> string" where
  "batch_text b = (case b of None \<Rightarrow> [] | Some x \<Rightarrow> if cb_stream x = System then [] else cb_content x)"

definition batch_count :: "coalesce_batch option \<Rightarrow> int" where
  "batch_count b = (case b of None \<Rightarrow> 0 | Some x \<Rightarrow> if cb_stream x = System then 0 else 1)"

definition batch_ok :: "streamer_config \<Rightarrow> coalesce_batch option \<Rightarrow> bool" where
  "batch_ok cfg b = (case b of None \<Rightarrow> True | Some x \<Rightarrow> cb_bytes x = byte_length (cb_content x) \<and> sized cfg (cb_content x))"

definition sent_output :: "session_log_chunk list \<Rightarrow> session_log_chunk list" where
  "sent_output cs = filter (\<lambda>c. lg_stream c \<noteq> System) cs"

text \<open>The output of the session so far: what has been emitted, then the pending and the overflow batch.\<close>

definition session_output :: "log_streamer \<Rightarrow> string" where
  "session_output st = concat (map lg_content (sent_output (ls_emitted st))) @ batch_text (ls_pending st) @ batch_text (ls_overflow st)"

definition announced :: "session_log_chunk list \<Rightarrow> int" where
  "announced cs = sum_list (map (\<lambda>c. opt_or (lg_dropped c) 0) cs)"

definition core_ok :: "streamer_config \<Rightarrow> int \<Rightarrow> log_streamer \<Rightarrow> bool" where
  "core_ok cfg i0 st \<longleftrightarrow>
    (ls_pending st = None \<longrightarrow> ls_overflow st = None) \<and> batch_ok cfg (ls_pending st) \<and> batch_ok cfg (ls_overflow st)
    \<and> ls_seq st = i0 + int (length (ls_emitted st))
    \<and> map lg_seq (ls_emitted st) = map (\<lambda>i. i0 + int i) [0..<length (ls_emitted st)]
    \<and> 0 \<le> ls_unsentDropped st \<and> announced (ls_emitted st) + ls_unsentDropped st = ls_droppedChunks st
    \<and> (\<forall>c\<in>set (ls_emitted st). if lg_dropped c = None then sized cfg (lg_content c) else lg_stream c = System)
    \<and> ls_emittedChunks st = int (length (sent_output (ls_emitted st)))
    \<and> ls_emittedBytes st = byte_length (concat (map lg_content (sent_output (ls_emitted st))))
    \<and> ls_emittedChunks st + batch_count (ls_pending st) + batch_count (ls_overflow st) \<le> max 0 (sc_maxChunks cfg)"

lemma batch_simps [simp]:
  "batch_text None = []" "batch_count None = 0" "batch_ok cfg None" "0 \<le> batch_count b" "batch_count b \<le> 1"
  "batch_text (Some (startBatch stream s t)) = (if stream = System then [] else s)"
  "batch_count (Some (startBatch stream s t)) = (if stream = System then 0 else 1)"
  "batch_ok cfg (Some (startBatch stream s t)) = sized cfg s"
  by (simp_all add: batch_text_def batch_count_def batch_ok_def startBatch_def split: option.split)

text \<open>Flushing moves output from the batches to the emitted chunks and announces drops.\<close>

definition flushes :: "streamer_config \<Rightarrow> int \<Rightarrow> log_streamer \<Rightarrow> log_streamer \<Rightarrow> bool" where
  "flushes cfg i0 st st' \<longleftrightarrow> (core_ok cfg i0 st \<longrightarrow> core_ok cfg i0 st') \<and> session_output st' = session_output st
    \<and> ls_droppedChunks st' = ls_droppedChunks st \<and> ls_emittedChunks st \<le> ls_emittedChunks st'"

lemma flushes_refl [simp]: "flushes cfg i0 st st"
  by (simp add: flushes_def)

lemma flushes_trans: "flushes cfg i0 st st1 \<Longrightarrow> flushes cfg i0 st1 st2 \<Longrightarrow> flushes cfg i0 st st2"
  by (auto simp: flushes_def)

lemma flushes_same:
  "flushes cfg i0 st (st\<lparr>ls_timer := t\<rparr>)" "flushes cfg i0 st (prune clk st)" "flushes cfg i0 st (snd (canEmit cfg clk st))"
  "flushes cfg i0 st (snd (nextEmitAt cfg clk st))"
  by (auto simp: flushes_def core_ok_def session_output_def prune_def canEmit_def nextEmitAt_def split: option.splits list.splits)

lemma flushes_schedule: "flushes cfg i0 st (scheduleFlush cfg clk st)"
proof -
  have "flushes cfg i0 st ((snd (nextEmitAt cfg clk st))\<lparr>ls_timer := t\<rparr>)" for t
    by (rule flushes_trans [OF flushes_same(4) flushes_same(1)])
  then show ?thesis by (simp add: scheduleFlush_def Let_def case_prod_beta)
qed

lemma flushes_promote: "flushes cfg i0 st (promoteOverflow st)"
  by (auto simp: flushes_def promoteOverflow_def core_ok_def session_output_def)

lemma emitRaw_views:
  "fst (emitRaw cfg clk st stream s t d) = \<lparr>lg_sessionId = sc_sessionId cfg, lg_attemptId = sc_attemptId cfg, lg_stream = stream,
     lg_content = s, lg_timestamp = t, lg_seq = ls_seq st, lg_dropped = d\<rparr>"
  "ls_emitted (snd (emitRaw cfg clk st stream s t d)) = ls_emitted st @ [fst (emitRaw cfg clk st stream s t d)]"
  "ls_seq (snd (emitRaw cfg clk st stream s t d)) = ls_seq st + 1"
  "ls_pending (snd (emitRaw cfg clk st stream s t d)) = ls_pending st" "ls_overflow (snd (emitRaw cfg clk st stream s t d)) = ls_overflow st"
  "ls_timer (snd (emitRaw cfg clk st stream s t d)) = ls_timer st"
  "ls_droppedChunks (snd (emitRaw cfg clk st stream s t d)) = ls_droppedChunks st"
  "ls_unsentDropped (snd (emitRaw cfg clk st stream s t d)) = ls_unsentDropped st"
  "ls_emittedChunks (snd (emitRaw cfg clk st stream s t d)) = ls_emittedChunks st + (if stream = System then 0 else 1)"
  "ls_emittedBytes (snd (emitRaw cfg clk st stream s t d)) = ls_emittedBytes st + (if stream = System then 0 else byte_length s)"
  by (simp_all add: emitRaw_def rate_record_def Let_def)

lemma flushes_notice:
  assumes "0 < n" and "n \<le> ls_unsentDropped st"
  shows "flushes cfg i0 st (snd (emitRaw cfg clk (st\<lparr>ls_unsentDropped := ls_unsentDropped st - n\<rparr>) System s t (Some n)))"
  using assms by (auto simp: flushes_def core_ok_def session_output_def emitRaw_views announced_def sent_output_def)

lemma flushes_emit:
  assumes "ls_pending st = Some b"
  shows "flushes cfg i0 st (snd (emit_pending cfg clk b st))"
proof -
  let ?st1 = "snd (emitRaw cfg clk (st\<lparr>ls_timer := None, ls_pending := None\<rparr>) (cb_stream b) (cb_content b) (cb_timestamp b) None)"
  have "core_ok cfg i0 (promoteOverflow ?st1)" if "core_ok cfg i0 st"
    using that assms
    by (auto simp: core_ok_def promoteOverflow_def emitRaw_views announced_def sent_output_def batch_ok_def batch_count_def
        split: option.splits if_splits)
  moreover have "session_output (promoteOverflow ?st1) = session_output st"
    using assms by (auto simp: session_output_def promoteOverflow_def emitRaw_views sent_output_def batch_text_def split: option.splits)
  ultimately show ?thesis by (simp add: flushes_def emit_pending_def Let_def case_prod_beta) (simp add: promoteOverflow_def emitRaw_views)
qed

lemma notice_loop_rule:
  assumes "P st" and can: "\<And>st. P st \<Longrightarrow> P (snd (canEmit cfg clk st))" and sched: "\<And>st. P st \<Longrightarrow> P (scheduleFlush cfg clk st)"
    and emit: "\<And>st n s t. P st \<Longrightarrow> 0 < n \<Longrightarrow> n \<le> ls_unsentDropped st \<Longrightarrow>
      P (snd (emitRaw cfg clk (st\<lparr>ls_unsentDropped := ls_unsentDropped st - n\<rparr>) System s t (Some n)))"
  shows "P (snd (notice_loop cfg clk force latest st))"
  using assms
proof (induction cfg clk force latest st rule: notice_loop.induct)
  case (1 cfg clk force latest st)
  note P = 1(2) and can = 1(3) and sched = 1(4) and emit = 1(5)
  show ?case
  proof (cases "ls_unsentDropped st > 0")
    case True
    define must where "must = (force \<or> ls_unsentDropped st \<ge> maxDroppedPerNotice cfg \<and> ls_pending st = None \<and> ls_overflow st = None)"
    define r where "r = (if must then (True, st) else canEmit cfg clk st)"
    define n where "n = min (ls_unsentDropped st) (maxDroppedPerNotice cfg)"
    define e where "e = emitRaw cfg clk ((snd r)\<lparr>ls_unsentDropped := ls_unsentDropped st - n\<rparr>) System
      (formatDroppedLogNotice n) (clk_iso clk) (Some n)"
    have r: "P (snd r)" "ls_unsentDropped (snd r) = ls_unsentDropped st"
      using P can by (auto simp: r_def canEmit_def prune_def split: option.split)
    have n: "0 < n" "n \<le> ls_unsentDropped (snd r)" using True by (auto simp: n_def maxDroppedPerNotice_def r(2))
    have e: "P (snd e)" using emit [OF r(1) n] by (simp add: e_def r(2))
    have loop: "notice_loop cfg clk force latest st =
      (if \<not> must \<and> latest \<noteq> None then (latest, scheduleFlush cfg clk st)
       else if \<not> fst r then (latest, scheduleFlush cfg clk (snd r)) else notice_loop cfg clk force (Some (fst e)) (snd e))"
      using True by (subst notice_loop.simps) (simp add: must_def r_def n_def e_def Let_def case_prod_beta)
    show ?thesis
    proof (cases "\<not> must \<and> latest \<noteq> None \<or> \<not> fst r")
      case True
      then show ?thesis using sched P r(1) by (auto simp: loop)
    next
      case False
      have "P (snd (notice_loop cfg clk force (Some (fst e)) (snd e)))"
        by (rule 1(1) [OF _ must_def _ r_def prod.collapse _ n_def e_def prod.collapse e can sched emit]) (use True False in simp_all)
      then show ?thesis using False by (auto simp: loop)
    qed
  next
    case False
    then show ?thesis using P by (subst notice_loop.simps) simp
  qed
qed

lemma flushes_drop_notice: "flushes cfg i0 st (snd (flushDropNotice cfg clk force st))"
  unfolding flushDropNotice_def
  by (rule notice_loop_rule) (auto intro: flushes_trans flushes_same flushes_schedule flushes_notice)

lemma drop_notice_batches:
  "ls_pending (snd (flushDropNotice cfg clk force st)) = ls_pending st \<and> ls_overflow (snd (flushDropNotice cfg clk force st)) = ls_overflow st"
  unfolding flushDropNotice_def
  by (rule notice_loop_rule [where P = "\<lambda>s. ls_pending s = ls_pending st \<and> ls_overflow s = ls_overflow st"])
    (auto simp: canEmit_def prune_def scheduleFlush_def nextEmitAt_def emitRaw_views Let_def split: option.splits list.splits if_splits)

lemma flush_loop_rule:
  assumes "P st" and can: "\<And>st. P st \<Longrightarrow> P (snd (canEmit cfg clk st))" and sched: "\<And>st. P st \<Longrightarrow> P (scheduleFlush cfg clk st)"
    and emit: "\<And>st b. P st \<Longrightarrow> ls_pending st = Some b \<Longrightarrow> P (snd (emit_pending cfg clk b st))"
  shows "P (snd (snd (flush_loop cfg clk force latest st)))"
  using assms
proof (induction cfg clk force latest st rule: flush_loop.induct)
  case (1 cfg clk force latest st)
  note P = 1(2) and can = 1(3) and sched = 1(4) and emit = 1(5)
  show ?case
  proof (cases "ls_pending st")
    case (Some b)
    define r where "r = (if force then (True, st) else canEmit cfg clk st)"
    define e where "e = emit_pending cfg clk b (snd r)"
    have r: "P (snd r)" "ls_pending (snd r) = Some b"
      using P can Some by (auto simp: r_def canEmit_def prune_def split: option.split)
    have e: "P (snd e)" using emit [OF r] by (simp add: e_def)
    have loop: "flush_loop cfg clk force latest st =
      (if \<not> fst r then (True, latest, scheduleFlush cfg clk (snd r))
       else if force then flush_loop cfg clk force (Some (fst e)) (snd e) else (False, Some (fst e), snd e))"
      using Some by (subst flush_loop.simps) (simp add: r_def e_def Let_def case_prod_beta)
    show ?thesis
    proof (cases "fst r \<and> force")
      case True
      have "P (snd (snd (flush_loop cfg clk force (Some (fst e)) (snd e))))"
        by (rule 1(1) [OF Some r_def prod.collapse _ e_def prod.collapse _ e can sched emit]) (use True in simp_all)
      with True show ?thesis unfolding loop by simp
    next
      case False
      then show ?thesis using sched r(1) e by (auto simp: loop)
    qed
  next
    case None
    then show ?thesis using P by (subst flush_loop.simps) simp
  qed
qed

lemma flushes_loop: "flushes cfg i0 st (snd (snd (flush_loop cfg clk force latest st)))"
  by (rule flush_loop_rule) (auto intro: flushes_trans flushes_same flushes_schedule flushes_emit)

lemma flushes_pending: "flushes cfg i0 st (snd (flushPending cfg clk force st))"
proof -
  define l where "l = flush_loop cfg clk force None (promoteOverflow st)"
  have l: "flushes cfg i0 st (snd (snd l))" unfolding l_def by (rule flushes_trans [OF flushes_promote flushes_loop])
  note more = flushes_trans [OF l flushes_schedule] flushes_trans [OF l flushes_drop_notice]
    flushes_trans [OF flushes_trans [OF l flushes_drop_notice] flushes_schedule]
  show ?thesis unfolding flushPending_def l_def [symmetric] by (simp add: case_prod_beta Let_def l more)
qed

section \<open>Writing\<close>

definition visible :: "log_stream \<Rightarrow> string \<Rightarrow> string" where
  "visible stream s = (if stream = System then [] else s)"

text \<open>What becomes of a piece: it joins the output, it is counted as dropped, or the chunk limit cuts it off.\<close>

definition takes :: "streamer_config \<Rightarrow> int \<Rightarrow> log_stream \<Rightarrow> string \<Rightarrow> log_streamer \<Rightarrow> log_streamer \<Rightarrow> bool" where
  "takes cfg i0 stream piece st st' \<longleftrightarrow> core_ok cfg i0 st' \<and> ls_emittedChunks st \<le> ls_emittedChunks st'
    \<and> (session_output st' = session_output st @ visible stream piece \<and> ls_droppedChunks st' = ls_droppedChunks st
      \<or> session_output st' = session_output st \<and> ls_droppedChunks st' = ls_droppedChunks st + 1
      \<or> session_output st' = session_output st \<and> ls_droppedChunks st' = ls_droppedChunks st \<and> sc_maxChunks cfg \<le> ls_emittedChunks st')"

lemma takes_flushed: "core_ok cfg i0 st \<Longrightarrow> flushes cfg i0 st st1 \<Longrightarrow> takes cfg i0 stream piece st1 st2 \<Longrightarrow> takes cfg i0 stream piece st st2"
  by (auto simp: takes_def flushes_def)

lemma takes_then_flush: "takes cfg i0 stream piece st st1 \<Longrightarrow> flushes cfg i0 st1 st2 \<Longrightarrow> takes cfg i0 stream piece st st2"
  by (auto simp: takes_def flushes_def)

lemma fits_batch_None [simp]: "\<not> fits_batch cfg None stream piece"
  by (simp add: fits_batch_def)

lemma append_takes:
  assumes ok: "core_ok cfg i0 st" and fits: "fits_batch cfg b stream piece"
  shows "b = ls_pending st \<Longrightarrow> ls_overflow st = None \<Longrightarrow> takes cfg i0 stream piece st (append_pending piece st)"
    "b = ls_overflow st \<Longrightarrow> takes cfg i0 stream piece st (append_overflow piece st)"
proof -
  obtain x where x: "b = Some x" "cb_stream x = stream" "cb_bytes x + byte_length piece \<le> sc_maxWireBytes cfg"
      "countLogLines (cb_content x @ piece) \<le> sc_logBatchMaxLines cfg"
    using fits by (auto simp: fits_batch_def canAppendToBatch_def split: option.splits if_splits)
  define y where "y = appendToBatch x piece"
  have y: "batch_text (Some y) = batch_text b @ visible stream piece" "batch_count (Some y) = batch_count b"
    using x by (simp_all add: y_def appendToBatch_def batch_text_def batch_count_def visible_def)
  have ok_y: "batch_ok cfg (Some y)" if "batch_ok cfg b"
    using that x by (simp add: y_def appendToBatch_def batch_ok_def sized_def within_wire_def)
  show "takes cfg i0 stream piece st (append_pending piece st)" if b: "b = ls_pending st" "ls_overflow st = None"
  proof -
    have "append_pending piece st = st\<lparr>ls_pending := Some y\<rparr>" using b(1) x(1) by (simp add: append_pending_def y_def flip: b(1))
    then show ?thesis using ok b y ok_y x(1) by (auto simp: takes_def core_ok_def session_output_def)
  qed
  show "takes cfg i0 stream piece st (append_overflow piece st)" if b: "b = ls_overflow st"
  proof -
    have "append_overflow piece st = st\<lparr>ls_overflow := Some y\<rparr>" using b x(1) by (simp add: append_overflow_def y_def flip: b)
    then show ?thesis using ok b y ok_y x(1) by (auto simp: takes_def core_ok_def session_output_def)
  qed
qed

lemma startPending_takes:
  assumes ok: "core_ok cfg i0 st" and none: "ls_pending st = None" and sized: "sized cfg piece" and force: "force = (stream = System)"
  shows "takes cfg i0 stream piece st (snd (startPending cfg clk st stream piece t force))"
proof (cases "\<not> force \<and> ls_emittedChunks st \<ge> sc_maxChunks cfg")
  case True
  then show ?thesis using ok by (simp add: startPending_def takes_def)
next
  case False
  let ?st1 = "st\<lparr>ls_pending := Some (startBatch stream piece t), ls_pendingSinceMs := clk_ms clk\<rparr>"
  have "takes cfg i0 stream piece st ?st1"
    using ok none sized force False by (auto simp: takes_def core_ok_def session_output_def visible_def)
  from this takes_then_flush [OF this flushes_pending] show ?thesis using False by (auto simp: startPending_def Let_def)
qed

lemma overflow_takes:
  assumes "core_ok cfg i0 st" and "ls_pending st = Some b" "ls_overflow st = None" and "sized cfg piece" and "ls_emittedChunks st + 1 < sc_maxChunks cfg"
  shows "takes cfg i0 stream piece st (st\<lparr>ls_overflow := Some (startBatch stream piece t), ls_overflowSinceMs := n\<rparr>)"
  using assms batch_simps(5) [of "ls_pending st"] by (auto simp: takes_def core_ok_def session_output_def visible_def simp del: batch_simps(5))

lemma drop_takes: "core_ok cfg i0 st \<Longrightarrow> takes cfg i0 stream piece st (recordDrop st)"
  by (auto simp: takes_def core_ok_def session_output_def recordDrop_def)

lemma enqueuePiece_takes:
  assumes ok: "core_ok cfg i0 st" and sized: "sized cfg piece" and force: "force = (stream = System)"
  shows "takes cfg i0 stream piece st (snd (enqueuePiece cfg clk st stream piece t force aP aO))"
proof -
  define f where "f = (if ls_pending st \<noteq> None then flushPending cfg clk force st else (None, st))"
  define st2 where "st2 = promoteOverflow (snd f)"
  have fl: "flushes cfg i0 st st2" unfolding st2_def f_def
    by (rule flushes_trans [OF _ flushes_promote]) (simp add: flushes_pending)
  have ok2: "core_ok cfg i0 st2" using ok fl by (simp add: flushes_def)
  note by2 = takes_flushed [OF ok fl]
  have "takes cfg i0 stream piece st (snd (enqueue_behind cfg clk st stream piece t force aO))"
    unfolding enqueue_behind_def f_def [symmetric]
    by (auto simp: case_prod_beta Let_def st2_def [symmetric] ok2 sized force
        intro!: by2 startPending_takes append_takes overflow_takes drop_takes)
  then show ?thesis unfolding enqueuePiece_def using ok sized force
    by (auto simp: case_prod_beta Let_def intro: startPending_takes append_takes)
qed

definition consumes :: "streamer_config \<Rightarrow> int \<Rightarrow> log_stream \<Rightarrow> string list \<Rightarrow> log_streamer \<Rightarrow> log_streamer \<Rightarrow> bool" where
  "consumes cfg i0 stream ps st st' \<longleftrightarrow> core_ok cfg i0 st' \<and> ls_emittedChunks st \<le> ls_emittedChunks st'
    \<and> (\<exists>accepted capped. subseq accepted ps \<and> session_output st' = session_output st @ visible stream (concat accepted)
      \<and> int (length ps) = int (length accepted) + (ls_droppedChunks st' - ls_droppedChunks st) + int capped
      \<and> (0 < capped \<longrightarrow> sc_maxChunks cfg \<le> ls_emittedChunks st'))"

lemma consumes_Nil: "core_ok cfg i0 st \<Longrightarrow> consumes cfg i0 stream [] st st"
  by (auto simp: consumes_def visible_def)

lemma consumes_Cons:
  assumes p: "takes cfg i0 stream p st st1" and ps: "consumes cfg i0 stream ps st1 st2"
  shows "consumes cfg i0 stream (p # ps) st st2"
proof -
  obtain acc n where acc: "subseq acc ps" "session_output st2 = session_output st1 @ visible stream (concat acc)"
      "int (length ps) = int (length acc) + (ls_droppedChunks st2 - ls_droppedChunks st1) + int n"
      "0 < n \<longrightarrow> sc_maxChunks cfg \<le> ls_emittedChunks st2" and le: "ls_emittedChunks st1 \<le> ls_emittedChunks st2" "core_ok cfg i0 st2"
    using ps by (auto simp: consumes_def)
  have le1: "ls_emittedChunks st \<le> ls_emittedChunks st1" using p by (simp add: takes_def)
  from p consider "session_output st1 = session_output st @ visible stream p" "ls_droppedChunks st1 = ls_droppedChunks st"
    | "session_output st1 = session_output st" "ls_droppedChunks st1 = ls_droppedChunks st + 1"
    | "session_output st1 = session_output st" "ls_droppedChunks st1 = ls_droppedChunks st" "sc_maxChunks cfg \<le> ls_emittedChunks st1"
    by (auto simp: takes_def)
  then show ?thesis
  proof cases
    case 1
    with acc le le1 show ?thesis unfolding consumes_def
      by (intro conjI exI [of _ "p # acc"] exI [of _ n]) (auto simp: visible_def)
  next
    case 2
    with acc le le1 show ?thesis unfolding consumes_def by (intro conjI exI [of _ acc] exI [of _ n]) auto
  next
    case 3
    with acc le le1 show ?thesis unfolding consumes_def by (intro conjI exI [of _ acc] exI [of _ "Suc n"]) auto
  qed
qed

lemma consumes_then_flush: "consumes cfg i0 stream ps st st1 \<Longrightarrow> flushes cfg i0 st1 st2 \<Longrightarrow> consumes cfg i0 stream ps st st2"
  unfolding consumes_def flushes_def by fastforce

lemma consumes_flushed: "core_ok cfg i0 st \<Longrightarrow> flushes cfg i0 st st1 \<Longrightarrow> consumes cfg i0 stream ps st1 st2 \<Longrightarrow> consumes cfg i0 stream ps st st2"
  unfolding consumes_def flushes_def by fastforce

lemma write_pieces_consumes:
  assumes "core_ok cfg i0 st" and "\<forall>p\<in>set ps. sized cfg p" and "force = (stream = System)"
  shows "consumes cfg i0 stream ps st (snd (write_pieces cfg clk stream t force aP rR latest st ps))"
  using assms
proof (induction ps arbitrary: aP rR latest st)
  case (Cons p ps)
  define r where "r = enqueuePiece cfg clk st stream p t force (aP \<and> \<not> rR) (\<not> rR)"
  have t: "takes cfg i0 stream p st (snd r)" unfolding r_def by (rule enqueuePiece_takes) (use Cons in auto)
  then have "core_ok cfg i0 (snd r)" by (simp add: takes_def)
  from consumes_Cons [OF t Cons(1) [OF this]] Cons(3,4) show ?case by (simp add: case_prod_beta Let_def r_def)
qed (simp add: consumes_Nil)

definition wire_config :: "streamer_config \<Rightarrow> bool" where
  "wire_config cfg \<longleftrightarrow> 1 \<le> sc_logBatchMaxLines cfg"

lemma afterStdout_flushes: "flushes cfg i0 st (snd (afterStdoutEnqueue cfg clk st))"
  unfolding afterStdoutEnqueue_def Let_def
  by (auto split: option.split intro: flushes_trans [OF flushes_promote] flushes_drop_notice flushes_pending flushes_schedule)

definition bounded_content :: "streamer_config \<Rightarrow> log_streamer \<Rightarrow> string \<Rightarrow> string" where
  "bounded_content cfg st content = truncateUtf8 content (remainingBytes cfg st)"

lemma writeAt_consumes:
  assumes ok: "core_ok cfg i0 st" and wire: "wire_config cfg"
  shows "stream \<noteq> System \<Longrightarrow> consumes cfg i0 stream (pieces_of cfg (bounded_content cfg st content)) st (snd (writeAt cfg clk st stream content t))"
    "flushes cfg i0 st (snd (writeAt cfg clk st System content t)) \<or> (\<exists>ps. consumes cfg i0 System ps st (snd (writeAt cfg clk st System content t)))"
proof -
  have sized: "\<forall>p\<in>set (pieces_of cfg s). sized cfg p" for s using pieces_sized wire by (auto simp: wire_config_def)
  show "consumes cfg i0 stream (pieces_of cfg (bounded_content cfg st content)) st (snd (writeAt cfg clk st stream content t))" if "stream \<noteq> System"
  proof (cases "ls_emittedChunks st \<ge> sc_maxChunks cfg \<and> ls_pending st = None \<and> ls_overflow st = None")
    case True
    then show ?thesis using that ok unfolding consumes_def
      by (intro conjI exI [of _ "[]"] exI [of _ "length (pieces_of cfg (bounded_content cfg st content))"])
        (auto simp: writeAt_def visible_def)
  next
    case False
    show ?thesis
    proof (cases "bounded_content cfg st content = []")
      case True
      have "pieces_of cfg [] = []" by (simp add: pieces_of_def splitUtf8_def)
      with True False that consumes_Nil [OF ok] show ?thesis by (auto simp: writeAt_def bounded_content_def Let_def)
    next
      case nonempty: False
      have "consumes cfg i0 stream (pieces_of cfg (bounded_content cfg st content)) st (snd (afterStdoutEnqueue cfg clk
          (snd (write_pieces cfg clk stream t False True False None st (pieces_of cfg (bounded_content cfg st content))))))"
        by (rule consumes_then_flush [OF write_pieces_consumes [OF ok sized] afterStdout_flushes]) (simp add: that)
      then show ?thesis using False that nonempty
        by (auto simp: writeAt_def bounded_content_def [symmetric] Let_def case_prod_beta)
    qed
  qed
  define st1 where "st1 = snd (flushPending cfg clk True st)"
  have fl: "flushes cfg i0 st st1" unfolding st1_def by (rule flushes_pending)
  then have ok1: "core_ok cfg i0 st1" using ok by (simp add: flushes_def)
  have "consumes cfg i0 System (pieces_of cfg content) st (snd (write_pieces cfg clk System t True True False latest st1 (pieces_of cfg content)))" for latest
    by (rule consumes_flushed [OF ok fl write_pieces_consumes [OF ok1 sized]]) simp
  then show "flushes cfg i0 st (snd (writeAt cfg clk st System content t)) \<or> (\<exists>ps. consumes cfg i0 System ps st (snd (writeAt cfg clk st System content t)))"
    using fl by (auto simp: writeAt_def Let_def case_prod_beta st1_def)
qed

section \<open>The timer\<close>

text \<open>Nothing is left to send, or a timer is armed.\<close>

definition idle :: "log_streamer \<Rightarrow> bool" where
  "idle st \<longleftrightarrow> ls_pending st = None \<and> ls_overflow st = None \<and> ls_unsentDropped st = 0"

definition armed :: "log_streamer \<Rightarrow> bool" where
  "armed st \<longleftrightarrow> idle st \<or> ls_timer st \<noteq> None"

lemma idle_armed: "idle st \<Longrightarrow> armed st"
  by (simp add: armed_def)

lemma schedule_armed: "armed (scheduleFlush cfg clk st)"
  by (auto simp: armed_def idle_def scheduleFlush_def Let_def case_prod_beta)

lemma notice_loop_ends:
  "0 \<le> ls_unsentDropped st \<Longrightarrow> (let st' = snd (notice_loop cfg clk force latest st) in ls_unsentDropped st' = 0 \<or> \<not> force \<and> armed st')"
proof (induction cfg clk force latest st rule: notice_loop.induct)
  case (1 cfg clk force latest st)
  define must where "must = (force \<or> ls_unsentDropped st \<ge> maxDroppedPerNotice cfg \<and> ls_pending st = None \<and> ls_overflow st = None)"
  have forced: "force \<longrightarrow> must" by (simp add: must_def)
  define r where "r = (if must then (True, st) else canEmit cfg clk st)"
  define n where "n = min (ls_unsentDropped st) (maxDroppedPerNotice cfg)"
  define e where "e = emitRaw cfg clk ((snd r)\<lparr>ls_unsentDropped := ls_unsentDropped st - n\<rparr>) System
    (formatDroppedLogNotice n) (clk_iso clk) (Some n)"
  have e: "0 \<le> ls_unsentDropped (snd e)" by (simp add: e_def n_def emitRaw_def rate_record_def Let_def)
  have loop: "notice_loop cfg clk force latest st =
    (if \<not> 0 < ls_unsentDropped st then (latest, st)
     else if \<not> must \<and> latest \<noteq> None then (latest, scheduleFlush cfg clk st)
     else if \<not> fst r then (latest, scheduleFlush cfg clk (snd r)) else notice_loop cfg clk force (Some (fst e)) (snd e))"
    by (subst notice_loop.simps) (simp add: must_def r_def n_def e_def Let_def case_prod_beta)
  show ?case
  proof (cases "0 < ls_unsentDropped st \<and> (must \<or> latest = None) \<and> fst r")
    case True
    have "let st' = snd (notice_loop cfg clk force (Some (fst e)) (snd e)) in ls_unsentDropped st' = 0 \<or> \<not> force \<and> armed st'"
      by (rule 1(1) [OF _ must_def _ r_def prod.collapse _ n_def e_def prod.collapse e]) (use True in auto)
    then show ?thesis using True by (auto simp: loop)
  next
    case False
    then show ?thesis using 1(2) forced schedule_armed by (auto simp: loop r_def Let_def)
  qed
qed

lemma flush_loop_ends:
  "core_ok cfg i0 st \<Longrightarrow> (case flush_loop cfg clk force latest st of (blocked, l, st') \<Rightarrow>
     (blocked \<longrightarrow> \<not> force \<and> armed st') \<and> (force \<longrightarrow> ls_pending st' = None \<and> ls_overflow st' = None))"
proof (induction cfg clk force latest st rule: flush_loop.induct)
  case (1 cfg clk force latest st)
  show ?case
  proof (cases "ls_pending st")
    case None
    then show ?thesis using 1(2) by (subst flush_loop.simps) (simp add: core_ok_def)
  next
    case (Some b)
    define r where "r = (if force then (True, st) else canEmit cfg clk st)"
    define e where "e = emit_pending cfg clk b (snd r)"
    have loop: "flush_loop cfg clk force latest st =
      (if \<not> fst r then (True, latest, scheduleFlush cfg clk (snd r))
       else if force then flush_loop cfg clk force (Some (fst e)) (snd e) else (False, Some (fst e), snd e))"
      using Some by (subst flush_loop.simps) (simp add: r_def e_def Let_def case_prod_beta)
    show ?thesis
    proof (cases force)
      case True
      then have "core_ok cfg i0 (snd e)" using 1(2) flushes_emit [OF Some] by (auto simp: flushes_def e_def r_def)
      from 1(1) [OF Some r_def prod.collapse _ e_def prod.collapse True this] True show ?thesis unfolding loop by (simp add: r_def)
    next
      case False
      then show ?thesis unfolding loop using schedule_armed by simp
    qed
  qed
qed

lemma flushPending_ends:
  assumes "core_ok cfg i0 st"
  shows "armed (snd (flushPending cfg clk force st))" "force \<Longrightarrow> idle (snd (flushPending cfg clk force st))"
proof -
  define l where "l = flush_loop cfg clk force None (promoteOverflow st)"
  have ok: "core_ok cfg i0 (promoteOverflow st)" using assms flushes_promote by (auto simp: flushes_def)
  then have ok1: "core_ok cfg i0 (snd (snd l))" using flushes_loop by (auto simp: flushes_def l_def)
  have ends: "fst l \<longrightarrow> \<not> force \<and> armed (snd (snd l))" "force \<longrightarrow> ls_pending (snd (snd l)) = None \<and> ls_overflow (snd (snd l)) = None"
    using flush_loop_ends [OF ok, where force = force and clk = clk and latest = None] by (auto simp: l_def case_prod_beta)
  define d where "d = snd (flushDropNotice cfg clk force (snd (snd l)))"
  have d: "ls_unsentDropped d = 0 \<or> \<not> force \<and> armed d" "0 \<le> ls_unsentDropped d"
    using notice_loop_ends [of "snd (snd l)"] ok1 flushes_drop_notice [of cfg i0 "snd (snd l)" clk force]
    by (auto simp: d_def flushDropNotice_def core_ok_def flushes_def Let_def)
  have kept: "ls_pending d = ls_pending (snd (snd l))" "ls_overflow d = ls_overflow (snd (snd l))"
    using drop_notice_batches by (auto simp: d_def)
  have split: "snd (flushPending cfg clk force st) = (if fst l then snd (snd l)
      else if ls_pending (snd (snd l)) \<noteq> None \<or> ls_overflow (snd (snd l)) \<noteq> None
      then (if force then snd (snd l) else scheduleFlush cfg clk (snd (snd l)))
      else if \<not> force \<and> ls_unsentDropped d > 0 then scheduleFlush cfg clk d else d)"
    unfolding flushPending_def l_def [symmetric] d_def by (auto simp: Let_def case_prod_beta)
  show "idle (snd (flushPending cfg clk force st))" if force
    unfolding split using that ends d kept by (auto simp: idle_def)
  then show "armed (snd (flushPending cfg clk force st))"
    unfolding split using ends d kept schedule_armed by (cases force) (auto simp: idle_def armed_def)
qed

lemma afterStdout_armed: "core_ok cfg i0 st \<Longrightarrow> armed (snd (afterStdoutEnqueue cfg clk st))"
proof -
  assume ok: "core_ok cfg i0 st"
  define p where "p = promoteOverflow st"
  have p: "core_ok cfg i0 p" using ok flushes_promote by (auto simp: flushes_def p_def)
  have "armed (snd (flushDropNotice cfg clk False p))" if "ls_pending p = None"
    using notice_loop_ends [of p cfg clk False None] drop_notice_batches [of cfg clk False p] p that
    by (auto simp: core_ok_def flushDropNotice_def Let_def armed_def idle_def)
  then show ?thesis using flushPending_ends(1) [OF p] schedule_armed
    by (auto simp: afterStdoutEnqueue_def p_def [symmetric] Let_def split: option.split)
qed

lemma forced_pieces_idle:
  assumes "core_ok cfg i0 st" and "idle st" and "\<forall>p\<in>set ps. sized cfg p"
  shows "idle (snd (write_pieces cfg clk System t True True False latest st ps))"
  using assms
proof (induction ps arbitrary: latest st)
  case (Cons p ps)
  define st1 where "st1 = st\<lparr>ls_pending := Some (startBatch System p t), ls_pendingSinceMs := clk_ms clk\<rparr>"
  define f where "f = flushPending cfg clk True st1"
  have r: "enqueuePiece cfg clk st System p t True True True = (\<lparr>er_chunk = fst f, er_diverted = False, er_dropped = False\<rparr>, snd f)"
    using Cons(3) by (simp add: enqueuePiece_def startPending_def fits_batch_def idle_def f_def st1_def case_prod_beta Let_def)
  have ok1: "core_ok cfg i0 st1" using Cons(2-4) by (simp add: core_ok_def st1_def idle_def)
  have "core_ok cfg i0 (snd f)" "idle (snd f)"
    using ok1 flushes_pending [of cfg i0 st1 clk True] flushPending_ends(2) [OF ok1] by (auto simp: f_def flushes_def)
  from Cons(1) [OF this] Cons(4) show ?case by (simp add: r)
qed simp

lemma writeAt_armed:
  assumes ok: "core_ok cfg i0 st" and "armed st" and wire: "wire_config cfg"
  shows "armed (snd (writeAt cfg clk st stream content t))"
proof (cases "stream = System")
  case True
  have sized: "\<forall>p\<in>set (pieces_of cfg content). sized cfg p" using pieces_sized wire by (auto simp: wire_config_def)
  have ok1: "core_ok cfg i0 (snd (flushPending cfg clk True st))" using ok flushes_pending by (auto simp: flushes_def)
  show ?thesis
    using True forced_pieces_idle [OF ok1 flushPending_ends(2) [OF ok] sized] flushPending_ends(1) [OF ok]
    by (auto simp: writeAt_def Let_def case_prod_beta intro: idle_armed)
next
  case False
  have sized: "\<forall>p\<in>set (pieces_of cfg s). sized cfg p" for s using pieces_sized wire by (auto simp: wire_config_def)
  have "core_ok cfg i0 (snd (write_pieces cfg clk stream t False True False None st (pieces_of cfg s)))" for s
    using write_pieces_consumes [OF ok sized, where stream = stream and force = False] False by (auto simp: consumes_def)
  from afterStdout_armed [OF this] False assms(2) show ?thesis by (auto simp: writeAt_def Let_def case_prod_beta)
qed

section \<open>Every run of the streamer\<close>

definition within_bytes :: "streamer_config \<Rightarrow> log_streamer \<Rightarrow> bool" where
  "within_bytes cfg st \<longleftrightarrow> byte_length (session_output st) \<le> max 0 (sc_maxBytes cfg)"

definition streamer_ok :: "streamer_config \<Rightarrow> int \<Rightarrow> log_streamer \<Rightarrow> bool" where
  "streamer_ok cfg i0 st \<longleftrightarrow> core_ok cfg i0 st \<and> armed st \<and> within_bytes cfg st"

lemma byte_length_subseq: "subseq xs ys \<Longrightarrow> byte_length (concat xs) \<le> byte_length (concat ys)"
  by (induction rule: list_emb.induct) (auto simp: add_increasing)

lemma batch_bytes: "batch_ok cfg b \<Longrightarrow> byte_length (batch_text b) \<le> (case b of None \<Rightarrow> 0 | Some x \<Rightarrow> cb_bytes x)"
  by (auto simp: batch_text_def batch_ok_def split: option.splits)

lemma remaining_output:
  assumes "core_ok cfg i0 st"
  shows "remainingBytes cfg st \<le> sc_maxBytes cfg - byte_length (session_output st)"
proof -
  have "batch_ok cfg (ls_pending st)" "batch_ok cfg (ls_overflow st)"
    "ls_emittedBytes st = byte_length (concat (map lg_content (sent_output (ls_emitted st))))"
    using assms by (simp_all add: core_ok_def)
  with batch_bytes [OF this(1)] batch_bytes [OF this(2)] show ?thesis by (simp add: remainingBytes_def session_output_def)
qed

lemma consumes_capped:
  assumes "core_ok cfg i0 st" and "within_bytes cfg st" and "consumes cfg i0 stream (pieces_of cfg (bounded_content cfg st content)) st st'"
  shows "within_bytes cfg st'"
proof -
  obtain acc where acc: "subseq acc (pieces_of cfg (bounded_content cfg st content))" "session_output st' = session_output st @ visible stream (concat acc)"
    using assms(3) by (auto simp: consumes_def)
  have "byte_length (visible stream (concat acc)) \<le> byte_length (bounded_content cfg st content)"
    using byte_length_subseq [OF acc(1)] by (simp add: visible_def concat_pieces)
  also have "\<dots> \<le> max 0 (remainingBytes cfg st)" by (simp only: bounded_content_def truncateUtf8_bound)
  finally show ?thesis using assms(2) remaining_output [OF assms(1)] acc(2) by (simp add: within_bytes_def)
qed

lemma flushes_capped: "within_bytes cfg st \<Longrightarrow> flushes cfg i0 st st' \<Longrightarrow> within_bytes cfg st'"
  by (simp add: within_bytes_def flushes_def)

lemma writeAt_ok:
  assumes st: "streamer_ok cfg i0 st" and wire: "wire_config cfg"
  shows "streamer_ok cfg i0 (snd (writeAt cfg clk st stream content t))"
proof -
  have ok: "core_ok cfg i0 st" "armed st" "within_bytes cfg st" using st by (simp_all add: streamer_ok_def)
  have "core_ok cfg i0 (snd (writeAt cfg clk st stream content t)) \<and> within_bytes cfg (snd (writeAt cfg clk st stream content t))"
  proof (cases "stream = System")
    case True
    then show ?thesis using writeAt_consumes(2) [OF ok(1) wire, of clk content t] ok(1,3)
      by (auto simp: flushes_def consumes_def within_bytes_def visible_def)
  next
    case False
    note c = writeAt_consumes(1) [OF ok(1) wire this, of content clk t]
    then show ?thesis using consumes_capped [OF ok(1,3) c] by (simp add: consumes_def)
  qed
  then show ?thesis using writeAt_armed [OF ok(1,2) wire] by (simp add: streamer_ok_def)
qed

lemma flush_ok:
  assumes "streamer_ok cfg i0 st"
  shows "streamer_ok cfg i0 (snd (flushPending cfg clk force (st\<lparr>ls_timer := timer\<rparr>)))"
proof -
  have fl: "flushes cfg i0 st (snd (flushPending cfg clk force (st\<lparr>ls_timer := timer\<rparr>)))"
    by (rule flushes_trans [OF flushes_same(1) flushes_pending])
  have "core_ok cfg i0 (st\<lparr>ls_timer := timer\<rparr>)" using assms flushes_same(1) by (auto simp: streamer_ok_def flushes_def)
  from flushPending_ends(1) [OF this] fl flushes_capped [OF _ fl] assms show ?thesis by (auto simp: streamer_ok_def flushes_def)
qed

inductive streamer_run :: "streamer_config \<Rightarrow> int \<Rightarrow> log_streamer \<Rightarrow> bool" for cfg i0 where
  run_start: "streamer_run cfg i0 (new_streamer i0)"
| run_write: "streamer_run cfg i0 st \<Longrightarrow> streamer_run cfg i0 (snd (write_log cfg clk st stream content))"
| run_stamp: "streamer_run cfg i0 st \<Longrightarrow> streamer_run cfg i0 (snd (writeTimestampedSystem cfg clk st label))"
| run_flush: "streamer_run cfg i0 st \<Longrightarrow> streamer_run cfg i0 (flush_streamer cfg clk st)"
| run_timer: "streamer_run cfg i0 st \<Longrightarrow> ls_timer st \<noteq> None \<Longrightarrow> streamer_run cfg i0 (timer_fires cfg clk st)"

lemma run_ok:
  assumes "wire_config cfg"
  shows "streamer_run cfg i0 st \<Longrightarrow> streamer_ok cfg i0 st"
proof (induction rule: streamer_run.induct)
  case run_start
  show ?case
    by (simp add: streamer_ok_def core_ok_def armed_def idle_def within_bytes_def session_output_def sent_output_def announced_def new_streamer_def)
next
  case (run_flush st clk)
  then show ?case using flush_ok [of cfg i0 st clk True "ls_timer st"] by (simp add: flush_streamer_def)
qed (auto simp: write_log_def writeTimestampedSystem_def timer_fires_def intro: writeAt_ok [OF _ assms] flush_ok)

section \<open>Properties\<close>

text \<open>A concrete streamer: chunks of at most 2 bytes and 2 lines, one message per second, twenty output chunks.\<close>

definition demo_config :: streamer_config where
  "demo_config = new_streamer_config ''s1'' ''a1'' \<lparr>ll_maxChunks = Some 20, ll_maxBytes = Some 100, ll_maxWireBytes = Some 2,
     ll_logBatchMaxLines = Some 2, ll_logBatchMaxWaitMs = Some 250, ll_maxMessagesPerSec = Some (Some 1), ll_maxDroppedPerNotice = None\<rparr>"

definition demo_clock :: clock where
  "demo_clock = \<lparr>clk_ms = 1000, clk_iso = ''t''\<rparr>"

definition demo_streamer :: log_streamer where
  "demo_streamer = snd (write_log demo_config demo_clock (new_streamer 0) Stdout ''abcdefgh'')"

lemma demo_run: "streamer_run demo_config 0 demo_streamer"
  unfolding demo_streamer_def by (intro streamer_run.intros)

lemma demo_wire: "1 \<le> sc_logBatchMaxLines demo_config"
  by code_simp

lemma demo_state: "ls_droppedChunks demo_streamer = 1 \<and> ls_unsentDropped demo_streamer = 1 \<and> ls_pending demo_streamer \<noteq> None
    \<and> ls_overflow demo_streamer \<noteq> None \<and> length (ls_emitted demo_streamer) = 1"
  by code_simp

text \<open>C13: A write loses session output only where it says so: the pieces that are kept are, in order, appended to the
  output of the session; every other piece is counted as dropped, or the chunk cap has been reached; flushing and the timer
  keep the output as it is.\<close>

theorem log_output_kept_in_order:
  assumes "1 \<le> sc_logBatchMaxLines cfg" and "streamer_run cfg i0 st" and "stream \<noteq> System"
    and "st' = snd (write_log cfg clk st stream content)" and "pieces = pieces_of cfg (truncateUtf8 content (remainingBytes cfg st))"
  shows "concat pieces = truncateUtf8 content (remainingBytes cfg st)
    \<and> (\<exists>accepted rejected. subseq accepted pieces \<and> session_output st' = session_output st @ concat accepted
        \<and> int (length pieces) = int (length accepted) + (ls_droppedChunks st' - ls_droppedChunks st) + int rejected
        \<and> (rejected = 0 \<or> sc_maxChunks cfg \<le> ls_emittedChunks st'))
    \<and> session_output (flush_streamer cfg clk st) = session_output st \<and> session_output (timer_fires cfg clk st) = session_output st"
proof -
  have wire: "wire_config cfg" using assms(1) by (simp add: wire_config_def)
  have ok: "core_ok cfg i0 st" using run_ok [OF wire assms(2)] by (simp add: streamer_ok_def)
  have c: "consumes cfg i0 stream pieces st st'"
    using writeAt_consumes(1) [OF ok wire assms(3)] by (simp add: assms(4,5) write_log_def bounded_content_def)
  have "flushes cfg i0 st (flush_streamer cfg clk st)" "flushes cfg i0 st (timer_fires cfg clk st)"
    by (auto simp: flush_streamer_def timer_fires_def intro: flushes_pending flushes_trans [OF flushes_same(1) flushes_pending])
  with c assms(3) show ?thesis by (auto simp: consumes_def flushes_def visible_def concat_pieces assms(5))
qed

theorem log_output_kept_in_order_witness:
  "session_output demo_streamer = ''abcdef'' \<and> ls_droppedChunks demo_streamer = 1
    \<and> session_output (flush_streamer demo_config demo_clock demo_streamer) = session_output demo_streamer"
proof -
  have "session_output demo_streamer = ''abcdef''" "ls_droppedChunks demo_streamer = 1" by code_simp+
  then show ?thesis
    using log_output_kept_in_order [OF demo_wire demo_run, of Stdout _ demo_clock "[]"] by simp
qed

text \<open>C14: What the streamer emits is well formed: the chunks are numbered consecutively from the initial number, each output
  chunk respects the byte and line limits of the wire, their number and their total size stay within the session's caps, and
  every dropped piece is announced by a notice or still owed one.\<close>

theorem emitted_log_chunks_well_formed:
  assumes "1 \<le> sc_logBatchMaxLines cfg" and "streamer_run cfg i0 st"
  shows "map lg_seq (ls_emitted st) = map (\<lambda>i. i0 + int i) [0..<length (ls_emitted st)]
    \<and> list_all (\<lambda>c. if lg_dropped c = None
        then (byte_length (lg_content c) \<le> sc_maxWireBytes cfg \<or> length (lg_content c) = 1) \<and> countLogLines (lg_content c) \<le> sc_logBatchMaxLines cfg
        else lg_stream c = System) (ls_emitted st)
    \<and> int (length (sent_output (ls_emitted st))) \<le> max 0 (sc_maxChunks cfg)
    \<and> byte_length (concat (map lg_content (sent_output (ls_emitted st)))) \<le> max 0 (sc_maxBytes cfg)
    \<and> announced (ls_emitted st) + ls_unsentDropped st = ls_droppedChunks st \<and> 0 \<le> ls_unsentDropped st"
proof -
  have wire: "wire_config cfg" using assms(1) by (simp add: wire_config_def)
  have ok: "core_ok cfg i0 st" "within_bytes cfg st" using run_ok [OF wire assms(2)] by (simp_all add: streamer_ok_def)
  have "byte_length (concat (map lg_content (sent_output (ls_emitted st)))) \<le> byte_length (session_output st)"
    by (simp add: session_output_def)
  then have bytes: "byte_length (concat (map lg_content (sent_output (ls_emitted st)))) \<le> max 0 (sc_maxBytes cfg)"
    using ok(2) unfolding within_bytes_def by linarith
  have count: "int (length (sent_output (ls_emitted st))) \<le> max 0 (sc_maxChunks cfg)"
    using ok(1) batch_simps(4) [of "ls_pending st"] batch_simps(4) [of "ls_overflow st"] unfolding core_ok_def by linarith
  have "list_all (\<lambda>c. if lg_dropped c = None
        then (byte_length (lg_content c) \<le> sc_maxWireBytes cfg \<or> length (lg_content c) = 1) \<and> countLogLines (lg_content c) \<le> sc_logBatchMaxLines cfg
        else lg_stream c = System) (ls_emitted st)"
    using ok(1) unfolding core_ok_def list_all_iff sized_def within_wire_def by presburger
  with ok(1) bytes count show ?thesis by (simp add: core_ok_def)
qed

theorem emitted_log_chunks_well_formed_witness:
  "map lg_seq (ls_emitted demo_streamer) = [0] \<and> announced (ls_emitted demo_streamer) + ls_unsentDropped demo_streamer = 1"
  using emitted_log_chunks_well_formed [OF demo_wire demo_run] demo_state by (simp add: upt_rec)

text \<open>C15: Buffered output and unannounced drops never sit without an armed timer, and a final flush sends all of it: after
  \<open>flush\<close> the output of the session is exactly what has been emitted and every drop has been announced.\<close>

theorem buffered_log_output_is_sent:
  assumes "1 \<le> sc_logBatchMaxLines cfg" and "streamer_run cfg i0 st" and "flushed = flush_streamer cfg clk st"
  shows "(ls_timer st = None \<longrightarrow> ls_pending st = None \<and> ls_overflow st = None \<and> ls_unsentDropped st = 0)
    \<and> concat (map lg_content (sent_output (ls_emitted flushed))) = session_output st
    \<and> announced (ls_emitted flushed) = ls_droppedChunks st"
proof -
  have wire: "wire_config cfg" using assms(1) by (simp add: wire_config_def)
  have ok: "core_ok cfg i0 st" "armed st" using run_ok [OF wire assms(2)] by (simp_all add: streamer_ok_def)
  have f: "flushes cfg i0 st flushed" "idle flushed"
    using flushes_pending flushPending_ends(2) [OF ok(1)] by (simp_all add: assms(3) flush_streamer_def)
  then have "session_output flushed = session_output st" "ls_droppedChunks flushed = ls_droppedChunks st" "core_ok cfg i0 flushed"
    using ok(1) by (simp_all add: flushes_def)
  moreover from this(3) f(2) have "announced (ls_emitted flushed) = ls_droppedChunks flushed"
    unfolding core_ok_def idle_def by linarith
  ultimately show ?thesis using f(2) ok(2) by (auto simp: armed_def idle_def session_output_def)
qed

theorem buffered_log_output_is_sent_witness:
  "announced (ls_emitted (flush_streamer demo_config demo_clock demo_streamer)) = 1"
  using buffered_log_output_is_sent [OF demo_wire demo_run refl, of demo_clock] demo_state by simp

end
