(* ===== verification/Spec2Isabelle.thy ===== *)
theory Spec2Isabelle
  imports Cron RateLimit Authz LogCache ScheduleRuns Recovery OutboundOrder LogDelivery
begin

text \<open>
  A verification development for auto-harness, a control plane that queues coding sessions and hands them to daemons on
  hosts. It models the scheduling core of the control plane (\<open>services/api/src\<close>), the shared validators
  (\<open>modules/shared/src\<close>) and the delivery of logs and frames by the host daemon (\<open>services/host-daemon/src\<close>).

  \<^bold>\<open>How the parts interact.\<close> Requests and schedules become queued sessions (\<open>createSession\<close>,
  \<open>evaluateCron\<close>). The placement planner picks a host, a worktree (or a main checkout, or a workspace slot) and an
  account for each queued session; assignment claims them and sends the session to the host. The host acknowledges,
  streams logs and reports a status; the transition planner turns each report into effects, which the message handler
  commits: the session ends or goes back to the queue and what it held is released. Deadlines, timeouts, cancellation and
  disconnects feed the same planner.

  \<^bold>\<open>The shared part.\<close>
  \<^item> \<open>Prelude\<close>: what every component uses of TypeScript: \<open>nullable\<close>, insertion-ordered maps
    (\<open>jsmap\<close>, interface \<open>ordered_map\<close>), comparators (\<open>js_comparator\<close>), strings and JSON. Strings are
    lists of 8-bit characters, JSON numbers are integers, an exception is \<open>None\<close>.
  \<^item> \<open>JsDate\<close>, \<open>Cron\<close>: dates in UTC and \<open>cron.ts\<close>. \<open>nextCronOccurrence\<close> ends and
    returns the first matching instant; the eight-year bound of its loop loses none.
  \<^item> \<open>Records\<close>, \<open>ControlState\<close>: \<open>SessionRecord\<close>, \<open>WorktreeRecord\<close>, catalog records and the
    state bag \<open>ControlPlaneState\<close>, field by field.
  \<^item> \<open>Authz\<close>, \<open>GitRef\<close>, \<open>Commands\<close>, \<open>SessionInput\<close>, \<open>SessionResult\<close>, \<open>Usage\<close>,
    \<open>RateLimit\<close>, \<open>Cascade\<close>: \<open>authz.ts\<close>, \<open>scheduled-branch-ref.ts\<close>, \<open>command-resume.ts\<close>,
    \<open>validation.ts\<close>, \<open>session-result.ts\<close>, \<open>usage.ts\<close>, \<open>rate-limit.ts\<close> and
    \<open>provider-cascade.ts\<close>. The lemmas characterise what each validator accepts, compare the limiter and the
    aggregation of usage with reference definitions, and the cascades with the scheduler.

  \<^bold>\<open>The control plane\<close> (without storage).
  \<^item> \<open>QueueOrder\<close>, \<open>Leases\<close>, \<open>Targets\<close>, \<open>Placement\<close>: queue order, account leases
    (interface \<open>slot_pool\<close>), route resolution and the placement planner: sound and complete placement, a cap on
    leases, fenced and idempotent release.
  \<^item> \<open>Planner\<close>: \<open>session-transition-planner.ts\<close>: stale attempts change nothing, terminal states are final,
    what a session holds is released exactly once.
  \<^item> \<open>Worktrees\<close>, \<open>Assignment\<close>, \<open>HostMessages\<close>, \<open>Sessions\<close>: the operations that change the
    state: claim and release, the three assignment passes, deadlines and timeouts, disconnects and drains, the messages of
    a host, creation, cloning and resuming of sessions.
  \<^item> \<open>Ownership\<close>, \<open>AssignmentOwnership\<close>, \<open>HostOwnership\<close>, \<open>MessageOwnership\<close>,
    \<open>Reachable\<close>: every operation keeps the tie between sessions and worktrees; \<open>plane_step\<close> has a rule per
    operation, and in every reachable state no worktree is shared or leaked.
  \<^item> \<open>Lanes\<close>: at most one active session per concurrency id.
  \<^item> \<open>Schedules\<close>, \<open>ScheduleRuns\<close>: \<open>control-plane-schedules.ts\<close> and
    \<open>control-plane-schedule-fire.ts\<close>: stored schedules stay well formed, a due schedule fires, each occurrence is
    claimed at most once.
  \<^item> \<open>LogCache\<close>: the log cache of \<open>control-plane-messages.ts\<close> refines the longest ordered suffix within its
    limits.
  \<^item> \<open>Recovery\<close>: four paths on which the code leaves a session and the capacity around it out of step.

  \<^bold>\<open>The host daemon.\<close>
  \<^item> \<open>Outbound\<close>, \<open>OutboundOrder\<close>: \<open>ws-outbound-buffer.ts\<close> as a step relation with waiting producers:
    order, limits, no lost frame, no producer left asleep.
  \<^item> \<open>LogStreamer\<close>, \<open>LogDelivery\<close>: \<open>log-coalesce.ts\<close> and \<open>log-streamer.ts\<close>: output is kept in
    order, chunks respect the limits of the wire, every drop is announced, buffered output has a timer.

  \<^bold>\<open>Parameters.\<close> \<open>localeCompare\<close> is a comparator with the laws of \<open>js_comparator\<close> (instance: code
  unit order); id, attempt and key factories are functions of a counter; the URL parser is a field of the state. Ids are
  assumed fresh where a theorem needs it.

  \<^bold>\<open>Bounds and fuel.\<close> All definitions are total. Loops are structural, or have a termination proof by a measure
  (unsent drops, buffered batches, frames in the queue, cancelled tickets); the cron search is bounded by the year, which
  is shown to be enough. Integers are unbounded, as the counters of the source stay below \<open>2 ^ 53\<close>.

  \<^bold>\<open>Not modelled.\<close> DynamoDB storage and the durable variants of the operations, whose guarantees rest on conditional
  writes of the service; HTTP routes, Lambda handlers and sockets; authentication (cryptography of the platform); webhooks
  and Slack up to the request they produce; archives and drains; registration of hosts; in the daemon the processes, git,
  files, services and updates; the web application, the client library, deployment and generated bundles.
\<close>

end
